(* ===== verification/Ceblar_Prelude.thy ===== *)
theory Ceblar_Prelude
  imports Main "HOL-Library.Word"
begin

text \<open>
  Shared vocabulary of the development: the fixed-width integers of
  \<open>include/types.h\<close>, the page constants of \<open>include/mm.h\<close>, the outcome type for code
  that can panic, and the generic word, list and counting lemmas that the component
  theories use. A C array of static size is a function from its index (a natural number)
  to its elements; where an index could leave the array, the component theory proves that it
  does not.
\<close>

unbundle bit_operations_syntax

section \<open>Types and constants\<close>

type_synonym u8 = "8 word"
type_synonym u16 = "16 word"
type_synonym u32 = "32 word"
type_synonym u64 = "64 word"
type_synonym usize_t = u32
type_synonym ssize_t = int
type_synonym pid_t = u32

text \<open>
  Memory behind a pointer, by offset. A pointer argument that may be null is of type
  \<open>bytes option\<close>.
\<close>

type_synonym bytes = "nat \<Rightarrow> u8"

abbreviation (input) PAGE_SIZE :: u32 where "PAGE_SIZE \<equiv> 4096"
abbreviation (input) PAGE_PRESENT :: u32 where "PAGE_PRESENT \<equiv> 1"
abbreviation (input) PAGE_WRITE :: u32 where "PAGE_WRITE \<equiv> 2"
abbreviation (input) PAGE_USER :: u32 where "PAGE_USER \<equiv> 4"
abbreviation (input) PAGE_COW :: u32 where "PAGE_COW \<equiv> 0x200"

text \<open>
  A kernel operation that may call \<open>panic\<close> does not return: its outcome is either a
  value or the panic message.
\<close>

datatype 'a outcome = Ret 'a | Panic string

section \<open>Simplification sets\<close>

named_theorems page_simps "page-table index and frame arithmetic"

section \<open>Counting\<close>

lemma card_less_remove:
  assumes "p < n" "P p" "\<And>q. Q q \<longleftrightarrow> P q \<and> q \<noteq> p"
  shows "Suc (card {q. q < n \<and> Q q}) = card {q :: nat. q < n \<and> P q}"
proof -
  have "{q. q < n \<and> P q} = insert p {q. q < n \<and> Q q}"
    using assms by auto
  then show ?thesis using assms(3) by simp
qed

lemma card_less_cong:
  "(\<And>q. q < n \<Longrightarrow> P q \<longleftrightarrow> Q q) \<Longrightarrow> card {q :: nat. q < n \<and> P q} = card {q. q < n \<and> Q q}"
  by (rule arg_cong [where f = card]) auto

lemma card_less_bound: "card {q :: nat. q < n \<and> P q} \<le> n"
  using card_mono [of "{..<n}" "{q. q < n \<and> P q}"] by auto

section \<open>Words\<close>

lemma unat_inc:
  "unat (x :: 'a::len word) < m \<Longrightarrow> m < 2 ^ LENGTH('a) \<Longrightarrow> unat (x + 1) = Suc (unat x)"
  by (simp add: unat_word_ariths)

lemma unat_of_nat_small: "n < 2 ^ 32 \<Longrightarrow> unat (of_nat n :: u32) = n"
  by (simp add: unat_of_nat)

lemma and_not_mask_eq: "w AND NOT (mask n) = push_bit n (drop_bit n w)" for w :: "'a::len word"
  by (intro bit_word_eqI) (auto simp: bit_simps)

section \<open>Byte-addressed memory\<close>

text \<open>
  Loads of the little-endian x86 from a byte-addressed memory; addresses wrap at 32 bits.
\<close>

definition rd16 :: "(u32 \<Rightarrow> u8) \<Rightarrow> u32 \<Rightarrow> u16" where
  "rd16 m a = ucast (m a) OR push_bit 8 (ucast (m (a + 1)))"

definition rd32 :: "(u32 \<Rightarrow> u8) \<Rightarrow> u32 \<Rightarrow> u32" where
  "rd32 m a = ucast (m a) OR push_bit 8 (ucast (m (a + 1)))
     OR push_bit 16 (ucast (m (a + 2))) OR push_bit 24 (ucast (m (a + 3)))"

definition rd64 :: "(u32 \<Rightarrow> u8) \<Rightarrow> u32 \<Rightarrow> u64" where
  "rd64 m a = ucast (rd32 m a) OR push_bit 32 (ucast (rd32 m (a + 4)))"

text \<open>
  The bytes of a 32-bit field in a structure, and a 32-bit field of a structure given by its bytes.
\<close>

definition byte_of :: "u32 \<Rightarrow> nat \<Rightarrow> u8" where
  "byte_of w k = ucast (drop_bit (8 * k) w)"

definition ld32 :: "bytes \<Rightarrow> nat \<Rightarrow> u32" where
  "ld32 b k = ucast (b k) OR push_bit 8 (ucast (b (k + 1)))
     OR push_bit 16 (ucast (b (k + 2))) OR push_bit 24 (ucast (b (k + 3)))"

lemma ld32_byte_of:
  assumes "\<And>k. k < 4 \<Longrightarrow> b (o' + k) = byte_of w k"
  shows "ld32 b o' = w"
proof -
  have b: "b o' = byte_of w 0" "b (o' + 1) = byte_of w 1" "b (o' + 2) = byte_of w 2" "b (o' + 3) = byte_of w 3"
    using assms [of 0] assms [of 1] assms [of 2] assms [of 3] by simp_all
  show ?thesis
  proof (rule bit_word_eqI)
    fix n assume "n < LENGTH(32)"
    then have "n < 8 \<or> 8 \<le> n \<and> n < 16 \<or> 16 \<le> n \<and> n < 24 \<or> 24 \<le> n \<and> n < 32" by auto
    then show "bit (ld32 b o') n = bit w n"
      unfolding ld32_def b by (auto simp: byte_of_def bit_simps)
  qed
qed

text \<open>The loop \<open>for (i = 0; i < n; i++) out[d + i] = src[i]\<close>.\<close>

definition copy_bytes :: "nat \<Rightarrow> nat \<Rightarrow> bytes \<Rightarrow> bytes \<Rightarrow> bytes" where
  "copy_bytes d n src out i = (if d \<le> i \<and> i < d + n then src (i - d) else out i)"

lemma copy_bytes_none [simp]: "copy_bytes d 0 src out = out"
  by (auto simp: copy_bytes_def fun_eq_iff)

lemma copy_bytes_append:
  "copy_bytes (d + n) m (\<lambda>i. src (n + i)) (copy_bytes d n src out) = copy_bytes d (n + m) src out"
  by (auto simp: copy_bytes_def fun_eq_iff)

lemma copy_bytes_cong: "(\<And>i. i < n \<Longrightarrow> src i = src' i) \<Longrightarrow> copy_bytes d n src out = copy_bytes d n src' out"
  by (auto simp: copy_bytes_def fun_eq_iff)

lemma add_in_block:
  fixes p k n :: nat
  assumes "p mod n + k < n"
  shows "(p + k) div n = p div n" "(p + k) mod n = p mod n + k"
proof -
  have "(n * q + r) div n = q \<and> (n * q + r) mod n = r" if "r < n" for q r :: nat
    using that by simp
  note this [OF assms, of "p div n"]
  moreover have "n * (p div n) + (p mod n + k) = p + k" by simp
  ultimately show "(p + k) div n = p div n" "(p + k) mod n = p mod n + k" by simp_all
qed

lemma of_unat: "unat w = n \<Longrightarrow> of_nat n = w" for w :: u32
  by auto

end
