(* ===== verification/Page_Alloc.thy ===== *)
theory Page_Alloc
  imports Ceblar_Prelude
begin

text \<open>
  The interface between the physical page allocator of \<open>mm/pmm.c\<close> and its clients
  (\<open>mm/vmm.c\<close>, \<open>mm/heap.c\<close>, \<open>drivers/dma/dma.c\<close>, \<open>kernel/elf.c\<close>): pages are
  reference counted, an allocation hands out a page nobody holds, and a release takes one
  reference away. The clients' arguments about ownership are proved here once; \<open>Pmm\<close>
  interprets the interface on the allocator's own operations.
\<close>

section \<open>Page frame numbers\<close>

definition pfn :: "u32 \<Rightarrow> nat" where
  "pfn a = unat a div 4096"

definition page_aligned :: "u32 \<Rightarrow> bool" where
  "page_aligned a \<longleftrightarrow> a AND 0xfff = 0"

lemma pfn_less: "pfn a < 1048576"
  using unsigned_less [of a, where 'a = nat] by (simp add: pfn_def less_mult_imp_div_less)

section \<open>The interface\<close>

locale page_allocator =
  fixes alloc :: "'s \<Rightarrow> u32 \<times> 's"
    and retain :: "u32 \<Rightarrow> 's \<Rightarrow> 's"
    and free :: "u32 \<Rightarrow> 's \<Rightarrow> 's"
    and refcount :: "'s \<Rightarrow> nat \<Rightarrow> nat"
    and inv :: "'s \<Rightarrow> bool"
  assumes alloc_none: "inv s \<Longrightarrow> alloc s = (0, s') \<Longrightarrow> s' = s"
    and alloc_aligned: "inv s \<Longrightarrow> alloc s = (a, s') \<Longrightarrow> a \<noteq> 0 \<Longrightarrow> page_aligned a"
    and alloc_fresh: "inv s \<Longrightarrow> alloc s = (a, s') \<Longrightarrow> a \<noteq> 0 \<Longrightarrow> refcount s (pfn a) = 0"
    and alloc_refs: "inv s \<Longrightarrow> alloc s = (a, s') \<Longrightarrow> a \<noteq> 0 \<Longrightarrow>
          refcount s' = (refcount s)(pfn a := 1)"
    and alloc_inv: "inv s \<Longrightarrow> alloc s = (a, s') \<Longrightarrow> inv s'"
    and free_refs: "inv s \<Longrightarrow> refcount s (pfn a) \<noteq> 0 \<Longrightarrow>
          refcount (free a s) = (refcount s)(pfn a := refcount s (pfn a) - 1)"
    and free_inv: "inv s \<Longrightarrow> refcount s (pfn a) \<noteq> 0 \<Longrightarrow> inv (free a s)"
    and retain_refs: "inv s \<Longrightarrow> refcount s (pfn a) \<noteq> 0 \<Longrightarrow> refcount s (pfn a) < 65535 \<Longrightarrow>
          refcount (retain a s) = (refcount s)(pfn a := refcount s (pfn a) + 1)"
    and retain_inv: "inv s \<Longrightarrow> refcount s (pfn a) \<noteq> 0 \<Longrightarrow> inv (retain a s)"
begin

lemma alloc_not_owned:
  assumes "inv s" "alloc s = (a, s')" "a \<noteq> 0" "refcount s (pfn b) \<noteq> 0"
  shows "pfn a \<noteq> pfn b"
  using alloc_fresh [OF assms(1-3)] assms(4) by auto

lemma alloc_keeps_owner:
  assumes "inv s" "alloc s = (a, s')" "refcount s p \<noteq> 0"
  shows "refcount s' p = refcount s p"
proof (cases "a = 0")
  case True
  with assms alloc_none show ?thesis by blast
next
  case False
  with assms alloc_fresh alloc_refs show ?thesis by fastforce
qed

lemma alloc_free_refs:
  assumes "inv s" "alloc s = (a, s')" "a \<noteq> 0"
  shows "refcount (free a s') = refcount s"
proof -
  have r: "refcount s' = (refcount s)(pfn a := 1)" by (rule alloc_refs [OF assms])
  have "inv s'" by (rule alloc_inv [OF assms(1,2)])
  with r have "refcount (free a s') = (refcount s')(pfn a := 0)"
    by (simp add: free_refs)
  with r alloc_fresh [OF assms] show ?thesis by auto
qed

lemma retain_free_refs:
  assumes "inv s" "refcount s (pfn a) \<noteq> 0" "refcount s (pfn a) < 65535"
  shows "refcount (free a (retain a s)) = refcount s"
proof -
  have r: "refcount (retain a s) = (refcount s)(pfn a := refcount s (pfn a) + 1)"
    by (rule retain_refs [OF assms])
  have "inv (retain a s)" by (rule retain_inv [OF assms(1,2)])
  with r show ?thesis by (simp add: free_refs)
qed

lemma fold_free:
  assumes "inv s" "distinct (map pfn as)" "\<And>a. a \<in> set as \<Longrightarrow> refcount s (pfn a) \<noteq> 0"
  shows "inv (fold free as s) \<and>
    refcount (fold free as s) = (\<lambda>p. if p \<in> pfn ` set as then refcount s p - 1 else refcount s p)"
  using assms
proof (induction as arbitrary: s)
  case Nil
  then show ?case by simp
next
  case (Cons a as)
  have r: "refcount (free a s) = (refcount s)(pfn a := refcount s (pfn a) - 1)"
    using Cons.prems by (simp add: free_refs)
  have i: "inv (free a s)" using Cons.prems by (simp add: free_inv)
  have o: "refcount (free a s) (pfn b) \<noteq> 0" if "b \<in> set as" for b
  proof -
    have "pfn b \<noteq> pfn a" using that Cons.prems(2) by (metis distinct.simps(2) image_set imageI list.simps(9))
    then show ?thesis using that Cons.prems(3) by (simp add: r)
  qed
  have d: "distinct (map pfn as)" using Cons.prems(2) by simp
  show ?case
    using Cons.IH [OF i d o] Cons.prems(2) by (auto simp: r fun_eq_iff)
qed

lemmas alloc_laws = alloc_none alloc_aligned alloc_fresh alloc_refs alloc_inv
lemmas owner_laws = free_refs free_inv retain_refs retain_inv

end

end
