(* ===== verification/Pmm.thy ===== *)
theory Pmm
  imports Page_Alloc
begin

text \<open>
  The physical page allocator, \<open>mm/pmm.c\<close>: a bitmap with one bit per page frame (set
  means in use), a reference count per frame and the two counters. Every public operation
  runs under \<open>pmm_lock\<close> (see \<open>Locks\<close>), so each is one atomic step here. Page numbers of
  the loops are natural numbers; addresses and counters keep their 32 bits.
\<close>

section \<open>State\<close>

record pmm =
  page_bitmap :: "nat \<Rightarrow> u8"
  page_refs :: "nat \<Rightarrow> u16"
  total_pages_count :: u32
  used_pages_count :: u32

definition MAX_PHYS_PAGES :: nat where "MAX_PHYS_PAGES = 65536"
definition BITMAP_BYTES :: nat where "BITMAP_BYTES = 8192"

section \<open>The bitmap\<close>

definition bit_set :: "nat \<Rightarrow> pmm \<Rightarrow> pmm" where
  "bit_set p s = s\<lparr>page_bitmap := (page_bitmap s)
     (p div 8 := page_bitmap s (p div 8) OR push_bit (p mod 8) 1)\<rparr>"

definition bit_clear :: "nat \<Rightarrow> pmm \<Rightarrow> pmm" where
  "bit_clear p s = s\<lparr>page_bitmap := (page_bitmap s)
     (p div 8 := page_bitmap s (p div 8) AND NOT (push_bit (p mod 8) 1))\<rparr>"

definition bit_test :: "nat \<Rightarrow> pmm \<Rightarrow> bool" where
  "bit_test p s \<longleftrightarrow> drop_bit (p mod 8) (page_bitmap s (p div 8)) AND 1 \<noteq> 0"

section \<open>Operations\<close>

definition pmm_alloc_page :: "pmm \<Rightarrow> u32 \<times> pmm" where
  "pmm_alloc_page s =
     (case List.find (\<lambda>p. \<not> bit_test p s) [1..<unat (total_pages_count s)] of
        None \<Rightarrow> (0, s)
      | Some p \<Rightarrow>
          (of_nat p * PAGE_SIZE,
           (bit_set p s)\<lparr>page_refs := (page_refs s)(p := 1),
                         used_pages_count := used_pages_count s + 1\<rparr>))"

definition pmm_retain_page :: "u32 \<Rightarrow> pmm \<Rightarrow> pmm" where
  "pmm_retain_page a s =
     (let p = unat (a div PAGE_SIZE) in
      if 0 < p \<and> p < unat (total_pages_count s) \<and> bit_test p s \<and> page_refs s p \<noteq> 0xffff
      then s\<lparr>page_refs := (page_refs s)(p := page_refs s p + 1)\<rparr>
      else s)"

definition pmm_free_page :: "u32 \<Rightarrow> pmm \<Rightarrow> pmm" where
  "pmm_free_page a s =
     (let p = unat (a div PAGE_SIZE) in
      if 0 < p \<and> p < unat (total_pages_count s) \<and> bit_test p s
      then if 1 < page_refs s p
           then s\<lparr>page_refs := (page_refs s)(p := page_refs s p - 1)\<rparr>
           else (bit_clear p s)\<lparr>page_refs := (page_refs s)(p := 0),
                  used_pages_count :=
                    (if used_pages_count s \<noteq> 0 then used_pages_count s - 1
                     else used_pages_count s)\<rparr>
      else s)"

definition pmm_total_pages :: "pmm \<Rightarrow> u32" where
  "pmm_total_pages s = total_pages_count s"

definition pmm_used_pages :: "pmm \<Rightarrow> u32" where
  "pmm_used_pages s = used_pages_count s"

definition pmm_free_pages :: "pmm \<Rightarrow> u32" where
  "pmm_free_pages s = total_pages_count s - used_pages_count s"

definition reserve_page :: "nat \<Rightarrow> pmm \<Rightarrow> pmm" where
  "reserve_page p s =
     (if \<not> bit_test p s
      then (bit_set p s)\<lparr>used_pages_count := used_pages_count s + 1\<rparr> else s)"

definition reserve_range :: "u32 \<Rightarrow> u32 \<Rightarrow> pmm \<Rightarrow> pmm" where
  "reserve_range b e s =
     fold reserve_page
       [unat (b div PAGE_SIZE)..<min (unat ((e + PAGE_SIZE - 1) div PAGE_SIZE)) MAX_PHYS_PAGES] s"

text \<open>
  \<open>pmm_init\<close> walks the tags of the Multiboot2 information structure at \<open>mbi\<close>. The walk
  follows sizes found in memory, so a malformed structure may keep it from ending: both loops
  are partial functions and \<open>None\<close> is "does not return". \<open>kernel_end\<close> is the link-time
  address \<open>__kernel_end\<close>.
\<close>

definition TAG_MMAP :: u32 where "TAG_MMAP = 6"
definition MMAP_AVAILABLE :: u32 where "MMAP_AVAILABLE = 1"

definition release_page :: "nat \<Rightarrow> pmm \<Rightarrow> pmm" where
  "release_page p s =
     (if bit_test p s
      then (bit_clear p s)\<lparr>total_pages_count :=
              (if unat (total_pages_count s) < MAX_PHYS_PAGES then total_pages_count s + 1
               else total_pages_count s)\<rparr>
      else s)"

definition entry_first :: "(u32 \<Rightarrow> u8) \<Rightarrow> u32 \<Rightarrow> u32" where
  "entry_first m e = ucast (rd64 m e div 4096)"

definition entry_pages :: "(u32 \<Rightarrow> u8) \<Rightarrow> u32 \<Rightarrow> u32" where
  "entry_pages m e = ucast (rd64 m (e + 8) div 4096)"

definition mmap_entry :: "(u32 \<Rightarrow> u8) \<Rightarrow> u32 \<Rightarrow> pmm \<Rightarrow> pmm" where
  "mmap_entry m e s =
     (let first = entry_first m e; pages = entry_pages m e
      in if rd32 m (e + 16) = MMAP_AVAILABLE
         then fold release_page [unat first..<min (unat (first + pages)) MAX_PHYS_PAGES] s
         else s)"

partial_function (option) mmap_entries ::
    "(u32 \<Rightarrow> u8) \<Rightarrow> u32 \<Rightarrow> u32 \<Rightarrow> u32 \<Rightarrow> u32 \<Rightarrow> pmm \<Rightarrow> pmm option" where
  "mmap_entries m base lim entry_size e s =
     (if e < lim then mmap_entries m base lim entry_size (e + entry_size) (mmap_entry m (base + e) s)
      else Some s)"

partial_function (option) mbi_tags ::
    "(u32 \<Rightarrow> u8) \<Rightarrow> u32 \<Rightarrow> u32 \<Rightarrow> u32 \<Rightarrow> pmm \<Rightarrow> pmm option" where
  "mbi_tags m base total_size off s =
     (if off + 8 \<le> total_size
      then let ty = rd32 m (base + off); size = rd32 m (base + off + 4) in
           Option.bind
             (if ty = TAG_MMAP
              then mmap_entries m base (off + size) (rd32 m (base + off + 8)) (off + 16) s
              else Some s)
             (\<lambda>s'. if size < 8 then Some s'
                   else mbi_tags m base total_size ((off + size + 7) AND NOT 7) s')
      else Some s)"

definition pmm_reset :: "pmm \<Rightarrow> pmm" where
  "pmm_reset s = s\<lparr>page_bitmap := (\<lambda>i. if i < BITMAP_BYTES then 0xff else page_bitmap s i),
     page_refs := (\<lambda>i. if i < MAX_PHYS_PAGES then 0 else page_refs s i),
     total_pages_count := 0, used_pages_count := 0\<rparr>"

definition pmm_init :: "(u32 \<Rightarrow> u8) \<Rightarrow> u32 \<Rightarrow> u32 \<Rightarrow> pmm \<Rightarrow> pmm option" where
  "pmm_init m mbi kernel_end s =
     Option.bind (mbi_tags m mbi (rd32 m mbi) 8 (pmm_reset s))
       (\<lambda>s1. let s2 = (if total_pages_count s1 = 0
                       then fold bit_clear [0..<MAX_PHYS_PAGES]
                              (s1\<lparr>total_pages_count := of_nat MAX_PHYS_PAGES\<rparr>)
                       else s1)
             in Some (reserve_range 0 kernel_end s2))"

section \<open>Bitmap lemmas\<close>

lemma bit_test_iff: "bit_test p s \<longleftrightarrow> bit (page_bitmap s (p div 8)) (p mod 8)"
  by (simp add: bit_test_def and_one_eq mod_2_eq_odd bit_iff_odd_drop_bit)

lemma same_bit: "(p :: nat) div 8 = q div 8 \<Longrightarrow> p mod 8 = q mod 8 \<longleftrightarrow> p = q"
  by (metis div_mult_mod_eq)

lemma bit_test_bit_set [simp]: "bit_test q (bit_set p s) \<longleftrightarrow> q = p \<or> bit_test q s"
  using same_bit [of q p]
  by (auto simp: bit_test_iff bit_set_def bit_or_iff bit_exp_iff)

lemma bit_test_bit_clear [simp]: "bit_test q (bit_clear p s) \<longleftrightarrow> q \<noteq> p \<and> bit_test q s"
  using same_bit [of q p]
  by (auto simp: bit_test_iff bit_clear_def bit_and_iff bit_not_iff bit_exp_iff)

lemma bit_ops_fields [simp]:
  "page_refs (bit_set p s) = page_refs s" "page_refs (bit_clear p s) = page_refs s"
  "total_pages_count (bit_set p s) = total_pages_count s"
  "total_pages_count (bit_clear p s) = total_pages_count s"
  "used_pages_count (bit_set p s) = used_pages_count s"
  "used_pages_count (bit_clear p s) = used_pages_count s"
  by (simp_all add: bit_set_def bit_clear_def)

lemma bit_test_fields [simp]:
  "bit_test p (s\<lparr>page_refs := r\<rparr>) = bit_test p s"
  "bit_test p (s\<lparr>total_pages_count := t\<rparr>) = bit_test p s"
  "bit_test p (s\<lparr>used_pages_count := u\<rparr>) = bit_test p s"
  by (simp_all add: bit_test_def)

text \<open>The bytes outside the array are never written when the page number is in range.\<close>

lemma bitmap_in_range: "p < MAX_PHYS_PAGES \<Longrightarrow> p div 8 < BITMAP_BYTES"
  by (simp add: MAX_PHYS_PAGES_def BITMAP_BYTES_def)

lemma bit_clear_bit_set: "\<not> bit_test p s \<Longrightarrow> bit_clear p (bit_set p s) = s"
proof -
  assume "\<not> bit_test p s"
  then have n: "\<not> bit (page_bitmap s (p div 8)) (p mod 8)" by (simp add: bit_test_iff)
  have "(page_bitmap s (p div 8) OR 2 ^ (p mod 8)) AND NOT (2 ^ (p mod 8)) = page_bitmap s (p div 8)"
    using n by (intro bit_eqI) (auto simp: bit_and_iff bit_or_iff bit_not_iff bit_exp_iff)
  then show ?thesis by (simp add: bit_set_def bit_clear_def)
qed

section \<open>Invariant\<close>

definition free_frames :: "pmm \<Rightarrow> nat set" where
  "free_frames s = {p. p < MAX_PHYS_PAGES \<and> \<not> bit_test p s}"

definition owned_frames :: "pmm \<Rightarrow> nat set" where
  "owned_frames s = {p. p < MAX_PHYS_PAGES \<and> page_refs s p \<noteq> 0}"

text \<open>
  The counters account for the bitmap (\<open>total - used\<close> is the number of clear bits), a page
  with a reference is a real page whose bit is set, and every such page is counted as used.
\<close>

definition pmm_inv :: "pmm \<Rightarrow> bool" where
  "pmm_inv s \<longleftrightarrow>
     unat (total_pages_count s) \<le> MAX_PHYS_PAGES \<and>
     card (free_frames s) + unat (used_pages_count s) = unat (total_pages_count s) \<and>
     (\<forall>p \<in> owned_frames s. 0 < p \<and> p < unat (total_pages_count s) \<and> bit_test p s) \<and>
     card (owned_frames s) \<le> unat (used_pages_count s)"

definition refcount :: "pmm \<Rightarrow> nat \<Rightarrow> nat" where
  "refcount s p = (if p < MAX_PHYS_PAGES then unat (page_refs s p) else 0)"

lemma finite_frames [simp]: "finite (free_frames s)" "finite (owned_frames s)"
  by (simp_all add: free_frames_def owned_frames_def)

lemma refcount_owned: "refcount s p \<noteq> 0 \<longleftrightarrow> p \<in> owned_frames s"
  by (simp add: refcount_def owned_frames_def unat_gt_0)

lemma refcount_pos: "0 < refcount s p \<longleftrightarrow> p \<in> owned_frames s"
  using refcount_owned [of s p] by simp

lemma pmm_invD:
  assumes "pmm_inv s"
  shows "unat (total_pages_count s) \<le> 65536"
    and "card (free_frames s) + unat (used_pages_count s) = unat (total_pages_count s)"
    and "p \<in> owned_frames s \<Longrightarrow> 0 < p \<and> p < unat (total_pages_count s) \<and> bit_test p s"
    and "card (owned_frames s) \<le> unat (used_pages_count s)"
  using assms by (auto simp: pmm_inv_def MAX_PHYS_PAGES_def)

section \<open>Page numbers and addresses\<close>

lemma unat_div_page [simp]: "unat (a div 4096 :: u32) = pfn a"
  by (simp add: pfn_def unat_div_distrib)

lemma unat_frame_address: "p < 65536 \<Longrightarrow> unat (of_nat p * 4096 :: u32) = p * 4096"
  by (simp add: unat_word_ariths unat_of_nat)

lemma pfn_frame_address [simp]: "p < 65536 \<Longrightarrow> pfn (of_nat p * 4096) = p"
  by (simp add: pfn_def unat_frame_address)

lemma frame_address_nonzero: "0 < p \<Longrightarrow> p < 65536 \<Longrightarrow> of_nat p * 4096 \<noteq> (0 :: u32)"
  using unat_frame_address [of p] by auto

lemma page_aligned_iff: "page_aligned a \<longleftrightarrow> unat a mod 4096 = 0"
proof -
  have "a AND 0xfff = a AND mask 12" by (simp add: mask_eq_exp_minus_1)
  then have "a AND 0xfff = take_bit 12 a" by (simp add: take_bit_eq_mask)
  then have "unat (a AND 0xfff) = unat a mod 4096"
    by (simp add: take_bit_eq_mod unat_mod_distrib)
  then show ?thesis unfolding page_aligned_def by (metis unat_eq_zero)
qed

lemma page_aligned_frame [simp]: "p < 65536 \<Longrightarrow> page_aligned (of_nat p * 4096)"
  by (simp add: page_aligned_iff unat_frame_address)

section \<open>Allocation\<close>

definition take_frame :: "nat \<Rightarrow> pmm \<Rightarrow> pmm" where
  "take_frame p s = (bit_set p s)\<lparr>page_refs := (page_refs s)(p := 1),
     used_pages_count := used_pages_count s + 1\<rparr>"

lemma pmm_alloc_cases:
  obtains (none) "pmm_alloc_page s = (0, s)"
      "\<And>p. 0 < p \<Longrightarrow> p < unat (total_pages_count s) \<Longrightarrow> bit_test p s"
  | (some) p where "0 < p" "p < unat (total_pages_count s)" "\<not> bit_test p s"
      "\<And>q. 0 < q \<Longrightarrow> q < p \<Longrightarrow> bit_test q s"
      "pmm_alloc_page s = (of_nat p * 4096, take_frame p s)"
proof (cases "List.find (\<lambda>p. \<not> bit_test p s) [1..<unat (total_pages_count s)]")
  case None
  then have "pmm_alloc_page s = (0, s)" by (simp add: pmm_alloc_page_def)
  moreover from None have "bit_test p s" if "0 < p" "p < unat (total_pages_count s)" for p
    using that by (auto simp: find_None_iff)
  ultimately show ?thesis by (rule none)
next
  case (Some p)
  then obtain i where i: "i < unat (total_pages_count s) - 1" "p = Suc i" "\<not> bit_test p s"
    "\<And>j. j < i \<Longrightarrow> bit_test (Suc j) s"
    by (auto simp: find_Some_iff)
  show ?thesis
  proof (rule some [of p])
    show "bit_test q s" if "0 < q" "q < p" for q
      using i(4) [of "q - 1"] that i(2) by simp
  qed (use i Some in \<open>auto simp: pmm_alloc_page_def take_frame_def\<close>)
qed

lemma take_frame_fields [simp]:
  "total_pages_count (take_frame p s) = total_pages_count s"
  "used_pages_count (take_frame p s) = used_pages_count s + 1"
  "page_refs (take_frame p s) = (page_refs s)(p := 1)"
  "bit_test q (take_frame p s) \<longleftrightarrow> q = p \<or> bit_test q s"
  by (simp_all add: take_frame_def)

lemma free_frames_take: "p \<in> free_frames s \<Longrightarrow> free_frames (take_frame p s) = free_frames s - {p}"
  by (auto simp: free_frames_def)

lemma owned_frames_take: "p < MAX_PHYS_PAGES \<Longrightarrow> owned_frames (take_frame p s) = insert p (owned_frames s)"
  by (auto simp: owned_frames_def)

lemma take_frame_inv:
  assumes inv: "pmm_inv s" and p: "0 < p" "p < unat (total_pages_count s)" "\<not> bit_test p s"
  shows "pmm_inv (take_frame p s)"
proof -
  have m: "p < MAX_PHYS_PAGES" using pmm_invD(1) [OF inv] p(2) by (simp add: MAX_PHYS_PAGES_def)
  then have f: "p \<in> free_frames s" using p(3) by (simp add: free_frames_def)
  then have c: "card (free_frames s) = Suc (card (free_frames (take_frame p s)))"
    by (simp only: free_frames_take card.remove [OF finite_frames(1) f])
  have n: "p \<notin> owned_frames s" using pmm_invD(3) [OF inv, of p] p(3) by blast
  then have o: "card (owned_frames (take_frame p s)) = Suc (card (owned_frames s))"
    by (simp add: owned_frames_take [OF m])
  have "unat (used_pages_count s) < 65536"
    using pmm_invD(1,2) [OF inv] c by linarith
  then have u: "unat (used_pages_count s + 1) = Suc (unat (used_pages_count s))"
    by (rule unat_inc) simp
  show ?thesis
    using pmm_invD [OF inv] c o u p m
    by (auto simp: pmm_inv_def owned_frames_take [OF m] MAX_PHYS_PAGES_def)
qed

lemma pmm_alloc_inv: "pmm_inv s \<Longrightarrow> pmm_alloc_page s = (a, s') \<Longrightarrow> pmm_inv s'"
  by (cases rule: pmm_alloc_cases [of s]) (auto intro: take_frame_inv)

lemma pmm_alloc_some:
  assumes inv: "pmm_inv s" and a: "pmm_alloc_page s = (a, s')" "a \<noteq> 0"
  shows "page_aligned a" "pfn a \<in> free_frames s" "0 < pfn a"
    "pfn a < unat (total_pages_count s)" "s' = take_frame (pfn a) s" "a = of_nat (pfn a) * 4096"
    "\<And>q. 0 < q \<Longrightarrow> q < pfn a \<Longrightarrow> bit_test q s"
  using pmm_invD(1) [OF inv] a
  by (cases rule: pmm_alloc_cases [of s]; force simp: free_frames_def MAX_PHYS_PAGES_def)+

section \<open>Release and retain\<close>

definition drop_frame :: "nat \<Rightarrow> pmm \<Rightarrow> pmm" where
  "drop_frame p s = (bit_clear p s)\<lparr>page_refs := (page_refs s)(p := 0),
     used_pages_count := used_pages_count s - 1\<rparr>"

lemma drop_frame_fields [simp]:
  "total_pages_count (drop_frame p s) = total_pages_count s"
  "used_pages_count (drop_frame p s) = used_pages_count s - 1"
  "page_refs (drop_frame p s) = (page_refs s)(p := 0)"
  "bit_test q (drop_frame p s) \<longleftrightarrow> q \<noteq> p \<and> bit_test q s"
  by (simp_all add: drop_frame_def)

lemma drop_take_frame:
  assumes "\<not> bit_test p s" "page_refs s p = 0"
  shows "drop_frame p (take_frame p s) = s"
proof -
  have "page_bitmap (bit_clear p (take_frame p s)) = page_bitmap (bit_clear p (bit_set p s))"
    by (simp add: bit_clear_def take_frame_def)
  with bit_clear_bit_set [OF assms(1)] have "page_bitmap (bit_clear p (take_frame p s)) = page_bitmap s"
    by simp
  then show ?thesis using assms(2)
    by (intro pmm.equality) (simp_all add: drop_frame_def fun_upd_idem)
qed

lemma pmm_owned_used:
  assumes "pmm_inv s" "p \<in> owned_frames s"
  shows "used_pages_count s \<noteq> 0"
proof -
  have "card (owned_frames s) \<noteq> 0" using assms(2) finite_frames(2) by (metis card_0_eq empty_iff)
  then have "unat (used_pages_count s) \<noteq> 0" using pmm_invD(4) [OF assms(1)] by linarith
  then show ?thesis by (metis unat_0)
qed

text \<open>On a page somebody holds, a release either takes one reference or gives the page back.\<close>

lemma pmm_free_owned:
  assumes inv: "pmm_inv s" and o: "pfn a \<in> owned_frames s"
  shows "pmm_free_page a s =
    (if 1 < page_refs s (pfn a)
     then s\<lparr>page_refs := (page_refs s)(pfn a := page_refs s (pfn a) - 1)\<rparr>
     else drop_frame (pfn a) s)"
  using pmm_invD(3) [OF inv o] pmm_owned_used [OF inv o]
  by (simp add: pmm_free_page_def drop_frame_def Let_def)

lemma drop_frame_inv:
  assumes inv: "pmm_inv s" and o: "p \<in> owned_frames s"
  shows "pmm_inv (drop_frame p s)"
proof -
  have m: "p < MAX_PHYS_PAGES" using o by (simp add: owned_frames_def)
  have b: "0 < p" "p < unat (total_pages_count s)" "bit_test p s"
    using pmm_invD(3) [OF inv o] by auto
  have ff: "free_frames (drop_frame p s) = insert p (free_frames s)" and "p \<notin> free_frames s"
    using m b(3) by (auto simp: free_frames_def)
  then have c: "card (free_frames (drop_frame p s)) = Suc (card (free_frames s))" by simp
  have of: "owned_frames (drop_frame p s) = owned_frames s - {p}"
    by (auto simp: owned_frames_def)
  have oc: "card (owned_frames s) = Suc (card (owned_frames (drop_frame p s)))"
    by (simp only: of card.remove [OF finite_frames(2) o])
  have u: "unat (used_pages_count s) = Suc (unat (used_pages_count s - 1))"
    using pmm_owned_used [OF inv o] by (metis Suc_pred' unat_gt_0 unat_minus_one)
  show ?thesis
    using pmm_invD [OF inv] c oc u b of
    by (auto simp: pmm_inv_def MAX_PHYS_PAGES_def)
qed

lemma set_refs_inv:
  assumes inv: "pmm_inv s" and o: "p \<in> owned_frames s" and r: "r \<noteq> 0"
  shows "pmm_inv (s\<lparr>page_refs := (page_refs s)(p := r)\<rparr>)"
proof -
  have "owned_frames (s\<lparr>page_refs := (page_refs s)(p := r)\<rparr>) = owned_frames s"
    using o r by (auto simp: owned_frames_def)
  moreover have "free_frames (s\<lparr>page_refs := (page_refs s)(p := r)\<rparr>) = free_frames s"
    by (simp add: free_frames_def)
  ultimately show ?thesis using inv by (simp add: pmm_inv_def)
qed

lemma pmm_free_inv: "pmm_inv s \<Longrightarrow> pfn a \<in> owned_frames s \<Longrightarrow> pmm_inv (pmm_free_page a s)"
  by (auto simp: pmm_free_owned intro!: drop_frame_inv set_refs_inv)

lemma pmm_retain_owned:
  assumes "pmm_inv s" "pfn a \<in> owned_frames s"
  shows "pmm_retain_page a s =
    (if page_refs s (pfn a) = 0xffff then s
     else s\<lparr>page_refs := (page_refs s)(pfn a := page_refs s (pfn a) + 1)\<rparr>)"
  using pmm_invD(3) [OF assms] by (simp add: pmm_retain_page_def Let_def)

lemma inc_refs_nonzero: "(r :: u16) \<noteq> 0xffff \<Longrightarrow> r + 1 \<noteq> 0"
proof
  assume r: "r \<noteq> 0xffff" and "r + 1 = 0"
  then have "r = -1" by (simp only: eq_neg_iff_add_eq_0)
  with r show False by simp
qed

lemma pmm_retain_inv: "pmm_inv s \<Longrightarrow> pfn a \<in> owned_frames s \<Longrightarrow> pmm_inv (pmm_retain_page a s)"
  by (auto simp: pmm_retain_owned inc_refs_nonzero intro!: set_refs_inv)

section \<open>The allocator implements the page interface\<close>

lemma refcount_take: "p < 65536 \<Longrightarrow> refcount (take_frame p s) = (refcount s)(p := 1)"
  by (auto simp: refcount_def fun_eq_iff MAX_PHYS_PAGES_def)

lemma free_frame_refcount: "pmm_inv s \<Longrightarrow> p \<in> free_frames s \<Longrightarrow> refcount s p = 0"
  using pmm_invD(3) [of s p] refcount_owned [of s p] by (auto simp: free_frames_def)

lemma refcount_set:
  "p < MAX_PHYS_PAGES \<Longrightarrow> refcount (s\<lparr>page_refs := (page_refs s)(p := r)\<rparr>) = (refcount s)(p := unat r)"
  by (auto simp: refcount_def fun_eq_iff)

lemma refcount_drop: "p < MAX_PHYS_PAGES \<Longrightarrow> refcount (drop_frame p s) = (refcount s)(p := 0)"
  by (auto simp: refcount_def fun_eq_iff)

lemma refcount_free:
  assumes "pmm_inv s" "pfn a \<in> owned_frames s"
  shows "refcount (pmm_free_page a s) = (refcount s)(pfn a := refcount s (pfn a) - 1)"
proof -
  have m: "pfn a < MAX_PHYS_PAGES" and nz: "page_refs s (pfn a) \<noteq> 0"
    using assms(2) by (auto simp: owned_frames_def)
  have "unat (page_refs s (pfn a) - 1) = unat (page_refs s (pfn a)) - 1"
    using nz by (rule unat_minus_one)
  moreover have "unat (page_refs s (pfn a)) = 1" if "\<not> 1 < page_refs s (pfn a)"
    using that nz by (metis unat_1 word_less_1 word_neq_0_conv order_le_less not_less)
  ultimately show ?thesis
    using m by (auto simp: pmm_free_owned [OF assms] refcount_set refcount_drop)
       (auto simp: refcount_def)
qed

lemma refcount_retain:
  assumes "pmm_inv s" "pfn a \<in> owned_frames s" "refcount s (pfn a) < 65535"
  shows "refcount (pmm_retain_page a s) = (refcount s)(pfn a := refcount s (pfn a) + 1)"
proof -
  have m: "pfn a < MAX_PHYS_PAGES" using assms(2) by (simp add: owned_frames_def)
  then have lt: "unat (page_refs s (pfn a)) < 65535" using assms(3) by (simp add: refcount_def)
  then have "unat (page_refs s (pfn a) + 1) = Suc (unat (page_refs s (pfn a)))"
    by (rule unat_inc) simp
  moreover have "page_refs s (pfn a) \<noteq> 0xffff" using lt by auto
  ultimately show ?thesis
    using m by (simp add: pmm_retain_owned [OF assms(1,2)] refcount_set refcount_def)
qed

interpretation pa: page_allocator pmm_alloc_page pmm_retain_page pmm_free_page refcount pmm_inv
proof (unfold_locales, goal_cases)
  case (1 s s')
  then show ?case
    using frame_address_nonzero pmm_invD(1) [of s]
    by (cases rule: pmm_alloc_cases [of s]) fastforce+
next
  case (2 s a s') then show ?case by (rule pmm_alloc_some)
next
  case (3 s a s') then show ?case by (metis free_frame_refcount pmm_alloc_some(2))
next
  case (4 s a s')
  then have "pfn a < 65536" using pmm_alloc_some(2) by (auto simp: free_frames_def MAX_PHYS_PAGES_def)
  with 4 show ?case using pmm_alloc_some(5) refcount_take by metis
next
  case (5 s a s') then show ?case by (rule pmm_alloc_inv)
next
  case (6 s a) then show ?case by (metis refcount_owned refcount_free)
next
  case (7 s a) then show ?case by (metis refcount_owned pmm_free_inv)
next
  case (8 s a) then show ?case by (metis refcount_owned refcount_retain)
next
  case (9 s a) then show ?case by (metis refcount_owned pmm_retain_inv)
qed

section \<open>Initialisation\<close>

text \<open>
  Which frames the memory map offers: \<open>entry_page\<close> follows the entries of one memory-map tag,
  \<open>mbi_page\<close> the tags, both in the order of the walk.
\<close>

definition covers :: "(u32 \<Rightarrow> u8) \<Rightarrow> u32 \<Rightarrow> nat \<Rightarrow> bool" where
  "covers m e p \<longleftrightarrow> rd32 m (e + 16) = MMAP_AVAILABLE \<and> unat (entry_first m e) \<le> p \<and>
     p < unat (entry_first m e + entry_pages m e)"

inductive entry_page :: "(u32 \<Rightarrow> u8) \<Rightarrow> u32 \<Rightarrow> u32 \<Rightarrow> u32 \<Rightarrow> u32 \<Rightarrow> nat \<Rightarrow> bool"
  for m base lim entry_size where
  here: "e < lim \<Longrightarrow> covers m (base + e) p \<Longrightarrow> entry_page m base lim entry_size e p"
| there: "e < lim \<Longrightarrow> entry_page m base lim entry_size (e + entry_size) p \<Longrightarrow>
     entry_page m base lim entry_size e p"

inductive mbi_page :: "(u32 \<Rightarrow> u8) \<Rightarrow> u32 \<Rightarrow> u32 \<Rightarrow> u32 \<Rightarrow> nat \<Rightarrow> bool"
  for m base total_size where
  tag: "off + 8 \<le> total_size \<Longrightarrow> rd32 m (base + off) = TAG_MMAP \<Longrightarrow>
     entry_page m base (off + rd32 m (base + off + 4)) (rd32 m (base + off + 8)) (off + 16) p \<Longrightarrow>
     mbi_page m base total_size off p"
| step: "off + 8 \<le> total_size \<Longrightarrow> \<not> rd32 m (base + off + 4) < 8 \<Longrightarrow>
     mbi_page m base total_size ((off + rd32 m (base + off + 4) + 7) AND NOT 7) p \<Longrightarrow>
     mbi_page m base total_size off p"

inductive_simps entry_page_unfold: "entry_page m base lim entry_size e p"
inductive_simps mbi_page_unfold: "mbi_page m base total_size off p"

text \<open>While the map is walked nothing is used and the total counts the clear bits.\<close>

definition counting :: "pmm \<Rightarrow> bool" where
  "counting s \<longleftrightarrow> unat (total_pages_count s) = card (free_frames s) \<and> used_pages_count s = 0 \<and>
     owned_frames s = {}"

lemma card_free_frames: "card (free_frames s) \<le> MAX_PHYS_PAGES"
  by (simp add: free_frames_def card_less_bound)

lemma counting_total: "counting s \<Longrightarrow> unat (total_pages_count s) \<le> MAX_PHYS_PAGES"
  by (simp add: counting_def card_free_frames)

lemma release_page_fields [simp]:
  "used_pages_count (release_page p s) = used_pages_count s"
  "page_refs (release_page p s) = page_refs s"
  "bit_test q (release_page p s) \<longleftrightarrow> q \<noteq> p \<and> bit_test q s"
  by (auto simp: release_page_def)

lemma free_frames_release:
  "p < MAX_PHYS_PAGES \<Longrightarrow> free_frames (release_page p s) = insert p (free_frames s)"
  by (auto simp: free_frames_def)

lemma release_page_counting:
  assumes "counting s" "p < MAX_PHYS_PAGES"
  shows "counting (release_page p s)"
proof (cases "bit_test p s")
  case True
  then have n: "p \<notin> free_frames s" by (simp add: free_frames_def)
  have "card (insert p (free_frames s)) \<le> MAX_PHYS_PAGES"
    using card_free_frames [of "release_page p s"] by (simp only: free_frames_release [OF assms(2)])
  then have lt: "unat (total_pages_count s) < MAX_PHYS_PAGES"
    using n assms(1) by (simp add: counting_def)
  then have "unat (total_pages_count s + 1) = Suc (unat (total_pages_count s))"
    by (rule unat_inc) (simp add: MAX_PHYS_PAGES_def)
  then have "unat (total_pages_count (release_page p s)) = card (free_frames (release_page p s))"
    using True lt n assms by (simp add: free_frames_release counting_def) (simp add: release_page_def)
  then show ?thesis using assms by (simp add: counting_def owned_frames_def)
next
  case False
  then have "release_page p s = s" by (simp add: release_page_def)
  with assms(1) show ?thesis by simp
qed

lemma fold_release:
  assumes "counting s" "\<And>p. p \<in> set ps \<Longrightarrow> p < MAX_PHYS_PAGES"
  shows "counting (fold release_page ps s) \<and>
    free_frames (fold release_page ps s) = free_frames s \<union> set ps"
  using assms
  by (induction ps arbitrary: s) (auto simp: release_page_counting free_frames_release)

lemma mmap_entry_spec:
  assumes "counting s"
  shows "counting (mmap_entry m e s) \<and>
    free_frames (mmap_entry m e s) = free_frames s \<union> {p. p < MAX_PHYS_PAGES \<and> covers m e p}"
proof (cases "rd32 m (e + 16) = MMAP_AVAILABLE")
  case True
  let ?ps = "[unat (entry_first m e)..<min (unat (entry_first m e + entry_pages m e)) MAX_PHYS_PAGES]"
  have "set ?ps = {p. p < MAX_PHYS_PAGES \<and> covers m e p}" using True by (auto simp: covers_def)
  then show ?thesis
    using fold_release [OF assms, of ?ps] True by (simp add: mmap_entry_def Let_def)
next
  case False
  then show ?thesis using assms by (simp add: mmap_entry_def covers_def)
qed

lemma mmap_entries_spec:
  assumes ret: "mmap_entries m base lim es e s = Some s'" and "counting s"
  shows "counting s' \<and> free_frames s' =
    free_frames s \<union> {p. p < MAX_PHYS_PAGES \<and> entry_page m base lim es e p}"
proof -
  have "counting s \<longrightarrow> counting s' \<and> free_frames s' =
    free_frames s \<union> {p. p < MAX_PHYS_PAGES \<and> entry_page m base lim es e p}"
  proof (rule mmap_entries.raw_induct [where P = "\<lambda>m base lim es e s s'. counting s \<longrightarrow>
      counting s' \<and> free_frames s' =
      free_frames s \<union> {p. p < MAX_PHYS_PAGES \<and> entry_page m base lim es e p}", OF _ ret])
    fix f m base lim es e s s'
    assume IH: "\<And>m base lim es e s s'. f m base lim es e s = Some s' \<Longrightarrow> counting s \<longrightarrow>
        counting s' \<and> free_frames s' =
        free_frames s \<union> {p. p < MAX_PHYS_PAGES \<and> entry_page m base lim es e p}"
      and eq: "(if e < lim then f m base lim es (e + es) (mmap_entry m (base + e) s)
        else Some s) = Some s'"
    show "counting s \<longrightarrow> counting s' \<and> free_frames s' =
        free_frames s \<union> {p. p < MAX_PHYS_PAGES \<and> entry_page m base lim es e p}"
      using IH [of m base lim es "e + es" "mmap_entry m (base + e) s" s'] eq
        mmap_entry_spec [of s m "base + e"]
      by (auto simp: entry_page_unfold [of m base lim es e] split: if_splits)
  qed
  with assms show ?thesis by blast
qed

lemma mbi_tags_spec:
  assumes ret: "mbi_tags m base tot off s = Some s'" and "counting s"
  shows "counting s' \<and> free_frames s' =
    free_frames s \<union> {p. p < MAX_PHYS_PAGES \<and> mbi_page m base tot off p}"
proof -
  have "counting s \<longrightarrow> counting s' \<and> free_frames s' =
    free_frames s \<union> {p. p < MAX_PHYS_PAGES \<and> mbi_page m base tot off p}"
  proof (rule mbi_tags.raw_induct [where P = "\<lambda>m base tot off s s'. counting s \<longrightarrow>
      counting s' \<and> free_frames s' =
      free_frames s \<union> {p. p < MAX_PHYS_PAGES \<and> mbi_page m base tot off p}", OF _ ret])
    fix f m base tot off s s'
    assume IH: "\<And>m base tot off s s'. f m base tot off s = Some s' \<Longrightarrow> counting s \<longrightarrow>
        counting s' \<and> free_frames s' =
        free_frames s \<union> {p. p < MAX_PHYS_PAGES \<and> mbi_page m base tot off p}"
    let ?size = "rd32 m (base + off + 4)"
    let ?entries = "if rd32 m (base + off) = TAG_MMAP
      then mmap_entries m base (off + ?size) (rd32 m (base + off + 8)) (off + 16) s else Some s"
    assume eq: "(if off + 8 \<le> tot
        then let ty = rd32 m (base + off); size = rd32 m (base + off + 4) in
           Option.bind (if ty = TAG_MMAP
              then mmap_entries m base (off + size) (rd32 m (base + off + 8)) (off + 16) s
              else Some s)
             (\<lambda>s'. if size < 8 then Some s' else f m base tot ((off + size + 7) AND NOT 7) s')
        else Some s) = Some s'"
    show "counting s \<longrightarrow> counting s' \<and> free_frames s' =
        free_frames s \<union> {p. p < MAX_PHYS_PAGES \<and> mbi_page m base tot off p}"
    proof (cases "off + 8 \<le> tot")
      case False
      then show ?thesis using eq by (simp add: mbi_page_unfold [of m base tot off])
    next
      case True
      with eq obtain s1 where s1: "?entries = Some s1"
        and tl: "(if ?size < 8 then Some s1 else f m base tot ((off + ?size + 7) AND NOT 7) s1) = Some s'"
        by (auto simp: Let_def bind_eq_Some_conv)
      have "counting s \<longrightarrow> counting s1 \<and> free_frames s1 = free_frames s \<union>
          {p. p < MAX_PHYS_PAGES \<and> rd32 m (base + off) = TAG_MMAP \<and>
             entry_page m base (off + ?size) (rd32 m (base + off + 8)) (off + 16) p}"
        using s1 mmap_entries_spec by (auto split: if_splits)
      with tl IH [of m base tot "(off + ?size + 7) AND NOT 7" s1 s'] True show ?thesis
        by (auto simp: mbi_page_unfold [of m base tot off] split: if_splits)
    qed
  qed
  with assms show ?thesis by blast
qed

lemma reset_counting: "counting (pmm_reset s) \<and> free_frames (pmm_reset s) = {}"
proof -
  have "bit_test p (pmm_reset s)" if "p < MAX_PHYS_PAGES" for p
  proof -
    have "bit (0xff :: u8) (p mod 8)"
    proof -
      have "(0xff :: u8) = -1" by simp
      then show ?thesis by (simp only: bit_minus_1_iff) simp
    qed
    then show ?thesis using bitmap_in_range [OF that] by (simp add: bit_test_iff pmm_reset_def)
  qed
  then have "free_frames (pmm_reset s) = {}" by (auto simp: free_frames_def)
  then show ?thesis by (simp add: counting_def) (simp add: pmm_reset_def owned_frames_def)
qed

lemma fold_clear:
  "free_frames (fold bit_clear ps s) = free_frames s \<union> {p \<in> set ps. p < MAX_PHYS_PAGES}
   \<and> page_refs (fold bit_clear ps s) = page_refs s
   \<and> total_pages_count (fold bit_clear ps s) = total_pages_count s
   \<and> used_pages_count (fold bit_clear ps s) = used_pages_count s"
  by (induction ps arbitrary: s) (auto simp: free_frames_def)

text \<open>Reserving frames keeps the account: what leaves the free frames is counted as used.\<close>

definition accounted :: "pmm \<Rightarrow> bool" where
  "accounted s \<longleftrightarrow> unat (total_pages_count s) \<le> MAX_PHYS_PAGES \<and>
     card (free_frames s) + unat (used_pages_count s) = unat (total_pages_count s) \<and>
     owned_frames s = {}"

lemma accounted_inv: "accounted s \<Longrightarrow> pmm_inv s"
  by (simp add: accounted_def pmm_inv_def)

lemma reserve_page_accounted:
  assumes "accounted s" "p < MAX_PHYS_PAGES"
  shows "accounted (reserve_page p s) \<and> free_frames (reserve_page p s) = free_frames s - {p}
    \<and> total_pages_count (reserve_page p s) = total_pages_count s"
proof (cases "bit_test p s")
  case True
  then show ?thesis using assms(1) by (auto simp: reserve_page_def free_frames_def)
next
  case False
  then have f: "p \<in> free_frames s" using assms(2) by (simp add: free_frames_def)
  have ff: "free_frames (reserve_page p s) = free_frames s - {p}"
    using False by (auto simp: reserve_page_def free_frames_def)
  have c: "card (free_frames s) = Suc (card (free_frames (reserve_page p s)))"
    by (simp only: ff card.remove [OF finite_frames(1) f])
  then have "unat (used_pages_count s) < 65536"
    using assms(1) by (simp add: accounted_def MAX_PHYS_PAGES_def)
  then have "unat (used_pages_count s + 1) = Suc (unat (used_pages_count s))"
    by (rule unat_inc) simp
  then show ?thesis
    using c ff assms(1) False by (simp add: accounted_def) (simp add: reserve_page_def owned_frames_def)
qed

lemma fold_reserve:
  assumes "accounted s" "\<And>p. p \<in> set ps \<Longrightarrow> p < MAX_PHYS_PAGES"
  shows "accounted (fold reserve_page ps s) \<and> free_frames (fold reserve_page ps s) = free_frames s - set ps
    \<and> total_pages_count (fold reserve_page ps s) = total_pages_count s"
  using assms
  by (induction ps arbitrary: s) (auto simp: reserve_page_accounted)

text \<open>
  The walk ends on a sane structure: sizes do not wrap the 32-bit offset and the entries of a
  memory-map tag have a size.
\<close>

definition mbi_sane :: "(u32 \<Rightarrow> u8) \<Rightarrow> u32 \<Rightarrow> bool" where
  "mbi_sane m base \<longleftrightarrow>
     unat (rd32 m base) < 2 ^ 31 \<and>
     (\<forall>off. 8 dvd unat off \<and> 8 \<le> unat off \<and> unat off + 8 \<le> unat (rd32 m base) \<longrightarrow>
        unat (rd32 m (base + off + 4)) < 2 ^ 30 \<and>
        (rd32 m (base + off) = TAG_MMAP \<longrightarrow>
           rd32 m (base + off + 8) \<noteq> 0 \<and> unat (rd32 m (base + off + 8)) < 2 ^ 30))"

lemma mmap_entries_total:
  assumes "es \<noteq> 0" "unat lim + unat es < 2 ^ 32"
  shows "\<exists>s'. mmap_entries m base lim es e s = Some s'"
proof (induction "unat lim - unat e" arbitrary: e s rule: less_induct)
  case less
  show ?case
  proof (cases "e < lim")
    case True
    then have l: "unat e < unat lim" by (simp add: word_less_nat_alt)
    have "unat (e + es) = unat e + unat es"
      using l assms(2) by (simp add: unat_word_ariths)
    moreover have "0 < unat es" using assms(1) by (simp add: unat_gt_0)
    ultimately have "unat lim - unat (e + es) < unat lim - unat e" using l by linarith
    from less [OF this] True show ?thesis
      by (subst mmap_entries.simps) simp
  next
    case False
    then show ?thesis by (subst mmap_entries.simps) simp
  qed
qed

lemma unat_align8: "unat x < 2 ^ 32 - 8 \<Longrightarrow>
   unat ((x + 7) AND NOT 7 :: u32) = (unat x + 7) div 8 * 8"
proof -
  assume "unat x < 2 ^ 32 - 8"
  then have u: "unat (x + 7) = unat x + 7" by (simp add: unat_word_ariths)
  have "(7 :: u32) = mask 3" by (simp add: mask_eq_exp_minus_1)
  then have "(x + 7) AND NOT 7 = push_bit 3 (drop_bit 3 (x + 7))"
    by (simp only: and_not_mask_eq)
  then have "unat ((x + 7) AND NOT 7) = unat (drop_bit 3 (x + 7) * 8)"
    by (simp add: push_bit_eq_mult)
  moreover have "unat (drop_bit 3 (x + 7)) = (unat x + 7) div 8"
    using u by (simp add: drop_bit_eq_div unat_div_distrib)
  ultimately show ?thesis
    using u unsigned_less [of "x + 7", where 'a = nat] by (simp add: unat_word_ariths)
qed

lemma mbi_tags_total:
  assumes sane: "mbi_sane m base"
  shows "8 dvd unat off \<Longrightarrow> 8 \<le> unat off \<Longrightarrow> unat off < 2 ^ 32 - 8 \<Longrightarrow>
    \<exists>s'. mbi_tags m base (rd32 m base) off s = Some s'"
proof (induction "2 ^ 32 - unat off" arbitrary: off s rule: less_induct)
  case less
  have o8: "unat (off + 8) = unat off + 8" using less.prems by (simp add: unat_word_ariths)
  show ?case
  proof (cases "off + 8 \<le> rd32 m base")
    case False
    then show ?thesis by (subst mbi_tags.simps) simp
  next
    case True
    then have in_range: "unat off + 8 \<le> unat (rd32 m base)" using o8 by (simp add: word_le_nat_alt)
    let ?size = "rd32 m (base + off + 4)"
    have size: "unat ?size < 2 ^ 30" and off: "unat off < 2 ^ 31"
      and es: "rd32 m (base + off) = TAG_MMAP \<Longrightarrow>
        rd32 m (base + off + 8) \<noteq> 0 \<and> unat (rd32 m (base + off + 8)) < 2 ^ 30"
      using sane in_range less.prems by (auto simp: mbi_sane_def)
    have sum: "unat (off + ?size) = unat off + unat ?size"
      using size off by (simp add: unat_word_ariths)
    obtain s1 where s1: "(if rd32 m (base + off) = TAG_MMAP
        then mmap_entries m base (off + ?size) (rd32 m (base + off + 8)) (off + 16) s
        else Some s) = Some s1"
    proof (cases "rd32 m (base + off) = TAG_MMAP")
      case True
      then have "\<exists>s'. mmap_entries m base (off + ?size) (rd32 m (base + off + 8)) (off + 16) s = Some s'"
        using es sum size off by (intro mmap_entries_total) auto
      with True that show ?thesis by auto
    qed (use that in simp)
    show ?thesis
    proof (cases "?size < 8")
      case True
      with s1 show ?thesis by (subst mbi_tags.simps) (simp add: Let_def)
    next
      case False
      then have big: "8 \<le> unat ?size" by (simp add: word_less_nat_alt)
      let ?next = "(off + ?size + 7) AND NOT 7"
      have n: "unat ?next = (unat off + unat ?size + 7) div 8 * 8"
        using unat_align8 [of "off + ?size"] sum size off by simp
      have gt: "unat off < unat ?next" unfolding n using big by linarith
      have lt: "unat ?next < 2 ^ 32 - 8" unfolding n
        by (rule le_less_trans [OF div_times_less_eq_dividend]) (use size off in simp)
      have "8 dvd unat ?next" unfolding n by simp
      moreover have "2 ^ 32 - unat ?next < 2 ^ 32 - unat off" using gt lt by linarith
      ultimately obtain s2 where "mbi_tags m base (rd32 m base) ?next s1 = Some s2"
        using less.hyps [of ?next s1] less.prems(2) gt lt by (meson less_imp_le order_trans)
      with s1 False show ?thesis by (subst mbi_tags.simps) (simp add: Let_def)
    qed
  qed
qed

definition offered_frames :: "(u32 \<Rightarrow> u8) \<Rightarrow> u32 \<Rightarrow> nat set" where
  "offered_frames m mbi =
     (let A = {p. p < MAX_PHYS_PAGES \<and> mbi_page m mbi (rd32 m mbi) 8 p}
      in if A = {} then {..<MAX_PHYS_PAGES} else A)"

lemma up_iff: "p < (n + 4095) div 4096 \<longleftrightarrow> p * 4096 < (n :: nat)"
  by (simp add: less_eq_div_iff_mult_less_eq Suc_le_eq [symmetric])

lemma reserve_range_spec:
  assumes "accounted s" and ke: "unat e \<le> 2 ^ 32 - 4096"
  shows "accounted (reserve_range 0 e s) \<and>
    free_frames (reserve_range 0 e s) = free_frames s - {p. p * 4096 < unat e} \<and>
    total_pages_count (reserve_range 0 e s) = total_pages_count s"
proof -
  define k where "k = unat ((e + PAGE_SIZE - 1) div PAGE_SIZE)"
  have "e + 4096 - 1 = e + 4095" by simp
  moreover have "unat (e + 4095) = unat e + 4095" using ke by (simp add: unat_word_ariths)
  ultimately have k: "k = (unat e + 4095) div 4096"
    unfolding k_def by (simp only: unat_div_page pfn_def)
  have "free_frames s - set [0..<min k MAX_PHYS_PAGES] = free_frames s - {p. p * 4096 < unat e}"
    unfolding k by (auto simp: up_iff free_frames_def)
  moreover have "reserve_range 0 e s = fold reserve_page [0..<min k MAX_PHYS_PAGES] s"
    by (simp add: reserve_range_def k_def)
  ultimately show ?thesis
    using fold_reserve [OF assms(1), of "[0..<min k MAX_PHYS_PAGES]"] by simp
qed

lemma unat_max_pages: "unat (of_nat MAX_PHYS_PAGES :: u32) = MAX_PHYS_PAGES"
  by (simp add: MAX_PHYS_PAGES_def)

lemma pmm_init_spec:
  assumes ret: "pmm_init m mbi kernel_end s = Some s'" and ke: "unat kernel_end \<le> 2 ^ 32 - 4096"
  shows "pmm_inv s'" "owned_frames s' = {}"
    "free_frames s' = offered_frames m mbi - {p. p * 4096 < unat kernel_end}"
    "unat (total_pages_count s') = card (offered_frames m mbi)"
proof -
  obtain s1 where s1: "mbi_tags m mbi (rd32 m mbi) 8 (pmm_reset s) = Some s1"
    using ret by (auto simp: pmm_init_def bind_eq_Some_conv)
  define s2 where "s2 = (if total_pages_count s1 = 0
    then fold bit_clear [0..<MAX_PHYS_PAGES] (s1\<lparr>total_pages_count := of_nat MAX_PHYS_PAGES\<rparr>) else s1)"
  have s': "s' = reserve_range 0 kernel_end s2"
    using ret s1 by (simp add: pmm_init_def s2_def Let_def)
  have c1: "counting s1" and f1: "free_frames s1 = {p. p < MAX_PHYS_PAGES \<and> mbi_page m mbi (rd32 m mbi) 8 p}"
    using mbi_tags_spec [OF s1] reset_counting [of s] by auto
  have s2: "accounted s2 \<and> free_frames s2 = offered_frames m mbi \<and>
    unat (total_pages_count s2) = card (offered_frames m mbi)"
  proof (cases "total_pages_count s1 = 0")
    case True
    then have e: "free_frames s1 = {}" using c1 by (simp add: counting_def)
    have "free_frames s2 = {..<MAX_PHYS_PAGES}"
      using True e fold_clear by (auto simp: s2_def free_frames_def)
    moreover have "unat (total_pages_count s2) = MAX_PHYS_PAGES" "used_pages_count s2 = 0" "owned_frames s2 = {}"
      using True c1 fold_clear by (auto simp: s2_def counting_def owned_frames_def unat_max_pages)
    ultimately show ?thesis using e f1 by (simp add: accounted_def offered_frames_def Let_def)
  next
    case False
    then have "free_frames s1 \<noteq> {}" using c1 by (auto simp: counting_def unat_eq_zero)
    then show ?thesis using False c1 f1 counting_total [OF c1]
      by (auto simp: s2_def accounted_def counting_def offered_frames_def Let_def)
  qed
  have rr: "accounted s' \<and> free_frames s' = free_frames s2 - {p. p * 4096 < unat kernel_end}
    \<and> total_pages_count s' = total_pages_count s2"
    using reserve_range_spec [OF _ ke] s2 s' by blast
  show "pmm_inv s'" "owned_frames s' = {}"
    "free_frames s' = offered_frames m mbi - {p. p * 4096 < unat kernel_end}"
    "unat (total_pages_count s') = card (offered_frames m mbi)"
    using rr s2 accounted_inv by (auto simp: accounted_def)
qed

section \<open>Runs of the allocator\<close>

text \<open>
  Any interleaving of the public operations: allocations at any time, retains and releases of
  pages that are held.
\<close>

inductive pmm_step :: "pmm \<Rightarrow> pmm \<Rightarrow> bool" where
  alloc: "pmm_step s (snd (pmm_alloc_page s))"
| retain: "refcount s (pfn a) \<noteq> 0 \<Longrightarrow> pmm_step s (pmm_retain_page a s)"
| free: "refcount s (pfn a) \<noteq> 0 \<Longrightarrow> pmm_step s (pmm_free_page a s)"

inductive pmm_reachable :: "(u32 \<Rightarrow> u8) \<Rightarrow> u32 \<Rightarrow> u32 \<Rightarrow> pmm \<Rightarrow> bool"
  for m mbi kernel_end where
  init: "pmm_init m mbi kernel_end s0 = Some s \<Longrightarrow> pmm_reachable m mbi kernel_end s"
| step: "pmm_reachable m mbi kernel_end s \<Longrightarrow> pmm_step s s' \<Longrightarrow> pmm_reachable m mbi kernel_end s'"

lemma pmm_step_inv: "pmm_step s s' \<Longrightarrow> pmm_inv s \<Longrightarrow> pmm_inv s'"
proof (induction rule: pmm_step.induct)
  case (alloc s)
  then show ?case by (metis pa.alloc_inv prod.collapse)
qed (blast intro: pa.retain_inv pa.free_inv)+

text \<open>The frames a state can ever hand out only shrink from what the memory map offered.\<close>

definition managed_frames :: "pmm \<Rightarrow> nat set" where
  "managed_frames s = free_frames s \<union> owned_frames s"

lemma alloc_managed:
  assumes "pmm_inv s"
  shows "managed_frames (snd (pmm_alloc_page s)) = managed_frames s"
proof (cases rule: pmm_alloc_cases [of s])
  case none
  then show ?thesis by simp
next
  case (some p)
  then have "p < MAX_PHYS_PAGES" using pmm_invD(1) [OF assms] by (simp add: MAX_PHYS_PAGES_def)
  with some show ?thesis
    by (auto simp: managed_frames_def free_frames_take owned_frames_take) (auto simp: free_frames_def)
qed

lemma retain_managed:
  assumes "pmm_inv s" "pfn a \<in> owned_frames s"
  shows "managed_frames (pmm_retain_page a s) = managed_frames s"
  using assms inc_refs_nonzero
  by (auto simp: pmm_retain_owned managed_frames_def free_frames_def owned_frames_def)

lemma free_managed:
  assumes "pmm_inv s" "pfn a \<in> owned_frames s"
  shows "managed_frames (pmm_free_page a s) = managed_frames s"
  using assms by (auto simp: pmm_free_owned managed_frames_def free_frames_def owned_frames_def)

lemma pmm_step_managed: "pmm_step s s' \<Longrightarrow> pmm_inv s \<Longrightarrow> managed_frames s' = managed_frames s"
  by (induction rule: pmm_step.induct)
     (auto simp: alloc_managed retain_managed free_managed refcount_pos)

section \<open>Properties\<close>

text \<open>
  A small machine for the witnesses: sixteen frames, the first two reserved for the kernel.
\<close>

definition pmm_example :: pmm where
  "pmm_example = \<lparr>page_bitmap = (\<lambda>i. if i = 0 then 3 else if i = 1 then 0 else 0xff),
     page_refs = (\<lambda>_. 0), total_pages_count = 16, used_pages_count = 2\<rparr>"

lemma pmm_example_free: "free_frames pmm_example = {2..<16}"
proof -
  have "bit_test p pmm_example \<longleftrightarrow> p < 2 \<or> 16 \<le> p" for p
  proof (cases "p < 16")
    case True
    then have "p \<in> set [0..<16]" by simp
    then show ?thesis by (simp add: upt_rec bit_test_def pmm_example_def) (elim disjE; simp)
  next
    case False
    then have "page_bitmap pmm_example (p div 8) = -1" by (simp add: pmm_example_def div_eq_0_iff)
    with False show ?thesis by (simp add: bit_test_iff)
  qed
  then have "free_frames pmm_example = {p. p < 65536 \<and> 2 \<le> p \<and> p < 16}"
    by (simp add: free_frames_def MAX_PHYS_PAGES_def not_less not_le)
  also have "\<dots> = {2..<16}" by auto
  finally show ?thesis .
qed

lemma pmm_example_inv: "pmm_inv pmm_example"
  by (simp add: pmm_inv_def pmm_example_free) (simp add: pmm_example_def owned_frames_def MAX_PHYS_PAGES_def)

lemma pmm_example_alloc: "pmm_alloc_page pmm_example = (0x2000, take_frame 2 pmm_example)"
proof -
  have "[1..<unat (total_pages_count pmm_example)] = 1 # 2 # [3..<16]"
    by (simp add: pmm_example_def upt_conv_Cons)
  moreover have "bit_test 1 pmm_example" "\<not> bit_test 2 pmm_example"
    by (simp_all add: bit_test_def pmm_example_def)
  ultimately show ?thesis by (simp only: pmm_alloc_page_def find.simps take_frame_def) simp
qed

text \<open>
  A Multiboot2 structure with one memory-map tag whose single entry offers the first 64 KiB.
\<close>

definition mbi_example :: "u32 \<Rightarrow> u8" where
  "mbi_example = (\<lambda>_. 0)(0 := 56, 8 := 6, 12 := 40, 16 := 24, 34 := 1, 40 := 1, 52 := 8)"

lemma mbi_example_sane: "mbi_sane mbi_example 0"
proof -
  have size: "rd32 mbi_example 0 = 56" by (simp add: rd32_def mbi_example_def)
  have "unat (rd32 mbi_example (off + 4)) < 2 ^ 30 \<and> (rd32 mbi_example off = TAG_MMAP \<longrightarrow>
      rd32 mbi_example (off + 8) \<noteq> 0 \<and> unat (rd32 mbi_example (off + 8)) < 2 ^ 30)"
    if "8 dvd unat off" "8 \<le> unat off" "unat off + 8 \<le> 56" for off
  proof -
    have "unat off = 8 \<or> unat off = 16 \<or> unat off = 24 \<or> unat off = 32 \<or> unat off = 40 \<or> unat off = 48"
      using that by presburger
    then have "off = 8 \<or> off = 16 \<or> off = 24 \<or> off = 32 \<or> off = 40 \<or> off = 48"
      by (simp add: word_unat_eq_iff)
    then show ?thesis by (elim disjE) (simp_all add: rd32_def mbi_example_def TAG_MMAP_def)
  qed
  then show ?thesis by (simp add: mbi_sane_def size)
qed

text \<open>C1: On a Multiboot2 structure whose sizes do not wrap, \<open>pmm_init\<close> returns, and then the
  allocatable frames are exactly those that an available memory-map entry covers (all frames
  when the map offers none), less every frame that overlaps the kernel image; the counters
  account for the bitmap.\<close>

theorem pmm_init_correct:
  assumes "mbi_sane m mbi" and "unat kernel_end \<le> 2 ^ 32 - 4096"
  shows "\<exists>s'. pmm_init m mbi kernel_end s = Some s' \<and> pmm_inv s' \<and> owned_frames s' = {} \<and>
    free_frames s' = offered_frames m mbi - {p. p * 4096 < unat kernel_end} \<and>
    unat (total_pages_count s') = card (offered_frames m mbi)"
proof -
  obtain s1 where "mbi_tags m mbi (rd32 m mbi) 8 (pmm_reset s) = Some s1"
    using mbi_tags_total [OF assms(1), of 8 "pmm_reset s"] by auto
  then have "pmm_init m mbi kernel_end s = Some (the (pmm_init m mbi kernel_end s))"
    by (simp add: pmm_init_def Let_def)
  with pmm_init_spec [OF this assms(2)] show ?thesis by blast
qed

theorem pmm_init_correct_witness:
  "mbi_sane mbi_example 0 \<and> unat (0x2000 :: u32) \<le> 2 ^ 32 - 4096 \<and>
   (\<exists>s'. pmm_init mbi_example 0 0x2000 pmm_example = Some s' \<and> pmm_inv s' \<and>
      0 \<notin> free_frames s' \<and> 1 \<notin> free_frames s')"
proof -
  have ke: "unat (0x2000 :: u32) \<le> 2 ^ 32 - 4096" by simp
  show ?thesis
    using mbi_example_sane ke pmm_init_correct [OF mbi_example_sane ke, of pmm_example] by auto
qed

text \<open>C2: \<open>pmm_alloc_page\<close> hands out the lowest free frame above frame 0, page aligned, held by
  nobody, with one reference and marked used, and keeps the invariant; it answers 0 exactly
  when no frame below the total is free, and then changes nothing.\<close>

theorem pmm_alloc_page_correct:
  assumes "pmm_inv s" and "pmm_alloc_page s = (a, s')"
  shows "pmm_inv s' \<and>
    (if a = 0 then s' = s \<and> (\<forall>p. 0 < p \<and> p < unat (total_pages_count s) \<longrightarrow> bit_test p s)
     else page_aligned a \<and> 0 < pfn a \<and> pfn a < unat (total_pages_count s) \<and>
       \<not> bit_test (pfn a) s \<and> (\<forall>q. 0 < q \<and> q < pfn a \<longrightarrow> bit_test q s) \<and>
       refcount s (pfn a) = 0 \<and> refcount s' = (refcount s)(pfn a := 1) \<and>
       (\<forall>q. bit_test q s' \<longleftrightarrow> q = pfn a \<or> bit_test q s) \<and>
       used_pages_count s' = used_pages_count s + 1)"
proof (cases "a = 0")
  case True
  then have "s' = s" using pa.alloc_none assms by blast
  moreover have "bit_test p s" if "0 < p" "p < unat (total_pages_count s)" for p
  proof (cases rule: pmm_alloc_cases [of s])
    case (some q)
    have "of_nat q * 4096 = (0 :: u32)" using some(5) assms(2) True by (simp only: prod.inject)
    moreover have "q < 65536" using some(2) pmm_invD(1) [OF assms(1)] by linarith
    ultimately show ?thesis using frame_address_nonzero some(1) by blast
  next
    case none
    show ?thesis by (rule none(2) [OF that])
  qed
  ultimately show ?thesis using True assms(1) by simp
next
  case False
  note some = pmm_alloc_some [OF assms False]
  show ?thesis
    unfolding if_not_P [OF False]
  proof (intro conjI allI impI)
    show "\<not> bit_test (pfn a) s" using some(2) by (simp add: free_frames_def)
    show "bit_test q s' \<longleftrightarrow> q = pfn a \<or> bit_test q s" for q by (simp add: some(5))
    show "used_pages_count s' = used_pages_count s + 1" by (simp add: some(5))
    show "refcount s (pfn a) = 0" "refcount s' = (refcount s)(pfn a := 1)"
      by (fact pa.alloc_fresh [OF assms False] pa.alloc_refs [OF assms False])+
    show "bit_test q s" if "0 < q \<and> q < pfn a" for q using some(7) that by blast
  qed (fact pa.alloc_inv [OF assms] some(1) some(3) some(4))+
qed

theorem pmm_alloc_page_correct_witness:
  "pmm_inv pmm_example \<and> pmm_alloc_page pmm_example = (0x2000, take_frame 2 pmm_example) \<and>
   pmm_inv (take_frame 2 pmm_example) \<and> \<not> bit_test (pfn 0x2000) pmm_example"
  using pmm_alloc_page_correct [OF pmm_example_inv pmm_example_alloc]
    pmm_example_inv pmm_example_alloc by simp

text \<open>C3: Releasing a page right after it was allocated restores the allocator exactly.\<close>

theorem pmm_alloc_free_roundtrip:
  assumes "pmm_inv s" and "pmm_alloc_page s = (a, s')" and "a \<noteq> 0"
  shows "pmm_free_page a s' = s"
proof -
  note some = pmm_alloc_some [OF assms]
  have "page_refs s (pfn a) = 0"
    using pa.alloc_fresh [OF assms] some(2)
    by (simp add: refcount_def free_frames_def unat_eq_zero)
  moreover have "pfn a \<in> owned_frames s'"
    using pa.alloc_refs [OF assms] refcount_pos [of s' "pfn a"] by simp
  ultimately show ?thesis
    using pmm_free_owned [OF pmm_alloc_inv [OF assms(1,2)]] some(2,5) drop_take_frame
    by (simp add: free_frames_def)
qed

theorem pmm_alloc_free_roundtrip_witness:
  "pmm_inv pmm_example \<and> pmm_alloc_page pmm_example = (0x2000, take_frame 2 pmm_example) \<and>
   pmm_free_page 0x2000 (take_frame 2 pmm_example) = pmm_example"
  using pmm_alloc_free_roundtrip [OF pmm_example_inv pmm_example_alloc]
    pmm_example_inv pmm_example_alloc by simp

text \<open>A retain followed by a release restores the allocator, as long as the 16-bit count is
  not saturated.\<close>

theorem pmm_retain_free_roundtrip:
  assumes "pmm_inv s" and "refcount s (pfn a) \<noteq> 0" and "refcount s (pfn a) < 65535"
  shows "pmm_free_page a (pmm_retain_page a s) = s"
proof -
  have o: "pfn a \<in> owned_frames s" using assms(2) refcount_owned by simp
  then have r0: "page_refs s (pfn a) \<noteq> 0" and m: "pfn a < MAX_PHYS_PAGES"
    by (auto simp: owned_frames_def)
  then have lt: "unat (page_refs s (pfn a)) < 65535" using assms(3) by (simp add: refcount_def)
  then have inc: "unat (page_refs s (pfn a) + 1) = Suc (unat (page_refs s (pfn a)))"
    by (rule unat_inc) simp
  then have "1 < page_refs s (pfn a) + 1" using r0 by (simp add: word_less_nat_alt unat_gt_0)
  moreover have "page_refs s (pfn a) \<noteq> 0xffff" using lt by auto
  moreover have "pfn a \<in> owned_frames (pmm_retain_page a s)"
    using pa.retain_refs [OF assms] refcount_owned [of "pmm_retain_page a s" "pfn a"] by simp
  ultimately show ?thesis
    using pmm_free_owned [OF pmm_retain_inv [OF assms(1) o]] pmm_retain_owned [OF assms(1) o]
    by (simp add: fun_upd_idem)
qed

theorem pmm_retain_free_roundtrip_witness:
  "pmm_inv (take_frame 2 pmm_example) \<and> refcount (take_frame 2 pmm_example) (pfn 0x2000) = 1 \<and>
   pmm_free_page 0x2000 (pmm_retain_page 0x2000 (take_frame 2 pmm_example)) = take_frame 2 pmm_example"
proof -
  have i: "pmm_inv (take_frame 2 pmm_example)"
    by (rule pa.alloc_inv [OF pmm_example_inv pmm_example_alloc])
  have r: "refcount (take_frame 2 pmm_example) (pfn 0x2000) = 1"
    using pa.alloc_refs [OF pmm_example_inv pmm_example_alloc] by simp
  show ?thesis using i r pmm_retain_free_roundtrip [OF i, of "0x2000"] by simp
qed

text \<open>C4: In every state reachable from initialisation by any sequence of allocations, retains
  and releases of held pages, the invariant holds, \<open>pmm_free_pages\<close> is the number of free
  frames, no frame outside the memory map's offer or inside the kernel image is free or
  held, and an allocation that succeeds returns the address of a page that no one holds, that
  the memory map offers and that lies above the kernel image.\<close>

theorem pmm_reachable_safe:
  assumes "pmm_reachable m mbi kernel_end s" and "unat kernel_end \<le> 2 ^ 32 - 4096"
  shows "pmm_inv s \<and> unat (pmm_free_pages s) = card (free_frames s) \<and>
    managed_frames s = offered_frames m mbi - {p. p * 4096 < unat kernel_end} \<and>
    (\<forall>a s'. pmm_alloc_page s = (a, s') \<and> a \<noteq> 0 \<longrightarrow>
      unat a = pfn a * 4096 \<and> refcount s (pfn a) = 0 \<and> pfn a \<in> offered_frames m mbi \<and> unat kernel_end \<le> unat a \<and>
      refcount s' = (refcount s)(pfn a := 1))"
proof -
  have *: "pmm_inv s \<and> managed_frames s = offered_frames m mbi - {p. p * 4096 < unat kernel_end}"
    using assms
  proof (induction rule: pmm_reachable.induct)
    case (init s0 s)
    then show ?case using pmm_init_spec [OF init(1,2)] by (simp add: managed_frames_def)
  next
    case (step s s')
    then show ?case by (metis pmm_step_inv pmm_step_managed)
  qed
  then have "card (free_frames s) + unat (used_pages_count s) = unat (total_pages_count s)"
    using pmm_invD(2) by blast
  then have "unat (pmm_free_pages s) = card (free_frames s)"
    unfolding pmm_free_pages_def by (subst unat_sub) (auto simp: word_le_nat_alt)
  moreover have "unat a = pfn a * 4096 \<and> refcount s (pfn a) = 0 \<and> pfn a \<in> offered_frames m mbi \<and>
      unat kernel_end \<le> unat a \<and> refcount s' = (refcount s)(pfn a := 1)"
    if a: "pmm_alloc_page s = (a, s')" "a \<noteq> 0" for a s'
  proof -
    note A = pmm_alloc_some [OF conjunct1 [OF *] a]
    have "pfn a \<in> managed_frames s" using A(2) by (simp add: managed_frames_def)
    then have "pfn a \<in> offered_frames m mbi" "unat kernel_end \<le> pfn a * 4096" using * by auto
    moreover have "unat a = pfn a * 4096"
      using A(2) unat_frame_address [of "pfn a"] by (subst A(6)) (simp add: free_frames_def MAX_PHYS_PAGES_def)
    ultimately show ?thesis
      using pa.alloc_fresh [OF conjunct1 [OF *] a] pa.alloc_refs [OF conjunct1 [OF *] a] by simp
  qed
  ultimately show ?thesis using * by blast
qed

theorem pmm_reachable_safe_witness:
  "\<exists>s. pmm_reachable mbi_example 0 0x2000 s \<and> pmm_inv s \<and>
     managed_frames s = offered_frames mbi_example 0 - {p. p * 4096 < 0x2000} \<and>
     (\<forall>a s'. pmm_alloc_page s = (a, s') \<and> a \<noteq> 0 \<longrightarrow> 0x2000 \<le> unat a)"
proof -
  obtain s1 where "mbi_tags mbi_example 0 (rd32 mbi_example 0) 8 (pmm_reset pmm_example) = Some s1"
    using mbi_tags_total [OF mbi_example_sane, of 8 "pmm_reset pmm_example"] by auto
  then obtain s where "pmm_init mbi_example 0 0x2000 pmm_example = Some s"
    by (simp add: pmm_init_def Let_def)
  then have r: "pmm_reachable mbi_example 0 0x2000 (snd (pmm_alloc_page s))"
    by (rule pmm_reachable.step [OF pmm_reachable.init pmm_step.alloc])
  show ?thesis using r pmm_reachable_safe [OF r] by auto
qed

end
