(* ===== verification/Vmm.thy ===== *)
theory Vmm
  imports Pmm
begin

text \<open>
  The virtual memory manager, \<open>mm/vmm.c\<close>: the kernel page tables, the table of address
  spaces with their user page tables and VMAs, demand paging and copy-on-write. A pointer to
  an address space is \<open>None\<close> (null) or the index of its slot in \<open>spaces\<close>. A page-directory
  entry names the table it points to instead of the table's link-time address. \<open>phys\<close> is the
  contents of physical memory; kernel loads and stores go through the tables that \<open>cr3\<close>
  selects (the kernel runs with write protection off, so a store needs a present page only).
  The TLB is not modelled: \<open>invlpg\<close> and the reload of \<open>cr3\<close> keep it coherent.
\<close>

section \<open>State\<close>

record vma =
  vma_start :: u32
  vma_end :: u32
  vma_flags :: u32
  vma_used :: bool

datatype ktable = FirstTable | HeapTable | LapicTable | IoapicTable

datatype pde = PdeNone | PdeKernel ktable u32 | PdeUser nat u32

record address_space =
  page_directory :: "nat \<Rightarrow> pde"
  user_tables :: "nat \<Rightarrow> nat \<Rightarrow> u32"
  table_used :: "nat \<Rightarrow> bool"
  vmas :: "nat \<Rightarrow> vma"
  refs :: u32

record vmm =
  kernel_directory :: "nat \<Rightarrow> pde"
  ktables :: "ktable \<Rightarrow> nat \<Rightarrow> u32"
  kernel_tables :: "nat \<Rightarrow> ktable option"
  spaces :: "nat \<Rightarrow> address_space"
  space_used :: "nat \<Rightarrow> bool"
  current_space :: "nat option"
  cr3 :: "nat option"
  copy_page :: "nat \<Rightarrow> u8"

record mm =
  pm :: pmm
  vm :: vmm
  phys :: "u32 \<Rightarrow> u8"

type_synonym space_ptr = "nat option"

definition MAX_SPACES :: nat where "MAX_SPACES = 32"
definition VMM_MAX_VMAS :: nat where "VMM_MAX_VMAS = 64"

definition dir_index :: "u32 \<Rightarrow> nat" where
  "dir_index virt = unat (drop_bit 22 virt)"

definition table_index :: "u32 \<Rightarrow> nat" where
  "table_index virt = unat (drop_bit 12 virt AND 1023)"

definition frame_of :: "u32 \<Rightarrow> u32" where
  "frame_of x = x AND NOT 0xfff"

section \<open>Kernel mappings\<close>

definition vmm_map :: "u32 \<Rightarrow> u32 \<Rightarrow> u32 \<Rightarrow> vmm \<Rightarrow> vmm" where
  "vmm_map virt ph flags v =
     (case kernel_tables v (dir_index virt) of
        None \<Rightarrow> v
      | Some t \<Rightarrow> v\<lparr>ktables := (ktables v)(t := (ktables v t)
          (table_index virt := frame_of ph OR (flags OR PAGE_PRESENT)))\<rparr>)"

definition vmm_unmap :: "u32 \<Rightarrow> vmm \<Rightarrow> vmm" where
  "vmm_unmap virt v =
     (case kernel_tables v (dir_index virt) of
        None \<Rightarrow> v
      | Some t \<Rightarrow> v\<lparr>ktables := (ktables v)(t := (ktables v t)(table_index virt := 0))\<rparr>)"

definition vmm_get_physical :: "u32 \<Rightarrow> vmm \<Rightarrow> u32" where
  "vmm_get_physical virt v =
     (case kernel_tables v (dir_index virt) of
        None \<Rightarrow> 0
      | Some t \<Rightarrow> let e = ktables v t (table_index virt) in
          if e AND PAGE_PRESENT = 0 then 0 else frame_of e OR (virt AND 0xfff))"

definition vmm_init :: "vmm \<Rightarrow> vmm" where
  "vmm_init v =
     (let rw = PAGE_PRESENT OR PAGE_WRITE;
          first = (\<lambda>i. if i < 1024 then of_nat i * PAGE_SIZE OR PAGE_PRESENT OR PAGE_WRITE
                       else ktables v FirstTable i);
          zero = (\<lambda>t i. if i < 1024 then 0 else ktables v t i);
          lapic = (zero LapicTable)
            (table_index 0xfee00000 := 0xfee00000 OR PAGE_PRESENT OR PAGE_WRITE,
             table_index 0xfec00000 := 0xfec00000 OR PAGE_PRESENT OR PAGE_WRITE)
      in v\<lparr>kernel_directory :=
             (\<lambda>i. if i < 1024 then PdeNone else kernel_directory v i)
               (0 := PdeKernel FirstTable rw, dir_index 0xd0000000 := PdeKernel HeapTable rw,
                dir_index 0xfee00000 := PdeKernel LapicTable rw,
                dir_index 0xfec00000 := PdeKernel LapicTable rw),
           ktables := (\<lambda>t. case t of FirstTable \<Rightarrow> first | LapicTable \<Rightarrow> lapic | _ \<Rightarrow> zero t),
           kernel_tables :=
             (\<lambda>i. if i < 1024 then None else kernel_tables v i)
               (0 := Some FirstTable, dir_index 0xd0000000 := Some HeapTable,
                dir_index 0xfee00000 := Some LapicTable,
                dir_index 0xfec00000 := Some LapicTable),
           current_space := None, cr3 := None\<rparr>)"

section \<open>Address spaces\<close>

definition fresh_space :: "vmm \<Rightarrow> address_space \<Rightarrow> address_space" where
  "fresh_space v s = s\<lparr>
     page_directory := (\<lambda>j. if j < 1024 then kernel_directory v j else page_directory s j),
     table_used := (\<lambda>t. if t < 8 then False else table_used s t),
     user_tables := (\<lambda>t j. if t < 8 \<and> j < 1024 then 0 else user_tables s t j),
     vmas := (\<lambda>i. if i < VMM_MAX_VMAS then (vmas s i)\<lparr>vma_used := False\<rparr> else vmas s i),
     refs := 1\<rparr>"

definition vmm_create_address_space :: "vmm \<Rightarrow> space_ptr \<times> vmm" where
  "vmm_create_address_space v =
     (case List.find (\<lambda>i. \<not> space_used v i) [0..<MAX_SPACES] of
        None \<Rightarrow> (None, v)
      | Some i \<Rightarrow> (Some i, v\<lparr>space_used := (space_used v)(i := True),
                            spaces := (spaces v)(i := fresh_space v (spaces v i))\<rparr>))"

definition upd_space :: "nat \<Rightarrow> (address_space \<Rightarrow> address_space) \<Rightarrow> vmm \<Rightarrow> vmm" where
  "upd_space i f v = v\<lparr>spaces := (spaces v)(i := f (spaces v i))\<rparr>"

definition vmm_retain_address_space :: "space_ptr \<Rightarrow> vmm \<Rightarrow> vmm" where
  "vmm_retain_address_space sp v =
     (case sp of None \<Rightarrow> v | Some i \<Rightarrow> upd_space i (\<lambda>s. s\<lparr>refs := refs s + 1\<rparr>) v)"

definition vmm_switch_address_space :: "space_ptr \<Rightarrow> vmm \<Rightarrow> vmm" where
  "vmm_switch_address_space sp v = v\<lparr>current_space := sp, cr3 := sp\<rparr>"

definition vmm_current_address_space :: "vmm \<Rightarrow> space_ptr" where
  "vmm_current_address_space v = current_space v"

text \<open>The entries the teardown and clone loops visit, in their order.\<close>

definition present_slots :: "address_space \<Rightarrow> (nat \<times> nat) list" where
  "present_slots s = [(t, j). t \<leftarrow> [0..<8], table_used s t, j \<leftarrow> [0..<1024],
     user_tables s t j AND PAGE_PRESENT \<noteq> 0]"

definition vmm_destroy_address_space :: "space_ptr \<Rightarrow> mm \<Rightarrow> mm" where
  "vmm_destroy_address_space sp m =
     (case sp of None \<Rightarrow> m
      | Some i \<Rightarrow>
        let s = spaces (vm m) i in
        if refs s = 0 then m
        else let v1 = upd_space i (\<lambda>s. s\<lparr>refs := refs s - 1\<rparr>) (vm m) in
        if refs s - 1 \<noteq> 0 then m\<lparr>vm := v1\<rparr>
        else if i < MAX_SPACES \<and> space_used v1 i then
          let v2 = (if current_space v1 = Some i then vmm_switch_address_space None v1 else v1)
          in m\<lparr>pm := fold (\<lambda>(t, j). pmm_free_page (frame_of (user_tables s t j)))
                       (present_slots s) (pm m),
               vm := v2\<lparr>space_used := (space_used v2)(i := False)\<rparr>\<rparr>
        else m\<lparr>vm := v1\<rparr>)"

section \<open>User mappings\<close>

definition user_range :: "u32 \<Rightarrow> bool" where
  "user_range virt \<longleftrightarrow> \<not> (virt < 0x400000 \<or> virt \<ge> 0xc0000000)"

definition vmm_map_user :: "space_ptr \<Rightarrow> u32 \<Rightarrow> u32 \<Rightarrow> u32 \<Rightarrow> vmm \<Rightarrow> int \<times> vmm" where
  "vmm_map_user sp virt ph flags v =
     (case sp of None \<Rightarrow> (-1, v)
      | Some i \<Rightarrow>
        let di = dir_index virt; ti = table_index virt in
        if \<not> user_range virt \<or> di < 1 \<or> di > 8 then (-1, v)
        else let slot = di - 1;
          open_table = (\<lambda>s. if \<not> table_used s slot
            then s\<lparr>table_used := (table_used s)(slot := True),
                   page_directory := (page_directory s)
                     (di := PdeUser slot (PAGE_PRESENT OR PAGE_WRITE OR PAGE_USER))\<rparr>
            else s);
          set_pte = (\<lambda>s. s\<lparr>user_tables := (user_tables s)(slot := (user_tables s slot)
            (ti := frame_of ph OR (flags OR PAGE_PRESENT OR PAGE_USER)))\<rparr>)
        in (0, upd_space i (\<lambda>s. set_pte (open_table s)) v))"

definition vmm_unmap_user :: "space_ptr \<Rightarrow> u32 \<Rightarrow> mm \<Rightarrow> int \<times> mm" where
  "vmm_unmap_user sp virt m =
     (case sp of None \<Rightarrow> (-1, m)
      | Some i \<Rightarrow>
        let di = dir_index virt; ti = table_index virt; s = spaces (vm m) i in
        if \<not> user_range virt \<or> di < 1 \<or> di > 8 \<or> \<not> table_used s (di - 1) then (-1, m)
        else let pte = user_tables s (di - 1) ti in
        if pte AND PAGE_PRESENT = 0 then (-1, m)
        else (0, m\<lparr>pm := pmm_free_page (frame_of pte) (pm m),
                   vm := upd_space i (\<lambda>s. s\<lparr>user_tables := (user_tables s)
                     (di - 1 := (user_tables s (di - 1))(ti := 0))\<rparr>) (vm m)\<rparr>))"

definition vmm_get_user_physical :: "space_ptr \<Rightarrow> u32 \<Rightarrow> vmm \<Rightarrow> u32" where
  "vmm_get_user_physical sp virt v =
     (case sp of None \<Rightarrow> 0
      | Some i \<Rightarrow>
        let di = dir_index virt; ti = table_index virt; s = spaces v i in
        if \<not> user_range virt \<or> di < 1 \<or> di > 8 \<or> \<not> table_used s (di - 1) then 0
        else let pte = user_tables s (di - 1) ti in
        if pte AND PAGE_PRESENT = 0 \<or> pte AND PAGE_USER = 0 then 0
        else frame_of pte OR (virt AND 0xfff))"

section \<open>Kernel access to memory\<close>

text \<open>
  Address translation of the MMU for a supervisor access, through the directory in \<open>cr3\<close>.
\<close>

definition hw_pte :: "vmm \<Rightarrow> u32 \<Rightarrow> u32" where
  "hw_pte v va =
     (let dir = (case cr3 v of None \<Rightarrow> kernel_directory v
                 | Some i \<Rightarrow> page_directory (spaces v i))
      in case dir (dir_index va) of
           PdeNone \<Rightarrow> 0
         | PdeKernel t flags \<Rightarrow>
             if flags AND PAGE_PRESENT = 0 then 0 else ktables v t (table_index va)
         | PdeUser slot flags \<Rightarrow>
             if flags AND PAGE_PRESENT = 0 then 0
             else (case cr3 v of None \<Rightarrow> 0
                   | Some i \<Rightarrow> user_tables (spaces v i) slot (table_index va)))"

definition translate :: "vmm \<Rightarrow> u32 \<Rightarrow> u32 option" where
  "translate v va =
     (let entry = hw_pte v va
      in if entry AND PAGE_PRESENT = 0 then None
         else Some (frame_of entry OR (va AND 0xfff)))"

definition vload :: "u32 \<Rightarrow> mm \<Rightarrow> u8 option" where
  "vload va m = map_option (phys m) (translate (vm m) va)"

definition vstore :: "u32 \<Rightarrow> u8 \<Rightarrow> mm \<Rightarrow> mm option" where
  "vstore va b m = map_option (\<lambda>a. m\<lparr>phys := (phys m)(a := b)\<rparr>) (translate (vm m) va)"

text \<open>
  \<open>copy_mem\<close> between a virtual address and the static buffer \<open>copy_page\<close>, byte by byte in
  ascending order; \<open>None\<close> when a byte is not mapped.
\<close>

primrec copy_in :: "nat \<Rightarrow> u32 \<Rightarrow> mm \<Rightarrow> mm option" where
  "copy_in 0 va m = Some m"
| "copy_in (Suc n) va m = Option.bind (copy_in n va m) (\<lambda>m1.
     map_option (\<lambda>b. m1\<lparr>vm := (vm m1)\<lparr>copy_page := (copy_page (vm m1))(n := b)\<rparr>\<rparr>)
       (vload (va + of_nat n) m1))"

primrec copy_out :: "nat \<Rightarrow> u32 \<Rightarrow> mm \<Rightarrow> mm option" where
  "copy_out 0 va m = Some m"
| "copy_out (Suc n) va m = Option.bind (copy_out n va m) (\<lambda>m1.
     vstore (va + of_nat n) (copy_page (vm m1) n) m1)"

primrec zero_out :: "nat \<Rightarrow> u32 \<Rightarrow> mm \<Rightarrow> mm option" where
  "zero_out 0 va m = Some m"
| "zero_out (Suc n) va m = Option.bind (zero_out n va m) (\<lambda>m1. vstore (va + of_nat n) 0 m1)"

text \<open>An access the tables do not map faults inside the kernel.\<close>

definition or_fault :: "mm option \<Rightarrow> mm outcome" where
  "or_fault r = (case r of None \<Rightarrow> Panic ''unhandled page fault'' | Some m \<Rightarrow> Ret m)"

definition bind_outcome :: "'a outcome \<Rightarrow> ('a \<Rightarrow> 'b outcome) \<Rightarrow> 'b outcome" where
  "bind_outcome r f = (case r of Panic e \<Rightarrow> Panic e | Ret x \<Rightarrow> f x)"

definition on_vm :: "(vmm \<Rightarrow> vmm) \<Rightarrow> mm \<Rightarrow> mm" where
  "on_vm f m = m\<lparr>vm := f (vm m)\<rparr>"

section \<open>Page faults\<close>

definition in_vma :: "address_space \<Rightarrow> u32 \<Rightarrow> nat \<Rightarrow> bool" where
  "in_vma s page vi \<longleftrightarrow> vma_used (vmas s vi) \<and> page \<ge> vma_start (vmas s vi) \<and> page < vma_end (vmas s vi)"

definition demand_fault :: "nat \<Rightarrow> u32 \<Rightarrow> u32 \<Rightarrow> mm \<Rightarrow> mm outcome" where
  "demand_fault i page flags m =
     (case pmm_alloc_page (pm m) of (new_page, p1) \<Rightarrow>
      if new_page = 0 then Panic ''out of memory resolving demand page''
      else bind_outcome (or_fault (zero_out 4096 0x003ff000 (m\<lparr>pm := p1\<rparr>))) (\<lambda>m1.
        let m2 = on_vm (vmm_map 0x003ff000 new_page PAGE_WRITE) m1;
            m3 = on_vm (\<lambda>v. snd (vmm_map_user (Some i) page new_page (flags OR PAGE_WRITE) v)) m2
        in Ret (m3\<lparr>pm := pmm_free_page new_page (pm m3)\<rparr>)))"

definition cow_fault :: "nat \<Rightarrow> u32 \<Rightarrow> u32 \<Rightarrow> mm \<Rightarrow> mm outcome" where
  "cow_fault i page pte m =
     (case pmm_alloc_page (pm m) of (new_page, p1) \<Rightarrow>
      if new_page = 0 then Panic ''out of memory resolving COW fault''
      else
        let m1 = on_vm (vmm_map 0x003ff000 (frame_of pte) 0) (m\<lparr>pm := p1\<rparr>) in
        bind_outcome (or_fault (copy_in 4096 0x003ff000 m1)) (\<lambda>m2.
        let m3 = on_vm (vmm_map 0x003ff000 new_page PAGE_WRITE) m2 in
        bind_outcome (or_fault (copy_out 4096 0x003ff000 m3)) (\<lambda>m4.
        let m5 = on_vm (vmm_map 0x003ff000 0x003ff000 PAGE_WRITE) m4;
            slot = dir_index page - 1; ti = table_index page;
            m6 = on_vm (upd_space i (\<lambda>s. s\<lparr>user_tables := (user_tables s)(slot :=
              (user_tables s slot)
                (ti := new_page OR PAGE_PRESENT OR PAGE_USER OR PAGE_WRITE))\<rparr>)) m5
        in Ret (m6\<lparr>pm := pmm_free_page (frame_of pte) (pm m6)\<rparr>))))"

definition vmm_page_fault :: "u32 \<Rightarrow> u32 \<Rightarrow> u32 \<Rightarrow> mm \<Rightarrow> mm outcome" where
  "vmm_page_fault cr2 err address m =
     (let page = frame_of (if address \<noteq> 0 then address else cr2);
          di = dir_index page; ti = table_index page in
      case current_space (vm m) of
        None \<Rightarrow> Panic ''unhandled page fault''
      | Some i \<Rightarrow>
        let s = spaces (vm m) i;
            hit = List.find (in_vma s page) [0..<VMM_MAX_VMAS];
            cow = (if err AND 2 \<noteq> 0 \<and> err AND 4 \<noteq> 0 \<and> 1 \<le> di \<and> di \<le> 8 \<and> table_used s (di - 1)
                   then let pte = user_tables s (di - 1) ti in
                        if pte AND PAGE_COW \<noteq> 0 \<and> pte AND PAGE_PRESENT \<noteq> 0
                        then cow_fault i page pte m
                        else Panic ''unhandled page fault''
                   else Panic ''unhandled page fault'')
        in if 1 \<le> di \<and> di \<le> 8
           then (case hit of
               None \<Rightarrow> cow
             | Some vi \<Rightarrow>
                 if vmm_get_user_physical (Some i) page (vm m) = 0
                 then demand_fault i page (vma_flags (vmas s vi)) m
                 else cow)
           else cow)"

section \<open>Cloning\<close>

definition slot_va :: "nat \<Rightarrow> nat \<Rightarrow> u32" where
  "slot_va t j = (of_nat t + 1) * 0x400000 + of_nat j * PAGE_SIZE"

definition copy_vmas :: "nat \<Rightarrow> nat \<Rightarrow> vmm \<Rightarrow> vmm" where
  "copy_vmas src dst v = upd_space dst (\<lambda>d. d\<lparr>vmas := (\<lambda>i. if i < VMM_MAX_VMAS
     then vmas (spaces v src) i else vmas d i)\<rparr>) v"

text \<open>
  The loops of the two clones over the source's present entries. A failing step destroys the
  half-built space, goes back to the previous one if there was one, and returns null.
\<close>

definition clone_fail :: "nat \<Rightarrow> space_ptr \<Rightarrow> mm \<Rightarrow> space_ptr \<times> mm" where
  "clone_fail dst old m =
     (let m1 = vmm_destroy_address_space (Some dst) m
      in (None, if old \<noteq> None then on_vm (vmm_switch_address_space old) m1 else m1))"

fun clone_pages :: "nat \<Rightarrow> nat \<Rightarrow> space_ptr \<Rightarrow> (nat \<times> nat) list \<Rightarrow> mm \<Rightarrow> (space_ptr \<times> mm) outcome" where
  "clone_pages src dst old [] m = Ret (Some dst, on_vm (vmm_switch_address_space old) m)"
| "clone_pages src dst old ((t, j) # ts) m =
     (let pte = user_tables (spaces (vm m) src) t j; va = slot_va t j in
      case pmm_alloc_page (pm m) of (page, p1) \<Rightarrow>
      if page = 0 then Ret (clone_fail dst old (m\<lparr>pm := p1\<rparr>))
      else case vmm_map_user (Some dst) va page (pte AND 0xfff) (vm m) of (r, v1) \<Rightarrow>
      if r \<noteq> 0 then Ret (clone_fail dst old (m\<lparr>pm := pmm_free_page page p1, vm := v1\<rparr>))
      else bind_outcome (or_fault (copy_in 4096 va
             (on_vm (vmm_switch_address_space (Some src)) (m\<lparr>pm := p1, vm := v1\<rparr>)))) (\<lambda>m2.
           bind_outcome (or_fault (copy_out 4096 va
             (on_vm (vmm_switch_address_space (Some dst)) m2))) (\<lambda>m3.
           clone_pages src dst old ts m3)))"

definition vmm_clone_address_space :: "space_ptr \<Rightarrow> mm \<Rightarrow> (space_ptr \<times> mm) outcome" where
  "vmm_clone_address_space source m =
     (case source of None \<Rightarrow> Ret (None, m)
      | Some src \<Rightarrow>
        case vmm_create_address_space (vm m) of (None, v) \<Rightarrow> Ret (None, m\<lparr>vm := v\<rparr>)
        | (Some dst, v) \<Rightarrow>
          clone_pages src dst (current_space v) (present_slots (spaces v src))
            (m\<lparr>vm := copy_vmas src dst v\<rparr>))"

fun cow_pages :: "nat \<Rightarrow> nat \<Rightarrow> space_ptr \<Rightarrow> (nat \<times> nat) list \<Rightarrow> mm \<Rightarrow> space_ptr \<times> mm" where
  "cow_pages src dst old [] m = (Some dst, on_vm (vmm_switch_address_space old) m)"
| "cow_pages src dst old ((t, j) # ts) m =
     (let pte = user_tables (spaces (vm m) src) t j; va = slot_va t j;
          flags = ((pte AND 0xfff) OR PAGE_COW) AND NOT PAGE_WRITE;
          v1 = upd_space src (\<lambda>s. s\<lparr>user_tables := (user_tables s)(t :=
                 (user_tables s t)(j := frame_of pte OR flags))\<rparr>) (vm m)
      in case vmm_map_user (Some dst) va (frame_of pte) flags v1 of (r, v2) \<Rightarrow>
         if r \<noteq> 0 then clone_fail dst old (m\<lparr>vm := v2\<rparr>)
         else cow_pages src dst old ts
                (m\<lparr>vm := v2, pm := pmm_retain_page (frame_of pte) (pm m)\<rparr>))"

definition vmm_clone_address_space_cow :: "space_ptr \<Rightarrow> mm \<Rightarrow> space_ptr \<times> mm" where
  "vmm_clone_address_space_cow source m =
     (case source of None \<Rightarrow> (None, m)
      | Some src \<Rightarrow>
        case vmm_create_address_space (vm m) of (None, v) \<Rightarrow> (None, m\<lparr>vm := v\<rparr>)
        | (Some dst, v) \<Rightarrow>
          cow_pages src dst (current_space v) (present_slots (spaces v src))
            (m\<lparr>vm := copy_vmas src dst v\<rparr>))"

section \<open>Ranges\<close>

fun user_alloc_pages :: "space_ptr \<Rightarrow> u32 \<Rightarrow> u32 \<Rightarrow> nat list \<Rightarrow> mm \<Rightarrow> bool \<times> mm" where
  "user_alloc_pages sp virt flags [] m = (True, m)"
| "user_alloc_pages sp virt flags (i # is) m =
     (case pmm_alloc_page (pm m) of (p, p1) \<Rightarrow>
      if p = 0 then (False, m\<lparr>pm := p1\<rparr>)
      else case vmm_map_user sp (virt + of_nat i * PAGE_SIZE) p flags (vm m) of (r, v1) \<Rightarrow>
      if r \<noteq> 0 then (False, m\<lparr>pm := pmm_free_page p p1, vm := v1\<rparr>)
      else user_alloc_pages sp virt flags is (m\<lparr>pm := p1, vm := v1\<rparr>))"

definition vmm_user_alloc :: "space_ptr \<Rightarrow> u32 \<Rightarrow> u32 \<Rightarrow> u32 \<Rightarrow> mm \<Rightarrow> u32 \<times> mm" where
  "vmm_user_alloc sp virt pages flags m =
     (case user_alloc_pages sp virt flags [0..<unat pages] m of (ok, m1) \<Rightarrow>
        (if ok then virt else 0, m1))"

definition vma_overlaps :: "address_space \<Rightarrow> u32 \<Rightarrow> u32 \<Rightarrow> bool" where
  "vma_overlaps s start fin =
     list_ex (\<lambda>i. vma_used (vmas s i) \<and> start < vma_end (vmas s i) \<and> fin > vma_start (vmas s i))
       [0..<VMM_MAX_VMAS]"

definition free_vma :: "address_space \<Rightarrow> nat option" where
  "free_vma s = List.find (\<lambda>i. \<not> vma_used (vmas s i)) [0..<VMM_MAX_VMAS]"

definition set_vma :: "nat \<Rightarrow> u32 \<Rightarrow> u32 \<Rightarrow> u32 \<Rightarrow> address_space \<Rightarrow> address_space" where
  "set_vma slot start fin flags s = s\<lparr>vmas := (vmas s)(slot :=
     \<lparr>vma_start = start, vma_end = fin, vma_flags = flags, vma_used = True\<rparr>)\<rparr>"

definition range_unmapped :: "nat \<Rightarrow> u32 \<Rightarrow> u32 \<Rightarrow> vmm \<Rightarrow> bool" where
  "range_unmapped i base pages v =
     list_all (\<lambda>k. vmm_get_user_physical (Some i) (base + of_nat k * PAGE_SIZE) v = 0)
       [0..<unat pages]"

function place_mapped :: "nat \<Rightarrow> vmm \<Rightarrow> u32 \<Rightarrow> u32 \<Rightarrow> u32" where
  "place_mapped i v pages base =
     (if base < 0xc0000000
      then let fin = base + pages * PAGE_SIZE in
           if fin < base \<or> fin > 0xc0000000 then base
           else if \<not> vma_overlaps (spaces v i) base fin \<and> range_unmapped i base pages v then base
           else place_mapped i v pages (base + PAGE_SIZE)
      else base)"
  by pat_completeness auto
termination
proof (relation "measure (\<lambda>(i, v, pages, base). 0xc0000000 - unat base)", goal_cases)
  case (2 i v pages base x)
  then have lt: "unat base < 0xc0000000" by (simp add: word_less_nat_alt)
  then have "unat (base + PAGE_SIZE) = unat base + 4096" by (simp add: unat_word_ariths)
  with lt show ?case by simp
qed simp

declare place_mapped.simps [simp del]

definition unmap_back :: "space_ptr \<Rightarrow> u32 \<Rightarrow> nat \<Rightarrow> mm \<Rightarrow> mm" where
  "unmap_back sp base i m =
     fold (\<lambda>k m. snd (vmm_unmap_user sp (base + of_nat k * PAGE_SIZE) m)) (rev [0..<i]) m"

primrec map_pages :: "space_ptr \<Rightarrow> u32 \<Rightarrow> u32 \<Rightarrow> nat \<Rightarrow> nat \<Rightarrow> mm \<Rightarrow> bool \<times> mm" where
  "map_pages sp base flags 0 i m = (True, m)"
| "map_pages sp base flags (Suc n) i m =
     (case pmm_alloc_page (pm m) of (p, p1) \<Rightarrow>
      if p = 0 then (False, unmap_back sp base i (m\<lparr>pm := p1\<rparr>))
      else case vmm_map_user sp (base + of_nat i * PAGE_SIZE) p (flags OR PAGE_WRITE) (vm m) of (r, v1) \<Rightarrow>
      if r \<noteq> 0 then (False, unmap_back sp base i (m\<lparr>pm := pmm_free_page p p1, vm := v1\<rparr>))
      else map_pages sp base flags n (Suc i) (m\<lparr>pm := p1, vm := v1\<rparr>))"

definition vmm_map_range :: "space_ptr \<Rightarrow> u32 \<Rightarrow> u32 \<Rightarrow> u32 \<Rightarrow> mm \<Rightarrow> int \<times> mm" where
  "vmm_map_range sp virt pages flags m =
     (case sp of None \<Rightarrow> (-1, m)
      | Some i \<Rightarrow>
        if pages = 0 \<or> pages > 0x80000 then (-1, m)
        else let base = (if virt = 0 then place_mapped i (vm m) pages 0x01000000 else virt);
                 fin = base + pages * PAGE_SIZE; s = spaces (vm m) i in
        if base AND 0xfff \<noteq> 0 \<or> \<not> user_range base \<or> fin < base \<or> fin > 0xc0000000
           \<or> vma_overlaps s base fin then (-1, m)
        else if \<not> range_unmapped i base pages (vm m) then (-1, m)
        else case free_vma s of None \<Rightarrow> (-1, m)
        | Some slot \<Rightarrow>
          (case map_pages sp base flags (unat pages) 0 m of (ok, m1) \<Rightarrow>
           if \<not> ok then (-1, m1)
           else (sint base, on_vm (upd_space i (set_vma slot base fin flags)) m1)))"

definition unmap_pages :: "space_ptr \<Rightarrow> u32 \<Rightarrow> nat \<Rightarrow> mm \<Rightarrow> mm" where
  "unmap_pages sp virt n m =
     fold (\<lambda>k m. snd (vmm_unmap_user sp (virt + of_nat k * PAGE_SIZE) m)) [0..<n] m"

definition trim_vma :: "nat \<Rightarrow> u32 \<Rightarrow> u32 \<Rightarrow> address_space \<Rightarrow> address_space" where
  "trim_vma slot virt fin s =
     (let a = vmas s slot in
      if virt = vma_start a \<and> fin = vma_end a
      then s\<lparr>vmas := (vmas s)(slot := a\<lparr>vma_used := False\<rparr>)\<rparr>
      else if virt = vma_start a then s\<lparr>vmas := (vmas s)(slot := a\<lparr>vma_start := fin\<rparr>)\<rparr>
      else if fin = vma_end a then s\<lparr>vmas := (vmas s)(slot := a\<lparr>vma_end := virt\<rparr>)\<rparr>
      else case free_vma s of None \<Rightarrow> s
           | Some i \<Rightarrow> s\<lparr>vmas := (vmas s)(i := a\<lparr>vma_start := fin\<rparr>, slot := a\<lparr>vma_end := virt\<rparr>)\<rparr>)"

definition vmm_unmap_range :: "space_ptr \<Rightarrow> u32 \<Rightarrow> u32 \<Rightarrow> mm \<Rightarrow> int \<times> mm" where
  "vmm_unmap_range sp virt pages m =
     (case sp of None \<Rightarrow> (-1, m)
      | Some i \<Rightarrow>
        if pages = 0 \<or> virt AND 0xfff \<noteq> 0 \<or> \<not> user_range virt then (-1, m)
        else let fin = virt + pages * PAGE_SIZE; s = spaces (vm m) i in
        if fin < virt \<or> fin > 0xc0000000 then (-1, m)
        else if \<not> list_all (\<lambda>k. vmm_get_user_physical sp (virt + of_nat k * PAGE_SIZE) (vm m) \<noteq> 0)
                  [0..<unat pages] then (-1, m)
        else case List.find (\<lambda>k. vma_used (vmas s k) \<and> virt \<ge> vma_start (vmas s k)
                      \<and> fin \<le> vma_end (vmas s k)) [0..<VMM_MAX_VMAS] of
            None \<Rightarrow> (-1, m)
          | Some slot \<Rightarrow>
              (0, on_vm (upd_space i (trim_vma slot virt fin)) (unmap_pages sp virt (unat pages) m)))"

function place_lazy :: "address_space \<Rightarrow> u32 \<Rightarrow> u32 \<Rightarrow> u32" where
  "place_lazy s pages base =
     (if base < 0xc0000000
      then let fin = base + pages * PAGE_SIZE in
           if fin < base \<or> fin > 0xc0000000 then base
           else if \<not> vma_overlaps s base fin then base
           else place_lazy s pages (base + PAGE_SIZE)
      else base)"
  by pat_completeness auto
termination
proof (relation "measure (\<lambda>(s, pages, base). 0xc0000000 - unat base)", goal_cases)
  case (2 s pages base x)
  then have lt: "unat base < 0xc0000000" by (simp add: word_less_nat_alt)
  then have "unat (base + PAGE_SIZE) = unat base + 4096" by (simp add: unat_word_ariths)
  with lt show ?case by simp
qed simp

declare place_lazy.simps [simp del]

definition vmm_map_lazy_range :: "space_ptr \<Rightarrow> u32 \<Rightarrow> u32 \<Rightarrow> u32 \<Rightarrow> vmm \<Rightarrow> int \<times> vmm" where
  "vmm_map_lazy_range sp virt pages flags v =
     (case sp of None \<Rightarrow> (-1, v)
      | Some i \<Rightarrow>
        if pages = 0 \<or> pages > 0x80000 then (-1, v)
        else let s = spaces v i; base = (if virt = 0 then place_lazy s pages 0x01000000 else virt);
                 fin = base + pages * PAGE_SIZE in
        if base AND 0xfff \<noteq> 0 \<or> base < 0x400000 \<or> fin < base \<or> fin > 0xc0000000
           \<or> vma_overlaps s base fin then (-1, v)
        else case free_vma s of None \<Rightarrow> (-1, v)
        | Some slot \<Rightarrow> (sint base, upd_space i (set_vma slot base fin flags) v))"

section \<open>User pointer validation\<close>

text \<open>One round of the loop of \<open>vmm_validate_user_ptr\<close>: \<open>False\<close> is the early return of -1.\<close>

definition validate_page :: "u32 \<Rightarrow> nat \<Rightarrow> bool \<Rightarrow> u32 \<Rightarrow> mm \<Rightarrow> (bool \<times> mm) outcome" where
  "validate_page cr2 i wr page m =
     (let s = spaces (vm m) i;
          unmapped = vmm_get_user_physical (Some i) page (vm m) = 0;
          step1 = (if unmapped \<and> list_ex (in_vma s page) [0..<VMM_MAX_VMAS]
                   then vmm_page_fault cr2 (if wr then 6 else 4) page m else Ret m)
      in bind_outcome step1 (\<lambda>m1.
         if vmm_get_user_physical (Some i) page (vm m1) = 0 then Ret (False, m1)
         else let pte = user_tables (spaces (vm m1) i) (dir_index page - 1) (table_index page) in
         if wr \<and> pte AND PAGE_WRITE = 0
         then if pte AND PAGE_COW = 0 then Ret (False, m1)
              else bind_outcome (vmm_page_fault cr2 6 page m1) (\<lambda>m2.
                Ret (user_tables (spaces (vm m2) i) (dir_index page - 1) (table_index page)
                       AND PAGE_WRITE \<noteq> 0, m2))
         else Ret (True, m1)))"

fun validate_pages :: "u32 \<Rightarrow> nat \<Rightarrow> bool \<Rightarrow> u32 list \<Rightarrow> mm \<Rightarrow> (int \<times> mm) outcome" where
  "validate_pages cr2 i wr [] m = Ret (0, m)"
| "validate_pages cr2 i wr (page # pages) m =
     bind_outcome (validate_page cr2 i wr page m) (\<lambda>(ok, m1).
       if ok then validate_pages cr2 i wr pages m1 else Ret (-1, m1))"

text \<open>
  The pages the loop visits: from the page of \<open>virt\<close> in steps of a page up to the first one
  with \<open>page > end - PAGE_SIZE\<close> (\<open>user_pages_loop\<close> below relates the two).
\<close>

definition user_pages :: "u32 \<Rightarrow> u32 \<Rightarrow> u32 list" where
  "user_pages virt fin = map (\<lambda>k. frame_of virt + of_nat k * PAGE_SIZE)
     [0..<Suc ((unat fin - unat (frame_of virt)) div 4096)]"

definition vmm_validate_user_ptr ::
    "u32 \<Rightarrow> space_ptr \<Rightarrow> u32 \<Rightarrow> u32 \<Rightarrow> bool \<Rightarrow> mm \<Rightarrow> (int \<times> mm) outcome" where
  "vmm_validate_user_ptr cr2 sp virt len wr m =
     (case sp of None \<Rightarrow> Ret (-1, m)
      | Some i \<Rightarrow>
        if len = 0 \<or> \<not> user_range virt \<or> len > 0xc0000000 - virt then Ret (-1, m)
        else validate_pages cr2 i wr (user_pages virt (virt + len - 1)) m)"

section \<open>Boot-time self tests\<close>

definition check_load :: "u32 \<Rightarrow> (u8 \<Rightarrow> mm \<Rightarrow> 'a outcome) \<Rightarrow> mm \<Rightarrow> 'a outcome" where
  "check_load va k m = (case vload va m of None \<Rightarrow> Panic ''unhandled page fault'' | Some b \<Rightarrow> k b m)"

definition vmm_clone_selftest :: "mm \<Rightarrow> (int \<times> mm) outcome" where
  "vmm_clone_selftest m =
     (case vmm_create_address_space (vm m) of (None, v) \<Rightarrow> Ret (-1, m\<lparr>vm := v\<rparr>)
      | (a, v) \<Rightarrow>
        case pmm_alloc_page (pm m) of (p, p1) \<Rightarrow>
        let m1 = m\<lparr>pm := p1, vm := v\<rparr> in
        if p = 0 then Ret (-1, vmm_destroy_address_space a m1)
        else case vmm_map_user a 0x00401000 p PAGE_WRITE v of (r, v1) \<Rightarrow>
        if r \<noteq> 0 then Ret (-1, vmm_destroy_address_space a (m1\<lparr>vm := v1, pm := pmm_free_page p p1\<rparr>))
        else bind_outcome
          (or_fault (vstore 0x00401000 0x5a (on_vm (vmm_switch_address_space a) (m1\<lparr>vm := v1\<rparr>)))) (\<lambda>m2.
        bind_outcome (vmm_clone_address_space a m2) (\<lambda>(b, m3).
        if b = None then Ret (-1, vmm_destroy_address_space a m3)
        else check_load 0x00401000 (\<lambda>x m4.
          bind_outcome (or_fault (vstore 0x00401000 0xa5 m4)) (\<lambda>m5.
          check_load 0x00401000 (\<lambda>y m6.
            Ret (if x = 0x5a \<and> y = 0x5a then 0 else -1,
                 vmm_destroy_address_space a (vmm_destroy_address_space b m6)))
            (on_vm (vmm_switch_address_space a) m5)))
          (on_vm (vmm_switch_address_space b) m3))))"

definition vmm_cow_selftest :: "u32 \<Rightarrow> mm \<Rightarrow> (int \<times> mm) outcome" where
  "vmm_cow_selftest cr2 m =
     (case vmm_create_address_space (vm m) of (None, v) \<Rightarrow> Ret (-1, m\<lparr>vm := v\<rparr>)
      | (a, v) \<Rightarrow>
        case pmm_alloc_page (pm m) of (p, p1) \<Rightarrow>
        let m1 = m\<lparr>pm := p1, vm := v\<rparr> in
        if p = 0 then Ret (-1, vmm_destroy_address_space a m1)
        else case vmm_map_user a 0x00402000 p PAGE_WRITE v of (r, v1) \<Rightarrow>
        if r \<noteq> 0 then Ret (-1, vmm_destroy_address_space a (m1\<lparr>vm := v1, pm := pmm_free_page p p1\<rparr>))
        else
        let fin = (\<lambda>ok m. Ret (if ok then 0 else -1,
              on_vm (vmm_switch_address_space None) (vmm_destroy_address_space a m))) in
        bind_outcome
          (or_fault (vstore 0x00402000 0x11 (on_vm (vmm_switch_address_space a) (m1\<lparr>vm := v1\<rparr>)))) (\<lambda>m2.
        case vmm_clone_address_space_cow a m2 of (b, m3) \<Rightarrow>
        if b = None then fin False m3
        else bind_outcome (vmm_page_fault cr2 6 0x00402000 (on_vm (vmm_switch_address_space b) m3)) (\<lambda>m4.
          bind_outcome (or_fault (vstore 0x00402000 0x22 m4)) (\<lambda>m5.
          check_load 0x00402000 (\<lambda>y m6. fin (y = 0x11) (vmm_destroy_address_space b m6))
            (on_vm (vmm_switch_address_space a) m5)))))"

section \<open>An example state\<close>

definition vmm_blank :: vmm where
  "vmm_blank = \<lparr>kernel_directory = (\<lambda>_. PdeNone), ktables = (\<lambda>_ _. 0), kernel_tables = (\<lambda>_. None),
     spaces = (\<lambda>_. \<lparr>page_directory = (\<lambda>_. PdeNone), user_tables = (\<lambda>_ _. 0), table_used = (\<lambda>_. False),
       vmas = (\<lambda>_. \<lparr>vma_start = 0, vma_end = 0, vma_flags = 0, vma_used = False\<rparr>), refs = 0\<rparr>),
     space_used = (\<lambda>_. False), current_space = None, cr3 = None, copy_page = (\<lambda>_. 0)\<rparr>"

definition mm_booted :: mm where
  "mm_booted = \<lparr>pm = pmm_example, vm = vmm_init vmm_blank, phys = (\<lambda>_. 0)\<rparr>"

end
