(* ===== verification/Vmm_Lemmas.thy ===== *)
theory Vmm_Lemmas
  imports Vmm
begin

text \<open>
  Facts about the virtual memory manager that its properties share: index and frame
  arithmetic, how one mapping changes lookups, the invariant of the address-space table, and
  copies through the temporary window.
\<close>

section \<open>Page-table entries\<close>

lemma and_flag_iff [page_simps]:
  "x AND 1 = 0 \<longleftrightarrow> \<not> bit x 0" "x AND 2 = 0 \<longleftrightarrow> \<not> bit x 1"
  "x AND 4 = 0 \<longleftrightarrow> \<not> bit x 2" "x AND 0x200 = 0 \<longleftrightarrow> \<not> bit x 9" for x :: u32
  using and_exp_eq_0_iff_not_bit [of x 0] and_exp_eq_0_iff_not_bit [of x 1]
    and_exp_eq_0_iff_not_bit [of x 2] and_exp_eq_0_iff_not_bit [of x 9] by simp_all

lemma low_mask: "(0xfff :: u32) = mask 12"
  by (simp add: mask_eq_exp_minus_1)

lemma bit_frame_of [page_simps]: "bit (frame_of x) n \<longleftrightarrow> 12 \<le> n \<and> bit x n"
  using bit_imp_le_length [of x n]
  by (auto simp: frame_of_def low_mask and_not_mask_eq bit_simps)

lemma bit_low [page_simps]: "bit (x AND 0xfff :: u32) n \<longleftrightarrow> n < 12 \<and> bit x n"
  unfolding low_mask by (auto simp: bit_simps)

lemma frame_of_idem [simp]: "frame_of (frame_of x) = frame_of x"
  by (intro bit_word_eqI) (auto simp: page_simps)

lemma unat_frame_of: "unat (frame_of x) = pfn x * 4096"
proof -
  have "frame_of x = push_bit 12 (drop_bit 12 x)"
    by (simp only: frame_of_def low_mask and_not_mask_eq)
  then have "unat (frame_of x) = unat (drop_bit 12 x * 4096)" by (simp add: push_bit_eq_mult)
  moreover have "unat (drop_bit 12 x) = pfn x"
    by (simp add: drop_bit_eq_div)
  ultimately show ?thesis
    using unsigned_less [of x, where 'a = nat] by (simp add: unat_word_ariths pfn_def)
qed

lemma pfn_frame_of [simp]: "pfn (frame_of x) = pfn x"
  by (simp add: pfn_def unat_frame_of)

lemma frame_of_eq_iff: "frame_of x = frame_of y \<longleftrightarrow> pfn x = pfn y"
  by (metis pfn_frame_of unat_frame_of word_unat_eq_iff)

lemma frame_of_aligned: "page_aligned a \<Longrightarrow> frame_of a = a"
proof -
  assume "page_aligned a"
  then have "pfn a * 4096 = unat a"
    unfolding page_aligned_iff pfn_def by (metis div_mult_mod_eq add.right_neutral)
  then show ?thesis by (metis unat_frame_of word_unat_eq_iff)
qed

section \<open>Indices\<close>

lemma dir_index_eq: "dir_index va = unat va div 4194304"
  by (simp add: dir_index_def drop_bit_eq_div unat_div_distrib)

lemma table_index_eq: "table_index va = unat va div 4096 mod 1024"
proof -
  have "(1023 :: u32) = mask 10" by (simp add: mask_eq_exp_minus_1)
  then have "drop_bit 12 va AND 1023 = take_bit 10 (drop_bit 12 va)"
    by (simp only: take_bit_eq_mask)
  then show ?thesis
    by (simp add: table_index_def take_bit_eq_mod drop_bit_eq_div unat_mod_distrib unat_div_distrib pfn_def)
qed

lemma table_index_less [simp]: "table_index va < 1024"
  by (simp add: table_index_eq)

lemma index_pfn: "pfn va = dir_index va * 1024 + table_index va"
proof -
  have "unat va div 4194304 = unat va div 4096 div 1024" by (simp add: div_mult2_eq [symmetric])
  then show ?thesis by (simp add: pfn_def dir_index_eq table_index_eq)
qed

lemma same_page_iff: "dir_index x = dir_index y \<and> table_index x = table_index y \<longleftrightarrow> pfn x = pfn y"
proof
  assume "pfn x = pfn y"
  then have "dir_index x * 1024 + table_index x = dir_index y * 1024 + table_index y"
    by (simp only: index_pfn)
  then have "(dir_index x * 1024 + table_index x) div 1024 = (dir_index y * 1024 + table_index y) div 1024"
    "(dir_index x * 1024 + table_index x) mod 1024 = (dir_index y * 1024 + table_index y) mod 1024"
    by simp_all
  then show "dir_index x = dir_index y \<and> table_index x = table_index y" by simp
qed (simp add: index_pfn)

lemma index_frame [simp]: "dir_index (frame_of x) = dir_index x" "table_index (frame_of x) = table_index x"
  using same_page_iff [of "frame_of x" x] by simp_all

lemma unat_slot_va:
  assumes "t < 8" "j < 1024"
  shows "unat (slot_va t j) = (t + 1) * 4194304 + j * 4096"
proof -
  have "slot_va t j = of_nat ((t + 1) * 4194304 + j * 4096)" by (simp add: slot_va_def algebra_simps)
  moreover have "(t + 1) * 4194304 + j * 4096 < 2 ^ 32"
  proof -
    have "(t + 1) * 4194304 \<le> 8 * 4194304" using assms(1) by (intro mult_le_mono1) simp
    moreover have "j * 4096 \<le> 1023 * 4096" using assms(2) by (intro mult_le_mono1) simp
    ultimately show ?thesis by simp
  qed
  ultimately show ?thesis by (simp only: unat_of_nat_small)
qed

lemma slot_va_index:
  assumes "t < 8" "j < 1024"
  shows "dir_index (slot_va t j) = t + 1" "table_index (slot_va t j) = j" "user_range (slot_va t j)"
    "slot_va t j AND 0xfff = 0"
proof -
  note u = unat_slot_va [OF assms]
  have b: "j * 4096 < 4194304" using assms(2) by simp
  show "dir_index (slot_va t j) = t + 1" using b by (simp add: dir_index_eq u)
  have "unat (slot_va t j) div 4096 = j + (t + 1) * 1024" by (simp add: u)
  then show "table_index (slot_va t j) = j"
    by (simp only: table_index_eq mod_mult_self1 mod_less [OF assms(2)])
  have "(t + 1) * 4194304 \<le> 8 * 4194304" using assms(1) by (intro mult_le_mono1) simp
  then show "user_range (slot_va t j)" using b by (simp add: user_range_def word_less_nat_alt word_le_nat_alt u)
  have "unat (slot_va t j) mod 4096 = 0" by (simp add: u)
  then show "slot_va t j AND 0xfff = 0" by (simp only: page_aligned_def [symmetric] page_aligned_iff)
qed

section \<open>One user mapping\<close>

text \<open>The entry that a user address selects in a space, 0 when its table is not in use.\<close>

definition user_pte :: "address_space \<Rightarrow> u32 \<Rightarrow> u32" where
  "user_pte s va =
     (if user_range va \<and> 1 \<le> dir_index va \<and> dir_index va \<le> 8 \<and> table_used s (dir_index va - 1)
      then user_tables s (dir_index va - 1) (table_index va) else 0)"

definition mappable :: "u32 \<Rightarrow> bool" where
  "mappable va \<longleftrightarrow> user_range va \<and> 1 \<le> dir_index va \<and> dir_index va \<le> 8"

lemma mappable_iff: "mappable va \<longleftrightarrow> 0x400000 \<le> va \<and> va < 0x2400000"
proof -
  have "1 \<le> dir_index va \<longleftrightarrow> 4194304 \<le> unat va" "dir_index va \<le> 8 \<longleftrightarrow> unat va < 37748736"
    by (auto simp: dir_index_eq)
  then show ?thesis
    by (auto simp: mappable_def user_range_def word_less_nat_alt word_le_nat_alt)
qed

lemma get_user_physical_pte:
  "vmm_get_user_physical (Some i) va v =
     (let e = user_pte (spaces v i) va in
      if bit e 0 \<and> bit e 2 then frame_of e OR (va AND 0xfff) else 0)"
  by (auto simp: vmm_get_user_physical_def user_pte_def Let_def page_simps)

definition put_pte :: "u32 \<Rightarrow> u32 \<Rightarrow> address_space \<Rightarrow> address_space" where
  "put_pte va e s =
     (let slot = dir_index va - 1;
          s' = (if table_used s slot then s
                else s\<lparr>table_used := (table_used s)(slot := True),
                       page_directory := (page_directory s)(dir_index va := PdeUser slot 7)\<rparr>)
      in s'\<lparr>user_tables := (user_tables s')(slot := (user_tables s' slot)(table_index va := e))\<rparr>)"

definition new_pte :: "u32 \<Rightarrow> u32 \<Rightarrow> u32" where
  "new_pte ph flags = frame_of ph OR (flags OR PAGE_PRESENT OR PAGE_USER)"

lemma map_user_eq:
  "vmm_map_user (Some i) va ph flags v =
     (if mappable va then (0, upd_space i (put_pte va (new_pte ph flags)) v) else (-1, v))"
proof -
  have "1 OR 2 OR 4 = (7 :: u32)" by simp
  then show ?thesis
    by (auto simp: vmm_map_user_def mappable_def put_pte_def new_pte_def upd_space_def Let_def)
qed

lemma spaces_upd_space [simp]: "spaces (upd_space i f v) = (spaces v)(i := f (spaces v i))"
  by (simp add: upd_space_def)

lemma upd_space_fields [simp]:
  "kernel_directory (upd_space i f v) = kernel_directory v"
  "ktables (upd_space i f v) = ktables v" "kernel_tables (upd_space i f v) = kernel_tables v"
  "space_used (upd_space i f v) = space_used v" "current_space (upd_space i f v) = current_space v"
  "cr3 (upd_space i f v) = cr3 v" "copy_page (upd_space i f v) = copy_page v"
  by (simp_all add: upd_space_def)

lemma put_pte_fields [simp]:
  "vmas (put_pte va e s) = vmas s" "refs (put_pte va e s) = refs s"
  by (simp_all add: put_pte_def Let_def)

text \<open>
  Opening a page table exposes its entries; a table not in use holds no entry. The lookup of any
  other page is unchanged.
\<close>

definition tables_clean :: "address_space \<Rightarrow> bool" where
  "tables_clean s \<longleftrightarrow> (\<forall>t < 8. \<not> table_used s t \<longrightarrow> (\<forall>j < 1024. user_tables s t j = 0))"

lemma user_pte_put:
  assumes "tables_clean s" "mappable va"
  shows "user_pte (put_pte va e s) y = (if mappable y \<and> pfn y = pfn va then e else user_pte s y)"
proof -
  have di: "1 \<le> dir_index va" "dir_index va \<le> 8" using assms(2) by (auto simp: mappable_def)
  show ?thesis
  proof (cases "mappable y")
    case False
    then show ?thesis by (auto simp: user_pte_def mappable_def)
  next
    case True
    then have dy: "1 \<le> dir_index y" "dir_index y \<le> 8" by (auto simp: mappable_def)
    have same: "dir_index y - 1 = dir_index va - 1 \<longleftrightarrow> dir_index y = dir_index va" using di dy by linarith
    have clean: "\<not> table_used s (dir_index va - 1) \<Longrightarrow> user_tables s (dir_index va - 1) (table_index y) = 0"
    proof -
      have "dir_index va - 1 < 8" using di by linarith
      moreover assume "\<not> table_used s (dir_index va - 1)"
      ultimately show ?thesis using assms(1) table_index_less unfolding tables_clean_def by blast
    qed
    show ?thesis
      using True clean same same_page_iff [of y va]
      by (auto simp: user_pte_def mappable_def put_pte_def Let_def)
  qed
qed

lemma put_pte_clean: "tables_clean s \<Longrightarrow> mappable va \<Longrightarrow> tables_clean (put_pte va e s)"
  by (auto simp: tables_clean_def put_pte_def Let_def)

lemma new_pte_bits [page_simps]:
  "bit (new_pte ph flags) n \<longleftrightarrow> n < 32 \<and> (12 \<le> n \<and> bit ph n \<or> bit flags n \<or> n = 0 \<or> n = 2)"
proof -
  have "bit (1 :: u32) n \<longleftrightarrow> n = 0" "bit (4 :: u32) n \<longleftrightarrow> n = 2"
    using bit_exp_iff [where 'a = u32, of 0 n] bit_exp_iff [where 'a = u32, of 2 n] by auto
  then show ?thesis using bit_imp_le_length [of ph n] bit_imp_le_length [of flags n]
    unfolding new_pte_def bit_or_iff bit_frame_of by auto
qed

lemma frame_new_pte: "frame_of flags = 0 \<Longrightarrow> frame_of (new_pte ph flags) = frame_of ph"
proof -
  assume "frame_of flags = 0"
  then have "\<not> (12 \<le> n \<and> bit flags n)" for n using bit_frame_of [of flags n] by simp
  then show ?thesis by (intro bit_word_eqI) (auto simp: page_simps)
qed

section \<open>Copies of a page\<close>

lemma unat_low: "unat (a AND 0xfff :: u32) = unat a mod 4096"
proof -
  have "a AND 0xfff = take_bit 12 a" by (simp only: low_mask take_bit_eq_mask)
  then show ?thesis by (simp add: take_bit_eq_mod unat_mod_distrib)
qed

lemma page_offset:
  assumes "frame_of va = va" "n < 4096"
  shows "pfn (va + of_nat n) = pfn va" "(va + of_nat n) AND 0xfff = of_nat n"
    "unat (va + of_nat n) = unat va + n"
proof -
  have va: "unat va = pfn va * 4096" using unat_frame_of [of va] assms(1) by simp
  have "pfn va * 4096 + n < 2 ^ 32" using pfn_less [of va] assms(2) by simp
  then show u: "unat (va + of_nat n) = unat va + n"
    using assms(2) by (simp add: unat_word_ariths va unat_of_nat)
  show "pfn (va + of_nat n) = pfn va" using assms(2) by (simp add: pfn_def u) (simp add: va)
  have "unat ((va + of_nat n) AND 0xfff) = n" using assms(2) by (simp only: unat_low u) (simp add: va)
  then show "(va + of_nat n) AND 0xfff = of_nat n"
    using assms(2) by (simp add: word_unat_eq_iff unat_of_nat)
qed

lemma frame_or_low: "frame_of f OR (a AND 0xfff) = frame_of f + (a AND 0xfff)"
  by (rule disjunctive_add [symmetric]) (auto simp: page_simps)

lemma frame_plus_low: "frame_of a + (a AND 0xfff) = a"
proof -
  have "unat (frame_of a + (a AND 0xfff)) = unat a"
    using unsigned_less [of a, where 'a = nat]
    by (simp add: unat_word_ariths unat_frame_of unat_low pfn_def)
  then show ?thesis by (simp only: word_unat_eq_iff)
qed

lemma translate_pte: "translate v va = (if bit (hw_pte v va) 0 then
  Some (frame_of (hw_pte v va) OR (va AND 0xfff)) else None)"
  by (simp add: translate_def and_flag_iff)

lemma hw_pte_same_page: "pfn a = pfn b \<Longrightarrow> hw_pte v a = hw_pte v b"
  using same_page_iff [of a b] by (simp add: hw_pte_def split: pde.splits option.splits)

lemma hw_pte_copy_page [simp]: "hw_pte (v\<lparr>copy_page := c\<rparr>) va = hw_pte v va"
  by (simp add: hw_pte_def Let_def split: option.splits pde.splits)

lemma translate_copy_page [simp]: "translate (v\<lparr>copy_page := c\<rparr>) va = translate v va"
  by (simp add: translate_pte)

lemma aligned_low:
  assumes "frame_of va = va"
  shows "va AND 0xfff = 0"
proof -
  have "unat va = pfn va * 4096" using unat_frame_of [of va] assms by simp
  then have "unat (va AND 0xfff) = 0" by (simp only: unat_low) simp
  then show ?thesis by (simp only: unat_eq_0)
qed

lemma translate_cong_page:
  assumes "frame_of va = va" "n < 4096" "translate v va = Some f"
  shows "translate v (va + of_nat n) = Some (f + of_nat n)"
  using assms(3) frame_or_low [of "hw_pte v va" "va + of_nat n"] page_offset [OF assms(1,2)]
    hw_pte_same_page [of "va + of_nat n" va v] aligned_low [OF assms(1)]
  by (auto simp: translate_pte split: if_splits)

lemma page_byte_iff:
  assumes "frame_of f = f" "n < 4096"
  shows "a = f + of_nat n \<longleftrightarrow> pfn a = pfn f \<and> unat a mod 4096 = n"
proof -
  have "unat (f + of_nat n) = pfn f * 4096 + n"
    using page_offset(3) [OF assms] unat_frame_of [of f] assms(1) by simp
  moreover have "unat a = pfn a * 4096 + unat a mod 4096" by (simp add: pfn_def)
  ultimately show ?thesis using assms(2) page_offset(1) [OF assms]
    by (auto simp: word_unat_eq_iff)
qed

lemma copy_in_page:
  assumes "frame_of va = va" "translate (vm m) va = Some f" "n \<le> 4096"
  shows "copy_in n va m = Some (m\<lparr>vm := (vm m)\<lparr>copy_page :=
    (\<lambda>k. if k < n then phys m (f + of_nat k) else copy_page (vm m) k)\<rparr>\<rparr>)"
  using assms(3)
proof (induction n)
  case 0
  then show ?case by simp
next
  case (Suc n)
  have "translate (vm m) (va + of_nat n) = Some (f + of_nat n)"
    using translate_cong_page [OF assms(1) _ assms(2)] Suc.prems by simp
  with Suc show ?case by (simp add: vload_def less_Suc_eq fun_eq_iff)
qed

lemma copy_out_page:
  assumes "frame_of va = va" "translate (vm m) va = Some f" "frame_of f = f" "n \<le> 4096"
  shows "copy_out n va m = Some (m\<lparr>phys := (\<lambda>a. if pfn a = pfn f \<and> unat a mod 4096 < n
    then copy_page (vm m) (unat a mod 4096) else phys m a)\<rparr>)"
  using assms(4)
proof (induction n)
  case 0
  then show ?case by simp
next
  case (Suc n)
  have t: "translate (vm m) (va + of_nat n) = Some (f + of_nat n)"
    using translate_cong_page [OF assms(1) _ assms(2)] Suc.prems by simp
  then show ?case using Suc
    by (simp add: vstore_def) (rule mm.fold_congs, auto simp: page_byte_iff [OF assms(3)] less_Suc_eq fun_eq_iff)
qed

lemma zero_out_page:
  assumes "frame_of va = va" "translate (vm m) va = Some f" "frame_of f = f" "n \<le> 4096"
  shows "zero_out n va m = Some (m\<lparr>phys := (\<lambda>a. if pfn a = pfn f \<and> unat a mod 4096 < n
    then 0 else phys m a)\<rparr>)"
  using assms(4)
proof (induction n)
  case 0
  then show ?case by simp
next
  case (Suc n)
  have t: "translate (vm m) (va + of_nat n) = Some (f + of_nat n)"
    using translate_cong_page [OF assms(1) _ assms(2)] Suc.prems by simp
  then show ?case using Suc
    by (simp add: vstore_def) (rule mm.fold_congs, auto simp: page_byte_iff [OF assms(3)] less_Suc_eq fun_eq_iff)
qed

end
