(* ===== verification/Frame_Sharing.thy ===== *)
theory Frame_Sharing
  imports Vmm_Lemmas
begin

text \<open>
  The abstract view of memory that the page tables and the reference counts implement: which
  page-table entry each address space has in each slot, and how many references each physical
  frame has. \<open>frames_ok\<close> is the contract between the two. \<open>map_fresh\<close>, \<open>unmap_ok\<close> and \<open>share_ok\<close>
  are the three abstract operations every mapping operation of \<open>mm/vmm.c\<close> is made of.
\<close>

type_synonym 'k entries = "nat \<Rightarrow> 'k \<Rightarrow> u32"

definition users :: "'k entries \<Rightarrow> nat \<Rightarrow> nat set" where
  "users E p = {i. \<exists>x. bit (E i x) 0 \<and> pfn (E i x) = p}"

text \<open>
  A space maps a frame at most once; the count of a mapped frame is the number of spaces that
  map it; a frame that some space can write is mapped by no other space.
\<close>

definition frames_ok :: "'k entries \<Rightarrow> (nat \<Rightarrow> nat) \<Rightarrow> bool" where
  "frames_ok E R \<longleftrightarrow>
     (\<forall>i x y. bit (E i x) 0 \<and> bit (E i y) 0 \<and> pfn (E i x) = pfn (E i y) \<longrightarrow> x = y) \<and>
     (\<forall>p. users E p \<noteq> {} \<longrightarrow> finite (users E p) \<and> R p = card (users E p)) \<and>
     (\<forall>i x. bit (E i x) 0 \<and> bit (E i x) 1 \<longrightarrow> users E (pfn (E i x)) = {i})"

lemma frames_okI:
  assumes "\<And>i x y. bit (E i x) 0 \<Longrightarrow> bit (E i y) 0 \<Longrightarrow> pfn (E i x) = pfn (E i y) \<Longrightarrow> x = y"
    and "\<And>p. users E p \<noteq> {} \<Longrightarrow> finite (users E p) \<and> R p = card (users E p)"
    and "\<And>i x. bit (E i x) 0 \<Longrightarrow> bit (E i x) 1 \<Longrightarrow> users E (pfn (E i x)) = {i}"
  shows "frames_ok E R"
  using assms unfolding frames_ok_def by blast

lemma frames_okD:
  assumes "frames_ok E R"
  shows "\<And>i x y. bit (E i x) 0 \<Longrightarrow> bit (E i y) 0 \<Longrightarrow> pfn (E i x) = pfn (E i y) \<Longrightarrow> x = y"
    and "\<And>p. users E p \<noteq> {} \<Longrightarrow> finite (users E p)" "\<And>p. users E p \<noteq> {} \<Longrightarrow> R p = card (users E p)"
    and "\<And>i x. bit (E i x) 0 \<Longrightarrow> bit (E i x) 1 \<Longrightarrow> users E (pfn (E i x)) = {i}"
  using assms unfolding frames_ok_def by blast+

lemma users_memI: "bit (E i x) 0 \<Longrightarrow> pfn (E i x) = p \<Longrightarrow> i \<in> users E p"
  by (auto simp: users_def)

lemma users_count_pos: "frames_ok E R \<Longrightarrow> users E p \<noteq> {} \<Longrightarrow> R p \<noteq> 0"
  using frames_okD(2,3) [of E R p] by simp

definition set_entry :: "nat \<Rightarrow> 'k \<Rightarrow> u32 \<Rightarrow> 'k entries \<Rightarrow> 'k entries" where
  "set_entry i x e E = E(i := (E i)(x := e))"

lemma set_entry_apply: "set_entry i x e E j y = (if j = i \<and> y = x then e else E j y)"
  by (simp add: set_entry_def)

lemma users_set_entry:
  assumes "frames_ok E R"
  shows "users (set_entry i x e E) p =
    (if bit e 0 \<and> pfn e = p then insert i (users E p)
     else if bit (E i x) 0 \<and> pfn (E i x) = p then users E p - {i} else users E p)"
proof -
  have "i \<in> users (set_entry i x e E) p \<longleftrightarrow>
      bit e 0 \<and> pfn e = p \<or> (\<exists>y. y \<noteq> x \<and> bit (E i y) 0 \<and> pfn (E i y) = p)"
    by (auto simp: users_def set_entry_apply)
  moreover have "(\<exists>y. y \<noteq> x \<and> bit (E i y) 0 \<and> pfn (E i y) = p) \<longleftrightarrow>
      i \<in> users E p \<and> \<not> (bit (E i x) 0 \<and> pfn (E i x) = p)"
    using frames_okD(1) [OF assms, of i x] unfolding users_def mem_Collect_eq by metis
  moreover have "j \<in> users (set_entry i x e E) p \<longleftrightarrow> j \<in> users E p" if "j \<noteq> i" for j
    using that by (simp add: users_def set_entry_apply)
  ultimately have "j \<in> users (set_entry i x e E) p \<longleftrightarrow> (if j = i then
      bit e 0 \<and> pfn e = p \<or> i \<in> users E p \<and> \<not> (bit (E i x) 0 \<and> pfn (E i x) = p)
      else j \<in> users E p)" for j by simp
  then show ?thesis by (intro set_eqI) auto
qed

lemma map_fresh:
  assumes ok: "frames_ok E R" and new: "\<not> bit (E i x) 0" "bit e 0" "R (pfn e) = 0"
  shows "frames_ok (set_entry i x e E) (R(pfn e := 1))"
proof -
  have none: "users E (pfn e) = {}" using users_count_pos [OF ok] new(3) by blast
  have u: "users (set_entry i x e E) p = (if p = pfn e then {i} else users E p)" for p
    using none new by (auto simp: users_set_entry [OF ok])
  have other: "pfn (E j y) \<noteq> pfn e" if "bit (E j y) 0" for j y
    using none users_memI [of E j y, OF that] by auto
  show ?thesis
  proof (rule frames_okI)
    show "y = z" if "bit (set_entry i x e E j y) 0" "bit (set_entry i x e E j z) 0"
      "pfn (set_entry i x e E j y) = pfn (set_entry i x e E j z)" for j y z
      using that other frames_okD(1) [OF ok, of j y z] by (auto simp: set_entry_apply split: if_splits)
    show "finite (users (set_entry i x e E) p) \<and> (R(pfn e := 1)) p = card (users (set_entry i x e E) p)"
      if "users (set_entry i x e E) p \<noteq> {}" for p
      using that frames_okD(2,3) [OF ok, of p] by (simp add: u split: if_splits)
    show "users (set_entry i x e E) (pfn (set_entry i x e E j y)) = {j}"
      if "bit (set_entry i x e E j y) 0" "bit (set_entry i x e E j y) 1" for j y
      using that other frames_okD(4) [OF ok, of j y] by (auto simp: set_entry_apply u split: if_splits)
  qed
qed

lemma unmap_ok:
  assumes ok: "frames_ok E R" and old: "bit (E i x) 0" "pfn (E i x) = p" and e: "\<not> bit e 0"
  shows "frames_ok (set_entry i x e E) (R(p := R p - 1))"
proof -
  have mem: "i \<in> users E p" by (rule users_memI) (fact old)+
  have u: "users (set_entry i x e E) q = (if q = p then users E p - {i} else users E q)" for q
    using old e by (simp add: users_set_entry [OF ok])
  have gone: "pfn (E j y) \<noteq> p" if "bit (E j y) 0" "j = i" "y \<noteq> x" for j y
    using frames_okD(1) [OF ok, of i x y] old that by auto
  show ?thesis
  proof (rule frames_okI)
    show "y = z" if "bit (set_entry i x e E j y) 0" "bit (set_entry i x e E j z) 0"
      "pfn (set_entry i x e E j y) = pfn (set_entry i x e E j z)" for j y z
      using that e frames_okD(1) [OF ok, of j y z] by (auto simp: set_entry_apply split: if_splits)
    show "finite (users (set_entry i x e E) q) \<and> (R(p := R p - 1)) q = card (users (set_entry i x e E) q)"
      if "users (set_entry i x e E) q \<noteq> {}" for q
    proof (cases "q = p")
      case True
      have "users E p \<noteq> {}" using mem by auto
      with True mem show ?thesis using frames_okD(2,3) [OF ok, of p] by (simp add: u)
    next
      case False
      with that show ?thesis using frames_okD(2,3) [OF ok, of q] by (simp add: u)
    qed
    show "users (set_entry i x e E) (pfn (set_entry i x e E j y)) = {j}"
      if "bit (set_entry i x e E j y) 0" "bit (set_entry i x e E j y) 1" for j y
    proof -
      have jy: "set_entry i x e E j y = E j y" "\<not> (j = i \<and> y = x)" using that(1) e
        by (auto simp: set_entry_apply split: if_splits)
      then have one: "users E (pfn (E j y)) = {j}" using frames_okD(4) [OF ok, of j y] that by simp
      have "pfn (E j y) \<noteq> p"
      proof
        assume eq: "pfn (E j y) = p"
        with one mem have "j = i" by simp
        with gone [of j y] jy that(1) eq show False by simp
      qed
      with one jy show ?thesis by (simp add: u)
    qed
  qed
qed

lemma share_ok:
  assumes ok: "frames_ok E R" and old: "bit (E s x) 0" "pfn (E s x) = p"
    and e: "bit e1 0" "\<not> bit e1 1" "pfn e1 = p" "bit e2 0" "\<not> bit e2 1" "pfn e2 = p"
    and d: "d \<noteq> s" "\<not> bit (E d y) 0" "d \<notin> users E p"
  shows "frames_ok (set_entry d y e2 (set_entry s x e1 E)) (R(p := R p + 1))"
proof -
  let ?E = "set_entry d y e2 (set_entry s x e1 E)"
  have at: "?E j z = (if j = d \<and> z = y then e2 else if j = s \<and> z = x then e1 else E j z)" for j z
    by (simp add: set_entry_apply)
  have mem: "s \<in> users E p" by (rule users_memI) (fact old)+
  have u: "users ?E q = (if q = p then insert d (users E p) else users E q)" for q
    using mem old e d unfolding users_def at by auto
  show ?thesis
  proof (rule frames_okI)
    show "z = w" if "bit (?E j z) 0" "bit (?E j w) 0" "pfn (?E j z) = pfn (?E j w)" for j z w
    proof -
      have "pfn (?E k v) = p \<Longrightarrow> k = d \<Longrightarrow> bit (?E k v) 0 \<Longrightarrow> v = y" for k v
        using d(1,3) users_memI [of E d v p] by (simp add: at split: if_splits)
      moreover have "pfn (?E k v) = pfn (E k v) \<and> bit (?E k v) 0 = bit (E k v) 0" if "k \<noteq> d" for k v
        using that old e by (simp add: at)
      moreover have "?E d v = E d v" if "v \<noteq> y" for v using that d(1) by (simp add: at)
      moreover have "?E d y = e2" by (simp add: at)
      ultimately show "z = w" using that frames_okD(1) [OF ok, of j z w] e(6) by metis
    qed
    show "finite (users ?E q) \<and> (R(p := R p + 1)) q = card (users ?E q)"
      if "users ?E q \<noteq> {}" for q
    proof (cases "q = p")
      case True
      have "users E p \<noteq> {}" using mem by auto
      with True d(3) show ?thesis using frames_okD(2,3) [OF ok, of p] by (simp add: u)
    next
      case False
      with that show ?thesis using frames_okD(2,3) [OF ok, of q] by (simp add: u)
    qed
    show "users ?E (pfn (?E j z)) = {j}" if "bit (?E j z) 0" "bit (?E j z) 1" for j z
    proof -
      have jz: "?E j z = E j z" "\<not> (j = s \<and> z = x)" using that(2) e(2,5)
        by (auto simp: at split: if_splits)
      then have one: "users E (pfn (E j z)) = {j}" using frames_okD(4) [OF ok, of j z] that by simp
      have "pfn (E j z) \<noteq> p"
      proof
        assume eq: "pfn (E j z) = p"
        with one mem have "j = s" by simp
        with eq old jz that(1) frames_okD(1) [OF ok, of s x z] show False by simp
      qed
      with one jz show ?thesis by (simp add: u)
    qed
  qed
qed

end
