(* ===== verification/Vmm_Memory.thy ===== *)
theory Vmm_Memory
  imports Frame_Sharing
begin

text \<open>
  The page tables and the page allocator together keep the contract of \<open>Frame_Sharing\<close>: the
  invariant \<open>mem_inv\<close>, that every mapping operation of \<open>mm/vmm.c\<close> keeps it, and the states
  reachable by any sequence of these operations.
\<close>

section \<open>The entries of a state\<close>

definition slot_of :: "u32 \<Rightarrow> nat \<times> nat" where
  "slot_of va = (dir_index va - 1, table_index va)"

definition slot_pte :: "address_space \<Rightarrow> nat \<times> nat \<Rightarrow> u32" where
  "slot_pte s x = (if fst x < 8 \<and> snd x < 1024 \<and> table_used s (fst x)
     then user_tables s (fst x) (snd x) else 0)"

definition ents :: "vmm \<Rightarrow> (nat \<times> nat) entries" where
  "ents v i x = (if i < MAX_SPACES \<and> space_used v i then slot_pte (spaces v i) x else 0)"

lemma user_pte_slot: "user_pte s va = (if mappable va then slot_pte s (slot_of va) else 0)"
  by (auto simp: user_pte_def mappable_def slot_pte_def slot_of_def)

lemma slot_of_slot_va: "t < 8 \<Longrightarrow> j < 1024 \<Longrightarrow> slot_of (slot_va t j) = (t, j)"
  by (simp add: slot_of_def slot_va_index)

lemma slot_of_bounds: "mappable va \<Longrightarrow> fst (slot_of va) < 8 \<and> snd (slot_of va) < 1024"
  by (auto simp: slot_of_def mappable_def)

lemma mappable_slot_va: "t < 8 \<Longrightarrow> j < 1024 \<Longrightarrow> mappable (slot_va t j)"
  by (simp add: mappable_def slot_va_index)

lemma slot_pte_put:
  assumes "tables_clean s" "mappable va"
  shows "slot_pte (put_pte va e s) = (slot_pte s)(slot_of va := e)"
proof
  fix x :: "nat \<times> nat"
  have b: "dir_index va - Suc 0 < 8" using assms(2) by (auto simp: mappable_def)
  have "user_tables s (dir_index va - Suc 0) (snd x) = 0"
    if "\<not> table_used s (dir_index va - Suc 0)" "snd x < 1024"
    using that assms(1) b unfolding tables_clean_def by blast
  then show "slot_pte (put_pte va e s) x = ((slot_pte s)(slot_of va := e)) x"
    using b by (cases x) (auto simp: slot_pte_def put_pte_def slot_of_def Let_def)
qed

section \<open>Well-formed page tables\<close>

text \<open>
  A space shares the kernel's first table and no other page of the low 36 MiB; a user table in
  use is entered in the directory, and one not in use is empty. An entry is 0 or a present user page.
\<close>

definition pte_ok :: "u32 \<Rightarrow> bool" where
  "pte_ok e \<longleftrightarrow> e = 0 \<or> bit e 0 \<and> bit e 2"

definition space_wf :: "address_space \<Rightarrow> bool" where
  "space_wf s \<longleftrightarrow> tables_clean s \<and> (\<forall>x. pte_ok (slot_pte s x)) \<and> page_directory s 0 = PdeKernel FirstTable 3 \<and>
     (\<forall>t < 8. page_directory s (Suc t) = (if table_used s t then PdeUser t 7 else PdeNone))"

definition vmm_wf :: "vmm \<Rightarrow> bool" where
  "vmm_wf v \<longleftrightarrow> kernel_tables v 0 = Some FirstTable \<and> kernel_directory v 0 = PdeKernel FirstTable 3 \<and>
     (\<forall>t < 8. kernel_directory v (Suc t) = PdeNone) \<and>
     (\<forall>i < MAX_SPACES. space_used v i \<longrightarrow> space_wf (spaces v i)) \<and>
     cr3 v = current_space v \<and>
     (\<forall>i. current_space v = Some i \<longrightarrow> i < MAX_SPACES \<and> space_used v i)"

lemma vmm_wf_space: "vmm_wf v \<Longrightarrow> i < MAX_SPACES \<Longrightarrow> space_used v i \<Longrightarrow> space_wf (spaces v i)"
  by (simp add: vmm_wf_def)

lemma space_wf_clean: "space_wf s \<Longrightarrow> tables_clean s"
  by (simp add: space_wf_def)

lemma pte_ok_simps [simp]: "pte_ok 0" "pte_ok (new_pte ph flags)"
  by (simp_all add: pte_ok_def new_pte_bits)

lemma space_wf_put: "space_wf s \<Longrightarrow> mappable va \<Longrightarrow> pte_ok e \<Longrightarrow> space_wf (put_pte va e s)"
proof -
  assume s: "space_wf s" and va: "mappable va" and e: "pte_ok e"
  have ok: "pte_ok (slot_pte (put_pte va e s) x)" for x
    using s e by (simp add: slot_pte_put [OF space_wf_clean [OF s] va] space_wf_def del: split_paired_All)
  obtain d where d: "dir_index va = Suc d" "d < 8"
    using va by (cases "dir_index va") (auto simp: mappable_def)
  have "page_directory (put_pte va e s) = (page_directory s)(Suc d := PdeUser d 7)"
    "table_used (put_pte va e s) = (table_used s)(d := True)"
    using s d by (auto simp: put_pte_def Let_def space_wf_def fun_eq_iff)
  then show ?thesis
    using s va d ok unfolding space_wf_def by (auto simp: put_pte_clean)
qed

lemma ents_put:
  assumes "vmm_wf v" "i < MAX_SPACES" "space_used v i" "mappable va"
  shows "ents (upd_space i (put_pte va e) v) = set_entry i (slot_of va) e (ents v)"
  using slot_pte_put [OF space_wf_clean [OF vmm_wf_space [OF assms(1-3)]] assms(4)] assms(2,3)
  by (auto simp: ents_def set_entry_def fun_eq_iff)

lemma vmm_wf_upd:
  assumes "vmm_wf v" "space_wf (spaces v i) \<Longrightarrow> space_wf (f (spaces v i))"
  shows "vmm_wf (upd_space i f v)"
  using assms by (auto simp: vmm_wf_def)

lemma vmm_wf_put: "vmm_wf v \<Longrightarrow> mappable va \<Longrightarrow> pte_ok e \<Longrightarrow> vmm_wf (upd_space i (put_pte va e) v)"
  by (rule vmm_wf_upd) (auto intro: space_wf_put)

lemma slot_pte_other [simp]:
  "slot_pte (s\<lparr>refs := r\<rparr>) = slot_pte s" "slot_pte (s\<lparr>vmas := f\<rparr>) = slot_pte s"
  by (simp_all add: slot_pte_def fun_eq_iff)

lemma space_wf_other [simp]:
  "space_wf (s\<lparr>refs := r\<rparr>) = space_wf s" "space_wf (s\<lparr>vmas := f\<rparr>) = space_wf s"
  by (simp_all add: space_wf_def tables_clean_def)

lemma ents_ok: "vmm_wf v \<Longrightarrow> pte_ok (ents v i x)"
  by (cases x) (auto simp: ents_def vmm_wf_def space_wf_def)

text \<open>An operation that touches neither the tables nor the set of spaces changes no entry.\<close>

lemma ents_cong:
  assumes "space_used v' = space_used v"
    "\<And>i. table_used (spaces v' i) = table_used (spaces v i)"
    "\<And>i. user_tables (spaces v' i) = user_tables (spaces v i)"
  shows "ents v' = ents v"
  using assms by (auto simp: ents_def slot_pte_def fun_eq_iff)

lemma find_Some_iff: "List.find P xs = Some x \<Longrightarrow> P x \<and> x \<in> set xs"
  by (metis find_Some_iff nth_mem)

lemma create_cases:
  assumes "vmm_create_address_space v = (sp, v')"
  obtains "sp = None" "v' = v"
  | i where "sp = Some i" "i < MAX_SPACES" "\<not> space_used v i"
      "v' = v\<lparr>space_used := (space_used v)(i := True), spaces := (spaces v)(i := fresh_space v (spaces v i))\<rparr>"
proof (cases "List.find (\<lambda>i. \<not> space_used v i) [0..<MAX_SPACES]")
  case None
  with assms that(1) show ?thesis by (simp add: vmm_create_address_space_def)
next
  case (Some i)
  with assms that(2) [of i] find_Some_iff [OF Some] show ?thesis by (simp add: vmm_create_address_space_def)
qed

lemma fresh_space_wf: "vmm_wf v \<Longrightarrow> space_wf (fresh_space v s)"
  by (auto simp: vmm_wf_def space_wf_def fresh_space_def tables_clean_def slot_pte_def)

lemma create_wf: "vmm_wf v \<Longrightarrow> vmm_create_address_space v = (sp, v') \<Longrightarrow> vmm_wf v'"
  by (erule create_cases) (auto simp: vmm_wf_def fresh_space_wf [unfolded vmm_wf_def])

lemma create_ents:
  assumes "vmm_create_address_space v = (sp, v')"
  shows "ents v' = ents v"
  using assms
proof (cases rule: create_cases)
  case (2 i)
  then show ?thesis by (auto simp: ents_def fun_eq_iff slot_pte_def fresh_space_def)
qed simp

section \<open>The memory invariant\<close>

definition mem_inv :: "mm \<Rightarrow> bool" where
  "mem_inv m \<longleftrightarrow> pmm_inv (pm m) \<and> vmm_wf (vm m) \<and> frames_ok (ents (vm m)) (refcount (pm m))"

lemma mem_invD:
  assumes "mem_inv m"
  shows "pmm_inv (pm m)" "vmm_wf (vm m)" "frames_ok (ents (vm m)) (refcount (pm m))"
  using assms by (auto simp: mem_inv_def)

lemma users_spaces: "users (ents v) p \<subseteq> {..<MAX_SPACES}"
  by (auto simp: users_def ents_def split: if_splits)

lemma shared_count:
  assumes "mem_inv m" "bit (ents (vm m) i x) 0"
  shows "refcount (pm m) (pfn (ents (vm m) i x)) \<noteq> 0" "refcount (pm m) (pfn (ents (vm m) i x)) \<le> 32"
proof -
  let ?p = "pfn (ents (vm m) i x)"
  have "i \<in> users (ents (vm m)) ?p" by (rule users_memI) (use assms(2) in simp_all)
  then have ne: "users (ents (vm m)) ?p \<noteq> {}" by auto
  then show "refcount (pm m) ?p \<noteq> 0" by (rule users_count_pos [OF mem_invD(3) [OF assms(1)]])
  have "card (users (ents (vm m)) ?p) \<le> card {..<MAX_SPACES}"
    by (rule card_mono [OF _ users_spaces]) simp
  then show "refcount (pm m) ?p \<le> 32"
    using frames_okD(3) [OF mem_invD(3) [OF assms(1)] ne] by (simp add: MAX_SPACES_def)
qed

lemma alloc_frame: "pmm_inv s \<Longrightarrow> pmm_alloc_page s = (a, s') \<Longrightarrow> a \<noteq> 0 \<Longrightarrow> frame_of a = a"
  by (rule frame_of_aligned) (rule pa.alloc_aligned)

lemma map_fresh_inv:
  assumes inv: "mem_inv m" and a: "pmm_alloc_page (pm m) = (a, p1)" "a \<noteq> 0"
    and i: "i < MAX_SPACES" "space_used (vm m) i" and va: "mappable va"
    and free: "\<not> bit (user_pte (spaces (vm m) i) va) 0" and fl: "frame_of flags = 0"
  shows "mem_inv (m\<lparr>pm := p1, vm := upd_space i (put_pte va (new_pte a flags)) (vm m)\<rparr>)"
proof -
  note D = mem_invD [OF inv]
  have pf: "pfn (new_pte a flags) = pfn a"
    using frame_new_pte [OF fl, of a] pfn_frame_of by metis
  have "\<not> bit (ents (vm m) i (slot_of va)) 0"
    using free i va by (simp add: ents_def user_pte_slot)
  then have "frames_ok (set_entry i (slot_of va) (new_pte a flags) (ents (vm m)))
      ((refcount (pm m))(pfn (new_pte a flags) := 1))"
    by (rule map_fresh [OF D(3)]) (use pa.alloc_fresh [OF D(1) a] pf in \<open>auto simp: page_simps\<close>)
  then show ?thesis
    using pa.alloc_inv [OF D(1) a(1)] pa.alloc_refs [OF D(1) a] vmm_wf_put [OF D(2) va] pf
    by (simp add: mem_inv_def ents_put [OF D(2) i va])
qed

end
