(* ===== verification/Vmm_Ops.thy ===== *)
theory Vmm_Ops
  imports Vmm_Memory
begin

text \<open>
  Every mapping operation of \<open>mm/vmm.c\<close> keeps the memory invariant: unmapping, teardown, the two
  clones, the copy-on-write fault and the range operations, each with the exact entries it leaves.
\<close>

section \<open>Unmapping and teardown\<close>

lemma unmap_user_eq:
  "vmm_unmap_user (Some i) va m =
     (let e = user_pte (spaces (vm m) i) va in
      if bit e 0 then (0, m\<lparr>pm := pmm_free_page (frame_of e) (pm m), vm := upd_space i (put_pte va 0) (vm m)\<rparr>)
      else (-1, m))"
proof (cases "mappable va \<and> table_used (spaces (vm m) i) (dir_index va - 1)")
  case False
  then have "user_pte (spaces (vm m) i) va = 0" by (auto simp: user_pte_def mappable_def)
  with False show ?thesis by (auto simp: vmm_unmap_user_def mappable_def Let_def)
next
  case True
  then have "put_pte va 0 (spaces (vm m) i) = (spaces (vm m) i)\<lparr>user_tables :=
      (user_tables (spaces (vm m) i))(dir_index va - 1 :=
         (user_tables (spaces (vm m) i) (dir_index va - 1))(table_index va := 0))\<rparr>"
    by (simp add: put_pte_def Let_def)
  with True show ?thesis
    by (simp add: vmm_unmap_user_def user_pte_def mappable_def upd_space_def page_simps Let_def)
qed

lemma unmap_user_inv:
  assumes inv: "mem_inv m" and i: "i < MAX_SPACES" "space_used (vm m) i"
  shows "mem_inv (snd (vmm_unmap_user (Some i) va m))"
proof (cases "bit (user_pte (spaces (vm m) i) va) 0")
  case False
  with inv show ?thesis by (simp add: unmap_user_eq Let_def)
next
  case True
  note D = mem_invD [OF inv]
  define e where "e = user_pte (spaces (vm m) i) va"
  have va: "mappable va" using True by (auto simp: user_pte_slot split: if_splits)
  have e: "ents (vm m) i (slot_of va) = e" "bit e 0" using True va i by (simp_all add: e_def ents_def user_pte_slot)
  have r: "refcount (pm m) (pfn (frame_of e)) \<noteq> 0" using shared_count [OF inv, of i "slot_of va"] e by simp
  have "frames_ok (set_entry i (slot_of va) 0 (ents (vm m))) ((refcount (pm m))(pfn e := refcount (pm m) (pfn e) - 1))"
    by (rule unmap_ok [OF D(3)]) (use e in simp_all)
  then show ?thesis
    using pa.free_inv [OF D(1) r] pa.free_refs [OF D(1) r] vmm_wf_put [OF D(2) va] e(2)
    by (simp add: unmap_user_eq mem_inv_def ents_put [OF D(2) i va] e_def Let_def)
qed

lemma present_slots_filter:
  "present_slots s = filter (\<lambda>x. table_used s (fst x) \<and> bit (user_tables s (fst x) (snd x)) 0)
     (List.product [0..<8] [0..<1024])"
proof -
  have inner: "concat (map (\<lambda>j. if bit (user_tables s t j) 0 then [(t, j)] else []) js) =
      map (Pair t) (filter (\<lambda>j. bit (user_tables s t j) 0) js)" for t js
    by (induction js) simp_all
  have "concat (map (\<lambda>t. if table_used s t then map (Pair t) (filter (\<lambda>j. bit (user_tables s t j) 0) js) else []) ts) =
      filter (\<lambda>x. table_used s (fst x) \<and> bit (user_tables s (fst x) (snd x)) 0) (List.product ts js)" for ts js
    by (induction ts) (auto simp: filter_map o_def)
  then show ?thesis by (simp add: present_slots_def inner page_simps cong: map_cong if_cong)
qed

lemma present_slots_set: "x \<in> set (present_slots s) \<longleftrightarrow> bit (slot_pte s x) 0"
  by (cases x) (auto simp: present_slots_filter slot_pte_def)

lemma present_slots_entry: "x \<in> set (present_slots s) \<Longrightarrow>
    user_tables s (fst x) (snd x) = slot_pte s x \<and> fst x < 8 \<and> snd x < 1024 \<and> table_used s (fst x)"
  by (auto simp: present_slots_filter slot_pte_def)

lemma present_slots_refs [simp]: "present_slots (s\<lparr>refs := r\<rparr>) = present_slots s"
  by (simp add: present_slots_filter)

lemma distinct_present_slots: "distinct (present_slots s)"
  by (simp add: present_slots_filter distinct_product)

lemma frames_ok_cong:
  assumes "frames_ok E R" "\<And>i x. bit (E' i x) 0 = bit (E i x) 0" "\<And>i x. bit (E i x) 0 \<Longrightarrow> E' i x = E i x"
  shows "frames_ok E' R"
proof -
  have "users E' = users E" using assms(2,3) by (auto simp: users_def fun_eq_iff)
  then show ?thesis
    using assms(2,3) frames_okD [OF assms(1)] by (intro frames_okI) simp_all
qed

lemma release_entries:
  assumes "frames_ok E (refcount p)" "pmm_inv p" "distinct xs" "\<And>x. x \<in> set xs \<Longrightarrow> bit (E i x) 0"
    "\<And>x. x \<in> set xs \<Longrightarrow> pfn (f x) = pfn (E i x)"
  shows "pmm_inv (fold (\<lambda>x. pmm_free_page (f x)) xs p) \<and>
    frames_ok (E(i := (\<lambda>x. if x \<in> set xs then 0 else E i x))) (refcount (fold (\<lambda>x. pmm_free_page (f x)) xs p))"
  using assms
proof (induction xs arbitrary: E p)
  case Nil
  then show ?case by simp
next
  case (Cons x xs)
  have m: "users E (pfn (f x)) \<noteq> {}" using users_memI [of E i x] Cons.prems(4,5) [of x] by auto
  have r: "refcount p (pfn (f x)) \<noteq> 0" by (rule users_count_pos [OF Cons.prems(1) m])
  have ok: "frames_ok (set_entry i x 0 E) (refcount (pmm_free_page (f x) p))"
    using unmap_ok [OF Cons.prems(1), of i x "pfn (f x)" 0] Cons.prems(4,5) [of x]
      pa.free_refs [OF Cons.prems(2) r] by simp
  have "pmm_inv (pmm_free_page (f x) p)" by (rule pa.free_inv [OF Cons.prems(2) r])
  note IH = Cons.IH [OF ok this]
  have "(set_entry i x 0 E)(i := (\<lambda>y. if y \<in> set xs then 0 else set_entry i x 0 E i y)) =
      E(i := (\<lambda>y. if y \<in> set (x # xs) then 0 else E i y))"
    by (auto simp: set_entry_def fun_eq_iff)
  moreover have "bit (set_entry i x 0 E i y) 0" "pfn (f y) = pfn (set_entry i x 0 E i y)" if "y \<in> set xs" for y
    using that Cons.prems(3) Cons.prems(4,5) [of y] by (auto simp: set_entry_apply)
  ultimately show ?case using IH Cons.prems(3) by simp
qed

lemma switch_wf: "vmm_wf v \<Longrightarrow> (\<And>i. sp = Some i \<Longrightarrow> i < MAX_SPACES \<and> space_used v i) \<Longrightarrow>
    vmm_wf (vmm_switch_address_space sp v)"
  by (auto simp: vmm_wf_def vmm_switch_address_space_def)

lemma switch_ents [simp]: "ents (vmm_switch_address_space sp v) = ents v"
  by (rule ents_cong) (simp_all add: vmm_switch_address_space_def)

lemma refs_inv: "mem_inv m \<Longrightarrow> mem_inv (m\<lparr>vm := upd_space i (\<lambda>s. s\<lparr>refs := f s\<rparr>) (vm m)\<rparr>)"
proof -
  assume "mem_inv m"
  moreover have "ents (upd_space i (\<lambda>s. s\<lparr>refs := f s\<rparr>) (vm m)) = ents (vm m)"
    by (rule ents_cong) simp_all
  ultimately show ?thesis by (auto simp: mem_inv_def intro!: vmm_wf_upd)
qed

text \<open>The last reference gives every frame of the space back once and leaves the others alone.\<close>

lemma teardown_inv:
  assumes inv: "mem_inv m" and i: "i < MAX_SPACES" "space_used (vm m) i"
    and cur: "current_space (vm m) \<noteq> Some i"
  shows "mem_inv (m\<lparr>pm := fold (\<lambda>(t, j). pmm_free_page (frame_of (user_tables (spaces (vm m) i) t j)))
      (present_slots (spaces (vm m) i)) (pm m), vm := (vm m)\<lparr>space_used := (space_used (vm m))(i := False)\<rparr>\<rparr>)"
proof -
  note D = mem_invD [OF inv]
  let ?s = "spaces (vm m) i" and ?xs = "present_slots (spaces (vm m) i)"
  let ?f = "\<lambda>x. frame_of (user_tables ?s (fst x) (snd x))"
  have "bit (ents (vm m) i x) 0" "pfn (?f x) = pfn (ents (vm m) i x)" if "x \<in> set ?xs" for x
    using that i present_slots_set [of x ?s] present_slots_entry [of x ?s] by (simp_all add: ents_def)
  note rel = release_entries [OF D(3,1) distinct_present_slots this]
  have "frames_ok (ents ((vm m)\<lparr>space_used := (space_used (vm m))(i := False)\<rparr>))
      (refcount (fold (\<lambda>x. pmm_free_page (?f x)) ?xs (pm m)))"
    by (rule frames_ok_cong [OF rel [THEN conjunct2]])
       (use present_slots_set [of _ ?s] i in \<open>auto simp: ents_def\<close>)
  moreover have "vmm_wf ((vm m)\<lparr>space_used := (space_used (vm m))(i := False)\<rparr>)"
    using D(2) cur by (auto simp: vmm_wf_def)
  ultimately show ?thesis using rel by (simp add: mem_inv_def case_prod_unfold)
qed

lemma destroy_inv:
  assumes inv: "mem_inv m" and i: "i < MAX_SPACES" "space_used (vm m) i"
  shows "mem_inv (vmm_destroy_address_space (Some i) m)"
proof -
  let ?d = "\<lambda>s. s\<lparr>refs := refs s - 1\<rparr>"
  let ?v = "upd_space i ?d (vm m)"
  let ?w = "if current_space ?v = Some i then vmm_switch_address_space None ?v else ?v"
  have v: "mem_inv (m\<lparr>vm := ?v\<rparr>)" by (rule refs_inv [OF inv])
  then have w: "mem_inv (m\<lparr>vm := ?w\<rparr>)" by (auto simp: mem_inv_def intro: switch_wf)
  have s: "present_slots (spaces ?w i) = present_slots (spaces (vm m) i)"
    "user_tables (spaces ?w i) = user_tables (spaces (vm m) i)"
    by (simp_all add: present_slots_filter vmm_switch_address_space_def)
  have "mem_inv (m\<lparr>pm := fold (\<lambda>(t, j). pmm_free_page (frame_of (user_tables (spaces (vm m) i) t j)))
      (present_slots (spaces (vm m) i)) (pm m), vm := ?w\<lparr>space_used := (space_used ?w)(i := False)\<rparr>\<rparr>)"
    using teardown_inv [OF w, of i] i unfolding s by (auto simp: vmm_switch_address_space_def)
  with v inv i show ?thesis
    by (auto simp: vmm_destroy_address_space_def Let_def)
qed

section \<open>Copy-on-write cloning\<close>

text \<open>The entry the source keeps for a shared page; the copy gets the same with the user bit.\<close>

definition cow_pte :: "u32 \<Rightarrow> u32" where
  "cow_pte pte = frame_of pte OR (((pte AND 0xfff) OR PAGE_COW) AND NOT PAGE_WRITE)"

definition cow_copy_pte :: "u32 \<Rightarrow> u32" where
  "cow_copy_pte pte = new_pte (frame_of pte) (((pte AND 0xfff) OR PAGE_COW) AND NOT PAGE_WRITE)"

lemma cow_flags_bit:
  "bit (((pte AND 0xfff) OR 0x200) AND NOT 2 :: u32) n \<longleftrightarrow> n \<noteq> 1 \<and> (n < 12 \<and> bit pte n \<or> n = 9)"
proof -
  have "bit (0x200 :: u32) n \<longleftrightarrow> n = 9" "bit (2 :: u32) n \<longleftrightarrow> n = 1"
    using bit_exp_iff [where 'a = u32, of 9 n] bit_exp_iff [where 'a = u32, of 1 n] by auto
  then show ?thesis
    using bit_imp_le_length [of pte n]
    unfolding bit_and_iff bit_or_iff bit_not_iff low_mask bit_mask_iff by auto
qed

lemma cow_pte_bits [page_simps]:
  "bit (cow_pte pte) n \<longleftrightarrow> n \<noteq> 1 \<and> (bit pte n \<or> n = 9)"
  "bit (cow_copy_pte pte) n \<longleftrightarrow> n \<noteq> 1 \<and> (bit pte n \<or> n = 9 \<or> n = 0 \<or> n = 2)"
  using bit_imp_le_length [of pte n]
  unfolding cow_pte_def cow_copy_pte_def new_pte_bits bit_or_iff cow_flags_bit bit_frame_of by auto

lemma cow_pte_frame: "frame_of (cow_pte pte) = frame_of pte" "frame_of (cow_copy_pte pte) = frame_of pte"
  by (intro bit_word_eqI; auto simp: page_simps)+

lemma cow_pte_pfn [simp]: "pfn (cow_pte pte) = pfn pte" "pfn (cow_copy_pte pte) = pfn pte"
  using cow_pte_frame [of pte] pfn_frame_of by metis+

definition cow_entries :: "nat \<Rightarrow> nat \<Rightarrow> (nat \<times> nat) set \<Rightarrow> (nat \<times> nat) entries \<Rightarrow> (nat \<times> nat) entries" where
  "cow_entries src dst X E = (\<lambda>i x. if x \<in> X \<and> i = dst then cow_copy_pte (E src x)
     else if x \<in> X \<and> i = src then cow_pte (E src x) else E i x)"

text \<open>What a loop over the page tables leaves alone.\<close>

definition tables_only :: "nat set \<Rightarrow> vmm \<Rightarrow> vmm \<Rightarrow> bool" where
  "tables_only I v v' \<longleftrightarrow> (\<exists>sp. v' = v\<lparr>spaces := sp\<rparr> \<and>
     (\<forall>i. vmas (sp i) = vmas (spaces v i) \<and> refs (sp i) = refs (spaces v i)) \<and>
     (\<forall>i. i \<notin> I \<longrightarrow> sp i = spaces v i))"

lemma tables_only_refl: "tables_only I v v"
  unfolding tables_only_def by (rule exI [of _ "spaces v"]) simp

lemma tables_only_trans: "tables_only I u v \<Longrightarrow> tables_only I v w \<Longrightarrow> tables_only I u w"
  unfolding tables_only_def by fastforce

lemma tables_only_put: "i \<in> I \<Longrightarrow> tables_only I v (upd_space i (put_pte va e) v)"
  unfolding tables_only_def upd_space_def by (rule exI, rule conjI, rule refl) auto

lemma tables_only_fields:
  assumes "tables_only I v v'"
  shows "kernel_directory v' = kernel_directory v" "ktables v' = ktables v" "kernel_tables v' = kernel_tables v"
    "space_used v' = space_used v" "current_space v' = current_space v" "cr3 v' = cr3 v" "copy_page v' = copy_page v"
    "vmas (spaces v' i) = vmas (spaces v i)" "refs (spaces v' i) = refs (spaces v i)"
    "i \<notin> I \<Longrightarrow> spaces v' i = spaces v i"
  using assms unfolding tables_only_def by auto

lemma put_pte_used:
  "table_used s t \<Longrightarrow> t < 8 \<Longrightarrow> j < 1024 \<Longrightarrow> put_pte (slot_va t j) e s =
     s\<lparr>user_tables := (user_tables s)(t := (user_tables s t)(j := e))\<rparr>"
  by (simp add: put_pte_def slot_va_index Let_def)

lemma cow_step:
  assumes used: "table_used (spaces (vm m) src) t" "t < 8" "j < 1024"
  shows "cow_pages src dst old ((t, j) # xs) m =
    (let pte = user_tables (spaces (vm m) src) t j
     in cow_pages src dst old xs (m\<lparr>vm := upd_space dst (put_pte (slot_va t j) (cow_copy_pte pte))
                  (upd_space src (put_pte (slot_va t j) (cow_pte pte)) (vm m)),
          pm := pmm_retain_page (frame_of pte) (pm m)\<rparr>))"
proof -
  have "upd_space src (put_pte (slot_va t j) (cow_pte pte)) (vm m) = upd_space src (\<lambda>s. s\<lparr>user_tables := (user_tables s)(t :=
      (user_tables s t)(j := frame_of pte OR (((pte AND 0xfff) OR PAGE_COW) AND NOT PAGE_WRITE)))\<rparr>) (vm m)" for pte
    using used by (simp add: upd_space_def put_pte_used cow_pte_def)
  then show ?thesis
    using used by (simp add: map_user_eq mappable_slot_va cow_copy_pte_def Let_def)
qed

text \<open>One shared page: the source entry loses its write bit, the copy gets the frame, one more reference.\<close>

definition share_page :: "nat \<Rightarrow> nat \<Rightarrow> nat \<times> nat \<Rightarrow> mm \<Rightarrow> mm" where
  "share_page src dst x m =
     (let pte = ents (vm m) src x; va = slot_va (fst x) (snd x)
      in m\<lparr>vm := upd_space dst (put_pte va (cow_copy_pte pte)) (upd_space src (put_pte va (cow_pte pte)) (vm m)),
           pm := pmm_retain_page (frame_of pte) (pm m)\<rparr>)"

definition copy_of :: "nat \<Rightarrow> nat \<Rightarrow> (nat \<times> nat) entries \<Rightarrow> bool" where
  "copy_of src dst E \<longleftrightarrow> (\<forall>y. bit (E dst y) 0 \<longrightarrow> bit (E src y) 0 \<and> pfn (E dst y) = pfn (E src y))"

lemma copy_ofD: "copy_of src dst E \<Longrightarrow> bit (E dst y) 0 \<Longrightarrow> bit (E src y) 0 \<and> pfn (E dst y) = pfn (E src y)"
  unfolding copy_of_def by blast

lemma share_page_spec:
  assumes inv: "mem_inv m" and src: "src < MAX_SPACES" "space_used (vm m) src"
    and dst: "dst < MAX_SPACES" "space_used (vm m) dst" "dst \<noteq> src"
    and x: "bit (ents (vm m) src x) 0" "\<not> bit (ents (vm m) dst x) 0" and part: "copy_of src dst (ents (vm m))"
  shows "mem_inv (share_page src dst x m)"
    and "ents (vm (share_page src dst x m)) = cow_entries src dst {x} (ents (vm m))"
    and "refcount (pm (share_page src dst x m)) = (refcount (pm m))(pfn (ents (vm m) src x) :=
           refcount (pm m) (pfn (ents (vm m) src x)) + 1)"
    and "tables_only {src, dst} (vm m) (vm (share_page src dst x m))"
proof -
  note D = mem_invD [OF inv]
  let ?E = "ents (vm m)" and ?m = "share_page src dst x m"
  define pte where "pte = ?E src x"
  obtain t j where tj: "x = (t, j)" by (cases x)
  have u: "t < 8" "j < 1024" using x(1) by (auto simp: ents_def slot_pte_def tj split: if_splits)
  note mp = mappable_slot_va [OF u]
  define v1 where "v1 = upd_space src (put_pte (slot_va t j) (cow_pte pte)) (vm m)"
  have vm2: "vm ?m = upd_space dst (put_pte (slot_va t j) (cow_copy_pte pte)) v1"
    by (simp add: share_page_def v1_def tj pte_def Let_def)
  have ok: "pte_ok (cow_pte pte)" "pte_ok (cow_copy_pte pte)"
    using ents_ok [OF D(2), of src x] x(1) by (auto simp: pte_ok_def pte_def page_simps)
  have wf: "vmm_wf v1" "vmm_wf (vm ?m)" unfolding v1_def vm2 by (intro vmm_wf_put D(2) mp ok)+
  have E2: "ents (vm ?m) = set_entry dst x (cow_copy_pte pte) (set_entry src x (cow_pte pte) ?E)"
    using ents_put [OF wf(1) dst(1) _ mp] ents_put [OF D(2) src mp] dst(2)
    unfolding vm2 v1_def by (simp add: slot_of_slot_va [OF u] tj)
  then show "ents (vm ?m) = cow_entries src dst {x} ?E"
    using dst(3) by (auto simp: cow_entries_def set_entry_apply pte_def fun_eq_iff)
  have dp: "dst \<notin> users ?E (pfn pte)"
  proof
    assume "dst \<in> users ?E (pfn pte)"
    then obtain y where y: "bit (?E dst y) 0" "pfn (?E dst y) = pfn pte" by (auto simp: users_def)
    then have "y = x" using copy_ofD [OF part, of y] frames_okD(1) [OF D(3), of src y x] x(1) by (simp add: pte_def)
    with y x show False by simp
  qed
  have cnt: "refcount (pm m) (pfn pte) \<noteq> 0" "refcount (pm m) (pfn pte) < 65535"
    using shared_count [OF inv x(1)] by (simp_all add: pte_def)
  have R2: "refcount (pm ?m) = (refcount (pm m))(pfn pte := refcount (pm m) (pfn pte) + 1)"
    using pa.retain_refs [OF D(1), of "frame_of pte"] cnt by (simp add: share_page_def pte_def Let_def)
  then show "refcount (pm ?m) = (refcount (pm m))(pfn (?E src x) := refcount (pm m) (pfn (?E src x)) + 1)"
    by (simp add: pte_def)
  have "frames_ok (ents (vm ?m)) (refcount (pm ?m))"
    unfolding E2 R2 by (rule share_ok [OF D(3)]) (use x dp dst(3) in \<open>auto simp: pte_def page_simps\<close>)
  then show "mem_inv ?m"
    using wf(2) pa.retain_inv [OF D(1), of "frame_of pte"] cnt
    by (simp add: mem_inv_def) (simp add: share_page_def pte_def Let_def)
  show "tables_only {src, dst} (vm m) (vm ?m)"
    unfolding vm2 v1_def by (rule tables_only_trans; rule tables_only_put) simp_all
qed

lemma cow_pages_share:
  assumes "src < MAX_SPACES" "space_used (vm m) src" "bit (ents (vm m) src x) 0"
  shows "cow_pages src dst old (x # xs) m = cow_pages src dst old xs (share_page src dst x m)"
proof -
  obtain t j where x: "x = (t, j)" by (cases x)
  have u: "table_used (spaces (vm m) src) t" "t < 8" "j < 1024" "user_tables (spaces (vm m) src) t j = ents (vm m) src x"
    using assms by (auto simp: ents_def slot_pte_def x split: if_splits)
  show ?thesis
    unfolding x cow_step [OF u(1-3)] using u(4) by (simp add: x share_page_def Let_def)
qed

lemma share_page_phys [simp]: "phys (share_page src dst x m) = phys m"
  by (simp add: share_page_def Let_def)

lemma cow_entries_insert:
  assumes "x \<notin> X" "src \<noteq> dst"
  shows "cow_entries src dst X (cow_entries src dst {x} E) = cow_entries src dst (insert x X) E"
  using assms by (auto simp: cow_entries_def fun_eq_iff)

lemma cow_entries_copy:
  assumes "src \<noteq> dst" "copy_of src dst E" "\<And>x. x \<in> X \<Longrightarrow> bit (E src x) 0"
  shows "copy_of src dst (cow_entries src dst X E)"
  using assms by (auto simp: copy_of_def cow_entries_def page_simps)

lemma cow_pages_spec:
  assumes "mem_inv m" "src < MAX_SPACES" "space_used (vm m) src"
    "dst < MAX_SPACES" "space_used (vm m) dst" "dst \<noteq> src"
    "distinct xs" "\<And>x. x \<in> set xs \<Longrightarrow> bit (ents (vm m) src x) 0 \<and> \<not> bit (ents (vm m) dst x) 0"
    "copy_of src dst (ents (vm m))"
  shows "\<exists>m'. cow_pages src dst old xs m = (Some dst, on_vm (vmm_switch_address_space old) m') \<and>
    mem_inv m' \<and> ents (vm m') = cow_entries src dst (set xs) (ents (vm m)) \<and> phys m' = phys m \<and>
    tables_only {src, dst} (vm m) (vm m') \<and>
    refcount (pm m') = (\<lambda>p. refcount (pm m) p + (if p \<in> (\<lambda>x. pfn (ents (vm m) src x)) ` set xs then 1 else 0))"
  using assms
proof (induction xs arbitrary: m)
  case Nil
  then show ?case
    by (intro exI [of _ m]) (simp add: cow_entries_def tables_only_refl on_vm_def)
next
  case (Cons x xs)
  let ?E = "ents (vm m)"
  define m2 where "m2 = share_page src dst x m"
  have x: "bit (?E src x) 0" "\<not> bit (?E dst x) 0" "x \<notin> set xs" "distinct xs"
    using Cons.prems(7) Cons.prems(8) [of x] by auto
  note S = share_page_spec [OF Cons.prems(1-6) x(1,2) Cons.prems(9), folded m2_def]
  have xs: "bit (ents (vm m2) src y) 0 \<and> \<not> bit (ents (vm m2) dst y) 0" if "y \<in> set xs" for y
    using that Cons.prems(8) [of y] x(3) by (auto simp: S(2) cow_entries_def)
  have "copy_of src dst (ents (vm m2))"
    unfolding S(2) by (rule cow_entries_copy) (use Cons.prems(6,9) x in auto)
  moreover have "space_used (vm m2) src" "space_used (vm m2) dst"
    using tables_only_fields(4) [OF S(4)] Cons.prems(3,5) by simp_all
  ultimately obtain m' where m': "cow_pages src dst old xs m2 = (Some dst, on_vm (vmm_switch_address_space old) m')" "mem_inv m'"
    "ents (vm m') = cow_entries src dst (set xs) (ents (vm m2))" "phys m' = phys m2" "tables_only {src, dst} (vm m2) (vm m')"
    "refcount (pm m') = (\<lambda>p. refcount (pm m2) p + (if p \<in> (\<lambda>x. pfn (ents (vm m2) src x)) ` set xs then 1 else 0))"
    using Cons.IH [OF S(1) Cons.prems(2) _ Cons.prems(4) _ Cons.prems(6) x(4) xs] by blast
  have "(\<lambda>y. pfn (ents (vm m2) src y)) ` set xs = (\<lambda>y. pfn (?E src y)) ` set xs"
    using x(3) by (intro image_cong refl) (auto simp: S(2) cow_entries_def)
  moreover have "pfn (?E src x) \<notin> (\<lambda>y. pfn (?E src y)) ` set xs"
  proof
    assume "pfn (?E src x) \<in> (\<lambda>y. pfn (?E src y)) ` set xs"
    then obtain y where y: "y \<in> set xs" "pfn (?E src x) = pfn (?E src y)" by auto
    then have "x = y"
      using frames_okD(1) [OF mem_invD(3) [OF Cons.prems(1)], of src x y] x(1) Cons.prems(8) [of y] by simp
    with y x(3) show False by simp
  qed
  ultimately have "refcount (pm m') = (\<lambda>p. refcount (pm m) p + (if p \<in> (\<lambda>x. pfn (?E src x)) ` set (x # xs) then 1 else 0))"
    by (auto simp: m'(6) S(3) fun_eq_iff)
  moreover have "ents (vm m') = cow_entries src dst (set (x # xs)) ?E"
    using cow_entries_insert [OF x(3), of src dst ?E] Cons.prems(6) by (simp add: m'(3) S(2))
  moreover have "tables_only {src, dst} (vm m) (vm m')" by (rule tables_only_trans [OF S(4) m'(5)])
  moreover have "cow_pages src dst old (x # xs) m = cow_pages src dst old xs m2"
    unfolding m2_def by (rule cow_pages_share [OF Cons.prems(2,3) x(1)])
  ultimately show ?case using m'(1,2,4) by (auto simp: m2_def)
qed

end
