(* ===== verification/Vmm_Cow.thy ===== *)
theory Vmm_Cow
  imports Vmm_Ops
begin

text \<open>
  Copy-on-write: what \<open>vmm_clone_address_space_cow\<close> leaves in both spaces, and what the page fault
  on a shared page does to the tables, to physical memory and to the reference counts.
\<close>

section \<open>The clone\<close>

lemma copy_vmas_inv:
  assumes "vmm_wf v"
  shows "vmm_wf (copy_vmas src dst v)" "ents (copy_vmas src dst v) = ents v"
proof -
  show "vmm_wf (copy_vmas src dst v)" unfolding copy_vmas_def by (intro vmm_wf_upd assms) simp
  show "ents (copy_vmas src dst v) = ents v" by (rule ents_cong) (simp_all add: copy_vmas_def)
qed

lemma switch_current: "cr3 v = current_space v \<Longrightarrow> vmm_switch_address_space (current_space v) v = v"
  by (simp add: vmm_switch_address_space_def)

text \<open>Both clones start from a fresh space with the source's VMAs.\<close>

lemma clone_start:
  assumes inv: "mem_inv m" and src: "src < MAX_SPACES" "space_used (vm m) src"
    and c: "vmm_create_address_space (vm m) = (Some dst, v)"
  defines "m1 \<equiv> m\<lparr>vm := copy_vmas src dst v\<rparr>"
  shows "dst < MAX_SPACES" "\<not> space_used (vm m) dst" "dst \<noteq> src" "mem_inv m1" "ents (vm m1) = ents (vm m)"
    "space_used (vm m1) = (space_used (vm m))(dst := True)" "current_space (vm m1) = current_space (vm m)"
    "spaces v src = spaces (vm m) src" "current_space v = current_space (vm m)"
    "\<And>i. i < VMM_MAX_VMAS \<Longrightarrow> vmas (spaces (vm m1) dst) i = vmas (spaces (vm m) src) i"
    "\<And>i. i \<noteq> dst \<Longrightarrow> spaces (vm m1) i = spaces (vm m) i"
proof -
  show dst: "dst < MAX_SPACES" "\<not> space_used (vm m) dst"
    using c by (auto elim: create_cases)
  have v: "v = (vm m)\<lparr>space_used := (space_used (vm m))(dst := True),
         spaces := (spaces (vm m))(dst := fresh_space (vm m) (spaces (vm m) dst))\<rparr>"
    using c by (auto elim: create_cases)
  show ne: "dst \<noteq> src" using dst(2) src(2) by auto
  have wf: "vmm_wf v" by (rule create_wf [OF mem_invD(2) [OF inv] c])
  show E1: "ents (vm m1) = ents (vm m)" using copy_vmas_inv(2) [OF wf] create_ents [OF c] by (simp add: m1_def)
  show "mem_inv m1" using mem_invD [OF inv] copy_vmas_inv(1) [OF wf] E1 by (simp add: mem_inv_def m1_def)
  show "space_used (vm m1) = (space_used (vm m))(dst := True)" "current_space (vm m1) = current_space (vm m)"
    "spaces v src = spaces (vm m) src" "current_space v = current_space (vm m)"
    "\<And>i. i < VMM_MAX_VMAS \<Longrightarrow> vmas (spaces (vm m1) dst) i = vmas (spaces (vm m) src) i"
    "\<And>i. i \<noteq> dst \<Longrightarrow> spaces (vm m1) i = spaces (vm m) i"
    using ne ne [symmetric] by (simp_all add: m1_def copy_vmas_def v)
qed

lemma create_none:
  assumes "vmm_create_address_space v = (None, v')"
  shows "v' = v" "\<forall>i < MAX_SPACES. space_used v i"
  using assms by (auto simp: vmm_create_address_space_def find_None_iff split: option.splits)

lemma clone_cow_spec:
  assumes inv: "mem_inv m" and src: "src < MAX_SPACES" "space_used (vm m) src"
    and res: "vmm_clone_address_space_cow (Some src) m = (r, m')"
  obtains "r = None" "m' = m" "\<forall>i < MAX_SPACES. space_used (vm m) i"
  | dst where "r = Some dst" "dst < MAX_SPACES" "\<not> space_used (vm m) dst" "mem_inv m'" "phys m' = phys m"
      "ents (vm m') = cow_entries src dst {x. bit (ents (vm m) src x) 0} (ents (vm m))"
      "current_space (vm m') = current_space (vm m)" "space_used (vm m') = (space_used (vm m))(dst := True)"
      "\<And>i. i < VMM_MAX_VMAS \<Longrightarrow> vmas (spaces (vm m') dst) i = vmas (spaces (vm m) src) i"
      "vmas (spaces (vm m') src) = vmas (spaces (vm m) src)"
      "\<And>i. i \<noteq> src \<Longrightarrow> i \<noteq> dst \<Longrightarrow> spaces (vm m') i = spaces (vm m) i"
      "\<And>p. refcount (pm m') p = refcount (pm m) p +
         (if \<exists>x. bit (ents (vm m) src x) 0 \<and> pfn (ents (vm m) src x) = p then 1 else 0)"
proof -
  obtain sp v where c: "vmm_create_address_space (vm m) = (sp, v)" by (cases "vmm_create_address_space (vm m)")
  show ?thesis
  proof (cases sp)
    case None
    with create_none [of "vm m" v] c that(1) res show ?thesis
      by (simp add: vmm_clone_address_space_cow_def)
  next
    case (Some dst)
    note S = clone_start [OF inv src c [unfolded Some]]
    define m1 where "m1 = m\<lparr>vm := copy_vmas src dst v\<rparr>"
    note S = S [folded m1_def]
    let ?xs = "present_slots (spaces (vm m) src)"
    have xs: "set ?xs = {x. bit (ents (vm m) src x) 0}"
      using src by (auto simp: present_slots_set ents_def)
    have call: "(r, m') = cow_pages src dst (current_space (vm m)) ?xs m1"
      using res c Some by (simp add: vmm_clone_address_space_cow_def m1_def S(8,9))
    have "ents (vm m) dst = (\<lambda>_. 0)" using S(2) by (simp add: ents_def fun_eq_iff)
    then obtain m2 where m2: "cow_pages src dst (current_space (vm m)) ?xs m1 =
        (Some dst, on_vm (vmm_switch_address_space (current_space (vm m))) m2)" "mem_inv m2"
      "ents (vm m2) = cow_entries src dst (set ?xs) (ents (vm m1))" "phys m2 = phys m1" "tables_only {src, dst} (vm m1) (vm m2)"
      "refcount (pm m2) = (\<lambda>p. refcount (pm m1) p + (if p \<in> (\<lambda>x. pfn (ents (vm m1) src x)) ` set ?xs then 1 else 0))"
      using cow_pages_spec [OF S(4) src(1) _ S(1) _ S(3) distinct_present_slots, of "spaces (vm m) src" "current_space (vm m)"]
        src(2) by (auto simp: S(3) [symmetric] S(5,6) xs copy_of_def)
    note t = tables_only_fields [OF m2(5)]
    have "on_vm (vmm_switch_address_space (current_space (vm m))) m2 = m2"
      using switch_current [of "vm m2"] m2(2) S(7) t(5) by (simp add: on_vm_def mem_inv_def vmm_wf_def)
    with call m2(1) have r: "r = Some dst" "m' = m2" by simp_all
    have "p \<in> (\<lambda>x. pfn (ents (vm m1) src x)) ` set ?xs \<longleftrightarrow>
        (\<exists>x. bit (ents (vm m) src x) 0 \<and> pfn (ents (vm m) src x) = p)" for p by (auto simp: xs S(5))
    then have "refcount (pm m') p = refcount (pm m) p +
         (if \<exists>x. bit (ents (vm m) src x) 0 \<and> pfn (ents (vm m) src x) = p then 1 else 0)" for p
      by (simp add: r m2(6)) (simp add: m1_def)
    moreover have "phys m' = phys m" by (simp add: r m2(4)) (simp add: m1_def)
    ultimately show ?thesis
      using S(3) by (intro that(2) [OF r(1) S(1,2)]) (simp_all add: r(2) m2(2,3) xs S(5-7,10,11) t)
  qed
qed

end
