(* ===== verification/Vmm_Fault.thy ===== *)
theory Vmm_Fault
  imports Vmm_Cow
begin

text \<open>
  The page fault on a shared page: the window at \<open>0x003ff000\<close> through which the kernel copies,
  the private copy, and the reference counts.
\<close>

section \<open>The kernel's copy window\<close>

abbreviation (input) WINDOW :: u32 where "WINDOW \<equiv> 0x003ff000"

definition kernel_only :: "vmm \<Rightarrow> vmm \<Rightarrow> bool" where
  "kernel_only v v' \<longleftrightarrow> (\<exists>kt c. v' = v\<lparr>ktables := kt, copy_page := c\<rparr>)"

lemma kernel_only_refl: "kernel_only v v"
  unfolding kernel_only_def by (rule exI [of _ "ktables v"], rule exI [of _ "copy_page v"]) simp

lemma kernel_only_trans: "kernel_only u v \<Longrightarrow> kernel_only v w \<Longrightarrow> kernel_only u w"
  unfolding kernel_only_def by fastforce

lemma kernel_only_copy: "kernel_only v (v\<lparr>copy_page := c\<rparr>)"
  unfolding kernel_only_def by (rule exI [of _ "ktables v"], rule exI [of _ c]) simp

lemma kernel_only_map: "kernel_only v (vmm_map virt ph flags v)"
proof (cases "kernel_tables v (dir_index virt)")
  case None
  then show ?thesis by (simp add: vmm_map_def kernel_only_refl)
next
  case (Some t)
  show ?thesis unfolding kernel_only_def vmm_map_def Some
    by (rule exI, rule exI [of _ "copy_page v"]) simp
qed

lemma kernel_only_fields:
  assumes "kernel_only v v'"
  shows "kernel_directory v' = kernel_directory v" "kernel_tables v' = kernel_tables v" "spaces v' = spaces v"
    "space_used v' = space_used v" "current_space v' = current_space v" "cr3 v' = cr3 v" "ents v' = ents v"
    "vmm_wf v' = vmm_wf v"
  using assms by (auto simp: kernel_only_def vmm_wf_def intro!: ents_cong)

lemma window_index: "dir_index WINDOW = 0" "table_index WINDOW = 1023" "frame_of WINDOW = WINDOW"
  by (simp_all add: dir_index_eq table_index_eq frame_of_def)

lemma window_translate:
  assumes "vmm_wf v" "frame_of fl = 0"
  shows "translate (vmm_map WINDOW f fl v) WINDOW = Some (frame_of f)"
proof -
  have dir: "(case cr3 v of None \<Rightarrow> kernel_directory v | Some i \<Rightarrow> page_directory (spaces v i)) 0 = PdeKernel FirstTable 3"
    using assms(1) by (auto simp: vmm_wf_def space_wf_def split: option.splits)
  have "hw_pte (vmm_map WINDOW f fl v) WINDOW = frame_of f OR (fl OR 1)"
    using assms(1) dir unfolding hw_pte_def vmm_map_def window_index
    by (simp add: vmm_wf_def window_index Let_def split: option.splits)
  moreover have "frame_of (frame_of f OR (fl OR 1)) = frame_of f"
  proof (rule bit_word_eqI)
    fix n
    have "\<not> (12 \<le> n \<and> bit fl n)" using bit_frame_of [of fl n] assms(2) by simp
    then show "bit (frame_of (frame_of f OR (fl OR 1))) n = bit (frame_of f) n"
      by (auto simp: page_simps bit_or_iff bit_1_iff)
  qed
  moreover have "bit (frame_of f OR (fl OR 1)) 0" by (simp add: bit_or_iff)
  moreover have "WINDOW AND 0xfff = (0 :: u32)" by simp
  ultimately show ?thesis by (simp add: translate_pte)
qed

section \<open>The private copy\<close>

lemma new_pte_rw: "frame_of a = a \<Longrightarrow> a OR PAGE_PRESENT OR PAGE_USER OR PAGE_WRITE = new_pte a PAGE_WRITE"
  by (simp add: new_pte_def or.assoc)

lemma cow_fault_eq:
  assumes wf: "vmm_wf (vm m)" and a: "pmm_alloc_page (pm m) = (a, p1)" "a \<noteq> 0" "frame_of a = a"
    and pte: "pte = user_pte (spaces (vm m) i) page" "bit pte 0"
  shows "\<exists>v. kernel_only (vm m) v \<and> cow_fault i page pte m = Ret (m\<lparr>pm := pmm_free_page (frame_of pte) p1,
     vm := upd_space i (put_pte page (new_pte a PAGE_WRITE)) v,
     phys := (\<lambda>b. if pfn b = pfn a then phys m (frame_of pte + of_nat (unat b mod 4096)) else phys m b)\<rparr>)"
proof -
  define v1 where "v1 = vmm_map WINDOW (frame_of pte) 0 (vm m)"
  define v2 where "v2 = v1\<lparr>copy_page := (\<lambda>k. if k < 4096 then phys m (frame_of pte + of_nat k) else copy_page v1 k)\<rparr>"
  define v3 where "v3 = vmm_map WINDOW a PAGE_WRITE v2"
  define v5 where "v5 = vmm_map WINDOW WINDOW PAGE_WRITE v3"
  have k: "kernel_only (vm m) v1" "kernel_only v1 v2" "kernel_only v2 v3" "kernel_only v3 v5"
    by (simp_all add: v1_def v2_def v3_def v5_def kernel_only_map kernel_only_copy)
  have wf2: "vmm_wf v2" using wf k(1,2) kernel_only_fields(8) by simp
  have t1: "translate v1 WINDOW = Some (frame_of pte)"
    using window_translate [OF wf, of 0 "frame_of pte"] by (simp add: v1_def frame_of_def)
  have t3: "translate v3 WINDOW = Some a"
    using window_translate [OF wf2, of PAGE_WRITE a] a(3) by (simp add: v3_def frame_of_def)
  have i1: "copy_in 4096 WINDOW (m\<lparr>pm := p1, vm := v1\<rparr>) = Some (m\<lparr>pm := p1, vm := v2\<rparr>)"
    using copy_in_page [OF window_index(3), of "m\<lparr>pm := p1, vm := v1\<rparr>" _ 4096] t1
    by (simp add: v2_def cong: if_cong)
  have cp: "copy_page v3 = copy_page v2" by (simp add: v3_def vmm_map_def split: option.splits)
  have o3: "copy_out 4096 WINDOW (m\<lparr>pm := p1, vm := v3\<rparr>) = Some (m\<lparr>pm := p1, vm := v3,
      phys := (\<lambda>b. if pfn b = pfn a then phys m (frame_of pte + of_nat (unat b mod 4096)) else phys m b)\<rparr>)"
    using copy_out_page [OF window_index(3), of "m\<lparr>pm := p1, vm := v3\<rparr>" a 4096] t3 a(3)
    by (simp add: cp v2_def cong: if_cong)
  have v5: "kernel_only (vm m) v5" using k kernel_only_trans by blast
  have u: "table_used (spaces v5 i) (dir_index page - 1)"
    using pte kernel_only_fields(3) [OF v5] by (auto simp: user_pte_def split: if_splits)
  have "upd_space i (put_pte page (new_pte a PAGE_WRITE)) v5 = upd_space i (\<lambda>s. s\<lparr>user_tables :=
      (user_tables s)(dir_index page - 1 := (user_tables s (dir_index page - 1))
         (table_index page := a OR PAGE_PRESENT OR PAGE_USER OR PAGE_WRITE))\<rparr>) v5"
    using u new_pte_rw [OF a(3)] by (simp add: put_pte_def upd_space_def Let_def)
  then have "cow_fault i page pte m = Ret (m\<lparr>pm := pmm_free_page (frame_of pte) p1,
     vm := upd_space i (put_pte page (new_pte a PAGE_WRITE)) v5,
     phys := (\<lambda>b. if pfn b = pfn a then phys m (frame_of pte + of_nat (unat b mod 4096)) else phys m b)\<rparr>)"
    using a(2) i1 o3 unfolding cow_fault_def a(1)
    by (simp add: on_vm_def bind_outcome_def or_fault_def Let_def v1_def [symmetric] v3_def [symmetric] v5_def [symmetric])
  with v5 show ?thesis by blast
qed

lemma owned_pfn: "pmm_inv s \<Longrightarrow> refcount s p \<noteq> 0 \<Longrightarrow> 0 < p"
  using pmm_invD(3) refcount_owned by metis

lemma cow_fault_spec:
  assumes inv: "mem_inv m" and i: "i < MAX_SPACES" "space_used (vm m) i"
    and a: "pmm_alloc_page (pm m) = (a, p1)" "a \<noteq> 0"
    and pte: "pte = user_pte (spaces (vm m) i) page" "bit pte 0"
  obtains m' where "cow_fault i page pte m = Ret m'" "mem_inv m'"
    "ents (vm m') = set_entry i (slot_of page) (new_pte a PAGE_WRITE) (ents (vm m))"
    "phys m' = (\<lambda>b. if pfn b = pfn a then phys m (frame_of pte + of_nat (unat b mod 4096)) else phys m b)"
    "refcount (pm m') = (refcount (pm m))(pfn a := 1, pfn pte := refcount (pm m) (pfn pte) - 1)"
    "pfn a \<noteq> pfn pte" "current_space (vm m') = current_space (vm m)"
    "\<And>j. spaces (vm m') j = (if j = i then put_pte page (new_pte a PAGE_WRITE) (spaces (vm m) i) else spaces (vm m) j)"
    "space_used (vm m') = space_used (vm m)" "cr3 (vm m') = cr3 (vm m)"
proof -
  note D = mem_invD [OF inv]
  have fa: "frame_of a = a" by (rule alloc_frame [OF D(1) a])
  obtain v where v: "kernel_only (vm m) v" and eq: "cow_fault i page pte m = Ret (m\<lparr>pm := pmm_free_page (frame_of pte) p1,
     vm := upd_space i (put_pte page (new_pte a PAGE_WRITE)) v,
     phys := (\<lambda>b. if pfn b = pfn a then phys m (frame_of pte + of_nat (unat b mod 4096)) else phys m b)\<rparr>)"
    using cow_fault_eq [OF D(2) a fa pte] by blast
  note K = kernel_only_fields [OF v]
  have mp: "mappable page" using pte by (auto simp: user_pte_slot split: if_splits)
  let ?E = "ents (vm m)" and ?x = "slot_of page" and ?R = "refcount (pm m)"
  have e: "?E i ?x = pte" using i mp pte(1) by (simp add: ents_def user_pte_slot)
  have r: "?R (pfn pte) \<noteq> 0" using shared_count(1) [OF inv, of i ?x] pte(2) by (simp add: e)
  have ne: "pfn a \<noteq> pfn pte" by (rule pa.alloc_not_owned [OF D(1) a r])
  have inv1: "pmm_inv p1" by (rule pa.alloc_inv [OF D(1) a(1)])
  have R1: "refcount p1 = ?R(pfn a := 1)" by (rule pa.alloc_refs [OF D(1) a])
  then have r1: "refcount p1 (pfn (frame_of pte)) \<noteq> 0" using r ne by simp
  have R2: "refcount (pmm_free_page (frame_of pte) p1) = ?R(pfn a := 1, pfn pte := ?R (pfn pte) - 1)"
    using pa.free_refs [OF inv1 r1] ne R1 by simp
  have na: "pfn (new_pte a PAGE_WRITE) = pfn a"
    using frame_new_pte [of PAGE_WRITE a] pfn_frame_of [of a] pfn_frame_of [of "new_pte a PAGE_WRITE"] by (simp add: frame_of_def)
  have "frames_ok (set_entry i ?x 0 ?E) (?R(pfn pte := ?R (pfn pte) - 1))"
    by (rule unmap_ok [OF D(3)]) (use pte(2) e in simp_all)
  then have "frames_ok (set_entry i ?x (new_pte a PAGE_WRITE) (set_entry i ?x 0 ?E))
      ((?R(pfn pte := ?R (pfn pte) - 1))(pfn (new_pte a PAGE_WRITE) := 1))"
    by (rule map_fresh) (use ne na pa.alloc_fresh [OF D(1) a] in \<open>simp_all add: set_entry_apply new_pte_bits\<close>)
  moreover have "set_entry i ?x (new_pte a PAGE_WRITE) (set_entry i ?x 0 ?E) = set_entry i ?x (new_pte a PAGE_WRITE) ?E"
    by (auto simp: set_entry_def)
  moreover have E: "ents (upd_space i (put_pte page (new_pte a PAGE_WRITE)) v) = set_entry i ?x (new_pte a PAGE_WRITE) ?E"
    using ents_put [of v i page] D(2) i mp by (simp add: K)
  ultimately have ok: "frames_ok (ents (upd_space i (put_pte page (new_pte a PAGE_WRITE)) v))
      (refcount (pmm_free_page (frame_of pte) p1))"
    using ne na by (simp add: R2 fun_upd_twist)
  show ?thesis
    by (rule that [OF eq])
       (use ok pa.free_inv [OF inv1 r1] vmm_wf_put [OF _ mp, of v] D(2) K E R2 ne in \<open>auto simp: mem_inv_def\<close>)
qed

lemma mappable_frame: "mappable va \<Longrightarrow> mappable (frame_of va)"
proof -
  assume m: "mappable va"
  then have "1024 * 4096 \<le> unat va" "unat va < 9216 * 4096" by (simp_all add: mappable_iff word_le_nat_alt word_less_nat_alt)
  then have "1024 \<le> pfn va" "pfn va < 9216" unfolding pfn_def by (simp_all only: less_mult_imp_div_less)
  then show ?thesis by (simp add: mappable_iff word_le_nat_alt word_less_nat_alt unat_frame_of)
qed

text \<open>The fault handler takes the copy-on-write path on a write from user mode to a shared page.\<close>

lemma page_fault_cow:
  assumes inv: "mem_inv m" and cur: "current_space (vm m) = Some i"
    and pte: "pte = user_pte (spaces (vm m) i) address" "bit pte 0" "bit pte 2" "bit pte 9"
    and err: "bit err 1" "bit err 2"
  shows "vmm_page_fault cr2 err address m = cow_fault i (frame_of address) pte m"
proof -
  have mp: "mappable address" using pte by (auto simp: user_pte_slot split: if_splits)
  have nz: "address \<noteq> 0"
  proof
    assume "address = 0"
    with mp show False by (simp add: mappable_def user_range_def)
  qed
  have di: "1 \<le> dir_index address" "dir_index address \<le> 8" "table_used (spaces (vm m) i) (dir_index address - 1)"
    "user_tables (spaces (vm m) i) (dir_index address - 1) (table_index address) = pte"
    using pte mp by (auto simp: user_pte_def mappable_def split: if_splits)
  have i: "i < MAX_SPACES" "space_used (vm m) i" using mem_invD(2) [OF inv] cur by (auto simp: vmm_wf_def)
  have "ents (vm m) i (slot_of address) = pte" using i mp pte(1) by (simp add: ents_def user_pte_slot)
  then have "0 < pfn pte" using shared_count(1) [OF inv, of i "slot_of address"] pte(2)
      owned_pfn [OF mem_invD(1) [OF inv]] by simp
  then have nz2: "frame_of pte \<noteq> 0" using unat_frame_of [of pte] by auto
  have mf: "mappable (frame_of address)" by (rule mappable_frame [OF mp])
  have "user_pte (spaces (vm m) i) (frame_of address) = pte"
    using mp mf by (simp add: user_pte_slot pte(1) slot_of_def)
  then have "vmm_get_user_physical (Some i) (frame_of address) (vm m) \<noteq> 0"
    using nz2 pte(2,3) aligned_low [of "frame_of address"] by (simp add: get_user_physical_pte)
  then show ?thesis
    using nz di err pte(2,4) cur
    by (simp add: vmm_page_fault_def Let_def and_flag_iff split: option.splits)
qed

end
