(* ===== verification/Vmm_Range.thy ===== *)
theory Vmm_Range
  imports Vmm_Fault
begin

text \<open>
  The range operations of \<open>mm/vmm.c\<close>: \<open>vmm_map_range\<close> maps all pages or none, with every page it
  took given back; \<open>vmm_unmap_range\<close> and \<open>vmm_map_lazy_range\<close> keep the memory invariant.
\<close>

section \<open>The abstract view of a state\<close>

definition same_view :: "mm \<Rightarrow> mm \<Rightarrow> bool" where
  "same_view m m' \<longleftrightarrow> ents (vm m) = ents (vm m') \<and> refcount (pm m) = refcount (pm m')"

lemma same_view_refl [simp]: "same_view m m"
  by (simp add: same_view_def)

lemma same_view_trans: "same_view a b \<Longrightarrow> same_view b c \<Longrightarrow> same_view a c"
  by (simp add: same_view_def)

lemma same_view_sym: "same_view a b \<Longrightarrow> same_view b a"
  by (simp add: same_view_def)

definition live :: "nat \<Rightarrow> mm \<Rightarrow> bool" where
  "live k m \<longleftrightarrow> mem_inv m \<and> k < MAX_SPACES \<and> space_used (vm m) k"

lemma liveD: "live k m \<Longrightarrow> mem_inv m" "live k m \<Longrightarrow> k < MAX_SPACES" "live k m \<Longrightarrow> space_used (vm m) k"
  by (simp_all add: live_def)

lemma unmap_user_spec:
  assumes "live k m" and "mappable va" and "vmm_unmap_user (Some k) va m = (r, m')"
  defines "e \<equiv> ents (vm m) k (slot_of va)"
  shows "live k m'" "phys m' = phys m" "tables_only {k} (vm m) (vm m')"
    "ents (vm m') = (if bit e 0 then set_entry k (slot_of va) 0 (ents (vm m)) else ents (vm m))"
    "refcount (pm m') = (if bit e 0 then (refcount (pm m))(pfn e := refcount (pm m) (pfn e) - 1) else refcount (pm m))"
    "r = (if bit e 0 then 0 else -1)"
proof -
  note L = liveD [OF assms(1)]
  note D = mem_invD [OF L(1)]
  have e: "user_pte (spaces (vm m) k) va = e" using assms(2) L(2,3) by (simp add: e_def user_pte_slot ents_def)
  have m': "(r, m') = (if bit e 0 then (0, m\<lparr>pm := pmm_free_page (frame_of e) (pm m), vm := upd_space k (put_pte va 0) (vm m)\<rparr>)
      else (-1, m))"
    using assms(3) by (simp add: unmap_user_eq e Let_def)
  show "live k m'" using unmap_user_inv [OF L, of va] assms(3) L m' by (auto simp: live_def split: if_splits)
  show "phys m' = phys m" "r = (if bit e 0 then 0 else -1)" using m' by (auto split: if_splits)
  show "tables_only {k} (vm m) (vm m')" using m' by (auto simp: tables_only_refl tables_only_put split: if_splits)
  show "ents (vm m') = (if bit e 0 then set_entry k (slot_of va) 0 (ents (vm m)) else ents (vm m))"
    using m' ents_put [OF D(2) L(2,3) assms(2), of 0] by (auto split: if_splits)
  have "bit e 0 \<Longrightarrow> refcount (pm m) (pfn (frame_of e)) \<noteq> 0"
    using shared_count(1) [OF L(1), of k "slot_of va"] by (simp add: e_def)
  then show "refcount (pm m') = (if bit e 0 then (refcount (pm m))(pfn e := refcount (pm m) (pfn e) - 1) else refcount (pm m))"
    using m' pa.free_refs [OF D(1), of "frame_of e"] by (auto split: if_splits)
qed

lemma unmap_unmappable: "\<not> mappable va \<Longrightarrow> vmm_unmap_user (Some k) va m = (-1, m)"
  by (simp add: unmap_user_eq user_pte_slot)

lemma unmap_user_live:
  assumes "live k m"
  shows "live k (snd (vmm_unmap_user (Some k) va m))" "tables_only {k} (vm m) (vm (snd (vmm_unmap_user (Some k) va m)))"
    "phys (snd (vmm_unmap_user (Some k) va m)) = phys m"
  using assms unmap_user_spec(1-3) [OF assms, of va] unmap_unmappable [of va k m]
  by (cases "mappable va"; cases "vmm_unmap_user (Some k) va m"; simp add: tables_only_refl)+

lemma unmap_user_view:
  assumes "live k m1" "live k m2" "same_view m1 m2"
  shows "same_view (snd (vmm_unmap_user (Some k) va m1)) (snd (vmm_unmap_user (Some k) va m2))"
proof (cases "mappable va")
  case False
  with assms show ?thesis by (simp add: unmap_unmappable)
next
  case True
  obtain r1 n1 r2 n2 where n: "vmm_unmap_user (Some k) va m1 = (r1, n1)" "vmm_unmap_user (Some k) va m2 = (r2, n2)"
    by (cases "vmm_unmap_user (Some k) va m1", cases "vmm_unmap_user (Some k) va m2")
  show ?thesis
    using unmap_user_spec(4,5) [OF assms(1) True n(1)] unmap_user_spec(4,5) [OF assms(2) True n(2)] assms(3)
    by (simp add: same_view_def n)
qed

definition unmap_list :: "nat \<Rightarrow> u32 list \<Rightarrow> mm \<Rightarrow> mm" where
  "unmap_list k vas m = fold (\<lambda>va m. snd (vmm_unmap_user (Some k) va m)) vas m"

lemma unmap_list_simps [simp]:
  "unmap_list k [] m = m" "unmap_list k (va # vas) m = unmap_list k vas (snd (vmm_unmap_user (Some k) va m))"
  by (simp_all add: unmap_list_def)

lemma unmap_list_live:
  "live k m \<Longrightarrow> live k (unmap_list k vas m) \<and> tables_only {k} (vm m) (vm (unmap_list k vas m)) \<and>
     phys (unmap_list k vas m) = phys m"
proof (induction vas arbitrary: m)
  case Nil
  then show ?case by (simp add: tables_only_refl)
next
  case (Cons va vas)
  show ?case
    using Cons.IH [OF unmap_user_live(1) [OF Cons.prems, of va]] unmap_user_live(2,3) [OF Cons.prems, of va]
    by (auto intro: tables_only_trans)
qed

lemma unmap_list_view:
  "live k m1 \<Longrightarrow> live k m2 \<Longrightarrow> same_view m1 m2 \<Longrightarrow> same_view (unmap_list k vas m1) (unmap_list k vas m2)"
  by (induction vas arbitrary: m1 m2) (simp_all add: unmap_user_live unmap_user_view)

lemma unmap_back_list: "unmap_back (Some k) base i m = unmap_list k (map (\<lambda>j. base + of_nat j * PAGE_SIZE) (rev [0..<i])) m"
  by (simp add: unmap_back_def unmap_list_def fold_map o_def)

lemma unmap_pages_list: "unmap_pages (Some k) virt n m = unmap_list k (map (\<lambda>j. virt + of_nat j * PAGE_SIZE) [0..<n]) m"
  by (simp add: unmap_pages_def unmap_list_def fold_map o_def)

section \<open>One fresh page\<close>

lemma map_fresh_spec:
  assumes "live k m" and a: "pmm_alloc_page (pm m) = (a, p1)" "a \<noteq> 0"
    and va: "mappable va" "ents (vm m) k (slot_of va) = 0" and fl: "frame_of flags = 0"
  defines "m' \<equiv> m\<lparr>pm := p1, vm := upd_space k (put_pte va (new_pte a flags)) (vm m)\<rparr>"
  shows "live k m'" "phys m' = phys m" "tables_only {k} (vm m) (vm m')"
    "ents (vm m') = set_entry k (slot_of va) (new_pte a flags) (ents (vm m))"
    "refcount (pm m) (pfn a) = 0" "refcount (pm m') = (refcount (pm m))(pfn a := 1)"
    "pfn (new_pte a flags) = pfn a"
    "same_view (snd (vmm_unmap_user (Some k) va m')) m"
proof -
  note L = liveD [OF assms(1)]
  note D = mem_invD [OF L(1)]
  show live: "live k m'"
    using map_fresh_inv [OF L(1) a L(2,3) va(1) _ fl] va L by (simp add: live_def m'_def user_pte_slot ents_def)
  show "phys m' = phys m" "tables_only {k} (vm m) (vm m')" by (simp_all add: m'_def tables_only_put)
  show E: "ents (vm m') = set_entry k (slot_of va) (new_pte a flags) (ents (vm m))"
    using ents_put [OF D(2) L(2,3) va(1)] by (simp add: m'_def)
  show r0: "refcount (pm m) (pfn a) = 0" by (rule pa.alloc_fresh [OF D(1) a])
  show R: "refcount (pm m') = (refcount (pm m))(pfn a := 1)" using pa.alloc_refs [OF D(1) a] by (simp add: m'_def)
  show pf: "pfn (new_pte a flags) = pfn a" using frame_new_pte [OF fl, of a] pfn_frame_of by metis
  obtain r n where n: "vmm_unmap_user (Some k) va m' = (r, n)" by (cases "vmm_unmap_user (Some k) va m'")
  have "bit (new_pte a flags) 0" by (simp add: new_pte_bits)
  moreover have "set_entry k (slot_of va) 0 (set_entry k (slot_of va) e E) = E" if "E k (slot_of va) = 0" for e E
    using that by (auto simp: set_entry_def fun_eq_iff)
  ultimately show "same_view (snd (vmm_unmap_user (Some k) va m')) m"
    using unmap_user_spec(4,5) [OF live va(1) n] va(2) r0 R pf
    by (auto simp: same_view_def n E set_entry_apply fun_eq_iff)
qed

section \<open>Mapping a range\<close>

definition page_at :: "u32 \<Rightarrow> nat \<Rightarrow> u32" where
  "page_at base j = base + of_nat j * PAGE_SIZE"

text \<open>
  The range \<open>[base, base + n pages)\<close> does not wrap, so its pages occupy different slots.
\<close>

definition page_range :: "u32 \<Rightarrow> nat \<Rightarrow> bool" where
  "page_range base n \<longleftrightarrow> base AND 0xfff = 0 \<and> unat base + n * 4096 < 2 ^ 32"

lemma page_at_pfn:
  assumes "page_range base n" "j < n"
  shows "pfn (page_at base j) = pfn base + j"
proof -
  have "j * 4096 < n * 4096" using assms(2) by simp
  then have "unat base + j * 4096 < 2 ^ 32" using assms(1) unfolding page_range_def by linarith
  moreover have "page_at base j = of_nat (unat base + j * 4096)" by (simp add: page_at_def)
  ultimately have "unat (page_at base j) = unat base + j * 4096" by (simp only: unat_of_nat_small)
  then show ?thesis by (simp add: pfn_def)
qed

lemma slot_of_inj: "mappable x \<Longrightarrow> mappable y \<Longrightarrow> slot_of x = slot_of y \<Longrightarrow> pfn x = pfn y"
proof -
  assume m: "mappable x" "mappable y" and s: "slot_of x = slot_of y"
  then have "dir_index x = dir_index y" "table_index x = table_index y"
    by (auto simp: slot_of_def mappable_def)
  then show ?thesis by (simp add: index_pfn)
qed

lemma slot_page_inj:
  assumes "page_range base n" "i < n" "j < n" "i \<noteq> j" "mappable (page_at base i)" "mappable (page_at base j)"
  shows "slot_of (page_at base i) \<noteq> slot_of (page_at base j)"
  using slot_of_inj [OF assms(5,6)] page_at_pfn [OF assms(1,2)] page_at_pfn [OF assms(1,3)] assms(4) by auto

text \<open>What the loop has done after \<open>i\<close> pages, and that the rollback undoes it.\<close>

definition mapped_upto :: "nat \<Rightarrow> u32 \<Rightarrow> u32 \<Rightarrow> nat \<Rightarrow> mm \<Rightarrow> mm \<Rightarrow> bool" where
  "mapped_upto k base flags i m0 m \<longleftrightarrow> live k m \<and> phys m = phys m0 \<and> tables_only {k} (vm m0) (vm m) \<and>
     same_view (unmap_back (Some k) base i m) m0 \<and>
     (\<forall>j < i. mappable (page_at base j) \<and> (\<exists>f. ents (vm m) k (slot_of (page_at base j)) = new_pte f (flags OR PAGE_WRITE) \<and>
        refcount (pm m0) (pfn f) = 0 \<and> refcount (pm m) (pfn f) = 1)) \<and>
     (\<forall>l x. (l \<noteq> k \<or> x \<notin> (\<lambda>j. slot_of (page_at base j)) ` {..<i}) \<longrightarrow> ents (vm m) l x = ents (vm m0) l x) \<and>
     (\<forall>p. refcount (pm m0) p \<noteq> 0 \<longrightarrow> refcount (pm m) p = refcount (pm m0) p)"

lemma mapped_uptoD:
  assumes "mapped_upto k base flags i m0 m"
  shows "live k m" "phys m = phys m0" "tables_only {k} (vm m0) (vm m)" "same_view (unmap_back (Some k) base i m) m0"
    "\<And>j. j < i \<Longrightarrow> mappable (page_at base j)"
    "\<And>j. j < i \<Longrightarrow> \<exists>f. ents (vm m) k (slot_of (page_at base j)) = new_pte f (flags OR PAGE_WRITE) \<and>
        refcount (pm m0) (pfn f) = 0 \<and> refcount (pm m) (pfn f) = 1"
    "\<And>l x. l \<noteq> k \<or> x \<notin> (\<lambda>j. slot_of (page_at base j)) ` {..<i} \<Longrightarrow> ents (vm m) l x = ents (vm m0) l x"
    "\<And>p. refcount (pm m0) p \<noteq> 0 \<Longrightarrow> refcount (pm m) p = refcount (pm m0) p"
  using assms unfolding mapped_upto_def by blast+

lemma frame_of_or: "frame_of (a OR b) = frame_of a OR frame_of b"
  by (intro bit_word_eqI) (auto simp: page_simps bit_or_iff)

lemma mapped_upto_step:
  assumes M: "mapped_upto k base flags i m0 m" and r: "page_range base n" "i < n" and fl: "frame_of flags = 0"
    and va: "mappable (page_at base i)" "ents (vm m0) k (slot_of (page_at base i)) = 0"
    and a: "pmm_alloc_page (pm m) = (a, p1)" "a \<noteq> 0"
  shows "mapped_upto k base flags (Suc i) m0
    (m\<lparr>pm := p1, vm := upd_space k (put_pte (page_at base i) (new_pte a (flags OR PAGE_WRITE))) (vm m)\<rparr>)"
proof -
  note D = mapped_uptoD [OF M]
  let ?x = "slot_of (page_at base i)" and ?f = "flags OR PAGE_WRITE"
  define m' where "m' = m\<lparr>pm := p1, vm := upd_space k (put_pte (page_at base i) (new_pte a ?f)) (vm m)\<rparr>"
  have new: "?x \<notin> (\<lambda>j. slot_of (page_at base j)) ` {..<i}"
  proof
    assume "?x \<in> (\<lambda>j. slot_of (page_at base j)) ` {..<i}"
    then obtain j where j: "j < i" "?x = slot_of (page_at base j)" by auto
    then have "slot_of (page_at base i) \<noteq> slot_of (page_at base j)"
      using r(2) by (intro slot_page_inj [OF r(1)] va(1) D(5)) simp_all
    with j show False by simp
  qed
  have fl': "frame_of ?f = 0" using fl unfolding frame_of_or by (simp add: frame_of_def)
  note S = map_fresh_spec [OF D(1) a va(1) _ fl', folded m'_def]
  have e0: "ents (vm m) k ?x = 0" using D(7) [of k ?x] new va(2) by simp
  note S = S [OF e0]
  have "same_view (unmap_back (Some k) base (Suc i) m') m0"
  proof -
    have "unmap_back (Some k) base (Suc i) m' = unmap_back (Some k) base i (snd (vmm_unmap_user (Some k) (page_at base i) m'))"
      by (simp add: unmap_back_list page_at_def)
    moreover have "same_view (unmap_back (Some k) base i (snd (vmm_unmap_user (Some k) (page_at base i) m')))
        (unmap_back (Some k) base i m)"
      unfolding unmap_back_list by (rule unmap_list_view [OF unmap_user_live(1) [OF S(1)] D(1) S(8)])
    ultimately show ?thesis using D(4) same_view_trans by simp
  qed
  moreover have "\<exists>f. ents (vm m') k (slot_of (page_at base j)) = new_pte f ?f \<and>
      refcount (pm m0) (pfn f) = 0 \<and> refcount (pm m') (pfn f) = 1" if j: "j < Suc i" for j
  proof (cases "j = i")
    case True
    have "refcount (pm m0) (pfn a) = 0" using D(8) [of "pfn a"] S(5) by force
    with True show ?thesis using S(4,6) by (intro exI [of _ a]) (simp add: set_entry_apply)
  next
    case False
    then have "j < i" using j by simp
    then obtain f where f: "ents (vm m) k (slot_of (page_at base j)) = new_pte f ?f"
      "refcount (pm m0) (pfn f) = 0" "refcount (pm m) (pfn f) = 1" using D(6) by blast
    moreover have "slot_of (page_at base j) \<noteq> ?x" using new \<open>j < i\<close> by (metis imageI lessThan_iff)
    ultimately show ?thesis using S(4-6) by (intro exI [of _ f]) (auto simp: set_entry_apply)
  qed
  moreover have "ents (vm m') l x = ents (vm m0) l x"
    if "l \<noteq> k \<or> x \<notin> (\<lambda>j. slot_of (page_at base j)) ` {..<Suc i}" for l x
    using that D(7) [of l x] by (auto simp: S(4) set_entry_apply lessThan_Suc)
  moreover have "refcount (pm m') p = refcount (pm m0) p" if "refcount (pm m0) p \<noteq> 0" for p
    using that D(8) [of p] S(5) by (auto simp: S(6))
  moreover have "tables_only {k} (vm m0) (vm m')" by (rule tables_only_trans [OF D(3) S(3)])
  ultimately show ?thesis
    using S(1,2) D(2,5) va(1) unfolding mapped_upto_def m'_def [symmetric] by (auto simp: less_Suc_eq)
qed

lemma map_pages_spec:
  assumes "mapped_upto k base flags i m0 m" "page_range base (i + n)" "frame_of flags = 0"
    "\<And>j. j < i + n \<Longrightarrow> mappable (page_at base j) \<Longrightarrow> ents (vm m0) k (slot_of (page_at base j)) = 0"
    "map_pages (Some k) base flags n i m = (ok, m')"
  shows "if ok then mapped_upto k base flags (i + n) m0 m'
         else live k m' \<and> same_view m' m0 \<and> phys m' = phys m0 \<and> tables_only {k} (vm m0) (vm m')"
  using assms
proof (induction n arbitrary: i m)
  case 0
  then show ?case by simp
next
  case (Suc n)
  note M = mapped_uptoD [OF Suc.prems(1)]
  note P = mem_invD(1) [OF liveD(1) [OF M(1)]]
  let ?va = "page_at base i"
  obtain a p1 where a: "pmm_alloc_page (pm m) = (a, p1)" by (cases "pmm_alloc_page (pm m)")
  have undo: "live k (unmap_back (Some k) base i q) \<and> same_view (unmap_back (Some k) base i q) m0 \<and>
      phys (unmap_back (Some k) base i q) = phys m0 \<and> tables_only {k} (vm m0) (vm (unmap_back (Some k) base i q))"
    if q: "live k q" "same_view q m" "phys q = phys m" "vm q = vm m" for q
    using unmap_list_live [OF q(1)] same_view_trans [OF unmap_list_view [OF q(1) M(1) q(2)] M(4) [unfolded unmap_back_list]]
      M(2,3) q(3,4) by (auto simp: unmap_back_list intro: tables_only_trans)
  show ?case
  proof (cases "a = 0")
    case True
    then have "p1 = pm m" using pa.alloc_none [OF P] a by simp
    with True a Suc.prems(5) have "ok = False" "m' = unmap_back (Some k) base i m" by simp_all
    with undo [OF M(1)] show ?thesis by simp
  next
    case False
    show ?thesis
    proof (cases "mappable ?va")
      case True
      have e0: "ents (vm m0) k (slot_of ?va) = 0" using Suc.prems(4) [of i] True by simp
      define m2 where "m2 = m\<lparr>pm := p1, vm := upd_space k (put_pte ?va (new_pte a (flags OR PAGE_WRITE))) (vm m)\<rparr>"
      have "mapped_upto k base flags (Suc i) m0 m2" unfolding m2_def
        by (rule mapped_upto_step [OF Suc.prems(1,2) _ Suc.prems(3) True e0 a False]) simp
      moreover have "map_pages (Some k) base flags n (Suc i) m2 = (ok, m')"
        using Suc.prems(5) a False True by (simp add: map_user_eq m2_def page_at_def)
      ultimately show ?thesis using Suc.IH [of "Suc i" m2] Suc.prems(2-4) by (cases ok) simp_all
    next
      case na: False
      define q where "q = m\<lparr>pm := pmm_free_page a p1\<rparr>"
      have "ok = False" "m' = unmap_back (Some k) base i q"
        using Suc.prems(5) a False na by (simp_all add: map_user_eq q_def page_at_def)
      moreover have R: "refcount (pmm_free_page a p1) = refcount (pm m)" by (rule pa.alloc_free_refs [OF P a False])
      moreover have "pmm_inv (pmm_free_page a p1)"
        using pa.free_inv [OF pa.alloc_inv [OF P a], of a] pa.alloc_refs [OF P a False] by simp
      then have "live k q" using M(1) R by (simp add: live_def mem_inv_def q_def)
      ultimately show ?thesis using undo [of q] by (simp add: same_view_def q_def)
    qed
  qed
qed

lemma range_fin:
  assumes "base AND 0xfff = 0" "pages \<le> 0x80000" "base \<le> base + pages * PAGE_SIZE" "base + pages * PAGE_SIZE \<le> 0xc0000000"
  shows "page_range base (unat pages)" "unat (base + pages * PAGE_SIZE) = unat base + unat pages * 4096"
proof -
  have p: "unat pages \<le> 524288" using assms(2) by (simp add: word_le_nat_alt)
  then have pp: "unat (pages * PAGE_SIZE) = unat pages * 4096" by (simp add: unat_word_ariths)
  have b: "unat base < 2 ^ 32" using unsigned_less [of base, where 'a = nat] by simp
  have "unat base + unat pages * 4096 < 2 ^ 32"
  proof (rule ccontr)
    assume "\<not> ?thesis"
    then have w: "2 ^ 32 \<le> unat base + unat (pages * PAGE_SIZE)" by (simp add: pp)
    then have "unat (base + pages * PAGE_SIZE) = unat base + unat (pages * PAGE_SIZE) - 2 ^ 32"
      using b p pp by (simp add: unat_word_ariths mod_if)
    then have "unat (base + pages * PAGE_SIZE) < unat base" using b w p pp by simp
    with assms(3) show False by (simp add: word_le_nat_alt)
  qed
  then show "page_range base (unat pages)" "unat (base + pages * PAGE_SIZE) = unat base + unat pages * 4096"
    using assms(1) pp by (simp_all add: page_range_def unat_word_ariths)
qed

lemma live_entry:
  assumes "live k m" "mappable va"
  shows "vmm_get_user_physical (Some k) va (vm m) = 0 \<longleftrightarrow> ents (vm m) k (slot_of va) = 0"
proof -
  note L = liveD [OF assms(1)]
  let ?e = "ents (vm m) k (slot_of va)"
  have e: "user_pte (spaces (vm m) k) va = ?e" using assms(2) L(2,3) by (simp add: user_pte_slot ents_def)
  have "frame_of ?e OR (va AND 0xfff) \<noteq> 0" if "bit ?e 0"
  proof -
    have "0 < pfn ?e" using shared_count(1) [OF L(1) that] owned_pfn [OF mem_invD(1) [OF L(1)]] by simp
    then have "frame_of ?e \<noteq> 0" using unat_frame_of [of ?e] by auto
    then show ?thesis by (metis or_eq_0_iff)
  qed
  then show ?thesis using ents_ok [OF mem_invD(2) [OF L(1)], of k "slot_of va"]
    by (auto simp: get_user_physical_pte e pte_ok_def Let_def)
qed

lemma range_unmapped_ents:
  assumes "live k m" "range_unmapped k base pages (vm m)" "j < unat pages" "mappable (page_at base j)"
  shows "ents (vm m) k (slot_of (page_at base j)) = 0"
  using assms live_entry [OF assms(1,4)] by (auto simp: range_unmapped_def page_at_def list_all_iff)

lemma mapped_upto_0: "live k m \<Longrightarrow> mapped_upto k base flags 0 m m"
  by (auto simp: mapped_upto_def tables_only_refl unmap_back_def)

lemma map_range_spec:
  assumes live: "live k m" and fl: "frame_of flags = 0" and res: "vmm_map_range (Some k) virt pages flags m = (r, m')"
  obtains "r = -1" "live k m'" "same_view m' m" "phys m' = phys m" "tables_only {k} (vm m) (vm m')"
  | base slot m1 where "r = sint base" "virt = 0 \<or> base = virt" "base AND 0xfff = 0"
      "unat (base + pages * PAGE_SIZE) = unat base + unat pages * 4096" "unat base + unat pages * 4096 \<le> 0xc0000000"
      "\<not> vma_overlaps (spaces (vm m) k) base (base + pages * PAGE_SIZE)" "free_vma (spaces (vm m) k) = Some slot"
      "mapped_upto k base flags (unat pages) m m1"
      "m' = on_vm (upd_space k (set_vma slot base (base + pages * PAGE_SIZE) flags)) m1"
proof -
  define base where "base = (if virt = 0 then place_mapped k (vm m) pages 0x01000000 else virt)"
  let ?fin = "base + pages * PAGE_SIZE"
  let ?bad = "pages = 0 \<or> pages > 0x80000 \<or> base AND 0xfff \<noteq> 0 \<or> \<not> user_range base \<or> ?fin < base \<or> ?fin > 0xc0000000 \<or>
    vma_overlaps (spaces (vm m) k) base ?fin \<or> \<not> range_unmapped k base pages (vm m) \<or> free_vma (spaces (vm m) k) = None"
  show ?thesis
  proof (cases ?bad)
    case True
    then have "r = -1" "m' = m"
      using res by (auto simp: vmm_map_range_def base_def [symmetric] Let_def split: option.splits if_splits)
    with that(1) live show ?thesis by (simp add: tables_only_refl)
  next
    case False
    then obtain slot where slot: "free_vma (spaces (vm m) k) = Some slot" by auto
    obtain ok m1 where mp: "map_pages (Some k) base flags (unat pages) 0 m = (ok, m1)"
      by (cases "map_pages (Some k) base flags (unat pages) 0 m")
    have rm: "(r, m') = (if \<not> ok then (-1, m1) else (sint base, on_vm (upd_space k (set_vma slot base ?fin flags)) m1))"
      using res False slot mp by (simp add: vmm_map_range_def base_def [symmetric] Let_def)
    have fin: "page_range base (unat pages)" "unat ?fin = unat base + unat pages * 4096"
      using range_fin [of base pages] False by (simp_all add: not_less)
    note S = map_pages_spec [OF mapped_upto_0 [OF live] _ fl _ mp, simplified, OF fin(1)]
    have e0: "ents (vm m) k (slot_of (page_at base j)) = 0" if "j < unat pages" "mappable (page_at base j)" for j
      using range_unmapped_ents [OF live _ that] False by simp
    show ?thesis
    proof (cases ok)
      case True
      have "unat base + unat pages * 4096 \<le> 0xc0000000" using False fin(2) by (simp add: word_less_nat_alt)
      then show ?thesis using that(2) [of base slot m1] S [OF e0] True False rm slot fin by (auto simp: base_def)
    next
      case nok: False
      then show ?thesis using that(1) S [OF e0] rm by simp
    qed
  qed
qed

lemma set_vma_inv: "live k m \<Longrightarrow> live k (on_vm (upd_space k (set_vma slot a b fl)) m)"
proof -
  assume l: "live k m"
  have "ents (upd_space k (set_vma slot a b fl) (vm m)) = ents (vm m)"
    by (rule ents_cong) (simp_all add: set_vma_def)
  then show ?thesis using l by (auto simp: live_def mem_inv_def on_vm_def set_vma_def intro!: vmm_wf_upd)
qed

lemma map_range_live:
  assumes "live k m" "frame_of flags = 0"
  shows "live k (snd (vmm_map_range (Some k) virt pages flags m))"
proof -
  obtain r m' where r: "vmm_map_range (Some k) virt pages flags m = (r, m')"
    by (cases "vmm_map_range (Some k) virt pages flags m")
  show ?thesis using map_range_spec [OF assms r] mapped_uptoD(1) set_vma_inv r by (metis snd_conv)
qed

section \<open>Unmapping a range\<close>

lemma trim_vma_inv: "live k m \<Longrightarrow> live k (on_vm (upd_space k (trim_vma slot a b)) m)"
proof -
  assume l: "live k m"
  have t: "\<exists>f. trim_vma slot a b s = s\<lparr>vmas := f\<rparr>" for s
  proof -
    have "\<exists>f. s = s\<lparr>vmas := f\<rparr>" by (rule exI [of _ "vmas s"]) simp
    then show ?thesis unfolding trim_vma_def Let_def by (auto split: option.splits)
  qed
  have "table_used (trim_vma slot a b s) = table_used s" "user_tables (trim_vma slot a b s) = user_tables s" for s
    using t [of s] by auto
  then have "ents (upd_space k (trim_vma slot a b) (vm m)) = ents (vm m)"
    by (intro ents_cong) simp_all
  moreover have "space_wf (trim_vma slot a b s) = space_wf s" for s using t [of s] by auto
  ultimately show ?thesis using l by (auto simp: live_def mem_inv_def on_vm_def intro!: vmm_wf_upd)
qed

lemma unmap_range_live:
  assumes "live k m"
  shows "live k (snd (vmm_unmap_range (Some k) virt pages m))"
proof -
  have "live k (on_vm (upd_space k (trim_vma slot a b)) (unmap_pages (Some k) virt n m))" for slot a b n
    unfolding unmap_pages_list by (intro trim_vma_inv conjunct1 [OF unmap_list_live] assms)
  with assms show ?thesis
    by (auto simp: vmm_unmap_range_def Let_def split: option.splits)
qed

lemma lazy_range_live:
  assumes "live k m"
  shows "live k (on_vm (\<lambda>v. snd (vmm_map_lazy_range (Some k) virt pages flags v)) m)"
proof -
  have "live k (on_vm (\<lambda>v. v) m)" using assms by (simp add: on_vm_def)
  then show ?thesis
    using set_vma_inv [OF assms] assms unfolding vmm_map_lazy_range_def on_vm_def Let_def
    by (auto split: option.splits)
qed

end
