(* ===== verification/Vmm_Clone.thy ===== *)
theory Vmm_Clone
  imports Vmm_Range
begin

text \<open>
  The eager clone \<open>vmm_clone_address_space\<close>: every page of the source gets a fresh frame with the
  same contents, and a failed allocation gives everything back.
\<close>

section \<open>Reading through the tables of a space\<close>

lemma translate_user:
  assumes "live k m" "cr3 (vm m) = Some k" "mappable va" "bit (ents (vm m) k (slot_of va)) 0"
  shows "translate (vm m) va = Some (frame_of (ents (vm m) k (slot_of va)) + (va AND 0xfff))"
proof -
  note L = liveD [OF assms(1)]
  have wf: "space_wf (spaces (vm m) k)" by (rule vmm_wf_space [OF mem_invD(2) [OF L(1)] L(2,3)])
  obtain d where d: "dir_index va = Suc d" "d < 8" using assms(3) by (cases "dir_index va") (auto simp: mappable_def)
  have u: "table_used (spaces (vm m) k) d"
    "user_tables (spaces (vm m) k) d (table_index va) = ents (vm m) k (slot_of va)"
    using assms(4) d by (auto simp: ents_def slot_pte_def slot_of_def split: if_splits)
  then have "page_directory (spaces (vm m) k) (Suc d) = PdeUser d 7" using wf d(2) by (simp add: space_wf_def)
  then have "hw_pte (vm m) va = ents (vm m) k (slot_of va)" using assms(2) u d by (simp add: hw_pte_def)
  then show ?thesis using assms(4) frame_or_low by (simp add: translate_pte)
qed

lemma switch_live:
  assumes "live k m" "sp = None \<or> (\<exists>i. sp = Some i \<and> live i m)"
  shows "live k (on_vm (vmm_switch_address_space sp) m)"
  using assms switch_wf [of "vm m" sp] by (auto simp: live_def mem_inv_def on_vm_def)
    (simp_all add: vmm_switch_address_space_def)

lemma live_phys [simp]: "live k (m\<lparr>phys := f\<rparr>) = live k m" "ents (vm (m\<lparr>phys := f\<rparr>)) = ents (vm m)"
  by (simp_all add: live_def mem_inv_def)

lemma live_copy_page: "live k (m\<lparr>vm := (vm m)\<lparr>copy_page := c\<rparr>\<rparr>) = live k m" "ents (v\<lparr>copy_page := c\<rparr>) = ents v"
proof -
  show e: "ents (v\<lparr>copy_page := c\<rparr>) = ents v" for v by (rule ents_cong) simp_all
  show "live k (m\<lparr>vm := (vm m)\<lparr>copy_page := c\<rparr>\<rparr>) = live k m"
    by (simp add: live_def mem_inv_def e vmm_wf_def)
qed

section \<open>The page loop\<close>

definition page_bytes :: "u32 \<Rightarrow> mm \<Rightarrow> nat \<Rightarrow> u8" where
  "page_bytes f m n = phys m (frame_of f + of_nat n)"

text \<open>What the loop has done for the slots \<open>X\<close>, started from \<open>m0\<close>.\<close>

definition cloned :: "nat \<Rightarrow> nat \<Rightarrow> (nat \<times> nat) set \<Rightarrow> mm \<Rightarrow> mm \<Rightarrow> bool" where
  "cloned src dst X m0 m \<longleftrightarrow> live src m \<and> live dst m \<and>
     (\<forall>x \<in> X. (\<exists>f. ents (vm m) dst x = new_pte f (ents (vm m0) src x AND 0xfff)) \<and>
        refcount (pm m0) (pfn (ents (vm m) dst x)) = 0 \<and>
        (\<forall>n < 4096. page_bytes (ents (vm m) dst x) m n = page_bytes (ents (vm m0) src x) m0 n)) \<and>
     (\<forall>i x. i \<noteq> dst \<or> x \<notin> X \<longrightarrow> ents (vm m) i x = ents (vm m0) i x) \<and>
     (\<forall>p. refcount (pm m) p = (if \<exists>x \<in> X. pfn (ents (vm m) dst x) = p then 1 else refcount (pm m0) p)) \<and>
     (\<forall>b. refcount (pm m0) (pfn b) \<noteq> 0 \<longrightarrow> phys m b = phys m0 b) \<and>
     space_used (vm m) = space_used (vm m0) \<and> (current_space (vm m) = current_space (vm m0) \<or> current_space (vm m) = Some dst) \<and>
     (\<forall>i. vmas (spaces (vm m) i) = vmas (spaces (vm m0) i) \<and> refs (spaces (vm m) i) = refs (spaces (vm m0) i)) \<and>
     (\<forall>i. i \<noteq> dst \<longrightarrow> spaces (vm m) i = spaces (vm m0) i)"

lemma clonedD:
  assumes "cloned src dst X m0 m"
  shows "live src m" "live dst m"
    "\<And>x. x \<in> X \<Longrightarrow> (\<exists>f. ents (vm m) dst x = new_pte f (ents (vm m0) src x AND 0xfff)) \<and>
        refcount (pm m0) (pfn (ents (vm m) dst x)) = 0 \<and>
        (\<forall>n < 4096. page_bytes (ents (vm m) dst x) m n = page_bytes (ents (vm m0) src x) m0 n)"
    "\<And>i x. i \<noteq> dst \<or> x \<notin> X \<Longrightarrow> ents (vm m) i x = ents (vm m0) i x"
    "\<And>p. refcount (pm m) p = (if \<exists>x \<in> X. pfn (ents (vm m) dst x) = p then 1 else refcount (pm m0) p)"
    "\<And>b. refcount (pm m0) (pfn b) \<noteq> 0 \<Longrightarrow> phys m b = phys m0 b"
    "space_used (vm m) = space_used (vm m0)"
    "current_space (vm m) = current_space (vm m0) \<or> current_space (vm m) = Some dst"
    "\<And>i. vmas (spaces (vm m) i) = vmas (spaces (vm m0) i) \<and> refs (spaces (vm m) i) = refs (spaces (vm m0) i)"
    "\<And>i. i \<noteq> dst \<Longrightarrow> spaces (vm m) i = spaces (vm m0) i"
  using assms unfolding cloned_def by blast+

text \<open>One round of the loop: a fresh frame, mapped in the copy with the flags of the source, and filled.\<close>

lemma frame_low_flags: "frame_of (e AND 0xfff) = 0"
  by (intro bit_word_eqI) (auto simp: page_simps)

lemma clone_round:
  assumes src: "live src m" and dst: "live dst m" "dst \<noteq> src" and x: "t < 8" "j < 1024"
    and pte: "bit (ents (vm m) src (t, j)) 0" and e0: "ents (vm m) dst (t, j) = 0"
    and a: "pmm_alloc_page (pm m) = (a, p1)" "a \<noteq> 0"
  defines "pte \<equiv> ents (vm m) src (t, j)"
  obtains m' where "clone_pages src dst old ((t, j) # xs) m = clone_pages src dst old xs m'"
    "live src m'" "live dst m'"
    "ents (vm m') = set_entry dst (t, j) (new_pte a (pte AND 0xfff)) (ents (vm m))"
    "refcount (pm m) (pfn a) = 0" "refcount (pm m') = (refcount (pm m))(pfn a := 1)" "frame_of (new_pte a (pte AND 0xfff)) = a"
    "phys m' = (\<lambda>b. if pfn b = pfn a then phys m (frame_of pte + of_nat (unat b mod 4096)) else phys m b)"
    "space_used (vm m') = space_used (vm m)" "current_space (vm m') = Some dst"
    "\<And>i. vmas (spaces (vm m') i) = vmas (spaces (vm m) i) \<and> refs (spaces (vm m') i) = refs (spaces (vm m) i)"
    "\<And>i. i \<noteq> dst \<Longrightarrow> spaces (vm m') i = spaces (vm m) i" "pm m' = p1"
proof -
  let ?va = "slot_va t j" and ?e = "new_pte a (pte AND 0xfff)"
  note mp = mappable_slot_va [OF x] and sl = slot_of_slot_va [OF x]
  have al: "frame_of ?va = ?va" by (rule frame_of_aligned) (simp add: page_aligned_def slot_va_index [OF x])
  have low: "?va AND 0xfff = 0" by (rule slot_va_index(4) [OF x])
  note P = mem_invD(1) [OF liveD(1) [OF src]]
  have fa: "frame_of a = a" by (rule alloc_frame [OF P a])
  define m1 where "m1 = m\<lparr>pm := p1, vm := upd_space dst (put_pte ?va ?e) (vm m)\<rparr>"
  have e0': "ents (vm m) dst (slot_of ?va) = 0" using e0 sl by simp
  note S = map_fresh_spec [OF dst(1) a mp e0' frame_low_flags [of pte], folded m1_def]
  have l1: "live src m1" using S(1) src tables_only_fields(4) [OF S(3)] by (simp add: live_def)
  define m2 where "m2 = on_vm (vmm_switch_address_space (Some src)) m1"
  have l2: "live src m2" "live dst m2" unfolding m2_def using l1 S(1) by (auto intro: switch_live)
  have f2: "ents (vm m2) = set_entry dst (t, j) ?e (ents (vm m))" "phys m2 = phys m" "cr3 (vm m2) = Some src"
    using S(2,4) by (simp_all add: m2_def on_vm_def sl) (simp add: vmm_switch_address_space_def)
  have t2: "translate (vm m2) ?va = Some (frame_of pte)"
    using translate_user [OF l2(1) f2(3) mp] pte dst(2) low by (simp add: f2(1) sl set_entry_apply pte_def)
  define c where "c = (\<lambda>k. if k < 4096 then phys m (frame_of pte + of_nat k) else copy_page (vm m2) k)"
  define m3 where "m3 = m2\<lparr>vm := (vm m2)\<lparr>copy_page := c\<rparr>\<rparr>"
  have i2: "copy_in 4096 ?va m2 = Some m3" using copy_in_page [OF al t2, of 4096] by (simp add: m3_def c_def f2 cong: if_cong)
  define m4 where "m4 = on_vm (vmm_switch_address_space (Some dst)) m3"
  have l4: "live src m4" "live dst m4"
    unfolding m4_def m3_def using l2 by (auto intro!: switch_live simp: live_copy_page)
  have f4: "ents (vm m4) = set_entry dst (t, j) ?e (ents (vm m))" "phys m4 = phys m" "cr3 (vm m4) = Some dst"
    "copy_page (vm m4) = c" "pm m4 = p1" "current_space (vm m4) = Some dst"
    using f2 by (simp_all add: m4_def on_vm_def m3_def live_copy_page)
      (simp_all add: vmm_switch_address_space_def m2_def on_vm_def m1_def)
  have fe: "frame_of ?e = a" using frame_new_pte [OF frame_low_flags, of a pte] fa by simp
  have t4: "translate (vm m4) ?va = Some a"
    using translate_user [OF l4(2) f4(3) mp] low fe by (simp add: f4(1) sl set_entry_apply new_pte_bits)
  define m5 where "m5 = m4\<lparr>phys := (\<lambda>b. if pfn b = pfn a then phys m (frame_of pte + of_nat (unat b mod 4096)) else phys m b)\<rparr>"
  have o4: "copy_out 4096 ?va m4 = Some m5"
    using copy_out_page [OF al t4 fa, of 4096] by (simp add: m5_def f4 c_def cong: if_cong)
  have ut: "user_tables (spaces (vm m) src) t j = pte"
    using pte by (auto simp: pte_def ents_def slot_pte_def split: if_splits)
  have step: "clone_pages src dst old ((t, j) # xs) m = clone_pages src dst old xs m5"
    using a mp i2 o4 by (simp add: ut map_user_eq Let_def bind_outcome_def or_fault_def m1_def [symmetric] m2_def [symmetric] m4_def [symmetric])
  have sp: "spaces (vm m5) = spaces (vm m1)" "space_used (vm m5) = space_used (vm m1)"
    by (simp_all add: m5_def m4_def m3_def m2_def on_vm_def vmm_switch_address_space_def)
  show ?thesis
    by (rule that [OF step]) (use l4 f4 S(5,6) fe tables_only_fields [OF S(3)] in \<open>simp_all add: m5_def [symmetric] sp\<close>,
        simp_all add: m5_def f4 m1_def)
qed

lemma page_byte_pfn: "n < 4096 \<Longrightarrow> pfn (frame_of f + of_nat n) = pfn f" "n < 4096 \<Longrightarrow> unat (frame_of f + of_nat n) mod 4096 = n"
  using page_byte_iff [of "frame_of f" n "frame_of f + of_nat n"] by auto

lemma cloned_step:
  assumes C: "cloned src dst X m0 m" and ne: "dst \<noteq> src" and x: "x \<notin> X" "bit (ents (vm m0) src x) 0"
    and l: "live src m'" "live dst m'"
    and E: "ents (vm m') = set_entry dst x (new_pte a (ents (vm m0) src x AND 0xfff)) (ents (vm m))"
    and R: "refcount (pm m) (pfn a) = 0" "refcount (pm m') = (refcount (pm m))(pfn a := 1)"
    and fe: "frame_of (new_pte a (ents (vm m0) src x AND 0xfff)) = a"
    and ph: "phys m' = (\<lambda>b. if pfn b = pfn a then phys m (frame_of (ents (vm m0) src x) + of_nat (unat b mod 4096)) else phys m b)"
    and rest: "space_used (vm m') = space_used (vm m)" "current_space (vm m') = Some dst"
      "\<And>i. vmas (spaces (vm m') i) = vmas (spaces (vm m) i) \<and> refs (spaces (vm m') i) = refs (spaces (vm m) i)"
      "\<And>i. i \<noteq> dst \<Longrightarrow> spaces (vm m') i = spaces (vm m) i"
    and inv0: "mem_inv m0"
  shows "cloned src dst (insert x X) m0 m'"
proof -
  note D = clonedD [OF C]
  define pte where "pte = ents (vm m0) src x"
  let ?e = "new_pte a (pte AND 0xfff)"
  have pe: "pfn ?e = pfn a" using fe pfn_frame_of [of ?e] by (simp add: pte_def)
  have r0: "refcount (pm m0) (pfn a) = 0" using D(5) [of "pfn a"] R(1) by (auto split: if_splits)
  have other: "pfn (ents (vm m) dst y) \<noteq> pfn a" if "y \<in> X" for y
    using D(5) [of "pfn a"] R(1) that by (auto split: if_splits)
  have src: "refcount (pm m0) (pfn pte) \<noteq> 0" using shared_count(1) [OF inv0 x(2)] by (simp add: pte_def)
  have bytes: "page_bytes ?e m' n = page_bytes pte m0 n" if "n < 4096" for n
  proof -
    have "phys m (frame_of pte + of_nat n) = phys m0 (frame_of pte + of_nat n)"
      using D(6) [of "frame_of pte + of_nat n"] src page_byte_pfn(1) [OF that, of pte] by simp
    moreover have "phys m' (frame_of ?e + of_nat n) = phys m (frame_of pte + of_nat n)"
      using page_byte_pfn [OF that, of ?e] pe by (simp add: ph pte_def)
    ultimately show ?thesis by (simp add: page_bytes_def)
  qed
  have old: "page_bytes (ents (vm m) dst y) m' n = page_bytes (ents (vm m) dst y) m n" if "y \<in> X" "n < 4096" for y n
    using page_byte_pfn(1) [OF that(2), of "ents (vm m) dst y"] other [OF that(1)] by (simp add: page_bytes_def ph)
  have at: "ents (vm m') i y = (if i = dst \<and> y = x then ?e else ents (vm m) i y)" for i y
    by (simp add: E set_entry_apply pte_def)
  show ?thesis
    unfolding cloned_def
  proof (intro conjI l allI ballI)
    fix y
    assume y: "y \<in> insert x X"
    show "\<exists>f. ents (vm m') dst y = new_pte f (ents (vm m0) src y AND 0xfff)"
      using y D(3) [of y] by (cases "y = x") (auto simp: at pte_def)
    show "refcount (pm m0) (pfn (ents (vm m') dst y)) = 0"
      using y D(3) [of y] r0 pe by (cases "y = x") (auto simp: at)
    show "n < 4096 \<longrightarrow> page_bytes (ents (vm m') dst y) m' n = page_bytes (ents (vm m0) src y) m0 n" for n
      using y D(3) [of y] bytes old by (cases "y = x") (auto simp: at pte_def)
  next
    show "i \<noteq> dst \<or> y \<notin> insert x X \<longrightarrow> ents (vm m') i y = ents (vm m0) i y" for i y
      using D(4) [of i y] by (auto simp: at)
    show "refcount (pm m') p = (if \<exists>y \<in> insert x X. pfn (ents (vm m') dst y) = p then 1 else refcount (pm m0) p)" for p
    proof -
      have "(\<exists>y \<in> insert x X. pfn (ents (vm m') dst y) = p) \<longleftrightarrow> p = pfn a \<or> (\<exists>y \<in> X. pfn (ents (vm m) dst y) = p)"
        using x(1) pe by (auto simp: at)
      then show ?thesis using D(5) [of p] by (simp add: R(2))
    qed
    show "refcount (pm m0) (pfn b) \<noteq> 0 \<longrightarrow> phys m' b = phys m0 b" for b
      using D(6) [of b] r0 by (auto simp: ph)
  qed (use D(7-10) rest in auto)
qed

text \<open>A failed allocation: the half-built space and every frame taken for it are given back.\<close>

lemma clone_fail_spec:
  assumes C: "cloned src dst X m0 m" and X: "X \<subseteq> {x. bit (ents (vm m0) src x) 0}"
    and e0: "ents (vm m0) dst = (\<lambda>_. 0)" and refs: "refs (spaces (vm m0) dst) = 1"
    and old: "current_space (vm m0) = old" "old \<noteq> Some dst" "live src m0"
  obtains m' where "clone_fail dst old m = (None, m')" "mem_inv m'" "ents (vm m') = ents (vm m0)"
    "refcount (pm m') = refcount (pm m0)" "current_space (vm m') = old" "space_used (vm m') = (space_used (vm m0))(dst := False)"
    "\<And>i. i \<noteq> dst \<Longrightarrow> spaces (vm m') i = spaces (vm m0) i" "phys m' = phys m"
proof -
  note D = clonedD [OF C]
  let ?s = "spaces (vm m) dst"
  let ?xs = "present_slots ?s"
  define p2 where "p2 = fold (\<lambda>(t, j). pmm_free_page (frame_of (user_tables ?s t j))) ?xs (pm m)"
  define v2 where "v2 = (let v1 = upd_space dst (\<lambda>s. s\<lparr>refs := refs s - 1\<rparr>) (vm m) in
      if current_space v1 = Some dst then vmm_switch_address_space None v1 else v1)"
  define m1 where "m1 = m\<lparr>pm := p2, vm := v2\<lparr>space_used := (space_used v2)(dst := False)\<rparr>\<rparr>"
  have r1: "refs ?s = 1" using D(9) [of dst] refs by simp
  have used: "dst < MAX_SPACES" "space_used (vm m) dst" using D(2) by (simp_all add: live_def)
  have des: "vmm_destroy_address_space (Some dst) m = m1"
    using used by (simp add: vmm_destroy_address_space_def r1 m1_def p2_def v2_def Let_def)
  have inv1: "mem_inv m1" using destroy_inv [OF liveD(1) [OF D(2)] used] des by simp
  have f1: "space_used (vm m1) = (space_used (vm m0))(dst := False)" "phys m1 = phys m"
    "current_space (vm m1) = (if current_space (vm m) = Some dst then None else current_space (vm m))"
    "\<And>i. i \<noteq> dst \<Longrightarrow> spaces (vm m1) i = spaces (vm m0) i"
    using D(7,10) by (simp_all add: m1_def v2_def Let_def vmm_switch_address_space_def)
  have E1: "ents (vm m1) i x = ents (vm m0) i x" for i x
  proof (cases "i = dst")
    case True
    then show ?thesis using e0 by (simp add: ents_def f1(1))
  next
    case False
    then show ?thesis by (simp add: ents_def f1)
  qed
  let ?as = "map (\<lambda>x. frame_of (ents (vm m) dst x)) ?xs"
  have xs: "set ?xs = X"
  proof -
    have "bit (ents (vm m) dst x) 0 \<longleftrightarrow> x \<in> X" for x
      using D(3) [of x] D(4) [of dst x] e0 by (cases "x \<in> X") (auto simp: new_pte_bits)
    then show ?thesis using used by (auto simp: present_slots_set ents_def)
  qed
  have p2: "p2 = fold pmm_free_page ?as (pm m)"
    unfolding p2_def using used present_slots_entry [of _ ?s]
    by (auto simp: fold_map case_prod_unfold ents_def intro!: fold_cong)
  have inj: "inj_on (\<lambda>x. pfn (ents (vm m) dst x)) X"
    using frames_okD(1) [OF mem_invD(3) [OF liveD(1) [OF D(2)]], of dst] xs used present_slots_set [of _ ?s]
    by (auto simp: inj_on_def ents_def)
  have "refcount p2 = (\<lambda>p. if p \<in> pfn ` set ?as then refcount (pm m) p - 1 else refcount (pm m) p)"
    unfolding p2
    by (rule pa.fold_free [THEN conjunct2])
       (use mem_invD(1) [OF liveD(1) [OF D(2)]] inj xs D(5) in
         \<open>auto simp: distinct_map distinct_present_slots o_def split: if_splits\<close>)
  moreover have "p \<in> pfn ` set ?as \<longleftrightarrow> (\<exists>x \<in> X. pfn (ents (vm m) dst x) = p)" for p
    using xs by (auto simp: image_image)
  ultimately have R1: "refcount (pm m1) = refcount (pm m0)"
    using D(3,5) by (auto simp: m1_def fun_eq_iff)
  define m2 where "m2 = (if old \<noteq> None then on_vm (vmm_switch_address_space old) m1 else m1)"
  have "\<And>i. old = Some i \<Longrightarrow> i < MAX_SPACES \<and> space_used (vm m1) i"
    using mem_invD(2) [OF liveD(1) [OF old(3)]] old(1,2) f1(1) by (auto simp: vmm_wf_def)
  then have inv2: "mem_inv m2"
    using inv1 switch_wf [of "vm m1" old] by (auto simp: m2_def mem_inv_def on_vm_def)
  have "current_space (vm m2) = old"
    using f1(3) D(8) old(1,2) by (auto simp: m2_def on_vm_def vmm_switch_address_space_def)
  moreover have "clone_fail dst old m = (None, m2)" by (simp add: clone_fail_def des m2_def Let_def)
  moreover have "ents (vm m2) = ents (vm m1)" "pm m2 = pm m1" "phys m2 = phys m1"
    "space_used (vm m2) = space_used (vm m1)" "spaces (vm m2) = spaces (vm m1)"
    by (simp_all add: m2_def on_vm_def) (simp_all add: vmm_switch_address_space_def)
  moreover have "ents (vm m1) = ents (vm m0)" using E1 by (intro ext)
  ultimately show ?thesis
    by (intro that [of m2]) (simp_all add: inv2 R1 f1)
qed

lemma clone_pages_spec:
  assumes "cloned src dst X m0 m" "dst \<noteq> src" "distinct xs" "set xs \<inter> X = {}" "X \<union> set xs = {x. bit (ents (vm m0) src x) 0}"
    "ents (vm m0) dst = (\<lambda>_. 0)" "refs (spaces (vm m0) dst) = 1" "current_space (vm m0) = old" "old \<noteq> Some dst" "live src m0"
  shows "\<exists>r m'. clone_pages src dst old xs m = Ret (r, m') \<and>
    (r = Some dst \<and> (\<exists>m1. cloned src dst (X \<union> set xs) m0 m1 \<and> m' = on_vm (vmm_switch_address_space old) m1) \<or>
     r = None \<and> mem_inv m' \<and> ents (vm m') = ents (vm m0) \<and> refcount (pm m') = refcount (pm m0) \<and>
       current_space (vm m') = old \<and> space_used (vm m') = (space_used (vm m0))(dst := False) \<and>
       (\<forall>i. i \<noteq> dst \<longrightarrow> spaces (vm m') i = spaces (vm m0) i) \<and> (\<forall>b. refcount (pm m0) (pfn b) \<noteq> 0 \<longrightarrow> phys m' b = phys m0 b))"
  using assms
proof (induction xs arbitrary: X m)
  case Nil
  then show ?case by auto
next
  case (Cons x xs)
  note D = clonedD [OF Cons.prems(1)]
  obtain t j where x: "x = (t, j)" by (cases x)
  obtain a p1 where a: "pmm_alloc_page (pm m) = (a, p1)" by (cases "pmm_alloc_page (pm m)")
  have e0: "bit (ents (vm m0) src x) 0" "x \<notin> X" using Cons.prems(4,5) by auto
  have b: "t < 8" "j < 1024" using e0(1) by (auto simp: ents_def slot_pte_def x split: if_splits)
  have same: "ents (vm m) src (t, j) = ents (vm m0) src x" "ents (vm m) dst (t, j) = 0"
    using D(4) [of src x] D(4) [of dst x] Cons.prems(2,6) e0(2) by (auto simp: x)
  show ?case
  proof (cases "a = 0")
    case True
    then have "p1 = pm m" using pa.alloc_none [OF mem_invD(1) [OF liveD(1) [OF D(1)]]] a by simp
    moreover obtain m' where "clone_fail dst old m = (None, m')" "mem_inv m'" "ents (vm m') = ents (vm m0)"
      "refcount (pm m') = refcount (pm m0)" "current_space (vm m') = old" "space_used (vm m') = (space_used (vm m0))(dst := False)"
      "\<And>i. i \<noteq> dst \<Longrightarrow> spaces (vm m') i = spaces (vm m0) i" "phys m' = phys m"
      using clone_fail_spec [OF Cons.prems(1) _ Cons.prems(6-10)] Cons.prems(5) by blast
    ultimately show ?thesis using D(6) True by (intro exI [of _ None] exI [of _ m']) (simp add: x a)
  next
    case False
    obtain m' where m': "clone_pages src dst old ((t, j) # xs) m = clone_pages src dst old xs m'"
      "live src m'" "live dst m'" "ents (vm m') = set_entry dst (t, j) (new_pte a (ents (vm m) src (t, j) AND 0xfff)) (ents (vm m))"
      "refcount (pm m) (pfn a) = 0" "refcount (pm m') = (refcount (pm m))(pfn a := 1)"
      "frame_of (new_pte a (ents (vm m) src (t, j) AND 0xfff)) = a"
      "phys m' = (\<lambda>b. if pfn b = pfn a then phys m (frame_of (ents (vm m) src (t, j)) + of_nat (unat b mod 4096)) else phys m b)"
      "space_used (vm m') = space_used (vm m)" "current_space (vm m') = Some dst"
      "\<And>i. vmas (spaces (vm m') i) = vmas (spaces (vm m) i) \<and> refs (spaces (vm m') i) = refs (spaces (vm m) i)"
      "\<And>i. i \<noteq> dst \<Longrightarrow> spaces (vm m') i = spaces (vm m) i"
      using clone_round [OF D(1,2) Cons.prems(2) b _ same(2) a False, of old xs] same(1) e0(1) by (metis (no_types, lifting))
    have c: "cloned src dst (insert x X) m0 m'"
      by (rule cloned_step [OF Cons.prems(1,2) e0(2,1) m'(2,3) m'(4) [unfolded same(1), folded x] m'(5,6)
            m'(7) [unfolded same(1)] m'(8) [unfolded same(1)] m'(9-12) liveD(1) [OF Cons.prems(10)]])
    have "insert x X \<union> set xs = X \<union> set (x # xs)" "distinct xs" "set xs \<inter> insert x X = {}"
      using Cons.prems(3,4) by auto
    with Cons.IH [OF c Cons.prems(2)] Cons.prems(5-10) m'(1) show ?thesis by (simp add: x)
  qed
qed

end
