(* ===== verification/Vmm_Reach.thy ===== *)
theory Vmm_Reach
  imports Vmm_Clone
begin

text \<open>
  The memory subsystem as a transition system: \<open>mm_step\<close> has a rule per entry point of
  \<open>mm/vmm.c\<close> and \<open>mm/pmm.c\<close> that the rest of the kernel calls, and every reachable state keeps the
  memory invariant. Three things are outside it. A fault on an unmapped page of an area (demand
  paging) breaks the invariant in the code (\<open>demand_fault_free\<close> below), so page faults and pointer
  checks are steps only where they cause none. Mapping flags beyond the low 12 bits would change the
  frame of the entry, so the flags of \<open>vmm_map_range\<close> and \<open>vmm_map_user\<close> are below \<open>0x1000\<close>. A page is mapped
  over an address that is not mapped yet.
\<close>

section \<open>The eager clone\<close>

lemma create_refs: "vmm_create_address_space v = (Some dst, v') \<Longrightarrow> refs (spaces v' dst) = 1"
  by (auto elim!: create_cases simp: fresh_space_def)

lemma clone_spec:
  assumes inv: "mem_inv m" and src: "src < MAX_SPACES" "space_used (vm m) src"
  obtains "vmm_clone_address_space (Some src) m = Ret (None, m)" "\<forall>i < MAX_SPACES. space_used (vm m) i"
  | m' where "vmm_clone_address_space (Some src) m = Ret (None, m')" "mem_inv m'" "same_view m' m"
      "current_space (vm m') = current_space (vm m)" "space_used (vm m') = space_used (vm m)"
      "\<And>i. space_used (vm m) i \<Longrightarrow> spaces (vm m') i = spaces (vm m) i"
      "\<And>b. refcount (pm m) (pfn b) \<noteq> 0 \<Longrightarrow> phys m' b = phys m b"
  | dst m0 m1 m' where "vmm_clone_address_space (Some src) m = Ret (Some dst, m')" "mem_inv m'"
      "dst < MAX_SPACES" "\<not> space_used (vm m) dst"
      "ents (vm m0) = ents (vm m)" "pm m0 = pm m" "phys m0 = phys m"
      "cloned src dst {x. bit (ents (vm m) src x) 0} m0 m1"
      "\<And>i. i \<noteq> dst \<Longrightarrow> spaces (vm m') i = spaces (vm m) i"
      "\<And>i. i < VMM_MAX_VMAS \<Longrightarrow> vmas (spaces (vm m') dst) i = vmas (spaces (vm m) src) i"
      "ents (vm m') = ents (vm m1)" "phys m' = phys m1" "pm m' = pm m1"
      "current_space (vm m') = current_space (vm m)" "space_used (vm m') = (space_used (vm m))(dst := True)"
proof -
  obtain sp v where c: "vmm_create_address_space (vm m) = (sp, v)" by (cases "vmm_create_address_space (vm m)")
  show ?thesis
  proof (cases sp)
    case None
    with create_none [of "vm m" v] c that(1) show ?thesis by (simp add: vmm_clone_address_space_def)
  next
    case (Some dst)
    note S = clone_start [OF inv src c [unfolded Some]]
    define m0 where "m0 = m\<lparr>vm := copy_vmas src dst v\<rparr>"
    note S = S [folded m0_def]
    let ?xs = "present_slots (spaces (vm m) src)" and ?old = "current_space (vm m)"
    have call: "vmm_clone_address_space (Some src) m = clone_pages src dst ?old ?xs m0"
      using c Some by (simp add: vmm_clone_address_space_def m0_def S(8,9))
    have live: "live src m0" "live dst m0" using S(1,3,4,6) src by (auto simp: live_def)
    have xs: "set ?xs = {x. bit (ents (vm m0) src x) 0}" using src by (auto simp: present_slots_set ents_def S(5))
    have e0: "ents (vm m0) dst = (\<lambda>_. 0)" using S(2,5) by (simp add: ents_def fun_eq_iff)
    have "refs (spaces (vm m0) dst) = 1" using create_refs [OF c [unfolded Some]] by (simp add: m0_def copy_vmas_def)
    moreover have old: "?old \<noteq> Some dst" using mem_invD(2) [OF inv] S(2) by (auto simp: vmm_wf_def)
    moreover have "cloned src dst {} m0 m0" using live by (simp add: cloned_def)
    ultimately obtain r m' where m': "clone_pages src dst ?old ?xs m0 = Ret (r, m')" and
      cs: "r = Some dst \<and> (\<exists>m1. cloned src dst (set ?xs) m0 m1 \<and> m' = on_vm (vmm_switch_address_space ?old) m1) \<or>
       r = None \<and> mem_inv m' \<and> ents (vm m') = ents (vm m0) \<and> refcount (pm m') = refcount (pm m0) \<and>
       current_space (vm m') = ?old \<and> space_used (vm m') = (space_used (vm m0))(dst := False) \<and>
       (\<forall>i. i \<noteq> dst \<longrightarrow> spaces (vm m') i = spaces (vm m0) i) \<and> (\<forall>b. refcount (pm m0) (pfn b) \<noteq> 0 \<longrightarrow> phys m' b = phys m0 b)"
      using clone_pages_spec [of src dst "{}" m0 m0 ?xs ?old] S(3,7) e0 live distinct_present_slots xs by auto
    have f0: "pm m0 = pm m" "phys m0 = phys m" by (simp_all add: m0_def)
    from cs show ?thesis
    proof (elim disjE conjE exE)
      assume "r = None" "mem_inv m'" "ents (vm m') = ents (vm m0)" "refcount (pm m') = refcount (pm m0)"
        "current_space (vm m') = ?old" "space_used (vm m') = (space_used (vm m0))(dst := False)"
        "\<forall>i. i \<noteq> dst \<longrightarrow> spaces (vm m') i = spaces (vm m0) i" "\<forall>b. refcount (pm m0) (pfn b) \<noteq> 0 \<longrightarrow> phys m' b = phys m0 b"
      moreover have "i \<noteq> dst" if "space_used (vm m) i" for i using that S(2) by auto
      ultimately show ?thesis
        using that(2) [of m'] call m' S(2,5,6,11) f0 by (auto simp: same_view_def fun_upd_idem)
    next
      fix m1
      assume r: "r = Some dst" and c1: "cloned src dst (set ?xs) m0 m1" and m1: "m' = on_vm (vmm_switch_address_space ?old) m1"
      note D = clonedD [OF c1]
      have u: "\<And>i. ?old = Some i \<Longrightarrow> i < MAX_SPACES \<and> space_used (vm m1) i"
        using mem_invD(2) [OF inv] D(7) S(6) by (auto simp: vmm_wf_def)
      have f: "ents (vm m') = ents (vm m1)" "phys m' = phys m1" "pm m' = pm m1" "current_space (vm m') = ?old"
        "space_used (vm m') = space_used (vm m1)" "spaces (vm m') = spaces (vm m1)"
        by (simp_all add: m1 on_vm_def) (simp_all add: vmm_switch_address_space_def)
      have "mem_inv m'" using liveD(1) [OF D(1)] switch_wf [OF _ u] by (auto simp: m1 mem_inv_def on_vm_def)
      then show ?thesis
        using that(3) [OF _ _ S(1,2) S(5) f0] call m' r c1 xs S(6,10,11) D(7,9,10) f S(5) by simp
    qed
  qed
qed

section \<open>Reachable states\<close>

lemma frames_ok_unmapped:
  assumes "frames_ok E R" "users E p = {}"
  shows "frames_ok E (R(p := n))"
  using frames_okD [OF assms(1)] assms(2) by (intro frames_okI) auto

lemma kernel_alloc_inv:
  assumes inv: "mem_inv m" and a: "pmm_alloc_page (pm m) = (a, p1)"
  shows "mem_inv (m\<lparr>pm := p1\<rparr>)"
proof (cases "a = 0")
  case True
  then have "p1 = pm m" using pa.alloc_none [OF mem_invD(1) [OF inv]] a by simp
  with inv show ?thesis by simp
next
  case False
  note D = mem_invD [OF inv]
  have "users (ents (vm m)) (pfn a) = {}"
    using pa.alloc_fresh [OF D(1) a False] users_count_pos [OF D(3)] by blast
  then show ?thesis
    using frames_ok_unmapped [OF D(3)] pa.alloc_refs [OF D(1) a False] pa.alloc_inv [OF D(1) a] D(2)
    by (simp add: mem_inv_def)
qed

lemma kernel_free_inv:
  assumes inv: "mem_inv m" and a: "refcount (pm m) (pfn a) \<noteq> 0" "users (ents (vm m)) (pfn a) = {}"
  shows "mem_inv (m\<lparr>pm := pmm_free_page a (pm m)\<rparr>)"
  using mem_invD [OF inv] frames_ok_unmapped [OF _ a(2)] pa.free_refs [OF _ a(1)] pa.free_inv [OF _ a(1)]
  by (simp add: mem_inv_def)

text \<open>The page is one that the fault handler would allocate on demand in the current space.\<close>

definition demand_page :: "mm \<Rightarrow> u32 \<Rightarrow> bool" where
  "demand_page m page \<longleftrightarrow> (\<exists>i. current_space (vm m) = Some i \<and> 1 \<le> dir_index page \<and> dir_index page \<le> 8 \<and>
     list_ex (in_vma (spaces (vm m) i) page) [0..<VMM_MAX_VMAS] \<and> vmm_get_user_physical (Some i) page (vm m) = 0)"

inductive mm_step :: "mm \<Rightarrow> mm \<Rightarrow> bool" where
  create: "vmm_create_address_space (vm m) = (sp, v) \<Longrightarrow> mm_step m (m\<lparr>vm := v\<rparr>)"
| retain: "mm_step m (on_vm (vmm_retain_address_space (Some i)) m)"
| switch: "sp = None \<or> (\<exists>i. sp = Some i \<and> i < MAX_SPACES \<and> space_used (vm m) i) \<Longrightarrow>
    mm_step m (on_vm (vmm_switch_address_space sp) m)"
| destroy: "i < MAX_SPACES \<Longrightarrow> space_used (vm m) i \<Longrightarrow> mm_step m (vmm_destroy_address_space (Some i) m)"
| map_user: "pmm_alloc_page (pm m) = (a, p1) \<Longrightarrow> a \<noteq> 0 \<Longrightarrow> i < MAX_SPACES \<Longrightarrow> space_used (vm m) i \<Longrightarrow>
    mappable va \<Longrightarrow> \<not> bit (user_pte (spaces (vm m) i) va) 0 \<Longrightarrow> frame_of flags = 0 \<Longrightarrow>
    mm_step m (m\<lparr>pm := p1, vm := snd (vmm_map_user (Some i) va a flags (vm m))\<rparr>)"
| map_range: "i < MAX_SPACES \<Longrightarrow> space_used (vm m) i \<Longrightarrow> frame_of flags = 0 \<Longrightarrow>
    mm_step m (snd (vmm_map_range (Some i) virt pages flags m))"
| lazy_range: "i < MAX_SPACES \<Longrightarrow> space_used (vm m) i \<Longrightarrow>
    mm_step m (on_vm (\<lambda>v. snd (vmm_map_lazy_range (Some i) virt pages flags v)) m)"
| unmap_range: "i < MAX_SPACES \<Longrightarrow> space_used (vm m) i \<Longrightarrow> mm_step m (snd (vmm_unmap_range (Some i) virt pages m))"
| unmap: "i < MAX_SPACES \<Longrightarrow> space_used (vm m) i \<Longrightarrow> mm_step m (snd (vmm_unmap_user (Some i) virt m))"
| clone: "i < MAX_SPACES \<Longrightarrow> space_used (vm m) i \<Longrightarrow> vmm_clone_address_space (Some i) m = Ret (sp, m') \<Longrightarrow> mm_step m m'"
| clone_cow: "i < MAX_SPACES \<Longrightarrow> space_used (vm m) i \<Longrightarrow>
    vmm_clone_address_space_cow (Some i) m = (sp, m') \<Longrightarrow> mm_step m m'"
| fault: "\<not> demand_page m (frame_of (if address \<noteq> 0 then address else cr2)) \<Longrightarrow>
    vmm_page_fault cr2 err address m = Ret m' \<Longrightarrow> mm_step m m'"
| validate: "current_space (vm m) = Some i \<Longrightarrow> \<forall>page \<in> set (user_pages virt (virt + len - 1)). \<not> demand_page m page \<Longrightarrow>
    vmm_validate_user_ptr cr2 (Some i) virt len wr m = Ret (r, m') \<Longrightarrow> mm_step m m'"
| kernel_alloc: "pmm_alloc_page (pm m) = (a, p1) \<Longrightarrow> mm_step m (m\<lparr>pm := p1\<rparr>)"
| kernel_free: "refcount (pm m) (pfn a) \<noteq> 0 \<Longrightarrow> users (ents (vm m)) (pfn a) = {} \<Longrightarrow>
    mm_step m (m\<lparr>pm := pmm_free_page a (pm m)\<rparr>)"
| store: "mm_step m (m\<lparr>phys := f\<rparr>)"

text \<open>A fault that is not a demand fault is resolved by copying a shared page, or not at all.\<close>

lemma page_fault_cow_only:
  assumes "mem_inv m" "\<not> demand_page m page" "page = frame_of (if address \<noteq> 0 then address else cr2)"
    and "vmm_page_fault cr2 err address m = Ret m'"
  obtains i pte where "current_space (vm m) = Some i" "cow_fault i page pte m = Ret m'"
    "pte = user_pte (spaces (vm m) i) page" "bit pte 0"
proof -
  obtain i where i: "current_space (vm m) = Some i"
    using assms(4) by (cases "current_space (vm m)") (simp_all add: vmm_page_fault_def Let_def)
  let ?s = "spaces (vm m) i"
  have hit: "vmm_get_user_physical (Some i) page (vm m) \<noteq> 0"
    if "List.find (in_vma ?s page) [0..<VMM_MAX_VMAS] = Some vi" "1 \<le> dir_index page" "dir_index page \<le> 8" for vi
    using assms(2) i that find_Some_iff [OF that(1)] by (auto simp: demand_page_def list_ex_iff)
  have ok: "1 \<le> dir_index page \<and> dir_index page \<le> 8 \<and> table_used ?s (dir_index page - 1)"
    and pte: "bit (user_tables ?s (dir_index page - 1) (table_index page)) 0"
    and eq: "cow_fault i page (user_tables ?s (dir_index page - 1) (table_index page)) m = Ret m'"
    using assms(4) hit unfolding vmm_page_fault_def Let_def i assms(3) [symmetric]
    by (auto simp: and_flag_iff split: if_splits option.splits)
  have "mappable page" using ok by (auto simp: mappable_iff dir_index_eq word_le_nat_alt word_less_nat_alt)
  then have "user_tables ?s (dir_index page - 1) (table_index page) = user_pte ?s page"
    using ok by (simp add: user_pte_def mappable_def)
  with pte eq i show thesis by (intro that) simp_all
qed

lemma cow_fault_step:
  assumes inv: "mem_inv m" and cur: "current_space (vm m) = Some i" and "cow_fault i page pte m = Ret m'"
    and "pte = user_pte (spaces (vm m) i) page" "bit pte 0"
  shows "mem_inv m'" "current_space (vm m') = Some i" "\<not> demand_page m q \<Longrightarrow> \<not> demand_page m' q"
proof -
  obtain a p1 where a: "pmm_alloc_page (pm m) = (a, p1)" by (cases "pmm_alloc_page (pm m)")
  have nz: "a \<noteq> 0" using assms(3) a by (auto simp: cow_fault_def)
  have i: "i < MAX_SPACES" "space_used (vm m) i" using mem_invD(2) [OF inv] cur by (auto simp: vmm_wf_def)
  obtain m2 where m2: "cow_fault i page pte m = Ret m2" "mem_inv m2" "current_space (vm m2) = current_space (vm m)"
    "\<And>j. spaces (vm m2) j = (if j = i then put_pte page (new_pte a PAGE_WRITE) (spaces (vm m) i) else spaces (vm m) j)"
    by (rule cow_fault_spec [OF inv i a nz assms(4,5)]) (rule that)
  have eq: "m2 = m'" using m2(1) assms(3) by simp
  show "mem_inv m'" "current_space (vm m') = Some i" using m2 cur by (simp_all add: eq)
  have mp: "mappable page" using assms(4,5) by (auto simp: user_pte_slot split: if_splits)
  have clean: "tables_clean (spaces (vm m) i)"
    by (rule space_wf_clean [OF vmm_wf_space [OF mem_invD(2) [OF inv] i]])
  have "frame_of (new_pte a PAGE_WRITE) = a"
    using frame_new_pte [of PAGE_WRITE a] alloc_frame [OF mem_invD(1) [OF inv] a nz] by (simp add: frame_of_def)
  then have "frame_of (new_pte a PAGE_WRITE) OR (q AND 0xfff) \<noteq> 0"
    using nz by (metis or_eq_0_iff)
  then have "vmm_get_user_physical (Some i) q (vm m') \<noteq> 0" if "vmm_get_user_physical (Some i) q (vm m) \<noteq> 0"
    using that by (auto simp: get_user_physical_pte Let_def m2(4) [unfolded eq] user_pte_put [OF clean mp] new_pte_bits split: if_splits)
  then show "\<not> demand_page m q \<Longrightarrow> \<not> demand_page m' q"
    using cur m2(3) by (auto simp: demand_page_def eq m2(4) [unfolded eq] in_vma_def [abs_def])
qed

lemma fault_inv:
  assumes "mem_inv m" "\<not> demand_page m (frame_of (if address \<noteq> 0 then address else cr2))"
    and "vmm_page_fault cr2 err address m = Ret m'"
  shows "mem_inv m'"
  by (rule page_fault_cow_only [OF assms(1,2) refl assms(3)]) (rule cow_fault_step(1) [OF assms(1)])

lemma validate_page_step:
  assumes inv: "mem_inv m" and cur: "current_space (vm m) = Some i" and page: "frame_of page = page" "page \<noteq> 0"
    and nd: "\<not> demand_page m page" and v: "validate_page cr2 i wr page m = Ret (ok, m')"
  shows "mem_inv m' \<and> current_space (vm m') = Some i \<and> (\<forall>q. \<not> demand_page m q \<longrightarrow> \<not> demand_page m' q)"
proof -
  have f: "frame_of (if page \<noteq> 0 then page else cr2) = page" using page by simp
  have step: "mem_inv m2 \<and> current_space (vm m2) = Some i \<and> (\<forall>q. \<not> demand_page m q \<longrightarrow> \<not> demand_page m2 q) \<and>
      vmm_get_user_physical (Some i) page (vm m) \<noteq> 0"
    if pf: "vmm_page_fault cr2 e page m = Ret m2" for e m2
  proof -
    obtain k pte where k: "current_space (vm m) = Some k" "cow_fault k page pte m = Ret m2"
      "pte = user_pte (spaces (vm m) k) page" "bit pte 0"
      by (rule page_fault_cow_only [OF inv nd f [symmetric] pf])
    have i: "i < MAX_SPACES" "space_used (vm m) i" using mem_invD(2) [OF inv] cur by (auto simp: vmm_wf_def)
    have mp: "mappable page" using k(3,4) by (auto simp: user_pte_slot split: if_splits)
    have e: "ents (vm m) i (slot_of page) = pte" using k(1,3) cur i mp by (simp add: ents_def user_pte_slot)
    have "refcount (pm m) (pfn pte) \<noteq> 0" using shared_count(1) [OF inv, of i "slot_of page"] k(4) by (simp add: e)
    then have "0 < pfn pte" using owned_pfn [OF mem_invD(1) [OF inv]] by simp
    then have "frame_of pte \<noteq> 0" using unat_frame_of [of pte] by auto
    moreover have "pte_ok pte" using ents_ok [OF mem_invD(2) [OF inv], of i "slot_of page"] by (simp add: e)
    ultimately have "vmm_get_user_physical (Some i) page (vm m) \<noteq> 0"
      using k(1,3,4) cur or_eq_0_iff [of "frame_of pte" "page AND 0xfff"]
      by (auto simp: get_user_physical_pte Let_def pte_ok_def)
    then show ?thesis using cow_fault_step [OF inv k(1,2,3,4)] k(1) cur by simp
  qed
  show ?thesis
    using v inv cur step by (auto simp: validate_page_def Let_def bind_outcome_def split: if_splits outcome.splits)
qed

lemma user_pages_aligned:
  assumes "page \<in> set (user_pages virt fin)" "0x400000 \<le> virt" "virt \<le> fin"
  shows "frame_of page = page" "page \<noteq> 0"
proof -
  obtain k where k: "page = frame_of virt + of_nat k * 4096" "k \<le> (unat fin - unat (frame_of virt)) div 4096"
    using assms(1) by (auto simp: user_pages_def)
  have v: "unat (frame_of virt) = pfn virt * 4096" by (rule unat_frame_of)
  have "k * 4096 \<le> unat fin - unat (frame_of virt)" using k(2) by (simp add: less_eq_div_iff_mult_less_eq)
  moreover have "pfn virt * 4096 \<le> unat virt" by (simp add: pfn_def)
  moreover have "unat virt \<le> unat fin" "unat fin < 2 ^ 32"
    using assms(3) unsigned_less [of fin, where 'a = nat] by (simp_all add: word_le_nat_alt)
  ultimately have le: "(pfn virt + k) * 4096 < 2 ^ 32" using v by simp
  have "frame_of virt = of_nat (pfn virt * 4096)" unfolding v [symmetric] by simp
  then have "page = of_nat ((pfn virt + k) * 4096)" by (simp add: k(1) distrib_right)
  with le have "unat page = (pfn virt + k) * 4096" by (simp only: unat_of_nat) simp
  moreover from this have "pfn page = pfn virt + k" by (simp add: pfn_def)
  ultimately show "frame_of page = page" using unat_frame_of [of page] by (simp add: word_unat_eq_iff)
  have "1024 \<le> pfn virt" using assms(2) by (simp add: pfn_def word_le_nat_alt less_eq_div_iff_mult_less_eq)
  then show "page \<noteq> 0" using \<open>unat page = _\<close> by auto
qed

lemma validate_pages_inv:
  assumes "mem_inv m" "current_space (vm m) = Some i" "\<forall>page \<in> set ps. frame_of page = page \<and> page \<noteq> 0 \<and> \<not> demand_page m page"
    and "validate_pages cr2 i wr ps m = Ret (r, m')"
  shows "mem_inv m'"
  using assms
proof (induction ps arbitrary: m)
  case (Cons p ps)
  obtain ok m1 where v: "validate_page cr2 i wr p m = Ret (ok, m1)"
    using Cons.prems(4) by (auto simp: bind_outcome_def split: outcome.splits)
  have p: "frame_of p = p" "p \<noteq> 0" "\<not> demand_page m p" using Cons.prems(3) by simp_all
  note S = validate_page_step [OF Cons.prems(1,2) p v]
  show ?case
  proof (cases ok)
    case True
    then show ?thesis using Cons.IH [of m1] S Cons.prems(3,4) v by (simp add: bind_outcome_def)
  next
    case False
    then show ?thesis using S Cons.prems(4) v by (simp add: bind_outcome_def)
  qed
qed simp

lemma validate_inv:
  assumes "mem_inv m" "current_space (vm m) = Some i" "\<forall>page \<in> set (user_pages virt (virt + len - 1)). \<not> demand_page m page"
    and v: "vmm_validate_user_ptr cr2 (Some i) virt len wr m = Ret (r, m')"
  shows "mem_inv m'"
proof (cases "len = 0 \<or> \<not> user_range virt \<or> len > 0xc0000000 - virt")
  case True
  then show ?thesis using v assms(1) by (simp add: vmm_validate_user_ptr_def)
next
  case False
  then have r: "unat len \<noteq> 0" "0x400000 \<le> virt" "virt < 0xc0000000" "len \<le> 0xc0000000 - virt"
    by (auto simp: user_range_def unat_eq_zero)
  have "unat (0xc0000000 - virt) = 0xc0000000 - unat virt" using r(3) by (simp add: unat_sub word_less_nat_alt word_le_nat_alt)
  then have "unat len \<le> 0xc0000000 - unat virt" "unat virt < 0xc0000000" using r(3,4) by (simp_all add: word_le_nat_alt word_less_nat_alt)
  then have "unat (virt + len) = unat virt + unat len" by (simp add: unat_word_ariths)
  then have "unat (virt + len - 1) = unat virt + unat len - 1"
    using r(1) by (subst unat_sub) (simp_all add: word_le_nat_alt)
  then have "virt \<le> virt + len - 1" using r(1) by (simp add: word_le_nat_alt)
  then have "\<forall>page \<in> set (user_pages virt (virt + len - 1)). frame_of page = page \<and> page \<noteq> 0 \<and> \<not> demand_page m page"
    using user_pages_aligned [OF _ r(2)] assms(3) by blast
  then show ?thesis
    using v False by (intro validate_pages_inv [OF assms(1,2)]) (simp_all add: vmm_validate_user_ptr_def)
qed

lemma mm_step_inv:
  assumes "mm_step m m'" "mem_inv m"
  shows "mem_inv m'"
  using assms
proof (induction rule: mm_step.induct)
  case (create m sp v)
  then show ?case using create_wf [OF _ create.hyps] create_ents [OF create.hyps] by (simp add: mem_inv_def)
next
  case (retain m i)
  then show ?case using refs_inv [of m i "\<lambda>s. refs s + 1"] by (simp add: on_vm_def vmm_retain_address_space_def)
next
  case (switch sp m)
  then show ?case using switch_wf [of "vm m" sp] by (auto simp: mem_inv_def on_vm_def)
next
  case (destroy i m)
  then show ?case by (intro destroy_inv)
next
  case (map_user m a p1 i va flags)
  then show ?case using map_fresh_inv [of m a p1 i va flags] by (simp add: map_user_eq)
next
  case (map_range i m flags virt pages)
  then show ?case using map_range_live [of i m] by (simp add: live_def)
next
  case (lazy_range i m virt pages flags)
  then show ?case using lazy_range_live [of i m] by (simp add: live_def)
next
  case (unmap_range i m virt pages)
  then show ?case using unmap_range_live [of i m] by (simp add: live_def)
next
  case (unmap i m virt)
  then show ?case by (intro unmap_user_inv)
next
  case (clone i m sp m')
  from clone.prems clone.hyps(1,2) show ?case by (cases rule: clone_spec) (use clone.hyps(3) clone.prems in auto)
next
  case (clone_cow i m sp m')
  from clone_cow.prems clone_cow.hyps(1-3) show ?case by (cases rule: clone_cow_spec) (use clone_cow.prems in auto)
next
  case (fault m address cr2 err m')
  then show ?case by (intro fault_inv [of m address cr2 err m'])
next
  case (validate m i virt len cr2 wr r m')
  then show ?case by (intro validate_inv [of m i virt len cr2 wr r m'])
next
  case (kernel_alloc m a p1)
  then show ?case by (intro kernel_alloc_inv)
next
  case (kernel_free m a)
  then show ?case by (intro kernel_free_inv)
next
  case (store m f)
  then show ?case by (simp add: mem_inv_def)
qed

text \<open>The state after \<open>pmm_init\<close> and \<open>vmm_init\<close>, before any process exists.\<close>

definition mm_boot :: "pmm \<Rightarrow> vmm \<Rightarrow> mm \<Rightarrow> bool" where
  "mm_boot p v m \<longleftrightarrow> pmm_inv p \<and> (\<forall>i. \<not> space_used v i) \<and> pm m = p \<and> vm m = vmm_init v"

lemma vmm_init_wf: "\<forall>i. \<not> space_used v i \<Longrightarrow> vmm_wf (vmm_init v)"
  by (auto simp: vmm_wf_def vmm_init_def Let_def dir_index_eq)

lemma mm_boot_inv: "mm_boot p v m \<Longrightarrow> mem_inv m"
proof -
  assume b: "mm_boot p v m"
  then have "ents (vm m) i x = 0" for i x by (auto simp: mm_boot_def ents_def vmm_init_def Let_def)
  then have "frames_ok (ents (vm m)) (refcount (pm m))" by (intro frames_okI) (simp_all add: users_def)
  with b show ?thesis using vmm_init_wf [of v] by (simp add: mem_inv_def mm_boot_def)
qed

text \<open>A demand fault leaves the page it has just mapped free: the next allocation can hand out the
  frame of a live mapping.\<close>

lemma zero_out_fields: "zero_out n va m = Some m' \<Longrightarrow> vm m' = vm m \<and> pm m' = pm m"
  by (induction n arbitrary: m') (auto simp: bind_eq_Some_conv vstore_def)

lemma vmm_map_spaces: "spaces (vmm_map va ph fl v) = spaces v"
  by (simp add: vmm_map_def Let_def split: option.splits)

lemma demand_fault_free:
  assumes inv: "mem_inv m" and cur: "current_space (vm m) = Some i" and dp: "demand_page m page"
    and page: "page = frame_of (if address \<noteq> 0 then address else cr2)"
    and fl: "\<And>vi. frame_of (vma_flags (vmas (spaces (vm m) i) vi)) = 0"
    and pf: "vmm_page_fault cr2 err address m = Ret m'"
  shows "bit (user_pte (spaces (vm m') i) page) 0 \<and> pfn (user_pte (spaces (vm m') i) page) \<in> free_frames (pm m')"
proof -
  note D = mem_invD [OF inv]
  have di: "1 \<le> dir_index page" "dir_index page \<le> 8" and un: "vmm_get_user_physical (Some i) page (vm m) = 0"
    and "\<exists>vi \<in> set [0..<VMM_MAX_VMAS]. in_vma (spaces (vm m) i) page vi"
    using dp cur by (auto simp: demand_page_def list_ex_iff)
  then obtain vi where vi: "List.find (in_vma (spaces (vm m) i) page) [0..<VMM_MAX_VMAS] = Some vi"
    by (metis find_None_iff not_None_eq)
  let ?fl = "vma_flags (vmas (spaces (vm m) i) vi) OR PAGE_WRITE"
  have eq: "demand_fault i page (vma_flags (vmas (spaces (vm m) i) vi)) m = Ret m'"
    using pf cur di un vi by (simp add: vmm_page_fault_def Let_def page [symmetric])
  obtain a p1 where a: "pmm_alloc_page (pm m) = (a, p1)" by (cases "pmm_alloc_page (pm m)")
  have nz: "a \<noteq> 0" using eq a by (auto simp: demand_fault_def)
  obtain m1 where z: "zero_out 4096 0x003ff000 (m\<lparr>pm := p1\<rparr>) = Some m1"
    using eq a nz by (cases "zero_out 4096 0x003ff000 (m\<lparr>pm := p1\<rparr>)")
      (simp_all add: demand_fault_def or_fault_def bind_outcome_def)
  note Z = zero_out_fields [OF z]
  have mp: "mappable page" using di by (auto simp: mappable_iff dir_index_eq word_le_nat_alt word_less_nat_alt)
  have m': "pm m' = pmm_free_page a p1" "spaces (vm m') i = put_pte page (new_pte a ?fl) (spaces (vm m) i)"
    using eq a nz z Z mp
    by (auto simp: demand_fault_def or_fault_def bind_outcome_def Let_def on_vm_def map_user_eq upd_space_def vmm_map_spaces)
  have i: "i < MAX_SPACES" "space_used (vm m) i" using D(2) cur by (auto simp: vmm_wf_def)
  have clean: "tables_clean (spaces (vm m) i)" by (rule space_wf_clean [OF vmm_wf_space [OF D(2) i]])
  have pte: "user_pte (spaces (vm m') i) page = new_pte a ?fl"
    using mp by (simp add: m'(2) user_pte_put [OF clean mp])
  have "frame_of ?fl = 0" using fl [of vi] by (simp add: frame_of_def bit.conj_disj_distrib2)
  then have pf': "pfn (new_pte a ?fl) = pfn a"
    using frame_new_pte [of ?fl a] pfn_frame_of by metis
  have r1: "refcount p1 (pfn a) = 1" using pa.alloc_refs [OF D(1) a nz] by simp
  have i1: "pmm_inv p1" by (rule pa.alloc_inv [OF D(1) a])
  have o: "pfn a \<in> owned_frames p1" using r1 refcount_owned [of p1 "pfn a"] by simp
  have "refcount (pmm_free_page a p1) (pfn a) = 0" using refcount_free [OF i1 o] r1 by simp
  then have "pfn a \<notin> owned_frames (pmm_free_page a p1)" using refcount_owned by blast
  then have "pfn a \<in> free_frames (pmm_free_page a p1)"
    using free_managed [OF i1 o] o by (auto simp: managed_frames_def)
  then show ?thesis by (simp add: pte pf' m'(1) new_pte_bits)
qed

lemma mm_reachable_inv: "mm_boot p v m0 \<Longrightarrow> mm_step\<^sup>*\<^sup>* m0 m \<Longrightarrow> mem_inv m"
  by (erule rtranclp_induct [of mm_step m0 m]) (auto intro: mm_boot_inv mm_step_inv)

end
