(* ===== verification/Vmm_Props.thy ===== *)
theory Vmm_Props
  imports Vmm_Reach
begin

text \<open>
  The properties of the virtual memory manager: what a mapping does to lookups, copy-on-write,
  isolation of address spaces in every reachable state, and the range operations.
\<close>

section \<open>Lookups\<close>

lemma mappable_pfn: "mappable va \<longleftrightarrow> 1024 \<le> pfn va \<and> pfn va < 9216"
proof -
  have "1024 \<le> pfn va \<longleftrightarrow> 1024 * 4096 \<le> unat va" "pfn va < 9216 \<longleftrightarrow> unat va < 9216 * 4096"
    unfolding pfn_def by (auto simp: less_eq_div_iff_mult_less_eq div_less_iff_less_mult)
  then show ?thesis by (simp add: mappable_iff word_le_nat_alt word_less_nat_alt)
qed

lemma slot_of_pfn: "mappable x \<Longrightarrow> mappable y \<Longrightarrow> slot_of x = slot_of y \<longleftrightarrow> pfn x = pfn y"
  using slot_of_inj [of x y] same_page_iff [of x y] by (auto simp: slot_of_def)

lemma lookup_ents:
  assumes "i < MAX_SPACES" "space_used v i"
  shows "vmm_get_user_physical (Some i) va v =
    (let e = ents v i (slot_of va) in if mappable va \<and> bit e 0 \<and> bit e 2 then frame_of e OR (va AND 0xfff) else 0)"
  using assms by (simp add: get_user_physical_pte user_pte_slot ents_def Let_def)

lemma user_pte_ents: "i < MAX_SPACES \<Longrightarrow> space_used v i \<Longrightarrow>
    user_pte (spaces v i) va = (if mappable va then ents v i (slot_of va) else 0)"
  by (simp add: user_pte_slot ents_def)

section \<open>An example\<close>

definition mm_one :: mm where
  "mm_one = on_vm (\<lambda>v. vmm_switch_address_space (Some 0) (snd (vmm_create_address_space v))) mm_booted"

definition mm_page :: "u32 \<Rightarrow> mm" where
  "mm_page flags = mm_one\<lparr>pm := take_frame 2 pmm_example,
     vm := upd_space 0 (put_pte 0x401000 (new_pte 0x2000 flags)) (vm mm_one)\<rparr>"

lemma mm_booted_boot: "mm_boot pmm_example vmm_blank mm_booted"
  by (simp add: mm_boot_def mm_booted_def pmm_example_inv vmm_blank_def)

lemma create_booted: "vmm_create_address_space (vm mm_booted) = (Some 0,
    (vm mm_booted)\<lparr>space_used := (space_used (vm mm_booted))(0 := True),
      spaces := (spaces (vm mm_booted))(0 := fresh_space (vm mm_booted) (spaces (vm mm_booted) 0))\<rparr>)"
proof -
  have "[0..<MAX_SPACES] = 0 # [1..<MAX_SPACES]" by (simp add: MAX_SPACES_def upt_conv_Cons)
  moreover have "\<not> space_used (vm mm_booted) 0" by (simp add: mm_booted_def vmm_init_def vmm_blank_def Let_def)
  ultimately show ?thesis by (simp add: vmm_create_address_space_def)
qed

lemma mm_one_live: "live 0 mm_one" "current_space (vm mm_one) = Some 0" "pm mm_one = pmm_example"
proof -
  have c: "live 0 (mm_booted\<lparr>vm := snd (vmm_create_address_space (vm mm_booted))\<rparr>)"
    using mm_step_inv [OF mm_step.create [OF create_booted] mm_boot_inv [OF mm_booted_boot]]
    by (simp add: create_booted live_def MAX_SPACES_def)
  have "mm_one = on_vm (vmm_switch_address_space (Some 0)) (mm_booted\<lparr>vm := snd (vmm_create_address_space (vm mm_booted))\<rparr>)"
    by (simp add: mm_one_def on_vm_def)
  with switch_live [OF c, of "Some 0"] c show "live 0 mm_one" by simp
  show "current_space (vm mm_one) = Some 0" "pm mm_one = pmm_example"
    by (simp_all add: mm_one_def on_vm_def vmm_switch_address_space_def mm_booted_def)
qed

lemma mm_one_empty: "ents (vm mm_one) i x = 0"
  by (simp add: mm_one_def on_vm_def create_booted)
    (auto simp: ents_def slot_pte_def fresh_space_def mm_booted_def vmm_init_def vmm_blank_def Let_def)

lemma mm_page_live:
  assumes "frame_of flags = 0"
  shows "live 0 (mm_page flags)" "current_space (vm (mm_page flags)) = Some 0"
    "ents (vm (mm_page flags)) = set_entry 0 (0, 1) (new_pte 0x2000 flags) (ents (vm mm_one))"
proof -
  have m: "mappable 0x401000" "slot_of 0x401000 = (0, 1)"
    by (simp_all add: mappable_iff slot_of_def dir_index_eq table_index_eq)
  have a: "pmm_alloc_page (pm mm_one) = (0x2000, take_frame 2 pmm_example)" "(0x2000 :: u32) \<noteq> 0"
    by (simp_all add: mm_one_live pmm_example_alloc)
  note S = map_fresh_spec [OF mm_one_live(1) a m(1) mm_one_empty assms]
  show "live 0 (mm_page flags)" "ents (vm (mm_page flags)) = set_entry 0 (0, 1) (new_pte 0x2000 flags) (ents (vm mm_one))"
    using S(1,4) by (simp_all add: mm_page_def m(2))
  show "current_space (vm (mm_page flags)) = Some 0" by (simp add: mm_page_def mm_one_live)
qed

lemma pmm_example_alloc2:
  "pmm_alloc_page (take_frame 2 pmm_example) = (0x3000, take_frame 3 (take_frame 2 pmm_example))"
proof -
  have "[1..<unat (total_pages_count (take_frame 2 pmm_example))] = 1 # 2 # 3 # [4..<16]"
    by (simp add: pmm_example_def upt_conv_Cons)
  moreover have "bit_test 1 (take_frame 2 pmm_example)" "bit_test 2 (take_frame 2 pmm_example)"
    "\<not> bit_test 3 (take_frame 2 pmm_example)"
    by (simp_all add: bit_test_def pmm_example_def take_frame_def bit_set_def)
  ultimately show ?thesis by (simp only: pmm_alloc_page_def find.simps take_frame_def) simp
qed

lemma users_user_pte:
  "users (ents v) p = {j. j < MAX_SPACES \<and> space_used v j \<and>
     (\<exists>y. bit (user_pte (spaces v j) y) 0 \<and> pfn (user_pte (spaces v j) y) = p)}"
proof (intro set_eqI iffI CollectI)
  fix j
  assume "j \<in> users (ents v) p"
  then obtain t k where x: "bit (ents v j (t, k)) 0" "pfn (ents v j (t, k)) = p" by (auto simp: users_def)
  then have b: "t < 8" "k < 1024" "j < MAX_SPACES" "space_used v j" by (auto simp: ents_def slot_pte_def split: if_splits)
  have "user_pte (spaces v j) (slot_va t k) = ents v j (t, k)"
    using b by (simp add: user_pte_ents mappable_slot_va slot_of_slot_va)
  with x b show "j < MAX_SPACES \<and> space_used v j \<and> (\<exists>y. bit (user_pte (spaces v j) y) 0 \<and> pfn (user_pte (spaces v j) y) = p)"
    by metis
next
  fix j
  assume "j \<in> {j. j < MAX_SPACES \<and> space_used v j \<and> (\<exists>y. bit (user_pte (spaces v j) y) 0 \<and> pfn (user_pte (spaces v j) y) = p)}"
  then obtain y where y: "j < MAX_SPACES" "space_used v j" "bit (user_pte (spaces v j) y) 0" "pfn (user_pte (spaces v j) y) = p" by auto
  then have "mappable y" by (auto simp: user_pte_slot split: if_splits)
  with y show "j \<in> users (ents v) p" by (intro users_memI [of _ _ "slot_of y"]) (simp_all add: user_pte_ents)
qed

text \<open>One page mapped at \<open>0x400000\<close> by \<open>vmm_map_range\<close> in the first space.\<close>

definition mm_created :: mm where
  "mm_created = mm_booted\<lparr>vm := snd (vmm_create_address_space (vm mm_booted))\<rparr>"

lemma mm_created_facts: "mm_step mm_booted mm_created" "live 0 mm_created" "pm mm_created = pmm_example"
  "ents (vm mm_created) i x = 0"
  "i < VMM_MAX_VMAS \<Longrightarrow> \<not> vma_used (vmas (spaces (vm mm_created) 0) i)"
proof -
  show s: "mm_step mm_booted mm_created"
    unfolding mm_created_def by (rule mm_step.create [of _ "Some 0"]) (simp add: create_booted)
  show "live 0 mm_created"
    using mm_step_inv [OF s mm_boot_inv [OF mm_booted_boot]] by (simp add: live_def mm_created_def create_booted MAX_SPACES_def)
  show "pm mm_created = pmm_example" by (simp add: mm_created_def mm_booted_def)
  show "ents (vm mm_created) i x = 0"
    using mm_one_empty [of i x] by (simp add: mm_created_def mm_one_def on_vm_def)
  show "i < VMM_MAX_VMAS \<Longrightarrow> \<not> vma_used (vmas (spaces (vm mm_created) 0) i)"
    by (simp add: mm_created_def create_booted fresh_space_def)
qed

lemma map_range_created:
  "vmm_map_range (Some 0) 0x400000 1 0 mm_created = (0x400000,
     on_vm (upd_space 0 (set_vma 0 0x400000 0x401000 0))
       (mm_created\<lparr>pm := take_frame 2 pmm_example,
          vm := upd_space 0 (put_pte 0x400000 (new_pte 0x2000 PAGE_WRITE)) (vm mm_created)\<rparr>))"
proof -
  let ?s = "spaces (vm mm_created) 0"
  have "\<not> vma_overlaps ?s 0x400000 0x401000"
    using mm_created_facts(5) by (auto simp: vma_overlaps_def list_ex_iff)
  moreover have "free_vma ?s = Some 0"
  proof -
    have "[0..<VMM_MAX_VMAS] = 0 # [1..<VMM_MAX_VMAS]" by (simp add: VMM_MAX_VMAS_def upt_conv_Cons)
    then show ?thesis using mm_created_facts(5) [of 0] by (simp add: free_vma_def VMM_MAX_VMAS_def)
  qed
  moreover have "mappable 0x400000" by (simp add: mappable_iff)
  moreover have "range_unmapped 0 0x400000 1 (vm mm_created)"
    using live_entry [OF mm_created_facts(2) \<open>mappable 0x400000\<close>] mm_created_facts(4) by (simp add: range_unmapped_def)
  ultimately show ?thesis
    by (simp add: vmm_map_range_def user_range_def map_user_eq mm_created_facts(3) pmm_example_alloc)
qed

lemma mapped_isolated:
  assumes inv: "mem_inv m" and "i < MAX_SPACES" "space_used (vm m) i" "bit (user_pte (spaces (vm m) i) va) 0"
  shows "refcount (pm m) (pfn (user_pte (spaces (vm m) i) va)) =
      card {j. j < MAX_SPACES \<and> space_used (vm m) j \<and> (\<exists>y. bit (user_pte (spaces (vm m) j) y) 0 \<and>
        pfn (user_pte (spaces (vm m) j) y) = pfn (user_pte (spaces (vm m) i) va))} \<and>
    pfn (user_pte (spaces (vm m) i) va) \<notin> free_frames (pm m) \<and>
    (user_pte (spaces (vm m) i) va AND PAGE_WRITE \<noteq> 0 \<longrightarrow>
      (\<forall>j y. j < MAX_SPACES \<and> space_used (vm m) j \<and> bit (user_pte (spaces (vm m) j) y) 0 \<and>
         pfn (user_pte (spaces (vm m) j) y) = pfn (user_pte (spaces (vm m) i) va) \<longrightarrow> j = i \<and> pfn y = pfn va))"
proof -
  note D = mem_invD [OF inv]
  define e where "e = user_pte (spaces (vm m) i) va"
  have mp: "mappable va" using assms(4) by (auto simp: user_pte_slot split: if_splits)
  have e: "ents (vm m) i (slot_of va) = e" "bit e 0" using assms(2-4) mp by (simp_all add: e_def user_pte_ents)
  have mem: "i \<in> users (ents (vm m)) (pfn e)" by (rule users_memI [of _ _ "slot_of va"]) (simp_all add: e)
  have u: "users (ents (vm m)) (pfn e) = {j. j < MAX_SPACES \<and> space_used (vm m) j \<and>
      (\<exists>y. bit (user_pte (spaces (vm m) j) y) 0 \<and> pfn (user_pte (spaces (vm m) j) y) = pfn e)}"
    by (rule users_user_pte)
  have "refcount (pm m) (pfn e) = card (users (ents (vm m)) (pfn e))" using frames_okD(3) [OF D(3)] mem by blast
  moreover have "pfn e \<notin> free_frames (pm m)"
    using shared_count(1) [OF inv, of i "slot_of va"] e free_frame_refcount [OF D(1)] by auto
  moreover have "j = i \<and> pfn y = pfn va" if w: "e AND PAGE_WRITE \<noteq> 0"
    and j: "j < MAX_SPACES" "space_used (vm m) j" "bit (user_pte (spaces (vm m) j) y) 0" "pfn (user_pte (spaces (vm m) j) y) = pfn e" for j y
  proof -
    have "bit e 1" using w by (simp add: and_flag_iff)
    then have one: "users (ents (vm m)) (pfn e) = {i}" using frames_okD(4) [OF D(3), of i "slot_of va"] e by simp
    have "j \<in> users (ents (vm m)) (pfn e)" unfolding u using j by blast
    then have ji: "j = i" using one by simp
    have my: "mappable y" using j(3) by (auto simp: user_pte_slot split: if_splits)
    have "slot_of y = slot_of va"
      using frames_okD(1) [OF D(3), of i "slot_of y" "slot_of va"] j e ji my by (simp add: user_pte_ents)
    then show ?thesis using ji slot_of_pfn [OF my mp] by simp
  qed
  ultimately show ?thesis unfolding e_def [symmetric] u by blast
qed

text \<open>The first space current, with an area of one page at \<open>0x400000\<close> that is not mapped yet.\<close>

definition mm_lazy :: mm where
  "mm_lazy = on_vm (\<lambda>v. snd (vmm_map_lazy_range (Some 0) 0x400000 1 0 v)) mm_one"

lemma mm_lazy_fault:
  "mm_step\<^sup>*\<^sup>* mm_booted mm_lazy" "current_space (vm mm_lazy) = Some 0" "demand_page mm_lazy 0x400000"
  "\<exists>m'. vmm_page_fault 0 6 0x400000 mm_lazy = Ret m'"
  "frame_of (vma_flags (vmas (spaces (vm mm_lazy) 0) vi)) = 0"
proof -
  note L = liveD [OF mm_one_live(1)]
  have one: "mm_one = on_vm (vmm_switch_address_space (Some 0)) mm_created"
    by (simp add: mm_one_def mm_created_def on_vm_def)
  have s1: "mm_step mm_created mm_one"
    unfolding one by (rule mm_step.switch) (use liveD [OF mm_created_facts(2)] in blast)
  have s2: "mm_step mm_one mm_lazy" unfolding mm_lazy_def by (rule mm_step.lazy_range [OF L(2,3)])
  show "mm_step\<^sup>*\<^sup>* mm_booted mm_lazy"
    by (rule rtranclp.rtrancl_into_rtrancl [OF rtranclp.rtrancl_into_rtrancl [OF r_into_rtranclp [of mm_step, OF mm_created_facts(1)] s1] s2])
  have sp: "vmas (spaces (vm mm_one) 0) = vmas (spaces (vm mm_created) 0)"
    by (simp add: one on_vm_def vmm_switch_address_space_def)
  have vma: "\<not> vma_used (vmas (spaces (vm mm_one) 0) k)" if "k < VMM_MAX_VMAS" for k
    using mm_created_facts(5) [OF that] by (simp add: sp)
  have up: "[0..<VMM_MAX_VMAS] = 0 # [1..<VMM_MAX_VMAS]" by (simp add: VMM_MAX_VMAS_def upt_conv_Cons)
  have "\<not> vma_overlaps (spaces (vm mm_one) 0) 0x400000 0x401000" using vma by (auto simp: vma_overlaps_def list_ex_iff)
  moreover have "free_vma (spaces (vm mm_one) 0) = Some 0"
    unfolding free_vma_def up using vma [of 0] by (simp add: VMM_MAX_VMAS_def)
  ultimately have lz: "mm_lazy = on_vm (upd_space 0 (set_vma 0 0x400000 0x401000 0)) mm_one"
    by (simp add: mm_lazy_def on_vm_def vmm_map_lazy_range_def)
  have cur: "current_space (vm mm_lazy) = Some 0" using mm_one_live(2) by (simp add: lz on_vm_def)
  then show "current_space (vm mm_lazy) = Some 0" .
  have vs: "vmas (spaces (vm mm_lazy) 0) = (vmas (spaces (vm mm_one) 0))(0 := \<lparr>vma_start = 0x400000, vma_end = 0x401000, vma_flags = 0, vma_used = True\<rparr>)"
    by (simp add: lz on_vm_def set_vma_def)
  have "vma_flags (vmas (spaces (vm mm_one) 0) vi) = 0" for vi
    by (simp add: sp mm_created_def create_booted fresh_space_def) (simp add: mm_booted_def vmm_init_def vmm_blank_def Let_def)
  then show "frame_of (vma_flags (vmas (spaces (vm mm_lazy) 0) vi)) = 0" by (simp add: vs frame_of_def)
  have di: "dir_index 0x400000 = 1" by (simp add: dir_index_eq)
  have hit: "in_vma (spaces (vm mm_lazy) 0) 0x400000 0" by (simp add: in_vma_def vs)
  have un: "vmm_get_user_physical (Some 0) 0x400000 (vm mm_lazy) = 0"
    using mm_one_empty [of 0 "slot_of 0x400000"] L(2,3)
    by (simp add: lookup_ents lz on_vm_def) (simp add: ents_def set_vma_def slot_pte_def)
  show "demand_page mm_lazy 0x400000" using cur di hit un by (simp add: demand_page_def up)
  have "translate (vm mm_lazy) 0x3ff000 = Some 0x3ff000"
  proof -
    have "hw_pte (vm mm_lazy) 0x3ff000 = 0x3ff003"
      by (simp add: lz on_vm_def hw_pte_def one vmm_switch_address_space_def mm_created_def create_booted set_vma_def)
        (simp add: fresh_space_def mm_booted_def vmm_init_def dir_index_eq table_index_eq Let_def)
    then show ?thesis by (simp add: translate_pte frame_of_def)
  qed
  then have "zero_out 4096 0x003ff000 (mm_lazy\<lparr>pm := p1\<rparr>) \<noteq> None" for p1
    using zero_out_page [of "0x3ff000" "mm_lazy\<lparr>pm := p1\<rparr>" "0x3ff000" 4096] by (simp add: frame_of_def)
  moreover have "pmm_alloc_page (pm mm_lazy) = (0x2000, take_frame 2 pmm_example)"
    using mm_one_live(3) by (simp add: lz on_vm_def pmm_example_alloc)
  ultimately have "\<exists>m'. demand_fault 0 0x400000 fl mm_lazy = Ret m'" for fl
    by (auto simp: demand_fault_def or_fault_def bind_outcome_def Let_def split: option.splits)
  then show "\<exists>m'. vmm_page_fault 0 6 0x400000 mm_lazy = Ret m'"
    using cur di hit un by (simp add: vmm_page_fault_def Let_def up frame_of_def)
qed

section \<open>Properties\<close>

text \<open>C5: \<open>vmm_map_user\<close> succeeds exactly for the addresses covered by the eight user page tables
  and then changes the translation of that one page of that one space and of nothing else.\<close>

theorem vmm_map_user_lookup:
  assumes "vmm_wf v" "i < MAX_SPACES" "space_used v i" "frame_of flags = 0"
    and "vmm_map_user (Some i) va ph flags v = (r, v')"
  shows "(r = 0 \<longleftrightarrow> 0x400000 \<le> va \<and> va < 0x2400000) \<and> (r \<noteq> 0 \<longrightarrow> r = -1 \<and> v' = v) \<and>
    (\<forall>j y. vmm_get_user_physical (Some j) y v' =
       (if r = 0 \<and> j = i \<and> pfn y = pfn va then frame_of ph OR (y AND 0xfff)
        else vmm_get_user_physical (Some j) y v))"
proof (cases "mappable va")
  case False
  then have "r = -1" "v' = v" using assms(5) by (simp_all add: map_user_eq)
  then show ?thesis using False mappable_iff [of va] by auto
next
  case True
  then have v': "r = 0" "v' = upd_space i (put_pte va (new_pte ph flags)) v"
    using assms(5) by (simp_all add: map_user_eq)
  have clean: "tables_clean (spaces v i)" by (rule space_wf_clean [OF vmm_wf_space [OF assms(1-3)]])
  have "vmm_get_user_physical (Some j) y v' =
      (if j = i \<and> pfn y = pfn va then frame_of ph OR (y AND 0xfff) else vmm_get_user_physical (Some j) y v)" for j y
    using user_pte_put [OF clean True, of "new_pte ph flags" y] frame_new_pte [OF assms(4), of ph] True mappable_pfn [of y] mappable_pfn [of va]
    by (auto simp: get_user_physical_pte v' new_pte_bits Let_def)
  then show ?thesis using v' True mappable_iff [of va] by simp
qed

theorem vmm_map_user_lookup_witness:
  "vmm_get_user_physical (Some 0) 0x401234 (snd (vmm_map_user (Some 0) 0x401000 0x5000 2 (vm mm_one))) = 0x5234"
proof -
  obtain r v' where r: "vmm_map_user (Some 0) 0x401000 0x5000 2 (vm mm_one) = (r, v')"
    by (cases "vmm_map_user (Some 0) 0x401000 0x5000 2 (vm mm_one)")
  have "vmm_wf (vm mm_one)" "0 < MAX_SPACES" "space_used (vm mm_one) 0" "frame_of 2 = 0"
    using mm_one_live(1) by (simp_all add: live_def mem_inv_def frame_of_def)
  from vmm_map_user_lookup [OF this r] show ?thesis by (simp add: r frame_of_def pfn_def)
qed

text \<open>C6: A copy-on-write clone gives the child exactly the parent's translations, takes the write
  permission from every page of both, adds one reference to each shared frame, and touches neither
  physical memory nor any other space. It fails only when all 32 spaces are in use, and then
  changes nothing.\<close>

theorem vmm_clone_cow_correct:
  assumes "mem_inv m" "src < MAX_SPACES" "space_used (vm m) src"
    and "vmm_clone_address_space_cow (Some src) m = (r, m')"
  shows "case r of None \<Rightarrow> m' = m \<and> (\<forall>i < MAX_SPACES. space_used (vm m) i)
    | Some dst \<Rightarrow> mem_inv m' \<and> phys m' = phys m \<and> current_space (vm m') = current_space (vm m) \<and>
        \<not> space_used (vm m) dst \<and> space_used (vm m') = (space_used (vm m))(dst := True) \<and>
        (\<forall>i \<in> {src, dst}. \<forall>va. vmm_get_user_physical (Some i) va (vm m') = vmm_get_user_physical (Some src) va (vm m) \<and>
           user_pte (spaces (vm m') i) va AND PAGE_WRITE = 0) \<and>
        (\<forall>p. refcount (pm m') p = refcount (pm m) p +
           (if \<exists>va. bit (user_pte (spaces (vm m) src) va) 0 \<and> pfn (user_pte (spaces (vm m) src) va) = p then 1 else 0)) \<and>
        (\<forall>i. i \<noteq> src \<and> i \<noteq> dst \<longrightarrow> spaces (vm m') i = spaces (vm m) i)"
  using assms
proof (cases rule: clone_cow_spec)
  case 1
  then show ?thesis by simp
next
  case (2 dst)
  note used = assms(2,3) and wf = mem_invD(2) [OF assms(1)]
  have ne: "dst \<noteq> src" using 2(3) assms(3) by auto
  have u': "space_used (vm m') src" "space_used (vm m') dst" using assms(3) by (simp_all add: 2(8))
  have at: "ents (vm m') i x = (let e = ents (vm m) src x in if bit e 0 then (if i = dst then cow_copy_pte e else cow_pte e) else 0)"
    if "i \<in> {src, dst}" for i x
    using that ne ents_ok [OF wf, of src x] 2(3)
    by (auto simp: 2(6) cow_entries_def Let_def pte_ok_def) (simp add: ents_def)
  have pte: "user_pte (spaces (vm m) src) va = (if mappable va then ents (vm m) src (slot_of va) else 0)" for va
    by (rule user_pte_ents [OF used])
  have both: "i < MAX_SPACES \<and> space_used (vm m') i" if "i \<in> {src, dst}" for i
    using that used(1) 2(2) u' by auto
  have "vmm_get_user_physical (Some i) va (vm m') = vmm_get_user_physical (Some src) va (vm m)"
    if "i \<in> {src, dst}" for i va
    using both [OF that] used ents_ok [OF wf, of src "slot_of va"] at [OF that, of "slot_of va"]
    by (auto simp: lookup_ents pte_ok_def Let_def cow_pte_frame page_simps)
  moreover have "user_pte (spaces (vm m') i) va AND PAGE_WRITE = 0" if "i \<in> {src, dst}" for i va
    using both [OF that] at [OF that, of "slot_of va"]
    by (auto simp: user_pte_ents and_flag_iff Let_def page_simps)
  moreover have "(\<exists>x. bit (ents (vm m) src x) 0 \<and> pfn (ents (vm m) src x) = p) \<longleftrightarrow>
      (\<exists>va. bit (user_pte (spaces (vm m) src) va) 0 \<and> pfn (user_pte (spaces (vm m) src) va) = p)" for p
  proof
    assume "\<exists>x. bit (ents (vm m) src x) 0 \<and> pfn (ents (vm m) src x) = p"
    then obtain t j where x: "bit (ents (vm m) src (t, j)) 0" "pfn (ents (vm m) src (t, j)) = p" by auto
    then have b: "t < 8" "j < 1024" by (auto simp: ents_def slot_pte_def split: if_splits)
    show "\<exists>va. bit (user_pte (spaces (vm m) src) va) 0 \<and> pfn (user_pte (spaces (vm m) src) va) = p"
      by (rule exI [of _ "slot_va t j"]) (use x in \<open>simp add: pte mappable_slot_va [OF b] slot_of_slot_va [OF b]\<close>)
  next
    assume "\<exists>va. bit (user_pte (spaces (vm m) src) va) 0 \<and> pfn (user_pte (spaces (vm m) src) va) = p"
    then obtain va where "bit (ents (vm m) src (slot_of va)) 0" "pfn (ents (vm m) src (slot_of va)) = p"
      by (auto simp: pte split: if_splits)
    then show "\<exists>x. bit (ents (vm m) src x) 0 \<and> pfn (ents (vm m) src x) = p" by blast
  qed
  ultimately show ?thesis using 2(4,5,7,8,11,12) by (simp add: 2(1,3))
qed

theorem vmm_clone_cow_correct_witness:
  "vmm_get_user_physical (Some 0) 0x401234 (vm (snd (vmm_clone_address_space_cow (Some 0) (mm_page PAGE_WRITE)))) = 0x2234"
proof -
  let ?m = "mm_page PAGE_WRITE"
  obtain r m' where r: "vmm_clone_address_space_cow (Some 0) ?m = (r, m')"
    by (cases "vmm_clone_address_space_cow (Some 0) ?m")
  have f: "frame_of PAGE_WRITE = 0" by (simp add: frame_of_def)
  note L = liveD [OF mm_page_live(1) [OF f]]
  have e: "vmm_get_user_physical (Some 0) 0x401234 (vm ?m) = 0x2234"
  proof -
    have "mappable 0x401234" "slot_of 0x401234 = (0, 1)"
      by (simp_all add: mappable_iff slot_of_def dir_index_eq table_index_eq)
    then show ?thesis
      by (simp add: lookup_ents [OF L(2,3)] mm_page_live(3) [OF f] set_entry_apply new_pte_def frame_of_def bit_numeral_rec)
  qed
  from vmm_clone_cow_correct [OF L r] e show ?thesis by (cases r) (auto simp: r)
qed

text \<open>C7: A write from user mode to a shared page gives the writer a private copy: the fault is
  handled without a panic as long as a page is free, the writer then sees the same bytes at a
  writable page of its own, no other translation of any space changes, and no byte of any frame
  that was in use changes.\<close>

theorem vmm_cow_fault_isolated:
  assumes "mem_inv m" "current_space (vm m) = Some i"
    and "pte = user_pte (spaces (vm m) i) address" "bit pte 0" "bit pte 2" "bit pte 9"
    and "bit err 1" "bit err 2" and "pmm_alloc_page (pm m) = (a, p1)" "a \<noteq> 0"
  shows "\<exists>m'. vmm_page_fault cr2 err address m = Ret m' \<and> mem_inv m' \<and>
    (\<forall>va. pfn va = pfn address \<longrightarrow> vmm_get_user_physical (Some i) va (vm m') = a + (va AND 0xfff) \<and>
       phys m' (a + (va AND 0xfff)) = phys m (vmm_get_user_physical (Some i) va (vm m)) \<and>
       user_pte (spaces (vm m') i) va AND PAGE_WRITE \<noteq> 0) \<and>
    (\<forall>j va. j \<noteq> i \<or> pfn va \<noteq> pfn address \<longrightarrow> user_pte (spaces (vm m') j) va = user_pte (spaces (vm m) j) va) \<and>
    (\<forall>b. refcount (pm m) (pfn b) \<noteq> 0 \<longrightarrow> phys m' b = phys m b) \<and>
    refcount (pm m') = (refcount (pm m))(pfn a := 1, pfn pte := refcount (pm m) (pfn pte) - 1)"
proof -
  note D = mem_invD [OF assms(1)]
  have i: "i < MAX_SPACES" "space_used (vm m) i" using D(2) assms(2) by (auto simp: vmm_wf_def)
  have mp: "mappable address" using assms(3,4) by (auto simp: user_pte_slot split: if_splits)
  note mf = mappable_frame [OF mp]
  have pte: "pte = user_pte (spaces (vm m) i) (frame_of address)"
    using mp mf by (simp add: assms(3) user_pte_slot slot_of_def)
  have clean: "tables_clean (spaces (vm m) i)" by (rule space_wf_clean [OF vmm_wf_space [OF D(2) i]])
  obtain m' where m': "cow_fault i (frame_of address) pte m = Ret m'" "mem_inv m'"
    "phys m' = (\<lambda>b. if pfn b = pfn a then phys m (frame_of pte + of_nat (unat b mod 4096)) else phys m b)"
    "refcount (pm m') = (refcount (pm m))(pfn a := 1, pfn pte := refcount (pm m) (pfn pte) - 1)"
    "\<And>j. spaces (vm m') j = (if j = i then put_pte (frame_of address) (new_pte a PAGE_WRITE) (spaces (vm m) i) else spaces (vm m) j)"
    by (rule cow_fault_spec [OF assms(1) i assms(9,10) pte assms(4)]) (rule that; assumption)
  have fa: "frame_of a = a" by (rule alloc_frame [OF D(1) assms(9,10)])
  have fe: "frame_of (new_pte a PAGE_WRITE) = a" using frame_new_pte [of PAGE_WRITE a] fa by (simp add: frame_of_def)
  have new: "user_pte (spaces (vm m') j) va = (if j = i \<and> pfn va = pfn address then new_pte a PAGE_WRITE else user_pte (spaces (vm m) j) va)" for j va
    using user_pte_put [OF clean mf, of "new_pte a PAGE_WRITE" va] mp mappable_pfn [of va] mappable_pfn [of address]
    by (auto simp: m'(5))
  have byte: "phys m' (a + (va AND 0xfff)) = phys m (vmm_get_user_physical (Some i) va (vm m))" if "pfn va = pfn address" for va
  proof -
    have n: "unat (va AND 0xfff) < 4096" by (simp only: unat_low)
    then have "pfn (a + (va AND 0xfff)) = pfn a \<and> unat (a + (va AND 0xfff)) mod 4096 = unat (va AND 0xfff)"
      using page_byte_pfn [OF n, of a] fa by simp
    moreover have "user_pte (spaces (vm m) i) va = pte"
      using that mp mappable_pfn [of va] mappable_pfn [of address] slot_of_pfn [of va address] by (simp add: assms(3) user_pte_slot)
    ultimately show ?thesis
      using assms(4,5) by (simp add: m'(3) get_user_physical_pte frame_or_low)
  qed
  have old: "phys m' b = phys m b" if "refcount (pm m) (pfn b) \<noteq> 0" for b
    using that pa.alloc_not_owned [OF D(1) assms(9,10) that] by (auto simp: m'(3))
  have "vmm_page_fault cr2 err address m = Ret m'"
    using page_fault_cow [OF assms(1-8)] m'(1) by simp
  then show ?thesis
    using m'(2,4) new byte old fe frame_or_low [of a] fa
    by (intro exI [of _ m']) (auto simp: get_user_physical_pte new_pte_bits and_flag_iff Let_def)
qed

theorem vmm_cow_fault_isolated_witness:
  "\<exists>m'. vmm_page_fault 0 6 0x401000 (mm_page PAGE_COW) = Ret m' \<and> phys m' 0x3abc = phys (mm_page PAGE_COW) 0x2abc"
proof -
  let ?m = "mm_page PAGE_COW" and ?pte = "new_pte 0x2000 PAGE_COW"
  have f: "frame_of PAGE_COW = 0" by (simp add: frame_of_def)
  note P = mm_page_live [OF f]
  note L = liveD [OF P(1)]
  have mp: "mappable 0x401000" "slot_of 0x401000 = (0, 1)" "mappable 0x401abc" "slot_of 0x401abc = (0, 1)"
    by (simp_all add: mappable_iff slot_of_def dir_index_eq table_index_eq)
  have pte: "?pte = user_pte (spaces (vm ?m) 0) 0x401000"
    using P(3) mp by (simp add: user_pte_ents [OF L(2,3)] set_entry_apply)
  have a: "pmm_alloc_page (pm ?m) = (0x3000, take_frame 3 (take_frame 2 pmm_example))" "(0x3000 :: u32) \<noteq> 0"
    by (simp_all add: mm_page_def pmm_example_alloc2)
  have bits: "bit ?pte 0" "bit ?pte 2" "bit ?pte 9" "bit (6 :: u32) 1" "bit (6 :: u32) 2"
    by (simp_all add: new_pte_def frame_of_def bit_numeral_rec)
  from vmm_cow_fault_isolated [OF L(1) P(2) pte bits a, of 0]
  obtain m' where m': "vmm_page_fault 0 6 0x401000 ?m = Ret m'"
    "\<forall>va. pfn va = pfn 0x401000 \<longrightarrow>
       phys m' (0x3000 + (va AND 0xfff)) = phys ?m (vmm_get_user_physical (Some 0) va (vm ?m))" by blast
  have "vmm_get_user_physical (Some 0) 0x401abc (vm ?m) = 0x2abc"
    by (simp add: lookup_ents [OF L(2,3)] mp P(3) set_entry_apply new_pte_def frame_of_def bit_numeral_rec)
  moreover have "pfn 0x401abc = pfn 0x401000" by (simp add: pfn_def)
  ultimately show ?thesis using m'(1) m'(2) [rule_format, of "0x401abc"] by simp
qed

text \<open>C8: In every state reachable from boot by creating, retaining, cloning, switching and
  destroying address spaces, mapping fresh pages at unmapped addresses and mapping and unmapping
  ranges (with flags below \<open>0x1000\<close>), checking user pointers of the current space, faults
  other than demand faults, kernel page allocations and arbitrary
  stores: a mapped frame is never free, its reference count is the number of spaces that map it,
  and a frame that one space can write is mapped by no other space. The exception is real: a fault
  on an unmapped page of an area, in any of these states, leaves that page mapped to a free frame
  whenever it returns.\<close>

theorem vmm_reachable_isolated:
  assumes "mm_boot p v m0" "mm_step\<^sup>*\<^sup>* m0 m"
  shows "(\<forall>i va. i < MAX_SPACES \<and> space_used (vm m) i \<and> bit (user_pte (spaces (vm m) i) va) 0 \<longrightarrow>
    refcount (pm m) (pfn (user_pte (spaces (vm m) i) va)) =
      card {j. j < MAX_SPACES \<and> space_used (vm m) j \<and> (\<exists>y. bit (user_pte (spaces (vm m) j) y) 0 \<and>
        pfn (user_pte (spaces (vm m) j) y) = pfn (user_pte (spaces (vm m) i) va))} \<and>
    pfn (user_pte (spaces (vm m) i) va) \<notin> free_frames (pm m) \<and>
    (user_pte (spaces (vm m) i) va AND PAGE_WRITE \<noteq> 0 \<longrightarrow>
      (\<forall>j y. j < MAX_SPACES \<and> space_used (vm m) j \<and> bit (user_pte (spaces (vm m) j) y) 0 \<and>
         pfn (user_pte (spaces (vm m) j) y) = pfn (user_pte (spaces (vm m) i) va) \<longrightarrow> j = i \<and> pfn y = pfn va))) \<and>
    (\<forall>i page address cr2 err m'. current_space (vm m) = Some i \<and> demand_page m page \<and>
       page = frame_of (if address \<noteq> 0 then address else cr2) \<and>
       (\<forall>vi. frame_of (vma_flags (vmas (spaces (vm m) i) vi)) = 0) \<and>
       vmm_page_fault cr2 err address m = Ret m' \<longrightarrow>
       bit (user_pte (spaces (vm m') i) page) 0 \<and> pfn (user_pte (spaces (vm m') i) page) \<in> free_frames (pm m'))"
proof (intro conjI allI impI)
  have inv: "mem_inv m" by (rule mm_reachable_inv [OF assms(1,2)])
  {
    fix i va
    assume "i < MAX_SPACES \<and> space_used (vm m) i \<and> bit (user_pte (spaces (vm m) i) va) 0"
    then show "refcount (pm m) (pfn (user_pte (spaces (vm m) i) va)) =
        card {j. j < MAX_SPACES \<and> space_used (vm m) j \<and> (\<exists>y. bit (user_pte (spaces (vm m) j) y) 0 \<and>
          pfn (user_pte (spaces (vm m) j) y) = pfn (user_pte (spaces (vm m) i) va))}"
      "pfn (user_pte (spaces (vm m) i) va) \<notin> free_frames (pm m)"
      using mapped_isolated [OF inv] by blast+
    fix j y
    assume "user_pte (spaces (vm m) i) va AND PAGE_WRITE \<noteq> 0"
      "j < MAX_SPACES \<and> space_used (vm m) j \<and> bit (user_pte (spaces (vm m) j) y) 0 \<and>
         pfn (user_pte (spaces (vm m) j) y) = pfn (user_pte (spaces (vm m) i) va)"
    with \<open>i < MAX_SPACES \<and> _\<close> show "j = i" "pfn y = pfn va"
      using mapped_isolated [OF inv] by blast+
  }
  fix i page address cr2 err m'
  assume "current_space (vm m) = Some i \<and> demand_page m page \<and>
       page = frame_of (if address \<noteq> 0 then address else cr2) \<and>
       (\<forall>vi. frame_of (vma_flags (vmas (spaces (vm m) i) vi)) = 0) \<and> vmm_page_fault cr2 err address m = Ret m'"
  then show "bit (user_pte (spaces (vm m') i) page) 0" "pfn (user_pte (spaces (vm m') i) page) \<in> free_frames (pm m')"
    using demand_fault_free [OF inv, of i page address cr2 err m'] by blast+
qed

theorem vmm_reachable_isolated_witness:
  "(\<exists>m. mm_step\<^sup>*\<^sup>* mm_booted m \<and> bit (user_pte (spaces (vm m) 0) 0x400000) 0 \<and>
    pfn (user_pte (spaces (vm m) 0) 0x400000) \<notin> free_frames (pm m)) \<and>
   (\<exists>m'. vmm_page_fault 0 6 0x400000 mm_lazy = Ret m' \<and> bit (user_pte (spaces (vm m') 0) 0x400000) 0 \<and>
    pfn (user_pte (spaces (vm m') 0) 0x400000) \<in> free_frames (pm m'))"
proof
  define m where "m = snd (vmm_map_range (Some 0) 0x400000 1 0 mm_created)"
  note L = liveD [OF mm_created_facts(2)]
  have f: "frame_of 0 = 0" by (simp add: frame_of_def)
  have "mm_step mm_created m" unfolding m_def by (rule mm_step.map_range [OF L(2,3) f])
  then have reach: "mm_step\<^sup>*\<^sup>* mm_booted m" using mm_created_facts(1) by (meson rtranclp.simps)
  have u: "space_used (vm m) 0" using L(3) by (simp add: m_def map_range_created on_vm_def)
  have mp: "mappable 0x400000" by (simp add: mappable_iff)
  have clean: "tables_clean (spaces (vm mm_created) 0)"
    by (rule space_wf_clean [OF vmm_wf_space [OF mem_invD(2) [OF L(1)] L(2,3)]])
  have "user_pte (spaces (vm m) 0) 0x400000 = user_pte (put_pte 0x400000 (new_pte 0x2000 PAGE_WRITE) (spaces (vm mm_created) 0)) 0x400000"
    by (simp add: m_def map_range_created on_vm_def user_pte_def set_vma_def)
  then have "bit (user_pte (spaces (vm m) 0) 0x400000) 0"
    using mp by (simp add: user_pte_put [OF clean mp] new_pte_bits)
  then show "\<exists>m. mm_step\<^sup>*\<^sup>* mm_booted m \<and> bit (user_pte (spaces (vm m) 0) 0x400000) 0 \<and>
      pfn (user_pte (spaces (vm m) 0) 0x400000) \<notin> free_frames (pm m)"
    using vmm_reachable_isolated [OF mm_booted_boot reach] reach L(2) u by blast
next
  obtain m' where pf: "vmm_page_fault 0 6 0x400000 mm_lazy = Ret m'" using mm_lazy_fault(4) by blast
  have page: "frame_of (if 0x400000 \<noteq> (0 :: u32) then 0x400000 else 0) = 0x400000" by (simp add: frame_of_def)
  have "bit (user_pte (spaces (vm m') 0) 0x400000) 0 \<and> pfn (user_pte (spaces (vm m') 0) 0x400000) \<in> free_frames (pm m')"
    using conjunct2 [OF vmm_reachable_isolated [OF mm_booted_boot mm_lazy_fault(1)], rule_format, of 0 "0x400000" "0x400000" 0 6 m']
      mm_lazy_fault(2,3,5) pf page by simp
  with pf show "\<exists>m'. vmm_page_fault 0 6 0x400000 mm_lazy = Ret m' \<and> bit (user_pte (spaces (vm m') 0) 0x400000) 0 \<and>
    pfn (user_pte (spaces (vm m') 0) 0x400000) \<in> free_frames (pm m')" by blast
qed

end
