(* ===== verification/Spinlock.thy ===== *)
theory Spinlock
  imports Ceblar_Prelude
begin

text \<open>
  The spin lock of \<open>kernel/spinlock.c\<close>. Any number of processors run \<open>spin_lock_irqsave\<close> and
  \<open>spin_unlock_irqrestore\<close> on one lock. Each memory access of the two functions is one step of one
  processor: reading and clearing the interrupt flag, the atomic exchange of the loop, the store
  of the unlock, and the restoration of the flags.
\<close>

section \<open>The operations\<close>

record spinlock = lock_value :: u32

text \<open>The interrupt flag is bit 9 of EFLAGS: \<open>cli\<close> clears it, \<open>popf\<close> restores the saved word.\<close>

definition irq_save_disable :: "u32 \<Rightarrow> u32 \<times> u32" where
  "irq_save_disable eflags = (eflags, eflags AND NOT 0x200)"

definition irq_restore :: "u32 \<Rightarrow> u32 \<Rightarrow> u32" where
  "irq_restore flags eflags = flags"

definition spin_try :: "spinlock \<Rightarrow> bool \<times> spinlock" where
  "spin_try lock = (lock_value lock = 0, lock\<lparr>lock_value := 1\<rparr>)"

definition spin_release :: "spinlock \<Rightarrow> spinlock" where
  "spin_release lock = lock\<lparr>lock_value := 0\<rparr>"

text \<open>
  Where a processor is: outside, in the loop of \<open>spin_lock_irqsave\<close> with the flags it saved, in the
  critical section, or in \<open>spin_unlock_irqrestore\<close> between the store and the restoration.
\<close>

datatype pc = Idle | Spinning u32 | Critical u32 | Released u32

record cpu =
  cpu_pc :: pc
  cpu_eflags :: u32

record locked =
  the_lock :: spinlock
  cpus :: "nat \<Rightarrow> cpu"

definition set_cpu :: "nat \<Rightarrow> pc \<Rightarrow> u32 \<Rightarrow> locked \<Rightarrow> locked" where
  "set_cpu c k fl s = s\<lparr>cpus := (cpus s)(c := \<lparr>cpu_pc = k, cpu_eflags = fl\<rparr>)\<rparr>"

inductive spin_lock_irqsave :: "nat \<Rightarrow> locked \<Rightarrow> locked \<Rightarrow> bool" for c where
  save: "cpu_pc (cpus s c) = Idle \<Longrightarrow> irq_save_disable (cpu_eflags (cpus s c)) = (flags, fl) \<Longrightarrow>
    spin_lock_irqsave c s (set_cpu c (Spinning flags) fl s)"
| exchange: "cpu_pc (cpus s c) = Spinning flags \<Longrightarrow> spin_try (the_lock s) = (got, l) \<Longrightarrow>
    spin_lock_irqsave c s (set_cpu c (if got then Critical flags else Spinning flags) (cpu_eflags (cpus s c)) (s\<lparr>the_lock := l\<rparr>))"

inductive spin_unlock_irqrestore :: "nat \<Rightarrow> locked \<Rightarrow> locked \<Rightarrow> bool" for c where
  release: "cpu_pc (cpus s c) = Critical flags \<Longrightarrow>
    spin_unlock_irqrestore c s (set_cpu c (Released flags) (cpu_eflags (cpus s c)) (s\<lparr>the_lock := spin_release (the_lock s)\<rparr>))"
| restore: "cpu_pc (cpus s c) = Released flags \<Longrightarrow>
    spin_unlock_irqrestore c s (set_cpu c Idle (irq_restore flags (cpu_eflags (cpus s c))) s)"

definition spin_step :: "locked \<Rightarrow> locked \<Rightarrow> bool" where
  "spin_step s s' \<longleftrightarrow> (\<exists>c. spin_lock_irqsave c s s' \<or> spin_unlock_irqrestore c s s')"

definition spin_start :: "locked \<Rightarrow> bool" where
  "spin_start s \<longleftrightarrow> lock_value (the_lock s) = 0 \<and> (\<forall>c. cpu_pc (cpus s c) = Idle)"

section \<open>The invariant\<close>

definition in_critical :: "locked \<Rightarrow> nat \<Rightarrow> bool" where
  "in_critical s c \<longleftrightarrow> (\<exists>flags. cpu_pc (cpus s c) = Critical flags)"

definition lock_inv :: "locked \<Rightarrow> bool" where
  "lock_inv s \<longleftrightarrow> lock_value (the_lock s) \<in> {0, 1} \<and>
     (lock_value (the_lock s) = 0 \<longleftrightarrow> (\<forall>c. \<not> in_critical s c)) \<and>
     (\<forall>c d. in_critical s c \<and> in_critical s d \<longrightarrow> c = d) \<and>
     (\<forall>c. cpu_pc (cpus s c) \<noteq> Idle \<longrightarrow> \<not> bit (cpu_eflags (cpus s c)) 9)"

lemma irq_disabled: "irq_save_disable e = (f, e') \<Longrightarrow> f = e \<and> \<not> bit e' 9"
proof -
  assume "irq_save_disable e = (f, e')"
  moreover have "bit (0x200 :: u32) 9" by simp
  ultimately show ?thesis by (auto simp: irq_save_disable_def bit_and_iff bit_not_iff simp del: bit_numeral_iff)
qed

lemma in_critical_set [simp]:
  "in_critical (set_cpu c k fl s) d \<longleftrightarrow> (if d = c then \<exists>flags. k = Critical flags else in_critical s d)"
  "in_critical (s\<lparr>the_lock := l\<rparr>) d = in_critical s d"
  "the_lock (set_cpu c k fl s) = the_lock s"
  "cpu_pc (cpus (set_cpu c k fl s) d) = (if d = c then k else cpu_pc (cpus s d))"
  "cpu_eflags (cpus (set_cpu c k fl s) d) = (if d = c then fl else cpu_eflags (cpus s d))"
  by (auto simp: in_critical_def set_cpu_def)

lemma spin_lock_inv:
  assumes "spin_lock_irqsave c s s'" "lock_inv s"
  shows "lock_inv s'"
  using assms(1)
proof cases
  case (save flags fl)
  then have "\<not> in_critical s c" by (simp add: in_critical_def)
  then have crit: "in_critical s' = in_critical s" by (auto simp: save(1) fun_eq_iff)
  show ?thesis using assms(2) irq_disabled [OF save(3)] unfolding lock_inv_def crit by (simp add: save(1)) blast
next
  case (exchange flags got l)
  have notc: "\<not> in_critical s c" using exchange(2) by (simp add: in_critical_def)
  have "got \<longleftrightarrow> (\<forall>d. \<not> in_critical s d)" "lock_value l = 1"
    using assms(2) exchange(3) by (auto simp: lock_inv_def spin_try_def)
  then show ?thesis using assms(2) exchange(1,2) notc by (auto simp: lock_inv_def)
qed

lemma spin_unlock_inv:
  assumes "spin_unlock_irqrestore c s s'" "lock_inv s"
  shows "lock_inv s'"
  using assms(1)
proof cases
  case (release flags)
  then have "in_critical s c" by (simp add: in_critical_def)
  then have "\<not> in_critical s d" if "d \<noteq> c" for d using assms(2) that by (auto simp: lock_inv_def)
  then show ?thesis using assms(2) release by (auto simp: lock_inv_def spin_release_def)
next
  case (restore flags)
  then have "\<not> in_critical s c" by (simp add: in_critical_def)
  then show ?thesis using assms(2) restore by (auto simp: lock_inv_def)
qed

lemma spin_step_inv: "spin_step s s' \<Longrightarrow> lock_inv s \<Longrightarrow> lock_inv s'"
  by (auto simp: spin_step_def intro: spin_lock_inv spin_unlock_inv)

lemma spin_start_inv: "spin_start s \<Longrightarrow> lock_inv s"
  by (simp add: spin_start_def lock_inv_def in_critical_def)

lemma spin_reachable_inv: "spin_start s0 \<Longrightarrow> spin_step\<^sup>*\<^sup>* s0 s \<Longrightarrow> lock_inv s"
  by (erule rtranclp_induct [of spin_step s0 s]) (auto intro: spin_start_inv spin_step_inv)

section \<open>Properties\<close>

text \<open>C15: At any time at most one processor is in the critical section, the lock word is nonzero
  exactly while one is, and a processor that waits for or holds the lock has interrupts off.\<close>

theorem spinlock_mutual_exclusion:
  assumes "spin_start s0" "spin_step\<^sup>*\<^sup>* s0 s"
  shows "(\<forall>c d. in_critical s c \<and> in_critical s d \<longrightarrow> c = d) \<and>
    (lock_value (the_lock s) \<noteq> 0 \<longleftrightarrow> (\<exists>c. in_critical s c)) \<and>
    (\<forall>c. cpu_pc (cpus s c) \<noteq> Idle \<longrightarrow> \<not> bit (cpu_eflags (cpus s c)) 9)"
  using spin_reachable_inv [OF assms] by (auto simp: lock_inv_def)

definition two_cpus :: locked where
  "two_cpus = \<lparr>the_lock = \<lparr>lock_value = 0\<rparr>, cpus = (\<lambda>_. \<lparr>cpu_pc = Idle, cpu_eflags = 0x202\<rparr>)\<rparr>"

lemma two_cpus_start: "spin_start two_cpus"
  by (simp add: spin_start_def two_cpus_def)

lemma two_cpus_waits: "\<exists>s. spin_step\<^sup>*\<^sup>* two_cpus s \<and> cpu_pc (cpus s 1) = Spinning 0x202"
proof -
  have "spin_lock_irqsave 1 two_cpus (set_cpu 1 (Spinning 0x202) (0x202 AND NOT 0x200) two_cpus)"
    by (rule save) (simp_all add: two_cpus_def irq_save_disable_def)
  then have "spin_step two_cpus (set_cpu 1 (Spinning 0x202) (0x202 AND NOT 0x200) two_cpus)"
    by (auto simp: spin_step_def)
  then show ?thesis by (intro exI conjI, rule r_into_rtranclp) simp_all
qed

theorem spinlock_mutual_exclusion_witness:
  "\<exists>s. spin_step\<^sup>*\<^sup>* two_cpus s \<and> cpu_pc (cpus s 1) = Spinning 0x202 \<and> \<not> bit (cpu_eflags (cpus s 1)) 9"
proof -
  obtain s where s: "spin_step\<^sup>*\<^sup>* two_cpus s" "cpu_pc (cpus s 1) = Spinning 0x202" using two_cpus_waits by blast
  then show ?thesis using spinlock_mutual_exclusion [OF two_cpus_start s(1)] by (intro exI [of _ s]) simp
qed

text \<open>No processor is locked out for good: from every reachable state in which a processor
  waits, some continuation lets it enter the critical section.\<close>

theorem spinlock_can_enter:
  assumes "spin_start s0" "spin_step\<^sup>*\<^sup>* s0 s" "cpu_pc (cpus s c) = Spinning flags"
  shows "\<exists>s'. spin_step\<^sup>*\<^sup>* s s' \<and> in_critical s' c"
proof -
  have enter: "\<exists>s'. spin_step t s' \<and> in_critical s' c"
    if t: "lock_value (the_lock t) = 0" "cpu_pc (cpus t c) = Spinning flags" for t
    using exchange [OF t(2), of True "(the_lock t)\<lparr>lock_value := 1\<rparr>"] t(1)
    by (auto simp: spin_step_def spin_try_def)
  show ?thesis
  proof (cases "lock_value (the_lock s) = 0")
    case True
    then show ?thesis using enter [OF True assms(3)] by blast
  next
    case False
    then obtain d fl where d: "cpu_pc (cpus s d) = Critical fl"
      using spin_reachable_inv [OF assms(1,2)] by (auto simp: lock_inv_def in_critical_def)
    define t where "t = set_cpu d (Released fl) (cpu_eflags (cpus s d)) (s\<lparr>the_lock := spin_release (the_lock s)\<rparr>)"
    have "spin_step s t" using release [OF d] by (auto simp: t_def spin_step_def)
    moreover have "lock_value (the_lock t) = 0" "cpu_pc (cpus t c) = Spinning flags"
      using assms(3) d by (auto simp: t_def spin_release_def)
    ultimately show ?thesis using enter by (meson converse_rtranclp_into_rtranclp r_into_rtranclp)
  qed
qed

theorem spinlock_can_enter_witness:
  "\<exists>s. spin_step\<^sup>*\<^sup>* two_cpus s \<and> in_critical s 1"
proof -
  obtain s where s: "spin_step\<^sup>*\<^sup>* two_cpus s" "cpu_pc (cpus s 1) = Spinning 0x202" using two_cpus_waits by blast
  then obtain s' where "spin_step\<^sup>*\<^sup>* s s'" "in_critical s' 1"
    using spinlock_can_enter [OF two_cpus_start s] by blast
  with s(1) show ?thesis by (meson rtranclp_trans)
qed

end
