(* ===== verification/Bounded_Fifo.thy ===== *)
theory Bounded_Fifo
  imports Ceblar_Prelude
begin

text \<open>
  The contract of a bounded first-in first-out queue, which the loopback packet queue of
  \<open>net/net.c\<close> and the key buffer of \<open>drivers/keyboard/keyboard.c\<close> implement with a ring, and the
  ring lemmas the two implementations share.
\<close>

section \<open>Rings\<close>

definition ring_list :: "(nat \<Rightarrow> 'a) \<Rightarrow> nat \<Rightarrow> nat \<Rightarrow> nat \<Rightarrow> 'a list" where
  "ring_list buf N h n = map (\<lambda>i. buf ((h + i) mod N)) [0..<n]"

lemma length_ring_list [simp]: "length (ring_list buf N h n) = n"
  by (simp add: ring_list_def)

lemma ring_slots_differ:
  fixes i j N :: nat
  assumes "i < j" "j < N"
  shows "(h + i) mod N \<noteq> (h + j) mod N"
proof
  assume "(h + i) mod N = (h + j) mod N"
  then have "N dvd (h + j) - (h + i)" using assms mod_eq_dvd_iff_nat [of "h + i" "h + j" N] by simp
  then show False using assms by (simp add: nat_dvd_not_less)
qed

lemma ring_push:
  assumes "n < N"
  shows "ring_list (buf((h + n) mod N := x)) N h (Suc n) = ring_list buf N h n @ [x]"
  using ring_slots_differ [OF _ assms, of _ h] by (simp add: ring_list_def)

lemma ring_pop: "ring_list buf N h (Suc n) = buf (h mod N) # ring_list buf N (Suc h mod N) n"
proof -
  have "[0..<Suc n] = 0 # map Suc [0..<n]" by (simp add: map_Suc_upt upt_conv_Cons del: upt_Suc)
  moreover have "(h + Suc i) mod N = (Suc h mod N + i) mod N" for i by (simp add: mod_add_left_eq)
  ultimately show ?thesis by (simp add: ring_list_def o_def del: upt_Suc add_Suc_right)
qed

section \<open>The interface\<close>

primrec push_all :: "('a \<Rightarrow> 's \<Rightarrow> 's option) \<Rightarrow> 'a list \<Rightarrow> 's \<Rightarrow> 's option" where
  "push_all push [] s = Some s"
| "push_all push (x # xs) s = Option.bind (push x s) (push_all push xs)"

primrec pop_all :: "('s \<Rightarrow> ('a \<times> 's) option) \<Rightarrow> nat \<Rightarrow> 's \<Rightarrow> ('a list \<times> 's) option" where
  "pop_all pop 0 s = Some ([], s)"
| "pop_all pop (Suc n) s = Option.bind (pop s) (\<lambda>(x, s1). map_option (\<lambda>(xs, s2). (x # xs, s2)) (pop_all pop n s1))"

locale bounded_fifo =
  fixes push :: "'a \<Rightarrow> 's \<Rightarrow> 's option"
    and pop :: "'s \<Rightarrow> ('a \<times> 's) option"
    and contents :: "'s \<Rightarrow> 'a list"
    and inv :: "'s \<Rightarrow> bool"
    and ok :: "'a \<Rightarrow> bool"
    and cap :: nat
  assumes push_full: "inv s \<Longrightarrow> ok x \<Longrightarrow> push x s = None \<longleftrightarrow> cap \<le> length (contents s)"
    and push_some: "inv s \<Longrightarrow> ok x \<Longrightarrow> push x s = Some s' \<Longrightarrow> inv s' \<and> contents s' = contents s @ [x]"
    and pop_none: "inv s \<Longrightarrow> pop s = None \<longleftrightarrow> contents s = []"
    and pop_some: "inv s \<Longrightarrow> pop s = Some (x, s') \<Longrightarrow> inv s' \<and> contents s = x # contents s'"
begin

lemma push_all_contents:
  assumes "inv s" "list_all ok xs" "length (contents s) + length xs \<le> cap"
  shows "\<exists>s'. push_all push xs s = Some s' \<and> inv s' \<and> contents s' = contents s @ xs"
  using assms
proof (induction xs arbitrary: s)
  case Nil
  then show ?case by simp
next
  case (Cons x xs)
  obtain s1 where s1: "push x s = Some s1" using push_full [of s x] Cons.prems by fastforce
  then have "inv s1" "contents s1 = contents s @ [x]" using push_some [of s x s1] Cons.prems by auto
  with Cons.IH [of s1] Cons.prems s1 show ?case by simp
qed

lemma pop_all_contents:
  assumes "inv s" "n \<le> length (contents s)"
  shows "\<exists>s'. pop_all pop n s = Some (take n (contents s), s') \<and> inv s' \<and> contents s' = drop n (contents s)"
  using assms
proof (induction n arbitrary: s)
  case 0
  then show ?case by simp
next
  case (Suc n)
  obtain x s1 where s1: "pop s = Some (x, s1)" using pop_none [of s] Suc.prems by fastforce
  then have "inv s1" "contents s = x # contents s1" using pop_some [of s x s1] Suc.prems by auto
  with Suc.IH [of s1] Suc.prems s1 show ?case by auto
qed

text \<open>What goes in comes out, in order and once.\<close>

lemma fifo_order:
  assumes "inv s" "contents s = []" "list_all ok xs" "length xs \<le> cap"
  shows "\<exists>s1 s2. push_all push xs s = Some s1 \<and> pop_all pop (length xs) s1 = Some (xs, s2) \<and>
    inv s2 \<and> pop s2 = None"
proof -
  obtain s1 where s1: "push_all push xs s = Some s1" "inv s1" "contents s1 = xs"
    using push_all_contents [of s xs] assms by auto
  obtain s2 where "pop_all pop (length xs) s1 = Some (xs, s2)" "inv s2" "contents s2 = []"
    using pop_all_contents [of s1 "length xs"] s1 by auto
  with s1 pop_none [of s2] show ?thesis by auto
qed

end

end
