(* ===== verification/Keyboard.thy ===== *)
theory Keyboard
  imports Bounded_Fifo
begin

text \<open>
  The keyboard driver \<open>drivers/keyboard/keyboard.c\<close>: the scan-code table and the ring of 64 slots
  between the interrupt handler and \<open>keyboard_getc\<close>. The byte that the handler reads from port
  \<open>0x60\<close> is an argument.
\<close>

section \<open>The driver\<close>

definition KEY_BUF_SIZE :: nat where "KEY_BUF_SIZE = 64"

record keyboard =
  key_buf :: "nat \<Rightarrow> u8"
  key_head :: u8
  key_tail :: u8

definition codes :: "string \<Rightarrow> u8 list" where
  "codes s = List.map of_char s"

text \<open>The table \<open>map\<close>; the entries that its initialiser leaves out are 0.\<close>

definition key_map :: "u8 list" where
  "key_map = [0, 27] @ codes ''1234567890-='' @ [8, 9] @ codes ''qwertyuiop[]'' @ [10, 0] @
     codes ''asdfghjkl;'' @ [39, 96, 0, 92] @ codes ''zxcvbnm,./'' @ [0] @ codes ''*'' @ [0] @ codes '' _''"

definition key_of :: "u8 \<Rightarrow> u8" where
  "key_of sc = (if unat sc < length key_map then key_map ! unat sc else 0)"

definition keyboard_init :: "u8 \<Rightarrow> keyboard \<Rightarrow> keyboard" where
  "keyboard_init port k = k"

definition keyboard_irq :: "u8 \<Rightarrow> keyboard \<Rightarrow> keyboard" where
  "keyboard_irq sc k =
     (if sc AND 0x80 \<noteq> 0 then k
      else if sc < 128 \<and> key_of sc \<noteq> 0
      then let n = of_nat ((unat (key_tail k) + 1) mod KEY_BUF_SIZE) in
           if n \<noteq> key_head k
           then k\<lparr>key_buf := (key_buf k)(unat (key_tail k) := key_of sc), key_tail := n\<rparr>
           else k
      else k)"

definition keyboard_getc :: "keyboard \<Rightarrow> u8 \<times> keyboard" where
  "keyboard_getc k =
     (if key_head k = key_tail k then (0, k)
      else (key_buf k (unat (key_head k)),
            k\<lparr>key_head := of_nat ((unat (key_head k) + 1) mod KEY_BUF_SIZE)\<rparr>))"

section \<open>The ring as a queue of characters\<close>

definition key_inv :: "keyboard \<Rightarrow> bool" where
  "key_inv k \<longleftrightarrow> unat (key_head k) < KEY_BUF_SIZE \<and> unat (key_tail k) < KEY_BUF_SIZE"

definition key_count :: "keyboard \<Rightarrow> nat" where
  "key_count k = (unat (key_tail k) + KEY_BUF_SIZE - unat (key_head k)) mod KEY_BUF_SIZE"

definition keys :: "keyboard \<Rightarrow> u8 list" where
  "keys k = ring_list (key_buf k) KEY_BUF_SIZE (unat (key_head k)) (key_count k)"

text \<open>The part of the handler that stores a character, and the reader, as queue operations.\<close>

definition key_push :: "u8 \<Rightarrow> keyboard \<Rightarrow> keyboard option" where
  "key_push c k =
     (let n = of_nat ((unat (key_tail k) + 1) mod KEY_BUF_SIZE) in
      if n = key_head k then None
      else Some (k\<lparr>key_buf := (key_buf k)(unat (key_tail k) := c), key_tail := n\<rparr>))"

definition key_pop :: "keyboard \<Rightarrow> (u8 \<times> keyboard) option" where
  "key_pop k = (if key_head k = key_tail k then None else Some (keyboard_getc k))"

lemma unat_slot: "unat (of_nat (n mod KEY_BUF_SIZE) :: u8) = n mod KEY_BUF_SIZE"
proof -
  have "n mod KEY_BUF_SIZE < 256" by (simp add: KEY_BUF_SIZE_def less_trans [OF mod_less_divisor])
  then show ?thesis by (simp add: unat_of_nat take_bit_eq_mod)
qed

lemma slot_less: "unat (of_nat (n mod KEY_BUF_SIZE) :: u8) < KEY_BUF_SIZE"
  unfolding unat_slot by (simp add: KEY_BUF_SIZE_def)

lemma count_push:
  fixes h t :: nat
  assumes "h < 64" "t < 64" "(t + 64 - h) mod 64 \<noteq> 63"
  shows "((t + 1) mod 64 + 64 - h) mod 64 = Suc ((t + 64 - h) mod 64)"
  using assms by (cases "h \<le> t"; cases "t = 63") (auto simp: mod_if split: if_splits)

lemma count_pop:
  fixes h t :: nat
  assumes "h < 64" "t < 64" "(t + 64 - h) mod 64 \<noteq> 0"
  shows "(t + 64 - h) mod 64 = Suc ((t + 64 - (h + 1) mod 64) mod 64)"
  using assms by (cases "h \<le> t"; cases "h = 63") (auto simp: mod_if split: if_splits)

lemma key_count_tail: "key_inv k \<Longrightarrow> (unat (key_head k) + key_count k) mod KEY_BUF_SIZE = unat (key_tail k)"
  by (auto simp: key_inv_def key_count_def KEY_BUF_SIZE_def mod_if split: if_splits)

lemma key_full:
  assumes "key_inv k"
  shows "of_nat ((unat (key_tail k) + 1) mod KEY_BUF_SIZE) = key_head k \<longleftrightarrow> key_count k = 63"
proof -
  have "of_nat ((unat (key_tail k) + 1) mod KEY_BUF_SIZE) = key_head k \<longleftrightarrow>
      (unat (key_tail k) + 1) mod KEY_BUF_SIZE = unat (key_head k)"
    by (simp add: word_unat_eq_iff unat_slot)
  then show ?thesis using assms by (auto simp: key_inv_def key_count_def KEY_BUF_SIZE_def mod_if split: if_splits)
qed

lemma key_count_less: "key_count k < KEY_BUF_SIZE"
  by (simp add: key_count_def KEY_BUF_SIZE_def)

lemma key_empty: "key_inv k \<Longrightarrow> key_head k = key_tail k \<longleftrightarrow> key_count k = 0"
  by (auto simp: word_unat_eq_iff key_inv_def key_count_def KEY_BUF_SIZE_def mod_if split: if_splits)

lemma key_push_some:
  assumes inv: "key_inv k" and p: "key_push c k = Some k'"
  shows "key_inv k' \<and> keys k' = keys k @ [c]"
proof -
  let ?t = "(unat (key_tail k) + 1) mod KEY_BUF_SIZE"
  have k': "k' = k\<lparr>key_buf := (key_buf k)(unat (key_tail k) := c), key_tail := of_nat ?t\<rparr>"
    and room: "key_count k \<noteq> 63"
    using p key_full [OF inv] by (auto simp: key_push_def Let_def split: if_splits)
  have "key_inv k'" using inv slot_less by (simp add: key_inv_def k')
  moreover have "key_count k' = Suc (key_count k)"
  proof -
    have "unat (key_tail k') = ?t" "key_head k' = key_head k" by (simp_all add: k' unat_slot)
    then show ?thesis
      using count_push [of "unat (key_head k)" "unat (key_tail k)"] inv room by (simp only: key_count_def key_inv_def KEY_BUF_SIZE_def simp_thms)
  qed
  moreover have "key_count k < KEY_BUF_SIZE" by (rule key_count_less)
  ultimately show ?thesis
    using ring_push [of "key_count k" KEY_BUF_SIZE "key_buf k" "unat (key_head k)" c] key_count_tail [OF inv]
    by (simp add: keys_def k')
qed

lemma key_pop_some:
  assumes inv: "key_inv k" and p: "key_pop k = Some (c, k')"
  shows "key_inv k' \<and> keys k = c # keys k'"
proof -
  have ne: "key_head k \<noteq> key_tail k" and c: "c = key_buf k (unat (key_head k))"
    and k': "k' = k\<lparr>key_head := of_nat ((unat (key_head k) + 1) mod KEY_BUF_SIZE)\<rparr>"
    using p by (auto simp: key_pop_def keyboard_getc_def split: if_splits)
  have "key_inv k'" using inv slot_less by (simp add: key_inv_def k')
  moreover have "key_count k \<noteq> 0" using key_empty [OF inv] ne by simp
  moreover have "key_count k = Suc (key_count k')"
  proof -
    have "unat (key_head k') = (unat (key_head k) + 1) mod KEY_BUF_SIZE" "key_tail k' = key_tail k"
      by (simp_all add: k' unat_slot)
    then show ?thesis
      using count_pop [of "unat (key_head k)" "unat (key_tail k)"] inv \<open>key_count k \<noteq> 0\<close>
      by (simp only: key_count_def key_inv_def KEY_BUF_SIZE_def simp_thms)
  qed
  moreover have "unat (key_head k') = Suc (unat (key_head k)) mod KEY_BUF_SIZE" "key_buf k' = key_buf k"
    by (simp_all add: k' unat_slot)
  ultimately show ?thesis
    using ring_pop [of "key_buf k" KEY_BUF_SIZE "unat (key_head k)" "key_count k'"] inv
    by (simp only: keys_def c key_inv_def mod_less)
qed

interpretation kq: bounded_fifo key_push key_pop keys key_inv "\<lambda>_. True" 63
proof (unfold_locales, goal_cases)
  case (1 k c)
  then show ?case using key_full [of k] key_count_less [of k] by (auto simp: key_push_def keys_def KEY_BUF_SIZE_def Let_def)
next
  case (2 k c k')
  then show ?case by (intro key_push_some)
next
  case (3 k)
  then show ?case using key_empty [of k] by (auto simp: key_pop_def keys_def ring_list_def)
next
  case (4 k c k')
  then show ?case by (intro key_pop_some)
qed

section \<open>Properties\<close>

lemma high_bit: "sc AND 0x80 = 0 \<longleftrightarrow> sc < (128 :: u8)"
proof -
  have "sc AND 0x80 = 0 \<longleftrightarrow> \<not> bit sc 7" using and_exp_eq_0_iff_not_bit [of sc 7] by simp
  also have "bit sc 7 \<longleftrightarrow> odd (unat sc div 128)"
    using bit_unsigned_iff [of sc 7, where 'a = nat] by (simp add: bit_iff_odd)
  also have "\<not> odd (unat sc div 128) \<longleftrightarrow> unat sc < 128"
    using unsigned_less [of sc, where 'a = nat] by (cases "unat sc < 128") (simp_all add: le_div_geq)
  finally show ?thesis by (simp add: word_less_nat_alt)
qed

lemma keyboard_irq_push:
  "keyboard_irq sc k = (if sc < 128 \<and> key_of sc \<noteq> 0 then (case key_push (key_of sc) k of None \<Rightarrow> k | Some k' \<Rightarrow> k') else k)"
  by (auto simp: keyboard_irq_def key_push_def high_bit Let_def)

text \<open>C16: The interrupt handler and \<open>keyboard_getc\<close> implement a queue of at most 63 characters: a
  key press with a character is appended when there is room and dropped otherwise, releases and
  keys without a character change nothing, and the reader takes the oldest character or gets 0
  when there is none.\<close>

theorem keyboard_refines_queue:
  assumes "key_inv k"
  shows "key_inv (keyboard_irq sc k) \<and>
    keys (keyboard_irq sc k) = (if sc < 128 \<and> key_of sc \<noteq> 0 \<and> length (keys k) < 63 then keys k @ [key_of sc] else keys k) \<and>
    key_inv (snd (keyboard_getc k)) \<and>
    (if keys k = [] then keyboard_getc k = (0, k) else keys k = fst (keyboard_getc k) # keys (snd (keyboard_getc k)))"
proof -
  have irq: "key_inv (keyboard_irq sc k) \<and>
      keys (keyboard_irq sc k) = (if sc < 128 \<and> key_of sc \<noteq> 0 \<and> length (keys k) < 63 then keys k @ [key_of sc] else keys k)"
  proof (cases "key_push (key_of sc) k")
    case None
    then show ?thesis using kq.push_full [OF assms, of "key_of sc"] assms by (auto simp: keyboard_irq_push)
  next
    case (Some k')
    then show ?thesis
      using kq.push_full [OF assms, of "key_of sc"] kq.push_some [OF assms _ Some] assms by (auto simp: keyboard_irq_push)
  qed
  show ?thesis
  proof (cases "key_pop k")
    case None
    then have "keyboard_getc k = (0, k)" by (auto simp: key_pop_def keyboard_getc_def split: if_splits)
    with irq None kq.pop_none [OF assms] assms show ?thesis by simp
  next
    case (Some ck)
    then have "key_pop k = Some (fst (keyboard_getc k), snd (keyboard_getc k))" by (auto simp: key_pop_def split: if_splits)
    with irq kq.pop_some [OF assms this] show ?thesis by auto
  qed
qed

definition kbd0 :: keyboard where
  "kbd0 = \<lparr>key_buf = (\<lambda>_. 0), key_head = 0, key_tail = 0\<rparr>"

lemma kbd0_inv: "key_inv kbd0" "keys kbd0 = []"
  by (simp_all add: kbd0_def key_inv_def keys_def key_count_def ring_list_def KEY_BUF_SIZE_def)

theorem keyboard_refines_queue_witness: "keys (keyboard_irq 0x1e kbd0) = [97]"
proof -
  have "key_of 0x1e = 97" by (simp add: key_of_def key_map_def codes_def)
  then show ?thesis using keyboard_refines_queue [OF kbd0_inv(1), of "0x1e"] kbd0_inv(2) by simp
qed

end
