(* ===== verification/Net.thy ===== *)
theory Net
  imports Bounded_Fifo
begin

text \<open>
  The network foundation \<open>net/net.c\<close>: the loopback packet queue, the Internet checksum and its
  IPv6 pseudo headers, the header validators and the sockets over the loopback queue. A pointer
  to packet memory is \<open>None\<close> (null) or the bytes it points to; header fields are loads from these
  bytes at the offsets of the packed structures of \<open>include/net.h\<close>.
\<close>

section \<open>State\<close>

definition NET_QUEUE_SIZE :: u32 where "NET_QUEUE_SIZE = 4"
definition NET_PACKET_SIZE :: u32 where "NET_PACKET_SIZE = 1536"
definition NET_IPV6_HEADER_SIZE :: u32 where "NET_IPV6_HEADER_SIZE = 40"

record arp_entry =
  arp_address :: u32
  arp_mac :: bytes
  arp_valid :: bool

record net =
  queue :: "nat \<Rightarrow> bytes"
  queue_len :: "nat \<Rightarrow> u32"
  queue_head :: u32
  queue_tail :: u32
  queue_count :: u32
  arp :: "nat \<Rightarrow> arp_entry"
  net_ready :: bool

section \<open>Checksums\<close>

definition swap16 :: "u16 \<Rightarrow> u16" where
  "swap16 x = push_bit 8 x OR drop_bit 8 x"

definition net_htons :: "u16 \<Rightarrow> u16" where
  "net_htons value = swap16 value"

definition be16 :: "u8 \<Rightarrow> u8 \<Rightarrow> u32" where
  "be16 a b = push_bit 8 (ucast a) OR ucast b"

fun add_words :: "u32 \<Rightarrow> u8 list \<Rightarrow> u32" where
  "add_words acc (a # b # p) =
     (let s = acc + be16 a b
      in add_words (if s > 0xffff then (s AND 0xffff) + drop_bit 16 s else s) p)"
| "add_words acc [a] = acc + push_bit 8 (ucast a)"
| "add_words acc [] = acc"

lemma unat_fold_step: "unat ((s AND 0xffff) + drop_bit 16 s :: u32) = unat s mod 65536 + unat s div 65536"
proof -
  have "(0xffff :: u32) = mask 16" by (simp add: mask_eq_exp_minus_1)
  then have "s AND 0xffff = take_bit 16 s" by (simp only: take_bit_eq_mask)
  then have l: "unat (s AND 0xffff) = unat s mod 65536" by (simp add: take_bit_eq_mod unat_mod_distrib)
  have h: "unat (drop_bit 16 s) = unat s div 65536" by (simp add: drop_bit_eq_div unat_div_distrib)
  have "unat s div 65536 < 65536" using unsigned_less [of s, where 'a = nat] by (simp add: less_mult_imp_div_less)
  moreover have "unat s mod 65536 < 65536" by simp
  ultimately have "unat s mod 65536 + unat s div 65536 < 4294967296" by linarith
  then show ?thesis by (simp add: unat_word_ariths l h)
qed

function fold_sum :: "u32 \<Rightarrow> u32" where
  "fold_sum acc = (if drop_bit 16 acc \<noteq> 0 then fold_sum ((acc AND 0xffff) + drop_bit 16 acc) else acc)"
  by pat_completeness auto
termination
proof (relation "measure unat", goal_cases)
  case (2 s)
  then have "unat s div 65536 \<noteq> 0" by (simp add: drop_bit_eq_div word_unat_eq_iff unat_div_distrib)
  then have "unat s mod 65536 + unat s div 65536 < unat s mod 65536 + unat s div 65536 * 65536"
    by (intro add_strict_left_mono) simp
  also have "\<dots> = unat s" by (rule mod_div_mult_eq)
  finally show ?case by (simp add: unat_fold_step)
qed simp

declare fold_sum.simps [simp del]

definition fold_checksum :: "u32 \<Rightarrow> u16" where
  "fold_checksum acc = ucast (NOT (fold_sum acc))"

definition net_checksum :: "u8 list \<Rightarrow> u16" where
  "net_checksum data = fold_checksum (add_words 0 data)"

section \<open>Headers\<close>

definition load16 :: "bytes \<Rightarrow> nat \<Rightarrow> u16" where
  "load16 p i = push_bit 8 (ucast (p (i + 1))) OR ucast (p i)"

definition ipv6_payload_length :: "bytes \<Rightarrow> u16" where
  "ipv6_payload_length h = load16 h 4"

definition ipv6_source :: "bytes \<Rightarrow> nat \<Rightarrow> u8" where
  "ipv6_source h i = h (8 + i)"

definition ipv6_destination :: "bytes \<Rightarrow> nat \<Rightarrow> u8" where
  "ipv6_destination h i = h (24 + i)"

definition pseudo_header :: "bytes \<Rightarrow> u32 \<Rightarrow> u8 \<Rightarrow> u8 list" where
  "pseudo_header h len proto = List.map (ipv6_source h) [0..<16] @ List.map (ipv6_destination h) [0..<16] @
     [ucast (drop_bit 24 len), ucast (drop_bit 16 len), ucast (drop_bit 8 len), ucast len, 0, 0, 0, proto]"

definition net_ipv6_validate :: "bytes option \<Rightarrow> u32 \<Rightarrow> int" where
  "net_ipv6_validate packet len =
     (case packet of None \<Rightarrow> -1
      | Some h \<Rightarrow>
        if len < NET_IPV6_HEADER_SIZE then -1
        else if drop_bit 4 (h 0) \<noteq> 6 then -1
        else let payload = ucast (swap16 (ipv6_payload_length h)) :: u32
        in if payload > len - NET_IPV6_HEADER_SIZE then -1 else 0)"

definition net_icmpv6_checksum :: "bytes option \<Rightarrow> bytes option \<Rightarrow> u32 \<Rightarrow> u16" where
  "net_icmpv6_checksum h payload len =
     (case h of None \<Rightarrow> 0
      | Some ip \<Rightarrow>
        case payload of
          None \<Rightarrow> if len \<noteq> 0 then 0 else fold_checksum (add_words 0 (pseudo_header ip len 58))
        | Some p \<Rightarrow> fold_checksum (add_words (add_words 0 (pseudo_header ip len 58)) (List.map p [0..<unat len])))"

definition net_tcp_validate :: "bytes option \<Rightarrow> u32 \<Rightarrow> int" where
  "net_tcp_validate h len =
     (case h of None \<Rightarrow> -1
      | Some t \<Rightarrow>
        if len < 20 then -1
        else let offset = ucast (drop_bit 4 (t 12)) * 4 :: u32 in
        if offset < 20 \<or> offset > len then -1
        else if load16 t 0 = 0 \<or> load16 t 2 = 0 then -1
        else 0)"

definition net_tcp_checksum :: "bytes option \<Rightarrow> bytes option \<Rightarrow> u32 \<Rightarrow> u16" where
  "net_tcp_checksum h t len =
     (case (h, t) of
        (Some ip, Some p) \<Rightarrow>
          if len > 0xffff then 0
          else fold_checksum (add_words (add_words 0 (pseudo_header ip len 6)) (List.map p [0..<unat len]))
      | _ \<Rightarrow> 0)"

definition net_ipv6_selftest :: int where
  "net_ipv6_selftest =
     (let packet = (\<lambda>_. 0)(0 := 0x60) in
      if net_ipv6_validate (Some packet) 40 = 0 \<and> net_icmpv6_checksum (Some packet) None 0 \<noteq> 0 then 0 else -1)"

section \<open>The loopback queue\<close>

definition net_init :: "net \<Rightarrow> net" where
  "net_init n = n\<lparr>queue_head := 0, queue_tail := 0, queue_count := 0, net_ready := True,
     arp := (\<lambda>i. if i < 4 then (arp n i)\<lparr>arp_valid := False\<rparr> else arp n i)\<rparr>"

definition net_loopback_send :: "bytes option \<Rightarrow> u32 \<Rightarrow> net \<Rightarrow> int \<times> net" where
  "net_loopback_send packet len n =
     (case packet of None \<Rightarrow> (-1, n)
      | Some p \<Rightarrow>
        if \<not> net_ready n \<or> len = 0 \<or> len > NET_PACKET_SIZE \<or> queue_count n \<ge> NET_QUEUE_SIZE then (-1, n)
        else let t = unat (queue_tail n) in
          (0, n\<lparr>queue := (queue n)(t := (\<lambda>i. if i < unat len then p i else queue n t i)),
                queue_len := (queue_len n)(t := len),
                queue_tail := (queue_tail n + 1) mod NET_QUEUE_SIZE,
                queue_count := queue_count n + 1\<rparr>))"

definition net_loopback_received :: "net \<Rightarrow> u32 \<times> net" where
  "net_loopback_received n =
     (if queue_count n = 0 then (0, n)
      else (queue_len n (unat (queue_head n)),
            n\<lparr>queue_head := (queue_head n + 1) mod NET_QUEUE_SIZE, queue_count := queue_count n - 1\<rparr>))"

section \<open>Sockets\<close>

definition NET_SOCKET_CLOSED :: u8 where "NET_SOCKET_CLOSED = 0"
definition NET_SOCKET_SYN_SENT :: u8 where "NET_SOCKET_SYN_SENT = 1"
definition NET_SOCKET_ESTABLISHED :: u8 where "NET_SOCKET_ESTABLISHED = 2"

record net_socket =
  local_port :: u16
  remote_port :: u16
  sequence :: u32
  acknowledgement :: u32
  sock_state :: u8
  sock_used :: bool

definition net_socket_open :: "net_socket \<Rightarrow> u16 \<Rightarrow> net \<Rightarrow> int \<times> net_socket" where
  "net_socket_open s port n =
     (if \<not> net_ready n \<or> port = 0 then (-1, s)
      else (0, s\<lparr>local_port := port, remote_port := 0, sequence := 1, acknowledgement := 0,
                 sock_state := NET_SOCKET_CLOSED, sock_used := True\<rparr>))"

definition net_socket_connect :: "net_socket \<Rightarrow> u16 \<Rightarrow> int \<times> net_socket" where
  "net_socket_connect s port =
     (if \<not> sock_used s \<or> port = 0 \<or> sock_state s \<noteq> NET_SOCKET_CLOSED then (-1, s)
      else let s1 = s\<lparr>remote_port := port, sock_state := NET_SOCKET_SYN_SENT\<rparr>
           in (0, s1\<lparr>acknowledgement := 1, sock_state := NET_SOCKET_ESTABLISHED\<rparr>))"

definition net_socket_send :: "net_socket \<Rightarrow> bytes option \<Rightarrow> u32 \<Rightarrow> net \<Rightarrow> int \<times> net_socket \<times> net" where
  "net_socket_send s data len n =
     (if \<not> sock_used s \<or> sock_state s \<noteq> NET_SOCKET_ESTABLISHED \<or> data = None \<or> len = 0 then (-1, s, n)
      else case net_loopback_send data len n of (r, n1) \<Rightarrow>
        if r \<noteq> 0 then (-1, s, n1)
        else (sint len, s\<lparr>sequence := sequence s + len\<rparr>, n1))"

definition net_socket_close :: "net_socket \<Rightarrow> int \<times> net_socket" where
  "net_socket_close s =
     (if \<not> sock_used s then (-1, s)
      else (0, s\<lparr>sock_state := NET_SOCKET_CLOSED, sock_used := False\<rparr>))"

section \<open>The queue of packet lengths\<close>

definition net_inv :: "net \<Rightarrow> bool" where
  "net_inv n \<longleftrightarrow> unat (queue_head n) < 4 \<and> unat (queue_count n) \<le> 4 \<and>
     unat (queue_tail n) = (unat (queue_head n) + unat (queue_count n)) mod 4"

definition lengths :: "net \<Rightarrow> u32 list" where
  "lengths n = ring_list (queue_len n) 4 (unat (queue_head n)) (unat (queue_count n))"

definition net_push :: "u32 \<Rightarrow> net \<Rightarrow> net option" where
  "net_push len n = (case net_loopback_send (Some (\<lambda>_. 0)) len n of (r, n1) \<Rightarrow> if r = 0 then Some n1 else None)"

definition net_pop :: "net \<Rightarrow> (u32 \<times> net) option" where
  "net_pop n = (if queue_count n = 0 then None else Some (net_loopback_received n))"

lemma unat_next_slot: "unat t < 4 \<Longrightarrow> unat ((t + 1 :: u32) mod NET_QUEUE_SIZE) = Suc (unat t) mod 4"
  by (simp add: NET_QUEUE_SIZE_def unat_mod_distrib unat_inc)

lemma net_send_some:
  assumes inv: "net_inv n" and r: "net_loopback_send (Some p) len n = (0, n')"
  shows "net_inv n' \<and> lengths n' = lengths n @ [len] \<and> queue_count n' = queue_count n + 1"
proof -
  let ?t = "unat (queue_tail n)"
  have room: "unat (queue_count n) < 4" and n': "n' = n\<lparr>queue := (queue n)(?t := (\<lambda>i. if i < unat len then p i else queue n ?t i)),
      queue_len := (queue_len n)(?t := len), queue_tail := (queue_tail n + 1) mod NET_QUEUE_SIZE, queue_count := queue_count n + 1\<rparr>"
    using r by (auto simp: net_loopback_send_def Let_def NET_QUEUE_SIZE_def word_le_nat_alt split: if_splits)
  have t: "?t = (unat (queue_head n) + unat (queue_count n)) mod 4" "?t < 4" using inv by (simp_all add: net_inv_def)
  have c: "unat (queue_count n + 1) = Suc (unat (queue_count n))" by (rule unat_inc [OF room]) simp
  have "net_inv n'"
    using inv room t by (simp add: net_inv_def n' c unat_next_slot mod_Suc_eq)
  moreover have "lengths n' = lengths n @ [len]"
    using ring_push [OF room, of "queue_len n" "unat (queue_head n)" len] t by (simp add: lengths_def n' c)
  ultimately show ?thesis by (simp add: n')
qed

lemma net_pop_some:
  assumes inv: "net_inv n" and r: "net_pop n = Some (len, n')"
  shows "net_inv n' \<and> lengths n = len # lengths n'"
proof -
  have ne: "queue_count n \<noteq> 0" and len: "len = queue_len n (unat (queue_head n))"
    and n': "n' = n\<lparr>queue_head := (queue_head n + 1) mod NET_QUEUE_SIZE, queue_count := queue_count n - 1\<rparr>"
    using r by (auto simp: net_pop_def net_loopback_received_def split: if_splits)
  obtain c where c: "unat (queue_count n) = Suc c" using ne by (cases "unat (queue_count n)") (auto simp: unat_eq_0)
  then have c': "unat (queue_count n - 1) = c" using unat_minus_one [OF ne] by simp
  have h: "unat (queue_head n) < 4" using inv by (simp add: net_inv_def)
  have "net_inv n'"
    using inv c by (simp add: net_inv_def n' c' unat_next_slot mod_add_left_eq)
  moreover have "lengths n = len # lengths n'"
    using ring_pop [of "queue_len n" 4 "unat (queue_head n)" c] h by (simp add: lengths_def n' c c' len unat_next_slot)
  ultimately show ?thesis by simp
qed

definition sendable :: "u32 \<Rightarrow> bool" where
  "sendable len \<longleftrightarrow> len \<noteq> 0 \<and> len \<le> NET_PACKET_SIZE"

definition net_up :: "net \<Rightarrow> bool" where
  "net_up n \<longleftrightarrow> net_ready n \<and> net_inv n"

interpretation nq: bounded_fifo net_push net_pop lengths net_up sendable 4
proof (unfold_locales, goal_cases)
  case (1 n len)
  then show ?case
    by (auto simp: net_push_def net_loopback_send_def Let_def net_up_def sendable_def lengths_def NET_QUEUE_SIZE_def word_le_nat_alt word_less_nat_alt)
next
  case (2 n len n')
  then have "net_loopback_send (Some (\<lambda>_. 0)) len n = (0, n')"
    by (auto simp: net_push_def split: prod.splits if_splits)
  moreover from this have "net_ready n' = net_ready n"
    by (auto simp: net_loopback_send_def Let_def split: if_splits)
  ultimately show ?case using 2 net_send_some by (auto simp: net_up_def)
next
  case (3 n)
  then show ?case by (auto simp: net_pop_def lengths_def ring_list_def unat_eq_0)
next
  case (4 n len n')
  then have "net_ready n' = net_ready n" by (auto simp: net_pop_def net_loopback_received_def split: if_splits)
  with 4 net_pop_some show ?case by (auto simp: net_up_def)
qed

section \<open>Checksum arithmetic\<close>

fun be_sum :: "u8 list \<Rightarrow> nat" where
  "be_sum (a # b # p) = unat a * 256 + unat b + be_sum p"
| "be_sum [a] = unat a * 256"
| "be_sum [] = 0"

lemma unat_be16: "unat (be16 a b) = unat a * 256 + unat b"
proof -
  have "push_bit 8 (ucast a :: u32) OR ucast b = push_bit 8 (ucast a) + ucast b"
    by (rule disjunctive_add [symmetric]) (auto simp: bit_simps dest: bit_imp_le_length)
  moreover have "unat a < 256" "unat b < 256"
    using unsigned_less [of a, where 'a = nat] unsigned_less [of b, where 'a = nat] by simp_all
  ultimately show ?thesis
    by (simp add: be16_def push_bit_eq_mult unat_word_ariths unsigned_ucast_eq take_bit_eq_mod)
qed

lemma unat_high_byte: "unat (push_bit 8 (ucast (a :: u8)) :: u32) = unat a * 256"
  using unat_be16 [of a 0] by (simp add: be16_def)

definition wrap_sum :: "u32 \<Rightarrow> u32" where
  "wrap_sum s = (if s > 0xffff then (s AND 0xffff) + drop_bit 16 s else s)"

lemma wrap_sum_props:
  assumes "unat s \<le> 131070"
  shows "unat (wrap_sum s) \<le> 65535" "unat (wrap_sum s) mod 65535 = unat s mod 65535" "unat (wrap_sum s) = 0 \<longleftrightarrow> unat s = 0"
proof -
  let ?n = "unat s"
  have w: "unat (wrap_sum s) = (if ?n > 65535 then ?n - 65535 else ?n)"
  proof (cases "?n > 65535")
    case True
    then have "?n mod 65536 = ?n - 65536" "?n div 65536 = 1"
      using assms by (simp_all add: le_mod_geq le_div_geq)
    with True show ?thesis by (simp add: wrap_sum_def unat_fold_step word_less_nat_alt)
  next
    case False
    then show ?thesis by (simp add: wrap_sum_def word_less_nat_alt)
  qed
  show "unat (wrap_sum s) \<le> 65535" "unat (wrap_sum s) mod 65535 = ?n mod 65535" "unat (wrap_sum s) = 0 \<longleftrightarrow> ?n = 0"
    using assms by (auto simp: w le_mod_geq)
qed

text \<open>The running sum never wraps around: it stays below \<open>2 ^ 17\<close>.\<close>

lemma add_words_props:
  assumes "unat s \<le> 65535"
  shows "unat (add_words s p) \<le> 131070 \<and> (even (length p) \<longrightarrow> unat (add_words s p) \<le> 65535) \<and>
    unat (add_words s p) mod 65535 = (unat s + be_sum p) mod 65535 \<and>
    (unat (add_words s p) = 0 \<longleftrightarrow> unat s = 0 \<and> be_sum p = 0)"
  using assms
proof (induction s p rule: add_words.induct)
  case (1 s a b p)
  have bounds: "unat a * 256 + unat b \<le> 65535"
    using unsigned_less [of a, where 'a = nat] unsigned_less [of b, where 'a = nat] by simp
  have t: "unat (s + be16 a b) = unat s + (unat a * 256 + unat b)"
    using 1(2) bounds by (simp add: unat_word_ariths unat_be16)
  then have le: "unat (s + be16 a b) \<le> 131070" using 1(2) bounds by simp
  note W = wrap_sum_props [OF le]
  have eq: "add_words s (a # b # p) = add_words (wrap_sum (s + be16 a b)) p" by (simp add: wrap_sum_def Let_def)
  have IH: "unat (add_words (wrap_sum (s + be16 a b)) p) \<le> 131070 \<and>
    (even (length p) \<longrightarrow> unat (add_words (wrap_sum (s + be16 a b)) p) \<le> 65535) \<and>
    unat (add_words (wrap_sum (s + be16 a b)) p) mod 65535 = (unat (wrap_sum (s + be16 a b)) + be_sum p) mod 65535 \<and>
    (unat (add_words (wrap_sum (s + be16 a b)) p) = 0 \<longleftrightarrow> unat (wrap_sum (s + be16 a b)) = 0 \<and> be_sum p = 0)"
    using 1(1) [OF refl] W(1) by (simp add: wrap_sum_def)
  moreover have "(unat (wrap_sum (s + be16 a b)) + be_sum p) mod 65535 = (unat s + be_sum (a # b # p)) mod 65535"
  proof -
    have "(unat (wrap_sum (s + be16 a b)) + be_sum p) mod 65535 = (unat (s + be16 a b) + be_sum p) mod 65535"
      using W(2) by (rule mod_add_cong) simp
    then show ?thesis by (simp add: t add.assoc)
  qed
  ultimately show ?case using W(3) t unfolding eq by auto
next
  case (2 s a)
  have "unat a \<le> 255" using unsigned_less [of a, where 'a = nat] by simp
  then have "unat (s + push_bit 8 (ucast a)) = unat s + unat a * 256"
    using 2 by (simp add: unat_word_ariths unat_high_byte)
  then show ?case using 2 \<open>unat a \<le> 255\<close> by auto
next
  case (3 s)
  then show ?case by simp
qed

lemma fold_sum_props:
  "unat (fold_sum s) \<le> 65535 \<and> unat (fold_sum s) mod 65535 = unat s mod 65535 \<and> (unat (fold_sum s) = 0 \<longleftrightarrow> unat s = 0)"
proof (induction s rule: fold_sum.induct)
  case (1 s)
  show ?case
  proof (cases "drop_bit 16 s = 0")
    case True
    then have "unat s div 65536 = 0" by (simp add: drop_bit_eq_div word_unat_eq_iff unat_div_distrib)
    then have "unat s < 65536" by simp
    then show ?thesis using True by (subst (1 2 3) fold_sum.simps) simp
  next
    case False
    let ?t = "(s AND 0xffff) + drop_bit 16 s"
    have q: "unat s = unat s div 65536 * 65536 + unat s mod 65536" by simp
    have u: "unat ?t = unat s mod 65536 + unat s div 65536" by (rule unat_fold_step)
    have "unat s = unat s div 65536 * 65535 + unat ?t" using q unfolding u by linarith
    then have "unat s mod 65535 = (unat s div 65536 * 65535 + unat ?t) mod 65535" by (rule arg_cong)
    then have "unat ?t mod 65535 = unat s mod 65535" by simp
    moreover have "unat s div 65536 \<noteq> 0" using False by (simp add: drop_bit_eq_div word_unat_eq_iff unat_div_distrib)
    then have "unat ?t \<noteq> 0" "unat s \<noteq> 0" using u by auto
    ultimately show ?thesis using 1 [OF False] False by (subst (1 2 3) fold_sum.simps) simp
  qed
qed

lemma fold_checksum_unat: "unat (fold_checksum s) = 65535 - unat (fold_sum s)"
proof -
  have le: "unat (fold_sum s) \<le> 65535" using fold_sum_props by blast
  have "fold_checksum s = NOT (ucast (fold_sum s))"
    by (rule bit_word_eqI) (simp add: fold_checksum_def bit_simps)
  moreover have "unat (ucast (fold_sum s) :: u16) = unat (fold_sum s)"
    using le by (simp add: unsigned_ucast_eq take_bit_eq_mod)
  moreover have "unat (NOT x) = 65535 - unat x" for x :: u16
  proof -
    have "NOT x = -1 - x" by (simp add: not_eq_complement)
    moreover have "unat (-1 :: u16) = 65535" by (simp add: unsigned_minus_1_eq_mask mask_eq_exp_minus_1)
    ultimately show ?thesis using unat_sub [of x "-1"] by simp
  qed
  ultimately show ?thesis by simp
qed

lemma complement_residue:
  fixes f k :: nat
  assumes "f \<noteq> 0" "f \<le> 65535" "f mod 65535 = Suc k mod 65535"
  shows "f = k mod 65535 + 1"
proof -
  define r where "r = k mod 65535"
  have r: "r < 65535" by (simp add: r_def)
  have "f mod 65535 = Suc r mod 65535" using assms(3) by (simp add: r_def mod_Suc_eq)
  then show ?thesis using assms(1,2) r unfolding r_def [symmetric] by (cases "f = 65535"; cases "Suc r = 65535") auto
qed

lemma net_checksum_unat:
  "unat (net_checksum data) = (if be_sum data = 0 then 65535 else 65535 - ((be_sum data - 1) mod 65535 + 1))"
proof -
  define f where "f = unat (fold_sum (add_words 0 data))"
  have f: "f \<le> 65535" "f mod 65535 = be_sum data mod 65535" "f = 0 \<longleftrightarrow> be_sum data = 0"
    using fold_sum_props [of "add_words 0 data"] add_words_props [of 0 data] by (simp_all add: f_def)
  have "f = (be_sum data - 1) mod 65535 + 1" if "be_sum data \<noteq> 0"
    using complement_residue [of f "be_sum data - 1"] f that by simp
  then show ?thesis using f(3) by (auto simp: net_checksum_def fold_checksum_unat f_def [symmetric])
qed

lemma be_sum_append: "even (length xs) \<Longrightarrow> be_sum (xs @ ys) = be_sum xs + be_sum ys"
  by (induction xs rule: be_sum.induct) simp_all

lemma split_bytes: "unat (ucast (drop_bit 8 c) :: u8) * 256 + unat (ucast c :: u8) = unat (c :: u16)"
proof -
  have "unat c div 256 < 256" using unsigned_less [of c, where 'a = nat] by (simp add: less_mult_imp_div_less)
  then have "unat (ucast (drop_bit 8 c) :: u8) = unat c div 256"
    by (simp add: unsigned_ucast_eq take_bit_eq_mod drop_bit_eq_div unat_div_distrib)
  moreover have "unat (ucast c :: u8) = unat c mod 256" by (simp add: unsigned_ucast_eq take_bit_eq_mod)
  ultimately show ?thesis by simp
qed

section \<open>Properties\<close>

text \<open>C17: The loopback queue is a queue of at most four packets: a packet of 1 to 1536 bytes is
  accepted exactly when there is room, its bytes are stored, and lengths are received in the order
  the packets were sent; a refused packet changes nothing.\<close>

theorem net_loopback_refines_queue:
  assumes "net_up n" "net_loopback_send (Some p) len n = (r, n1)" "net_loopback_received n = (got, n2)"
  shows "(if sendable len \<and> length (lengths n) < 4
      then r = 0 \<and> net_up n1 \<and> lengths n1 = lengths n @ [len] \<and> (\<forall>i < unat len. queue n1 (unat (queue_tail n)) i = p i)
      else r = -1 \<and> n1 = n) \<and>
    (if lengths n = [] then got = 0 \<and> n2 = n else net_up n2 \<and> lengths n = got # lengths n2)"
proof -
  have "if sendable len \<and> length (lengths n) < 4
      then r = 0 \<and> net_up n1 \<and> lengths n1 = lengths n @ [len] \<and> (\<forall>i < unat len. queue n1 (unat (queue_tail n)) i = p i)
      else r = -1 \<and> n1 = n"
  proof (cases "sendable len \<and> length (lengths n) < 4")
    case True
    have ok: "r = 0" "\<forall>i < unat len. queue n1 (unat (queue_tail n)) i = p i" "net_ready n1"
      using assms(1,2) True by (auto simp: net_loopback_send_def Let_def net_up_def sendable_def lengths_def
        NET_QUEUE_SIZE_def word_le_nat_alt word_less_nat_alt)
    then show ?thesis using net_send_some [of n p len n1] assms(1,2) True by (simp add: net_up_def)
  next
    case False
    then show ?thesis
      using assms(1,2) by (auto simp: net_loopback_send_def Let_def net_up_def sendable_def lengths_def
        NET_QUEUE_SIZE_def word_le_nat_alt word_less_nat_alt split: if_splits)
  qed
  moreover have "if lengths n = [] then got = 0 \<and> n2 = n else net_up n2 \<and> lengths n = got # lengths n2"
  proof (cases "net_pop n")
    case None
    then show ?thesis using nq.pop_none [OF assms(1)] assms(3) by (auto simp: net_pop_def net_loopback_received_def split: if_splits)
  next
    case (Some a)
    then have "net_pop n = Some (got, n2)" using assms(3) by (auto simp: net_pop_def split: if_splits)
    with nq.pop_some [OF assms(1) this] show ?thesis by auto
  qed
  ultimately show ?thesis by blast
qed

definition net0 :: net where
  "net0 = net_init \<lparr>queue = (\<lambda>_ _. 0), queue_len = (\<lambda>_. 0), queue_head = 0, queue_tail = 0, queue_count = 0,
     arp = (\<lambda>_. \<lparr>arp_address = 0, arp_mac = (\<lambda>_. 0), arp_valid = False\<rparr>), net_ready = False\<rparr>"

lemma net0_up: "net_up net0" "lengths net0 = []"
  by (simp_all add: net0_def net_init_def net_up_def net_inv_def lengths_def ring_list_def)

theorem net_loopback_refines_queue_witness: "lengths (snd (net_loopback_send (Some (\<lambda>_. 7)) 100 net0)) = [100]"
proof -
  obtain r n1 got n2 where r: "net_loopback_send (Some (\<lambda>_. 7)) 100 net0 = (r, n1)" "net_loopback_received net0 = (got, n2)"
    by (cases "net_loopback_send (Some (\<lambda>_. 7)) 100 net0", cases "net_loopback_received net0")
  have "sendable 100" by (simp add: sendable_def NET_PACKET_SIZE_def)
  then show ?thesis using net_loopback_refines_queue [OF net0_up(1) r] net0_up(2) by (simp add: r)
qed

text \<open>C18: The checksum routine with its deferred carries computes the Internet checksum: the
  complement of the one's complement sum of the big-endian 16-bit words, an odd last byte being
  padded with zero.\<close>

theorem net_checksum_reference:
  "unat (net_checksum data) = (if be_sum data = 0 then 65535 else 65535 - ((be_sum data - 1) mod 65535 + 1))"
  by (rule net_checksum_unat)

text \<open>A receiver that sums an even-length packet together with the checksum that was appended
  to it gets zero.\<close>

theorem net_checksum_verifies:
  assumes "even (length data)"
  shows "net_checksum (data @ [ucast (drop_bit 8 (net_checksum data)), ucast (net_checksum data)]) = 0"
proof -
  let ?c = "net_checksum data"
  let ?all = "data @ [ucast (drop_bit 8 ?c), ucast ?c]"
  have S: "be_sum ?all = be_sum data + unat ?c" using be_sum_append [OF assms] split_bytes [of ?c] by simp
  define r where "r = (be_sum data - 1) mod 65535 + 1"
  have "\<exists>k. be_sum ?all = k * 65535 + 65535"
  proof (cases "be_sum data = 0")
    case True
    then show ?thesis using S net_checksum_unat [of data] by (intro exI [of _ 0]) simp
  next
    case False
    have "be_sum data = (be_sum data - 1) div 65535 * 65535 + r" using False unfolding r_def by simp
    moreover have "r \<le> 65535" by (simp add: r_def Suc_le_eq)
    moreover have "unat ?c = 65535 - r" using net_checksum_unat [of data] False by (simp add: r_def)
    ultimately have "be_sum ?all = (be_sum data - 1) div 65535 * 65535 + 65535"
      using S by linarith
    then show ?thesis by blast
  qed
  then obtain k where k: "be_sum ?all = k * 65535 + 65535" by blast
  then have "be_sum ?all - 1 = k * 65535 + 65534" by simp
  then have "(be_sum ?all - 1) mod 65535 = 65534" by simp
  then have "unat (net_checksum ?all) = 0" using net_checksum_unat [of ?all] k by simp
  then show ?thesis by (simp add: unat_eq_0)
qed

theorem net_checksum_verifies_witness: "net_checksum [0x45, 0, 0, 0x1c, 0xba, 0xe3] = 0"
proof -
  have "net_checksum [0x45, 0, 0, 0x1c] = 0xbae3"
  proof -
    have "be_sum [0x45, 0, 0, 0x1c] = 0x451c" by simp
    then have "unat (net_checksum [0x45, 0, 0, 0x1c]) = 0xbae3" by (simp add: net_checksum_unat)
    then show ?thesis by (simp add: word_unat_eq_iff)
  qed
  moreover have "ucast (drop_bit 8 (0xbae3 :: u16)) = (0xba :: u8)" "ucast (0xbae3 :: u16) = (0xe3 :: u8)"
    by (simp_all add: drop_bit_eq_div)
  ultimately show ?thesis using net_checksum_verifies [of "[0x45, 0, 0, 0x1c]"] by (simp only: append.simps) simp
qed

lemma unat_swap_load: "unat (swap16 (load16 h i)) = unat (h i) * 256 + unat (h (i + 1))"
proof -
  have "swap16 (load16 h i) = push_bit 8 (ucast (h i)) OR ucast (h (i + 1))"
    by (rule bit_word_eqI) (auto simp: swap16_def load16_def bit_simps dest: bit_imp_le_length)
  also have "\<dots> = push_bit 8 (ucast (h i)) + ucast (h (i + 1))"
    by (rule disjunctive_add [symmetric]) (auto simp: bit_simps dest: bit_imp_le_length)
  finally have "swap16 (load16 h i) = push_bit 8 (ucast (h i)) + ucast (h (i + 1))" .
  moreover have "unat (h i) < 256" "unat (h (i + 1)) < 256"
    using unsigned_less [of "h i", where 'a = nat] unsigned_less [of "h (i + 1)", where 'a = nat] by simp_all
  ultimately show ?thesis
    by (simp add: push_bit_eq_mult unat_word_ariths unsigned_ucast_eq take_bit_eq_mod)
qed

lemma load16_zero: "load16 h i = 0 \<longleftrightarrow> h i = 0 \<and> h (i + 1) = 0"
proof -
  have "load16 h i = 0 \<longleftrightarrow> swap16 (load16 h i) = 0"
  proof
    assume "swap16 (load16 h i) = 0"
    then have "unat (h i) * 256 + unat (h (i + 1)) = 0" using unat_swap_load [of h i] by simp
    then show "load16 h i = 0" by (simp add: unat_eq_0 load16_def)
  qed (simp add: swap16_def)
  then show ?thesis using unat_swap_load [of h i] by (auto simp: word_unat_eq_iff)
qed

text \<open>C19: The header validators accept exactly the well-formed headers that fit in the buffer: an
  IPv6 packet whose fixed header and announced payload lie within the given length, and a TCP
  segment whose data offset lies between 20 bytes and the given length with both ports set. A
  null packet is refused.\<close>

theorem net_validators_exact:
  "(net_ipv6_validate (Some h) len = 0 \<longleftrightarrow>
      unat (h 0) div 16 = 6 \<and> 40 + (unat (h 4) * 256 + unat (h 5)) \<le> unat len) \<and>
   (net_tcp_validate (Some h) len = 0 \<longleftrightarrow>
      20 \<le> unat (h 12) div 16 * 4 \<and> unat (h 12) div 16 * 4 \<le> unat len \<and>
      \<not> (h 0 = 0 \<and> h 1 = 0) \<and> \<not> (h 2 = 0 \<and> h 3 = 0)) \<and>
   net_ipv6_validate None len = -1 \<and> net_tcp_validate None len = -1"
proof -
  have v: "drop_bit 4 b = 6 \<longleftrightarrow> unat b div 16 = 6" for b :: u8
    by (simp add: word_unat_eq_iff drop_bit_eq_div unat_div_distrib)
  have pay: "unat (ucast (swap16 (ipv6_payload_length h)) :: u32) = unat (h 4) * 256 + unat (h 5)"
    using unat_swap_load [of h 4] unsigned_less [of "h 4", where 'a = nat] unsigned_less [of "h 5", where 'a = nat]
    by (simp add: ipv6_payload_length_def unsigned_ucast_eq take_bit_eq_mod)
  have "unat (h 12) div 16 < 16"
    using unsigned_less [of "h 12", where 'a = nat] by (simp add: less_mult_imp_div_less)
  then have off: "unat (ucast (drop_bit 4 (h 12)) * 4 :: u32) = unat (h 12) div 16 * 4"
    by (simp add: unat_word_ariths unsigned_ucast_eq take_bit_eq_mod drop_bit_eq_div unat_div_distrib)
  have sub: "unat (len - 40) = unat len - 40" if "\<not> unat len < 40"
    using that unat_sub [of 40 len] by (simp add: word_le_nat_alt)
  have "net_ipv6_validate (Some h) len = 0 \<longleftrightarrow> unat (h 0) div 16 = 6 \<and> 40 + (unat (h 4) * 256 + unat (h 5)) \<le> unat len"
    using sub pay by (auto simp: net_ipv6_validate_def NET_IPV6_HEADER_SIZE_def v word_less_nat_alt Let_def)
  moreover have "net_tcp_validate (Some h) len = 0 \<longleftrightarrow>
      20 \<le> unat (h 12) div 16 * 4 \<and> unat (h 12) div 16 * 4 \<le> unat len \<and> \<not> (h 0 = 0 \<and> h 1 = 0) \<and> \<not> (h 2 = 0 \<and> h 3 = 0)"
    using off by (auto simp: net_tcp_validate_def word_less_nat_alt Let_def load16_zero)
  ultimately show ?thesis by (simp add: net_ipv6_validate_def net_tcp_validate_def)
qed

text \<open>The states a socket can be in, with the number of bytes it has sent since it was opened.\<close>

inductive sock_reach :: "net_socket \<Rightarrow> nat \<Rightarrow> bool" where
  opened: "net_socket_open s port n = (0, s') \<Longrightarrow> sock_reach s' 0"
| connected: "sock_reach s t \<Longrightarrow> net_socket_connect s port = (r, s') \<Longrightarrow> sock_reach s' t"
| sent: "sock_reach s t \<Longrightarrow> net_socket_send s d len n = (r, s', n') \<Longrightarrow>
    sock_reach s' (if r = -1 then t else t + unat len)"
| closed: "sock_reach s t \<Longrightarrow> net_socket_close s = (r, s') \<Longrightarrow> sock_reach s' t"

lemma sint_packet: "len \<noteq> 0 \<Longrightarrow> len \<le> NET_PACKET_SIZE \<Longrightarrow> sint (len :: u32) \<noteq> -1"
proof
  assume "len \<le> NET_PACKET_SIZE" and "sint len = -1"
  then have "len = -1" by (metis signed_minus_1 signed_word_eqI)
  with \<open>len \<le> NET_PACKET_SIZE\<close> show False
    by (simp add: NET_PACKET_SIZE_def word_le_nat_alt unsigned_minus_1_eq_mask mask_eq_exp_minus_1)
qed

text \<open>Along any sequence of socket calls a socket is closed or established, never left half
  open; it is established only while in use with both ports set; and its sequence number has
  advanced by exactly the bytes the loopback queue accepted.\<close>

theorem net_socket_invariant:
  assumes "sock_reach s t"
  shows "local_port s \<noteq> 0 \<and> sequence s = of_nat (1 + t) \<and>
    (sock_state s = NET_SOCKET_CLOSED \<or> sock_state s = NET_SOCKET_ESTABLISHED \<and> sock_used s \<and> remote_port s \<noteq> 0)"
  using assms
proof (induction rule: sock_reach.induct)
  case (opened s port n s')
  then show ?case by (auto simp: net_socket_open_def split: if_splits)
next
  case (connected s t port r s')
  then show ?case by (auto simp: net_socket_connect_def Let_def split: if_splits)
next
  case (sent s t d len n r s' n')
  then show ?case
    using sint_packet [of len]
    by (auto simp: net_socket_send_def net_loopback_send_def Let_def add.assoc not_less split: if_splits option.splits)
next
  case (closed s t r s')
  then show ?case by (auto simp: net_socket_close_def split: if_splits)
qed

theorem net_socket_invariant_witness: "\<exists>s. sock_reach s 0 \<and> sequence s = 1 \<and> local_port s = 80"
proof -
  let ?s = "\<lparr>local_port = 80, remote_port = 0, sequence = 1, acknowledgement = 0, sock_state = 0, sock_used = True\<rparr>"
  have "net_socket_open ?s 80 net0 = (0, ?s)"
    by (simp add: net_socket_open_def net0_def net_init_def NET_SOCKET_CLOSED_def)
  then have r: "sock_reach ?s 0" by (rule sock_reach.opened)
  from net_socket_invariant [OF r] r show ?thesis by (intro exI [of _ ?s]) simp
qed

end
