(* ===== verification/Ports.thy ===== *)
theory Ports
  imports Ceblar_Prelude
begin

text \<open>
  The port instructions of the processor, which every driver wraps in static inline functions
  (\<open>inb\<close>, \<open>outb\<close>, \<open>inw\<close>, \<open>outw\<close>, \<open>inl\<close>, \<open>outl\<close>). What is behind a port is
  hardware: a driver's operations take the port instructions as a parameter, over an arbitrary
  type of hardware states, and thread that state through in the order of the code's accesses.
\<close>

record 'w ports =
  inb :: "u16 \<Rightarrow> 'w \<Rightarrow> u8 \<times> 'w"
  outb :: "u16 \<Rightarrow> u8 \<Rightarrow> 'w \<Rightarrow> 'w"
  inw :: "u16 \<Rightarrow> 'w \<Rightarrow> u16 \<times> 'w"
  outw :: "u16 \<Rightarrow> u16 \<Rightarrow> 'w \<Rightarrow> 'w"
  inl :: "u16 \<Rightarrow> 'w \<Rightarrow> u32 \<times> 'w"
  outl :: "u16 \<Rightarrow> u32 \<Rightarrow> 'w \<Rightarrow> 'w"

section \<open>Little-endian halves of a word in memory\<close>

definition low8 :: "u16 \<Rightarrow> u8" where
  "low8 v = ucast v"

definition high8 :: "u16 \<Rightarrow> u8" where
  "high8 v = ucast (drop_bit 8 v)"

definition word_of :: "u8 \<Rightarrow> u8 \<Rightarrow> u16" where
  "word_of l h = ucast l OR push_bit 8 (ucast h)"

lemma low8_word_of [simp]: "low8 (word_of l h) = l"
  by (intro bit_word_eqI) (auto simp: low8_def word_of_def bit_simps)

lemma high8_word_of [simp]: "high8 (word_of l h) = h"
  by (intro bit_word_eqI) (auto simp: high8_def word_of_def bit_simps dest: bit_imp_le_length)

lemma word_of_halves [simp]: "word_of (low8 v) (high8 v) = v"
  by (intro bit_word_eqI) (auto simp: low8_def high8_def word_of_def bit_simps)

text \<open>
  A hardware state behind some of the ports refines a device description when the abstraction
  commutes with every access to these ports.
\<close>

definition port_sim :: "u16 set \<Rightarrow> 'w ports \<Rightarrow> 'd ports \<Rightarrow> ('w \<Rightarrow> 'd) \<Rightarrow> bool" where
  "port_sim A P D st \<longleftrightarrow> (\<forall>p \<in> A. \<forall>w.
     (\<forall>v. st (outb P p v w) = outb D p v (st w)) \<and>
     (\<forall>v. st (outw P p v w) = outw D p v (st w)) \<and>
     (\<forall>v. st (outl P p v w) = outl D p v (st w)) \<and>
     map_prod id st (inb P p w) = inb D p (st w) \<and>
     map_prod id st (inw P p w) = inw D p (st w) \<and>
     map_prod id st (inl P p w) = inl D p (st w))"

lemma port_sim_out:
  assumes "port_sim A P D st" "p \<in> A"
  shows "st (outb P p v w) = outb D p v (st w)" "st (outw P p v' w) = outw D p v' (st w)"
    "st (outl P p v'' w) = outl D p v'' (st w)"
  using assms by (simp_all add: port_sim_def)

lemma port_sim_in:
  assumes "port_sim A P D st" "p \<in> A"
  shows "fst (inb P p w) = fst (inb D p (st w))" "st (snd (inb P p w)) = snd (inb D p (st w))"
    "fst (inw P p w) = fst (inw D p (st w))" "st (snd (inw P p w)) = snd (inw D p (st w))"
    "fst (inl P p w) = fst (inl D p (st w))" "st (snd (inl P p w)) = snd (inl D p (st w))"
proof -
  have "map_prod id st (inb P p w) = inb D p (st w)" "map_prod id st (inw P p w) = inw D p (st w)"
    "map_prod id st (inl P p w) = inl D p (st w)"
    using assms by (simp_all add: port_sim_def)
  then show "fst (inb P p w) = fst (inb D p (st w))" "st (snd (inb P p w)) = snd (inb D p (st w))"
    "fst (inw P p w) = fst (inw D p (st w))" "st (snd (inw P p w)) = snd (inw D p (st w))"
    "fst (inl P p w) = fst (inl D p (st w))" "st (snd (inl P p w)) = snd (inl D p (st w))"
    by (metis fst_map_prod snd_map_prod id_apply)+
qed

lemma port_sim_refl: "port_sim A P P (\<lambda>w. w)"
  by (simp add: port_sim_def map_prod_def)

end
