(* ===== verification/Block.thy ===== *)
theory Block
  imports Ceblar_Prelude
begin

text \<open>
  The generic block layer \<open>drivers/block.c\<close>: a registry of at most four sector devices, of which
  the first registered one serves all requests. A device's function pointers are functions over
  the state \<open>'h\<close> of the drivers and their hardware. The file system code reaches disks only
  through this layer; the locale \<open>sector_store\<close> is what it relies on.
\<close>

section \<open>State and operations\<close>

definition BLOCK_MAX_DEVICES :: u32 where "BLOCK_MAX_DEVICES = 4"

type_synonym 'h block_read_fn = "u32 \<Rightarrow> bytes option \<Rightarrow> 'h \<Rightarrow> int \<times> bytes option \<times> 'h"
type_synonym 'h block_write_fn = "u32 \<Rightarrow> bytes option \<Rightarrow> 'h \<Rightarrow> int \<times> 'h"

record 'h block_device =
  bd_name :: string
  sector_size :: u32
  sector_count :: u64
  read_sector :: "'h block_read_fn option"
  write_sector :: "'h block_write_fn option"
  bd_present :: bool

record 'h block =
  devices :: "nat \<Rightarrow> 'h block_device option"
  device_count :: u32

definition block_init :: "'h block \<Rightarrow> 'h block" where
  "block_init blk =
     blk\<lparr>device_count := 0, devices := fold (\<lambda>i ds. ds(i := None)) [0..<unat BLOCK_MAX_DEVICES] (devices blk)\<rparr>"

definition block_register :: "'h block_device option \<Rightarrow> 'h block \<Rightarrow> int \<times> 'h block" where
  "block_register device blk =
     (case device of None \<Rightarrow> (-1, blk)
      | Some d \<Rightarrow>
        if \<not> bd_present d \<or> sector_size d \<noteq> 512 \<or> read_sector d = None \<or> BLOCK_MAX_DEVICES \<le> device_count blk
        then (-1, blk)
        else (0, blk\<lparr>devices := (devices blk)(unat (device_count blk) := Some d),
                     device_count := device_count blk + 1\<rparr>))"

definition block_default :: "'h block \<Rightarrow> 'h block_device option" where
  "block_default blk = (if device_count blk \<noteq> 0 then devices blk 0 else None)"

text \<open>The call through \<open>read_sector\<close> is unguarded in the code; the registry never holds a null one.\<close>

definition block_read_sector :: "'h block \<Rightarrow> u32 \<Rightarrow> bytes option \<Rightarrow> 'h \<Rightarrow> int \<times> bytes option \<times> 'h" where
  "block_read_sector blk lba buffer h =
     (case block_default blk of None \<Rightarrow> (-1, buffer, h)
      | Some d \<Rightarrow> if buffer \<noteq> None then the (read_sector d) lba buffer h else (-1, buffer, h))"

definition block_write_sector :: "'h block \<Rightarrow> u32 \<Rightarrow> bytes option \<Rightarrow> 'h \<Rightarrow> int \<times> 'h" where
  "block_write_sector blk lba buffer h =
     (case block_default blk of None \<Rightarrow> (-1, h)
      | Some d \<Rightarrow>
        if buffer \<noteq> None then (case write_sector d of Some f \<Rightarrow> f lba buffer h | None \<Rightarrow> (-1, h))
        else (-1, h))"

section \<open>The registry\<close>

definition block_list :: "'h block \<Rightarrow> 'h block_device option list" where
  "block_list blk = map (devices blk) [0..<unat (device_count blk)]"

definition device_ok :: "'h block_device option \<Rightarrow> bool" where
  "device_ok d \<longleftrightarrow> (\<exists>dev. d = Some dev \<and> bd_present dev \<and> sector_size dev = 512 \<and> read_sector dev \<noteq> None)"

definition block_inv :: "'h block \<Rightarrow> bool" where
  "block_inv blk \<longleftrightarrow> device_count blk \<le> BLOCK_MAX_DEVICES \<and> list_all device_ok (block_list blk)"

lemma block_init_list [simp]: "block_list (block_init blk) = []"
  by (simp add: block_list_def block_init_def)

lemma block_init_inv: "block_inv (block_init blk)"
  by (simp add: block_inv_def) (simp add: block_init_def BLOCK_MAX_DEVICES_def)

lemma block_register_list:
  "block_inv blk \<Longrightarrow> block_register d blk = (r, blk') \<Longrightarrow>
     block_inv blk' \<and>
     (if device_ok d \<and> length (block_list blk) < 4 then r = 0 \<and> block_list blk' = block_list blk @ [d]
      else r = -1 \<and> blk' = blk)"
proof -
  assume inv: "block_inv blk" and reg: "block_register d blk = (r, blk')"
  have cnt: "unat (device_count blk) \<le> 4"
    using inv by (simp add: block_inv_def BLOCK_MAX_DEVICES_def word_le_nat_alt)
  show ?thesis
  proof (cases "device_ok d \<and> length (block_list blk) < 4")
    case False
    with reg show ?thesis using inv
      by (auto simp: block_register_def device_ok_def block_list_def BLOCK_MAX_DEVICES_def word_le_nat_alt
        split: option.splits if_splits)
  next
    case True
    then obtain dev where d: "d = Some dev" "bd_present dev" "sector_size dev = 512" "read_sector dev \<noteq> None"
      by (auto simp: device_ok_def)
    have lt: "unat (device_count blk) < 4" using True by (simp add: block_list_def)
    then have suc: "unat (device_count blk + 1) = Suc (unat (device_count blk))"
      by (rule unat_inc) simp
    have blk': "r = 0" "blk' = blk\<lparr>devices := (devices blk)(unat (device_count blk) := Some dev), device_count := device_count blk + 1\<rparr>"
      using reg d lt by (simp_all add: block_register_def BLOCK_MAX_DEVICES_def word_le_nat_alt)
    have l: "block_list blk' = block_list blk @ [d]"
      by (simp add: block_list_def blk' suc d)
    show ?thesis using True inv l lt suc
      by (simp add: block_inv_def blk'(1)) (simp add: blk' BLOCK_MAX_DEVICES_def word_le_nat_alt)
  qed
qed

lemma block_default_list:
  "block_default blk = (if block_list blk = [] then None else hd (block_list blk))"
  by (auto simp: block_default_def block_list_def hd_map hd_upt unat_gt_0 unat_eq_zero)

lemma block_registers_list:
  "block_inv blk \<Longrightarrow>
     block_inv (fold (\<lambda>d b. snd (block_register d b)) ds blk) \<and>
     block_list (fold (\<lambda>d b. snd (block_register d b)) ds blk) = take 4 (block_list blk @ filter device_ok ds)"
proof (induction ds arbitrary: blk)
  case Nil
  then show ?case by (simp add: block_inv_def block_list_def BLOCK_MAX_DEVICES_def word_le_nat_alt)
next
  case (Cons d ds)
  obtain r blk' where reg: "block_register d blk = (r, blk')" by fastforce
  have len: "length (block_list blk) \<le> 4"
    using Cons.prems by (simp add: block_inv_def block_list_def BLOCK_MAX_DEVICES_def word_le_nat_alt)
  note spec = block_register_list [OF Cons.prems reg]
  have "block_list (fold (\<lambda>d b. snd (block_register d b)) ds blk') = take 4 (block_list blk' @ filter device_ok ds)"
    using Cons.IH [of blk'] spec by blast
  also have "\<dots> = take 4 (block_list blk @ filter device_ok (d # ds))"
    using spec len by (cases "length (block_list blk) < 4") (auto simp: take_Cons')
  finally show ?case using Cons.IH [of blk'] spec reg by simp
qed

section \<open>What the file systems rely on\<close>

text \<open>
  A registry whose default device stores sectors: reads within the capacity return the stored
  sector and change nothing, writes replace exactly the addressed sector, and accesses beyond the
  capacity fail without an effect on the stored sectors.
\<close>

locale sector_store =
  fixes blk :: "'h block"
    and inv :: "'h \<Rightarrow> bool"
    and contents :: "'h \<Rightarrow> nat \<Rightarrow> bytes"
    and cap :: nat
  assumes default: "\<exists>d. block_default blk = Some d \<and> write_sector d \<noteq> None"
    and read_ok: "inv h \<Longrightarrow> unat lba < cap \<Longrightarrow> block_read_sector blk lba (Some b) h = (r, b', h') \<Longrightarrow>
          r = 0 \<and> b' = Some (\<lambda>i. if i < 512 then contents h (unat lba) i else b i) \<and>
          inv h' \<and> contents h' = contents h"
    and write_ok: "inv h \<Longrightarrow> unat lba < cap \<Longrightarrow> block_write_sector blk lba (Some b) h = (r, h') \<Longrightarrow>
          r = 0 \<and> inv h' \<and>
          contents h' = (contents h)(unat lba := \<lambda>i. if i < 512 then b i else contents h (unat lba) i)"
    and read_fail: "inv h \<Longrightarrow> cap \<le> unat lba \<Longrightarrow> block_read_sector blk lba (Some b) h = (r, b', h') \<Longrightarrow>
          r = -1 \<and> b' = Some b \<and> inv h' \<and> contents h' = contents h"
    and write_fail: "inv h \<Longrightarrow> cap \<le> unat lba \<Longrightarrow> block_write_sector blk lba (Some b) h = (r, h') \<Longrightarrow>
          r = -1 \<and> inv h' \<and> contents h' = contents h"
begin

lemma read_eq:
  assumes "inv h" "unat lba < cap"
  obtains h' where "block_read_sector blk lba (Some b) h =
      (0, Some (\<lambda>i. if i < 512 then contents h (unat lba) i else b i), h')"
    "inv h'" "contents h' = contents h"
  using read_ok [OF assms] by (cases "block_read_sector blk lba (Some b) h") blast

lemma write_eq:
  assumes "inv h" "unat lba < cap"
  obtains h' where "block_write_sector blk lba (Some b) h = (0, h')" "inv h'"
    "contents h' = (contents h)(unat lba := \<lambda>i. if i < 512 then b i else contents h (unat lba) i)"
  using write_ok [OF assms] by (cases "block_write_sector blk lba (Some b) h") blast

lemma write_read:
  assumes "inv h" "unat lba < cap" "block_write_sector blk lba (Some b) h = (r, h')"
    "block_read_sector blk lba' (Some b') h' = (r', b'', h'')" "unat lba' < cap" "i < 512"
  shows "r' = 0 \<and> the b'' i = (if lba' = lba then b i else contents h (unat lba') i)"
  using read_ok [OF _ assms(5,4)] write_ok [OF assms(1-3)] assms(6)
  by (auto simp: word_unat_eq_iff)

end

section \<open>Properties\<close>

text \<open>The registry keeps, of any sequence of registrations after initialisation, the first four
  devices that are present, have 512-byte sectors and can be read, in their order; the first of them is
  the default device of the rest of the kernel and later registrations never replace it.\<close>

theorem block_registry_correct:
  "let blk' = fold (\<lambda>d b. snd (block_register d b)) ds (block_init blk) in
     block_list blk' = take 4 (filter device_ok ds) \<and>
     block_default blk' = (case filter device_ok ds of [] \<Rightarrow> None | d # _ \<Rightarrow> d)"
  using block_registers_list [OF block_init_inv, of ds blk]
  by (auto simp: block_default_list Let_def split: list.splits)

end
