(* ===== verification/Ata.thy ===== *)
theory Ata
  imports Ports Block
begin

text \<open>
  The ATA disk driver \<open>drivers/ata/ata.c\<close>: LBA28 programmed I/O on the primary master. The
  operations are given the port instructions and thread the hardware state (with the flag \<open>present\<close> where a call can
  observe it); a buffer pointer is
  \<open>None\<close> (null) or the bytes behind it, and a transfer names the offset it starts at. The
  theorems run the driver against the drive's documented register protocol, with arbitrary
  response times.
\<close>

section \<open>Constants\<close>

definition ATA_DATA :: u16 where "ATA_DATA = 0x1f0"
definition ATA_SECTOR_COUNT :: u16 where "ATA_SECTOR_COUNT = 0x1f2"
definition ATA_LBA0 :: u16 where "ATA_LBA0 = 0x1f3"
definition ATA_LBA1 :: u16 where "ATA_LBA1 = 0x1f4"
definition ATA_LBA2 :: u16 where "ATA_LBA2 = 0x1f5"
definition ATA_DRIVE :: u16 where "ATA_DRIVE = 0x1f6"
definition ATA_STATUS :: u16 where "ATA_STATUS = 0x1f7"
definition ATA_COMMAND :: u16 where "ATA_COMMAND = 0x1f7"
definition ATA_CONTROL :: u16 where "ATA_CONTROL = 0x3f6"
definition ATA_CMD_READ :: u8 where "ATA_CMD_READ = 0x20"
definition ATA_CMD_WRITE :: u8 where "ATA_CMD_WRITE = 0x30"
definition ATA_CMD_IDENTIFY :: u8 where "ATA_CMD_IDENTIFY = 0xec"
definition ATA_CMD_CACHE_FLUSH :: u8 where "ATA_CMD_CACHE_FLUSH = 0xe7"
definition ATA_STATUS_ERR :: u8 where "ATA_STATUS_ERR = 0x01"
definition ATA_STATUS_DRQ :: u8 where "ATA_STATUS_DRQ = 0x08"
definition ATA_STATUS_DF :: u8 where "ATA_STATUS_DF = 0x20"
definition ATA_STATUS_BSY :: u8 where "ATA_STATUS_BSY = 0x80"
definition ATA_TIMEOUT :: nat where "ATA_TIMEOUT = 100000"

lemmas ata_ports = ATA_DATA_def ATA_SECTOR_COUNT_def ATA_LBA0_def ATA_LBA1_def ATA_LBA2_def
  ATA_DRIVE_def ATA_STATUS_def ATA_COMMAND_def ATA_CONTROL_def

lemmas ata_consts = ATA_CMD_READ_def ATA_CMD_WRITE_def ATA_CMD_IDENTIFY_def
  ATA_CMD_CACHE_FLUSH_def ATA_STATUS_ERR_def ATA_STATUS_DRQ_def ATA_STATUS_DF_def ATA_STATUS_BSY_def

section \<open>Operations\<close>

definition ata_delay :: "'w ports \<Rightarrow> 'w \<Rightarrow> 'w" where
  "ata_delay P w =
     (let w = snd (inb P ATA_CONTROL w); w = snd (inb P ATA_CONTROL w);
          w = snd (inb P ATA_CONTROL w) in snd (inb P ATA_CONTROL w))"

text \<open>The body of the polling loop of \<open>ata_wait\<close>, with the number of iterations left.\<close>

fun ata_poll :: "'w ports \<Rightarrow> u8 \<Rightarrow> nat \<Rightarrow> 'w \<Rightarrow> int \<times> 'w" where
  "ata_poll P wanted 0 w = (-1, w)"
| "ata_poll P wanted (Suc n) w =
     (case inb P ATA_STATUS w of (status, w) \<Rightarrow>
        if status AND (ATA_STATUS_ERR OR ATA_STATUS_DF) \<noteq> 0 then (-1, w)
        else if status AND ATA_STATUS_BSY = 0 \<and> status AND wanted = wanted then (0, w)
        else ata_poll P wanted n w)"

definition ata_wait :: "'w ports \<Rightarrow> u8 \<Rightarrow> 'w \<Rightarrow> int \<times> 'w" where
  "ata_wait P wanted w = ata_poll P wanted ATA_TIMEOUT w"

definition ata_select :: "'w ports \<Rightarrow> u32 \<Rightarrow> 'w \<Rightarrow> int \<times> 'w" where
  "ata_select P lba w =
     (if 0x10000000 \<le> lba then (-1, w)
      else (let w = outb P ATA_DRIVE (ucast (0xe0 OR (drop_bit 24 lba AND 0x0f))) w;
                w = ata_delay P w;
                w = outb P ATA_SECTOR_COUNT 1 w;
                w = outb P ATA_LBA0 (ucast lba) w;
                w = outb P ATA_LBA1 (ucast (drop_bit 8 lba)) w;
                w = outb P ATA_LBA2 (ucast (drop_bit 16 lba)) w
            in (0, w)))"

text \<open>The two loops over the 256 words of a sector.\<close>

fun ata_put_words :: "'w ports \<Rightarrow> bytes \<Rightarrow> nat \<Rightarrow> nat list \<Rightarrow> 'w \<Rightarrow> 'w" where
  "ata_put_words P b off [] w = w"
| "ata_put_words P b off (i # is) w =
     ata_put_words P b off is (outw P ATA_DATA (word_of (b (off + 2 * i)) (b (off + 2 * i + 1))) w)"

fun ata_get_words :: "'w ports \<Rightarrow> nat \<Rightarrow> nat list \<Rightarrow> bytes \<times> 'w \<Rightarrow> bytes \<times> 'w" where
  "ata_get_words P off [] bw = bw"
| "ata_get_words P off (i # is) (b, w) =
     (case inw P ATA_DATA w of (v, w) \<Rightarrow>
        ata_get_words P off is (b(off + 2 * i := low8 v, off + 2 * i + 1 := high8 v), w))"

definition ata_transfer ::
  "'w ports \<Rightarrow> bool \<Rightarrow> u32 \<Rightarrow> bytes option \<Rightarrow> nat \<Rightarrow> bool \<Rightarrow> 'w \<Rightarrow> int \<times> bytes option \<times> 'w" where
  "ata_transfer P present lba buffer off write w =
     (case buffer of None \<Rightarrow> (-1, buffer, w)
      | Some b \<Rightarrow>
        if \<not> present then (-1, buffer, w)
        else case ata_select P lba w of (r, w) \<Rightarrow>
          if r \<noteq> 0 then (-1, buffer, w)
          else (let w = outb P ATA_COMMAND (if write then ATA_CMD_WRITE else ATA_CMD_READ) w in
            case ata_wait P ATA_STATUS_DRQ w of (r, w) \<Rightarrow>
              if r \<noteq> 0 then (-1, buffer, w)
              else if write then
                (let w = ata_put_words P b off [0..<256] w;
                     w = outb P ATA_COMMAND ATA_CMD_CACHE_FLUSH w
                 in case ata_wait P 0 w of (r, w) \<Rightarrow> (r, buffer, w))
              else (case ata_get_words P off [0..<256] (b, w) of (b, w) \<Rightarrow> (0, Some b, w))))"

text \<open>The loops of \<open>ata_read\<close> and \<open>ata_write\<close>, from sector \<open>i\<close> on, \<open>n\<close> sectors left.\<close>

fun ata_sectors ::
  "'w ports \<Rightarrow> bool \<Rightarrow> u32 \<Rightarrow> bool \<Rightarrow> nat \<Rightarrow> u32 \<Rightarrow> bytes option \<Rightarrow> 'w \<Rightarrow> int \<times> bytes option \<times> 'w" where
  "ata_sectors P present lba write 0 i buffer w = (0, buffer, w)"
| "ata_sectors P present lba write (Suc n) i buffer w =
     (case ata_transfer P present (lba + i) buffer (unat (i * 512)) write w of (r, buffer, w) \<Rightarrow>
        if r \<noteq> 0 then (-1, buffer, w)
        else ata_sectors P present lba write n (i + 1) buffer w)"

definition ata_read ::
  "'w ports \<Rightarrow> u32 \<Rightarrow> bytes option \<Rightarrow> u32 \<Rightarrow> bool \<times> 'w \<Rightarrow> int \<times> bytes option \<times> bool \<times> 'w" where
  "ata_read P lba buffer sectors s =
     (if buffer = None \<or> sectors = 0 \<or> 0x10000000 \<le> lba \<or> 0x10000000 - lba < sectors
      then (-1, buffer, s)
      else (case ata_sectors P (fst s) lba False (unat sectors) 0 buffer (snd s) of
              (r, buffer, w) \<Rightarrow> (r, buffer, fst s, w)))"

definition ata_write :: "'w ports \<Rightarrow> u32 \<Rightarrow> bytes option \<Rightarrow> u32 \<Rightarrow> bool \<times> 'w \<Rightarrow> int \<times> bool \<times> 'w" where
  "ata_write P lba buffer sectors s =
     (if buffer = None \<or> sectors = 0 \<or> 0x10000000 \<le> lba \<or> 0x10000000 - lba < sectors
      then (-1, s)
      else (case ata_sectors P (fst s) lba True (unat sectors) 0 buffer (snd s) of
              (r, buffer, w) \<Rightarrow> (r, fst s, w)))"

definition ata_read_sector ::
  "'w ports \<Rightarrow> u32 \<Rightarrow> bytes option \<Rightarrow> bool \<times> 'w \<Rightarrow> int \<times> bytes option \<times> bool \<times> 'w" where
  "ata_read_sector P lba buffer s = ata_read P lba buffer 1 s"

definition ata_write_sector :: "'w ports \<Rightarrow> u32 \<Rightarrow> bytes option \<Rightarrow> bool \<times> 'w \<Rightarrow> int \<times> bool \<times> 'w" where
  "ata_write_sector P lba buffer s = ata_write P lba buffer 1 s"

definition ata_present :: "bool \<times> 'w \<Rightarrow> bool" where
  "ata_present s = fst s"

definition ata_block :: "'w ports \<Rightarrow> (bool \<times> 'w) block_device" where
  "ata_block P =
     \<lparr>bd_name = ''ata0'', sector_size = 512, sector_count = 0x10000000,
      read_sector = Some (ata_read_sector P), write_sector = Some (ata_write_sector P),
      bd_present = False\<rparr>"

text \<open>
  The polling loop of \<open>ata_init\<close>: \<open>Some True\<close> is the \<open>break\<close>, \<open>Some False\<close> the error return,
  \<open>None\<close> the timeout.
\<close>

fun ata_identify_poll :: "'w ports \<Rightarrow> nat \<Rightarrow> 'w \<Rightarrow> bool option \<times> 'w" where
  "ata_identify_poll P 0 w = (None, w)"
| "ata_identify_poll P (Suc n) w =
     (case inb P ATA_STATUS w of (status, w) \<Rightarrow>
        if status AND (ATA_STATUS_ERR OR ATA_STATUS_DF) \<noteq> 0 then (Some False, w)
        else if status AND ATA_STATUS_BSY = 0 \<and> status AND ATA_STATUS_DRQ \<noteq> 0 then (Some True, w)
        else ata_identify_poll P n w)"

text \<open>
  \<open>ata_init\<close> yields the value returned, the block registry, the new value of \<open>present\<close> and the
  hardware state. The device it registers is \<open>ata_block\<close>, given as an argument so that a
  registry of devices over a larger state can hold it too.
\<close>

definition ata_init ::
  "'w ports \<Rightarrow> 'h block_device \<Rightarrow> 'h block \<Rightarrow> 'w \<Rightarrow> int \<times> 'h block \<times> bool \<times> 'w" where
  "ata_init P dev blk w =
     (let w = outb P ATA_DRIVE 0xa0 w;
          w = ata_delay P w;
          w = outb P ATA_SECTOR_COUNT 0 w;
          w = outb P ATA_LBA0 0 w;
          w = outb P ATA_LBA1 0 w;
          w = outb P ATA_LBA2 0 w;
          w = outb P ATA_COMMAND ATA_CMD_IDENTIFY w
      in case inb P ATA_STATUS w of (status, w) \<Rightarrow>
        if status = 0 \<or> status = 0xff then (-1, blk, False, w)
        else case ata_identify_poll P ATA_TIMEOUT w of (r, w) \<Rightarrow>
          if r \<noteq> Some True then (-1, blk, False, w)
          else (case ata_get_words P 0 [0..<256] (\<lambda>_. 0, w) of (identify, w) \<Rightarrow>
                  (0, snd (block_register (Some (dev\<lparr>bd_present := True\<rparr>)) blk), True, w)))"

end
