(* ===== verification/Ata_Drive.thy ===== *)
theory Ata_Drive
  imports Ata
begin

text \<open>
  The drive behind the ATA ports, as its register protocol documents it, and the driver of
  \<open>Ata\<close> run against it. The drive is busy after each command, and after each data block written to
  it, for a number of status polls of its own choice. The protocol forbids writing a register while
  the drive is busy or in a data transfer and does not say what the drive does then: that reaction
  is a parameter of the model.
\<close>

section \<open>The register protocol\<close>

text \<open>
  \<open>Ata_In blks k\<close>: the drive offers word \<open>k\<close> of the first of the blocks left. \<open>Ata_Out l n k\<close>: it
  expects word \<open>k\<close> of sector \<open>l\<close>, the first of the \<open>n\<close> sectors left.
\<close>

datatype ata_phase = Ata_Idle | Ata_Err | Ata_In "bytes list" nat | Ata_Out nat nat nat

text \<open>
  \<open>d_delay n\<close> and \<open>d_settle n\<close> are the status polls for which the drive is busy after its \<open>n\<close>-th
  command and after a data block written to it when it has seen \<open>n\<close> commands. \<open>d_heads\<close> and
  \<open>d_track\<close> are its cylinder/head/sector geometry.
\<close>

record ata_drive =
  d_select :: u8
  d_count :: u8
  d_lba0 :: u8
  d_lba1 :: u8
  d_lba2 :: u8
  d_phase :: ata_phase
  d_busy :: nat
  d_commands :: nat
  d_delay :: "nat \<Rightarrow> nat"
  d_settle :: "nat \<Rightarrow> nat"
  d_heads :: nat
  d_track :: nat
  d_ident :: bytes
  d_capacity :: nat
  d_medium :: "nat \<Rightarrow> bytes"

type_synonym ata_early = "u16 \<Rightarrow> u8 \<Rightarrow> ata_drive \<Rightarrow> ata_drive"

text \<open>Device 0 answers when the DEV bit of the device register is clear.\<close>

definition drive_selected :: "ata_drive \<Rightarrow> bool" where
  "drive_selected d \<longleftrightarrow> d_select d AND 0x10 = 0"

text \<open>The sector addressed: by LBA28 when the LBA bit of the device register is set, else by
  cylinder, head and sector.\<close>

definition drive_lba :: "ata_drive \<Rightarrow> nat" where
  "drive_lba d =
     (if d_select d AND 0x40 \<noteq> 0 then
        unat (d_lba0 d) + 256 * unat (d_lba1 d) + 65536 * unat (d_lba2 d) + 16777216 * unat (d_select d AND 0x0f)
      else ((unat (d_lba1 d) + 256 * unat (d_lba2 d)) * d_heads d + unat (d_select d AND 0x0f)) * d_track d
        + unat (d_lba0 d) - 1)"

definition drive_sectors :: "ata_drive \<Rightarrow> nat" where
  "drive_sectors d = (if d_count d = 0 then 256 else unat (d_count d))"

definition drive_drq :: "ata_drive \<Rightarrow> bool" where
  "drive_drq d \<longleftrightarrow> (case d_phase d of Ata_In _ _ \<Rightarrow> True | Ata_Out _ _ _ \<Rightarrow> True | _ \<Rightarrow> False)"

definition drive_status :: "ata_drive \<Rightarrow> u8" where
  "drive_status d =
     (if \<not> drive_selected d then 0
      else if 0 < d_busy d then 0x80
      else if drive_drq d then 0x48 else if d_phase d = Ata_Err then 0x41 else 0x40)"

definition drive_command :: "u8 \<Rightarrow> ata_drive \<Rightarrow> ata_drive" where
  "drive_command v d =
     d\<lparr>d_busy := d_delay d (d_commands d), d_commands := Suc (d_commands d),
       d_phase :=
         (if v = 0x20 \<or> v = 0x30 then
            (if d_capacity d < drive_lba d + drive_sectors d then Ata_Err
             else if v = 0x20 then Ata_In (map (d_medium d) [drive_lba d..<drive_lba d + drive_sectors d]) 0
             else Ata_Out (drive_lba d) (drive_sectors d) 0)
          else if v = 0xec then Ata_In [d_ident d] 0
          else if v = 0xe7 then Ata_Idle else Ata_Err)\<rparr>"

text \<open>The registers are written only while the drive is neither busy nor in a data transfer; what an
  earlier write does is the parameter \<open>E\<close>. A command is for device 0 only if that is selected.\<close>

definition drive_ready :: "ata_drive \<Rightarrow> bool" where
  "drive_ready d \<longleftrightarrow> d_busy d = 0 \<and> \<not> drive_drq d"

definition drive_outb :: "ata_early \<Rightarrow> u16 \<Rightarrow> u8 \<Rightarrow> ata_drive \<Rightarrow> ata_drive" where
  "drive_outb E p v d =
     (if p < 0x1f2 \<or> 0x1f7 < p then d
      else if \<not> drive_ready d then E p v d
      else if p = 0x1f2 then d\<lparr>d_count := v\<rparr> else if p = 0x1f3 then d\<lparr>d_lba0 := v\<rparr>
      else if p = 0x1f4 then d\<lparr>d_lba1 := v\<rparr> else if p = 0x1f5 then d\<lparr>d_lba2 := v\<rparr>
      else if p = 0x1f6 then d\<lparr>d_select := v\<rparr>
      else if drive_selected d then drive_command v d else d)"

definition drive_inb :: "u16 \<Rightarrow> ata_drive \<Rightarrow> u8 \<times> ata_drive" where
  "drive_inb p d =
     (if p = 0x1f7 then (drive_status d, d\<lparr>d_busy := d_busy d - 1\<rparr>)
      else if p = 0x3f6 then (drive_status d, d) else (0, d))"

text \<open>The data register transfers words only while the drive requests data and is not busy.\<close>

definition drive_inw :: "u16 \<Rightarrow> ata_drive \<Rightarrow> u16 \<times> ata_drive" where
  "drive_inw p d =
     (if p \<noteq> 0x1f0 \<or> 0 < d_busy d \<or> \<not> drive_selected d then (0, d)
      else case d_phase d of
        Ata_In (src # blks) k \<Rightarrow>
          (word_of (src (2 * k)) (src (2 * k + 1)),
           if k < 255 then d\<lparr>d_phase := Ata_In (src # blks) (Suc k)\<rparr>
           else if blks = [] then d\<lparr>d_phase := Ata_Idle\<rparr>
           else d\<lparr>d_phase := Ata_In blks 0, d_busy := d_delay d (d_commands d)\<rparr>)
      | _ \<Rightarrow> (0, d))"

definition drive_outw :: "u16 \<Rightarrow> u16 \<Rightarrow> ata_drive \<Rightarrow> ata_drive" where
  "drive_outw p v d =
     (if p \<noteq> 0x1f0 \<or> 0 < d_busy d \<or> \<not> drive_selected d then d
      else case d_phase d of
        Ata_Out l n k \<Rightarrow>
          (let d = d\<lparr>d_medium := (d_medium d)(l := (d_medium d l)(2 * k := low8 v, 2 * k + 1 := high8 v))\<rparr> in
           if k < 255 then d\<lparr>d_phase := Ata_Out l n (Suc k)\<rparr>
           else d\<lparr>d_phase := if n \<le> 1 then Ata_Idle else Ata_Out (Suc l) (n - 1) 0,
                  d_busy := d_settle d (d_commands d)\<rparr>)
      | _ \<Rightarrow> d)"

definition drive_ports :: "ata_early \<Rightarrow> ata_drive ports" where
  "drive_ports E = \<lparr>inb = drive_inb, outb = drive_outb E, inw = drive_inw, outw = drive_outw,
     inl = (\<lambda>p d. (0, d)), outl = (\<lambda>p v d. d)\<rparr>"

definition ata_port_set :: "u16 set" where
  "ata_port_set = {0x1f0, 0x1f2, 0x1f3, 0x1f4, 0x1f5, 0x1f6, 0x1f7, 0x3f6}"

text \<open>
  Hardware in state \<open>w\<close> behaves as an ATA drive seen through \<open>st\<close>: every access to the ATA ports
  commutes with \<open>st\<close>, the drive is ready for commands, answers each within the driver's polling bound
  and has no more sectors than LBA28 addresses.
\<close>

definition drive_ok :: "ata_drive \<Rightarrow> bool" where
  "drive_ok d \<longleftrightarrow> (\<forall>n. d_delay d n < 100000) \<and> (\<forall>n. d_settle d n < 100000) \<and> d_capacity d \<le> 0x10000000"

definition ata_hardware :: "ata_early \<Rightarrow> 'w ports \<Rightarrow> ('w \<Rightarrow> ata_drive) \<Rightarrow> 'w \<Rightarrow> bool" where
  "ata_hardware E P st w \<longleftrightarrow>
     port_sim ata_port_set P (drive_ports E) st \<and> drive_ok (st w) \<and> drive_ready (st w)"

lemma drive_ports_simps [simp]:
  "inb (drive_ports E) = drive_inb" "outb (drive_ports E) = drive_outb E"
  "inw (drive_ports E) = drive_inw" "outw (drive_ports E) = drive_outw"
  by (simp_all add: drive_ports_def)

lemma ata_port_set_mem [simp]:
  "ATA_DATA \<in> ata_port_set" "ATA_SECTOR_COUNT \<in> ata_port_set" "ATA_LBA0 \<in> ata_port_set"
  "ATA_LBA1 \<in> ata_port_set" "ATA_LBA2 \<in> ata_port_set" "ATA_DRIVE \<in> ata_port_set"
  "ATA_STATUS \<in> ata_port_set" "ATA_COMMAND \<in> ata_port_set" "ATA_CONTROL \<in> ata_port_set"
  by (simp_all add: ata_port_set_def ata_ports)

section \<open>Running on the hardware is running on the drive\<close>

lemma sim_step:
  assumes "port_sim ata_port_set P (drive_ports E) st" "p \<in> ata_port_set"
  shows "st (outb P p v w) = drive_outb E p v (st w)" "st (outw P p v' w) = drive_outw p v' (st w)"
    "fst (inb P p w) = fst (drive_inb p (st w))" "st (snd (inb P p w)) = snd (drive_inb p (st w))"
    "fst (inw P p w) = fst (drive_inw p (st w))" "st (snd (inw P p w)) = snd (drive_inw p (st w))"
  using port_sim_out [OF assms] port_sim_in [OF assms] by simp_all

lemma ata_poll_sim:
  assumes "port_sim ata_port_set P (drive_ports E) st"
  shows "map_prod id st (ata_poll P wanted n w) = ata_poll (drive_ports E) wanted n (st w)"
proof (induction n arbitrary: w)
  case (Suc n)
  show ?case using sim_step(3,4) [OF assms, of ATA_STATUS w] Suc
    by (simp add: split_beta)
qed simp

lemma ata_identify_poll_sim:
  assumes "port_sim ata_port_set P (drive_ports E) st"
  shows "map_prod id st (ata_identify_poll P n w) = ata_identify_poll (drive_ports E) n (st w)"
proof (induction n arbitrary: w)
  case (Suc n)
  show ?case using sim_step(3,4) [OF assms, of ATA_STATUS w] Suc
    by (simp add: split_beta)
qed simp

lemma ata_put_words_sim:
  assumes "port_sim ata_port_set P (drive_ports E) st"
  shows "st (ata_put_words P b off is w) = ata_put_words (drive_ports E) b off is (st w)"
  by (induction "is" arbitrary: w) (simp_all add: sim_step [OF assms])

lemma ata_get_words_sim:
  assumes "port_sim ata_port_set P (drive_ports E) st"
  shows "map_prod id st (ata_get_words P off is (b, w)) = ata_get_words (drive_ports E) off is (b, st w)"
proof (induction "is" arbitrary: b w)
  case (Cons i "is")
  obtain v w' where in': "inw P ATA_DATA w = (v, w')" by fastforce
  then have "drive_inw ATA_DATA (st w) = (v, st w')"
    using sim_step(5,6) [OF assms, of ATA_DATA w] by (simp add: prod_eq_iff)
  then show ?case using in' Cons by (simp add: fun_upd_def)
qed simp

lemma map_prod_idD: "map_prod id f p = (x, y) \<Longrightarrow> p = (x, snd p) \<and> f (snd p) = y"
  by (cases p) auto

lemma map_prod_idE:
  assumes "map_prod id f p = (x, y)"
  obtains z where "p = (x, z)" "f z = y"
  using map_prod_idD [OF assms] that [of "snd p"] by simp

lemma ata_delay_sim:
  assumes "port_sim ata_port_set P (drive_ports E) st"
  shows "st (ata_delay P w) = st w"
  by (simp add: ata_delay_def sim_step [OF assms] Let_def) (simp add: drive_inb_def ata_ports)

section \<open>The driver's parts on the drive\<close>

lemma drive_selected_updates [simp]:
  "drive_selected (d\<lparr>d_busy := n\<rparr>) = drive_selected d" "drive_selected (d\<lparr>d_phase := ph\<rparr>) = drive_selected d"
  "drive_selected (d\<lparr>d_medium := m\<rparr>) = drive_selected d" "drive_selected (drive_command c d) = drive_selected d"
  by (simp_all add: drive_selected_def drive_command_def)

lemma drive_drq_updates [simp]: "drive_drq (d\<lparr>d_busy := n\<rparr>) = drive_drq d"
  by (simp add: drive_drq_def)

lemma drive_poll_busy:
  "d_busy d < n \<Longrightarrow> drive_selected d \<Longrightarrow>
   ata_poll (drive_ports E) wanted n d = ata_poll (drive_ports E) wanted (n - d_busy d) (d\<lparr>d_busy := 0\<rparr>)"
proof (induction n arbitrary: d)
  case (Suc n)
  show ?case
  proof (cases "d_busy d")
    case (Suc k)
    then show ?thesis
      using Suc.IH [of "d\<lparr>d_busy := k\<rparr>"] Suc.prems
      by (simp add: drive_inb_def drive_status_def ata_ports ata_consts)
  next
    case 0
    then have "d\<lparr>d_busy := 0\<rparr> = d" by (cases d) simp
    with 0 show ?thesis by (simp only: diff_zero)
  qed
qed simp

lemma drive_poll:
  assumes "d_busy d < n" "drive_selected d"
  shows "d_phase d = Ata_Idle \<Longrightarrow> ata_poll (drive_ports E) 0 n d = (0, d\<lparr>d_busy := 0\<rparr>)"
    and "drive_drq d \<Longrightarrow> ata_poll (drive_ports E) ATA_STATUS_DRQ n d = (0, d\<lparr>d_busy := 0\<rparr>)"
    and "d_phase d = Ata_Err \<Longrightarrow> ata_poll (drive_ports E) wanted n d = (-1, d\<lparr>d_busy := 0\<rparr>)"
proof -
  obtain m where m: "n - d_busy d = Suc m" using assms(1) by (metis Suc_diff_Suc)
  show "d_phase d = Ata_Idle \<Longrightarrow> ata_poll (drive_ports E) 0 n d = (0, d\<lparr>d_busy := 0\<rparr>)"
    "drive_drq d \<Longrightarrow> ata_poll (drive_ports E) ATA_STATUS_DRQ n d = (0, d\<lparr>d_busy := 0\<rparr>)"
    "d_phase d = Ata_Err \<Longrightarrow> ata_poll (drive_ports E) wanted n d = (-1, d\<lparr>d_busy := 0\<rparr>)"
    using assms(2)
    by (simp_all add: drive_poll_busy [OF assms] m drive_inb_def drive_status_def ata_ports ata_consts)
      (simp_all add: drive_drq_def)
qed

lemma drive_get_words:
  "k < 256 \<Longrightarrow> d_phase d = Ata_In [src] k \<Longrightarrow> d_busy d = 0 \<Longrightarrow> drive_selected d \<Longrightarrow>
   ata_get_words (drive_ports E) off [k..<256] (b, d) =
     (\<lambda>i. if off + 2 * k \<le> i \<and> i < off + 512 then src (i - off) else b i, d\<lparr>d_phase := Ata_Idle\<rparr>)"
proof (induction "255 - k" arbitrary: k b d)
  case 0
  then have k: "k = 255" by simp
  have "[255..<256] = [255 :: nat]" by (simp add: upt_rec)
  then show ?case using 0
    by (auto simp: k drive_inw_def ATA_DATA_def fun_eq_iff)
next
  case (Suc n)
  have u: "[k..<256] = k # [Suc k..<256]" using Suc.prems by (simp add: upt_conv_Cons)
  let ?b = "b(off + 2 * k := src (2 * k), Suc (off + 2 * k) := src (Suc (2 * k)))"
  have "ata_get_words (drive_ports E) off [k..<256] (b, d) =
      ata_get_words (drive_ports E) off [Suc k..<256] (?b, d\<lparr>d_phase := Ata_In [src] (Suc k)\<rparr>)"
    using Suc by (simp add: u drive_inw_def ATA_DATA_def)
  also have "\<dots> = (\<lambda>i. if off + 2 * Suc k \<le> i \<and> i < off + 512 then src (i - off) else ?b i, d\<lparr>d_phase := Ata_Idle\<rparr>)"
    using Suc by (subst Suc.hyps(1)) simp_all
  finally show ?case using Suc.prems by (auto simp: fun_eq_iff)
qed

text \<open>After the last word of a write of one sector the drive is busy storing it.\<close>

lemma drive_put_words:
  "k < 256 \<Longrightarrow> d_phase d = Ata_Out l 1 k \<Longrightarrow> d_busy d = 0 \<Longrightarrow> drive_selected d \<Longrightarrow>
   ata_put_words (drive_ports E) b off [k..<256] d =
     d\<lparr>d_phase := Ata_Idle, d_busy := d_settle d (d_commands d), d_medium := (d_medium d)(l :=
        \<lambda>i. if 2 * k \<le> i \<and> i < 512 then b (off + i) else d_medium d l i)\<rparr>"
proof (induction "255 - k" arbitrary: k d)
  case 0
  then have k: "k = 255" by simp
  have l: "[k..<256] = [k]" by (simp add: k upt_rec)
  have "ata_put_words (drive_ports E) b off [k..<256] d =
      d\<lparr>d_phase := Ata_Idle, d_busy := d_settle d (d_commands d), d_medium := (d_medium d)(l :=
        (d_medium d l)(510 := b (off + 510), 511 := b (off + 511)))\<rparr>"
    unfolding l using 0(3-5) by (simp add: k drive_outw_def ATA_DATA_def add.commute [of off])
  moreover have "(d_medium d l)(510 := b (off + 510), 511 := b (off + 511)) =
      (\<lambda>i. if 2 * k \<le> i \<and> i < 512 then b (off + i) else d_medium d l i)"
    by (auto simp: fun_eq_iff k)
  ultimately show ?case by (simp only:)
next
  case (Suc n)
  have u: "[k..<256] = k # [Suc k..<256]" using Suc.prems by (simp add: upt_conv_Cons)
  have pre: "n = 255 - Suc k" "Suc k < 256" using Suc.hyps(2) by simp_all
  let ?d = "drive_outw ATA_DATA (word_of (b (off + 2 * k)) (b (off + 2 * k + 1))) d"
  have d: "d_phase ?d = Ata_Out l 1 (Suc k)" "d_busy ?d = 0" "drive_selected ?d"
    "?d = d\<lparr>d_phase := Ata_Out l 1 (Suc k), d_medium := (d_medium d)(l :=
        (d_medium d l)(2 * k := b (off + 2 * k), 2 * k + 1 := b (off + 2 * k + 1)))\<rparr>"
    using Suc.prems pre(2) by (simp_all add: drive_outw_def ATA_DATA_def Let_def)
  have "ata_put_words (drive_ports E) b off [k..<256] d = ata_put_words (drive_ports E) b off [Suc k..<256] ?d"
    by (simp add: u)
  also have "\<dots> = ?d\<lparr>d_phase := Ata_Idle, d_busy := d_settle ?d (d_commands ?d), d_medium := (d_medium ?d)(l :=
        \<lambda>i. if 2 * Suc k \<le> i \<and> i < 512 then b (off + i) else d_medium ?d l i)\<rparr>"
    by (rule Suc.hyps(1) [OF pre d(1-3)])
  also have "\<dots> = d\<lparr>d_phase := Ata_Idle, d_busy := d_settle d (d_commands d), d_medium := (d_medium d)(l :=
        \<lambda>i. if 2 * Suc k \<le> i \<and> i < 512 then b (off + i)
          else ((d_medium d l)(2 * k := b (off + 2 * k), 2 * k + 1 := b (off + 2 * k + 1))) i)\<rparr>"
    unfolding d(4) by (simp cong: if_cong)
  also have "(\<lambda>i. if 2 * Suc k \<le> i \<and> i < 512 then b (off + i)
        else ((d_medium d l)(2 * k := b (off + 2 * k), 2 * k + 1 := b (off + 2 * k + 1))) i) =
      (\<lambda>i. if 2 * k \<le> i \<and> i < 512 then b (off + i) else d_medium d l i)"
    using Suc.prems by (auto simp: fun_eq_iff)
  finally show ?case .
qed

section \<open>One transfer\<close>

lemma select_nibble:
  "lba < 0x10000000 \<Longrightarrow> unat (ucast (0xe0 OR (drop_bit 24 lba AND 0x0f)) AND 0x0f :: u8) = unat (lba :: u32) div 16777216"
proof -
  assume "lba < 0x10000000"
  then have lt: "unat lba div 16777216 < 16" by (simp add: word_less_nat_alt less_mult_imp_div_less)
  have m: "(0xe0 :: u32) = push_bit 5 (mask 3)" "(0x0f :: u32) = mask 4" "(0x0f :: u8) = mask 4"
    by (simp_all add: mask_eq_exp_minus_1)
  have "ucast (0xe0 OR (drop_bit 24 lba AND 0x0f)) AND 0x0f = (ucast (drop_bit 24 lba) AND mask 4 :: u8)"
    unfolding m by (intro bit_word_eqI) (auto simp: bit_simps)
  then have "unat (ucast (0xe0 OR (drop_bit 24 lba AND 0x0f)) AND 0x0f :: u8) = unat lba div 16777216 mod 16"
    by (simp add: take_bit_eq_mask [symmetric] unsigned_take_bit_eq unsigned_ucast_eq take_bit_eq_mod
      drop_bit_eq_div unat_div_distrib unat_mod_distrib mod_mod_cancel)
  with lt show ?thesis by simp
qed

lemma lba_bytes: "(n :: nat) mod 256 + 256 * (n div 256 mod 256) + 65536 * (n div 65536 mod 256)
    + 16777216 * (n div 16777216) = n"
proof -
  have "n div 65536 = n div 256 div 256" "n div 16777216 = n div 256 div 256 div 256"
    by (simp_all add: div_mult2_eq [symmetric])
  moreover have "a + 256 * b + 65536 * c + 16777216 * q3 = n"
    if "a + 256 * q1 = n" "b + 256 * q2 = q1" "c + 256 * q3 = q2" for a b c q1 q2 q3 :: nat
    using that by auto
  ultimately show ?thesis by (metis mod_mult_div_eq)
qed

lemma select_bits: "ucast (0xe0 OR (drop_bit 24 (lba :: u32) AND 0x0f)) AND 0x10 = (0 :: u8)"
  "ucast (0xe0 OR (drop_bit 24 (lba :: u32) AND 0x0f)) AND 0x40 \<noteq> (0 :: u8)"
proof -
  have m: "(0xe0 :: u32) = push_bit 5 (mask 3)" "(0x0f :: u32) = mask 4"
    by (simp_all add: mask_eq_exp_minus_1)
  have p: "(0x10 :: u8) = 2 ^ 4" "(0x40 :: u8) = 2 ^ 6" by simp_all
  show "ucast (0xe0 OR (drop_bit 24 lba AND 0x0f)) AND 0x10 = (0 :: u8)"
    unfolding m p and_exp_eq_0_iff_not_bit by (simp add: bit_simps)
  show "ucast (0xe0 OR (drop_bit 24 lba AND 0x0f)) AND 0x40 \<noteq> (0 :: u8)"
    unfolding m p and_exp_eq_0_iff_not_bit by (simp add: bit_simps)
qed

text \<open>What selecting a sector leaves in the drive: one sector, addressed by LBA, of device 0.\<close>

definition drive_at :: "u32 \<Rightarrow> ata_drive \<Rightarrow> ata_drive" where
  "drive_at lba d = d\<lparr>d_select := ucast (0xe0 OR (drop_bit 24 lba AND 0x0f)), d_count := 1,
      d_lba0 := ucast lba, d_lba1 := ucast (drop_bit 8 lba), d_lba2 := ucast (drop_bit 16 lba)\<rparr>"

lemma drive_at_simps [simp]:
  "d_medium (drive_at lba d) = d_medium d" "d_capacity (drive_at lba d) = d_capacity d"
  "d_delay (drive_at lba d) = d_delay d" "d_settle (drive_at lba d) = d_settle d"
  "d_ident (drive_at lba d) = d_ident d" "d_busy (drive_at lba d) = d_busy d"
  "d_phase (drive_at lba d) = d_phase d" "d_commands (drive_at lba d) = d_commands d"
  "drive_selected (drive_at lba d)" "drive_sectors (drive_at lba d) = 1"
  by (simp_all add: drive_at_def drive_selected_def drive_sectors_def select_bits)

lemma drive_at_lba: "lba < 0x10000000 \<Longrightarrow> drive_lba (drive_at lba d) = unat lba"
  using lba_bytes [of "unat lba"] select_nibble [of lba]
  by (simp add: drive_at_def drive_lba_def select_bits)
    (simp add: unsigned_ucast_eq take_bit_eq_mod drop_bit_eq_div unat_div_distrib)

lemma drive_ready_at [simp]: "drive_ready (drive_at lba d) = drive_ready d"
  by (simp add: drive_ready_def drive_drq_def)

lemma drive_ready_updates [simp]:
  "drive_ready (d\<lparr>d_select := v\<rparr>) = drive_ready d" "drive_ready (d\<lparr>d_count := v\<rparr>) = drive_ready d"
  "drive_ready (d\<lparr>d_lba0 := v\<rparr>) = drive_ready d" "drive_ready (d\<lparr>d_lba1 := v\<rparr>) = drive_ready d"
  "drive_ready (d\<lparr>d_lba2 := v\<rparr>) = drive_ready d"
  by (simp_all add: drive_ready_def drive_drq_def)

lemma ata_select_drive:
  assumes "ata_hardware E P st w" "lba < 0x10000000"
  obtains w' where "ata_select P lba w = (0, w')" "st w' = drive_at lba (st w)" "ata_hardware E P st w'"
proof
  have sim: "port_sim ata_port_set P (drive_ports E) st" and rdy: "drive_ready (st w)"
    using assms(1) by (simp_all add: ata_hardware_def)
  show "ata_select P lba w = (0, snd (ata_select P lba w))"
    using assms(2) by (simp add: ata_select_def Let_def not_le [symmetric])
  show st: "st (snd (ata_select P lba w)) = drive_at lba (st w)"
    using assms(2) rdy by (simp add: ata_select_def Let_def not_le [symmetric] sim_step [OF sim]
      ata_delay_sim [OF sim]) (simp add: drive_outb_def drive_at_def ata_ports)
  show "ata_hardware E P st (snd (ata_select P lba w))"
    using assms(1) by (simp add: ata_hardware_def drive_ok_def st)
qed

text \<open>A command written to a drive that is ready and selected.\<close>

lemma ata_command_step:
  assumes "ata_hardware E P st w" "drive_selected (st w)"
  shows "st (outb P ATA_COMMAND c w) = drive_command c (st w)"
  using assms by (simp add: ata_hardware_def sim_step [where E = E]) (simp add: drive_outb_def ata_ports)

lemma ata_wait_drive:
  assumes "port_sim ata_port_set P (drive_ports E) st" "d_busy (st w1) < 100000" "drive_selected (st w1)"
  shows "d_phase (st w1) = Ata_Idle \<Longrightarrow> \<exists>w'. ata_wait P 0 w1 = (0, w') \<and> st w' = (st w1)\<lparr>d_busy := 0\<rparr>"
    and "drive_drq (st w1) \<Longrightarrow> \<exists>w'. ata_wait P ATA_STATUS_DRQ w1 = (0, w') \<and> st w' = (st w1)\<lparr>d_busy := 0\<rparr>"
    and "d_phase (st w1) = Ata_Err \<Longrightarrow> \<exists>w'. ata_wait P wanted w1 = (-1, w') \<and> st w' = (st w1)\<lparr>d_busy := 0\<rparr>"
proof -
  have b: "d_busy (st w1) < ATA_TIMEOUT" using assms(2) by (simp add: ATA_TIMEOUT_def)
  have sim: "\<exists>w'. ata_wait P wanted w1 = (r, w') \<and> st w' = d"
    if "ata_poll (drive_ports E) wanted ATA_TIMEOUT (st w1) = (r, d)" for wanted r d
    using map_prod_idD [OF trans [OF ata_poll_sim [OF assms(1)] that]] unfolding ata_wait_def by blast
  show "d_phase (st w1) = Ata_Idle \<Longrightarrow> \<exists>w'. ata_wait P 0 w1 = (0, w') \<and> st w' = (st w1)\<lparr>d_busy := 0\<rparr>"
    by (intro sim drive_poll(1) [OF b assms(3)])
  show "drive_drq (st w1) \<Longrightarrow> \<exists>w'. ata_wait P ATA_STATUS_DRQ w1 = (0, w') \<and> st w' = (st w1)\<lparr>d_busy := 0\<rparr>"
    by (intro sim drive_poll(2) [OF b assms(3)])
  show "d_phase (st w1) = Ata_Err \<Longrightarrow> \<exists>w'. ata_wait P wanted w1 = (-1, w') \<and> st w' = (st w1)\<lparr>d_busy := 0\<rparr>"
    by (intro sim drive_poll(3) [OF b assms(3)])
qed

end
