(* ===== verification/Ata_Props.thy ===== *)
theory Ata_Props
  imports Ata_Drive
begin

text \<open>
  Correctness of the ATA driver on a drive that follows the register protocol of \<open>Ata_Drive\<close>: reads
  return the sectors of the medium. A write transfers exactly the addressed sectors and then writes
  the flush command without waiting for the drive to leave its busy state, which the protocol
  forbids; it is correct on drives that tolerate this, and so is the sector device that
  initialisation registers with the block layer. The last section proves the driver's
  behaviour on arbitrary hardware: bounded polling and no port access on refused arguments.
\<close>

section \<open>One sector\<close>

text \<open>The same drive, and again ready for commands.\<close>

definition same_drive :: "ata_drive \<Rightarrow> ata_drive \<Rightarrow> bool" where
  "same_drive d d' \<longleftrightarrow> d_delay d' = d_delay d \<and> d_settle d' = d_settle d \<and> d_capacity d' = d_capacity d \<and>
     d_ident d' = d_ident d \<and> drive_ready d'"

text \<open>
  The flush that follows the last data word is tolerated by a drive that has stored the block by
  then, and by one on which a flush written while it is still busy changes neither the medium nor
  the way it answers later (it ignores the command, or executes it afterwards).
\<close>

definition early_flush_harmless :: "ata_early \<Rightarrow> bool" where
  "early_flush_harmless E \<longleftrightarrow> (\<forall>d. d_phase d = Ata_Idle \<and> 0 < d_busy d \<and> d_busy d < 100000 \<and> drive_selected d \<longrightarrow>
     (let d' = E 0x1f7 0xe7 d in
        d_delay d' = d_delay d \<and> d_settle d' = d_settle d \<and> d_capacity d' = d_capacity d \<and> d_ident d' = d_ident d \<and>
        d_medium d' = d_medium d \<and> d_phase d' = Ata_Idle \<and> d_busy d' < 100000 \<and> drive_selected d'))"

definition flush_tolerated :: "ata_early \<Rightarrow> ata_drive \<Rightarrow> bool" where
  "flush_tolerated E d \<longleftrightarrow> (\<forall>n. d_settle d n = 0) \<or> early_flush_harmless E"

lemma same_drive_hardware:
  "ata_hardware E P st w \<Longrightarrow> same_drive (st w) (st w') \<Longrightarrow> ata_hardware E P st w'"
  by (simp add: ata_hardware_def drive_ok_def same_drive_def)

lemma same_drive_refl: "ata_hardware E P st w \<Longrightarrow> same_drive (st w) (st w)"
  by (simp add: ata_hardware_def same_drive_def)

lemma same_drive_tolerated: "same_drive d d' \<Longrightarrow> flush_tolerated E d \<Longrightarrow> flush_tolerated E d'"
  by (simp add: flush_tolerated_def same_drive_def)

lemma drive_ready_idle [simp]: "d_phase d = Ata_Idle \<or> d_phase d = Ata_Err \<Longrightarrow> drive_ready d = (d_busy d = 0)"
  by (auto simp: drive_ready_def drive_drq_def)

lemma ata_hardware_cap:
  assumes "ata_hardware E P st w" "unat (lba :: u32) < d_capacity (st w)"
  shows "port_sim ata_port_set P (drive_ports E) st" "lba < 0x10000000"
  using assms by (simp_all add: ata_hardware_def drive_ok_def word_less_nat_alt)

lemma command_busy: "ata_hardware E P st w \<Longrightarrow> d_busy (drive_command c (st w)) < 100000"
  by (simp add: ata_hardware_def drive_ok_def drive_command_def)

lemma ata_transfer_read:
  assumes hw: "ata_hardware E P st w" and lba: "unat lba < d_capacity (st w)"
  obtains w' where "ata_transfer P True lba (Some b) off False w =
      (0, Some (\<lambda>i. if off \<le> i \<and> i < off + 512 then d_medium (st w) (unat lba) (i - off) else b i), w')"
    "same_drive (st w) (st w')" "d_medium (st w') = d_medium (st w)"
proof -
  note sim = ata_hardware_cap(1) [OF assms] and lt = ata_hardware_cap(2) [OF assms]
  obtain w1 where w1: "ata_select P lba w = (0, w1)" "st w1 = drive_at lba (st w)" "ata_hardware E P st w1"
    by (rule ata_select_drive [OF hw lt])
  define w2 where "w2 = outb P ATA_COMMAND ATA_CMD_READ w1"
  have st2: "st w2 = drive_command ATA_CMD_READ (st w1)"
    unfolding w2_def by (rule ata_command_step [OF w1(3)]) (simp add: w1)
  then have ph: "d_phase (st w2) = Ata_In [d_medium (st w) (unat lba)] 0"
    using w1(2) lba lt by (simp add: drive_command_def ATA_CMD_READ_def drive_at_lba)
  have sel: "drive_selected (st w2)" by (simp add: st2 w1)
  obtain w3 where w3: "ata_wait P ATA_STATUS_DRQ w2 = (0, w3)" "st w3 = (st w2)\<lparr>d_busy := 0\<rparr>"
    using ata_wait_drive(2) [OF sim _ sel] command_busy [OF w1(3)] ph by (auto simp: drive_drq_def st2)
  have "map_prod id st (ata_get_words P off [0..<256] (b, w3)) =
      (\<lambda>i. if off \<le> i \<and> i < off + 512 then d_medium (st w) (unat lba) (i - off) else b i, (st w3)\<lparr>d_phase := Ata_Idle\<rparr>)"
    unfolding ata_get_words_sim [OF sim] using drive_get_words [of 0 "st w3"] by (simp add: w3 ph sel)
  then obtain w4 where w4: "ata_get_words P off [0..<256] (b, w3) =
      (\<lambda>i. if off \<le> i \<and> i < off + 512 then d_medium (st w) (unat lba) (i - off) else b i, w4)"
    "st w4 = (st w3)\<lparr>d_phase := Ata_Idle\<rparr>"
    by (rule map_prod_idE)
  have "ata_transfer P True lba (Some b) off False w =
      (0, Some (\<lambda>i. if off \<le> i \<and> i < off + 512 then d_medium (st w) (unat lba) (i - off) else b i), w4)"
    by (simp add: ata_transfer_def w1(1) w2_def [symmetric] w3(1) w4(1) del: upt_rec_numeral)
  moreover have "same_drive (st w) (st w4)" "d_medium (st w4) = d_medium (st w)"
    by (simp_all add: same_drive_def w4 w3 st2 drive_command_def w1)
  ultimately show thesis by (rule that)
qed

text \<open>A write up to its last data word, on any drive: the sector is on the medium and the drive is
  busy for as long as it takes it to store the block; the flush command follows at once.\<close>

lemma ata_transfer_words:
  assumes hw: "ata_hardware E P st w" and lba: "unat lba < d_capacity (st w)"
  obtains w' where "ata_transfer P True lba (Some b) off True w =
      (case ata_wait P 0 (outb P ATA_COMMAND ATA_CMD_CACHE_FLUSH w') of (r, w) \<Rightarrow> (r, Some b, w))"
    "st w' = (drive_at lba (st w))\<lparr>d_phase := Ata_Idle, d_commands := Suc (d_commands (st w)),
       d_busy := d_settle (st w) (Suc (d_commands (st w))),
       d_medium := (d_medium (st w))(unat lba :=
         \<lambda>i. if i < 512 then b (off + i) else d_medium (st w) (unat lba) i)\<rparr>"
proof -
  note sim = ata_hardware_cap(1) [OF assms] and lt = ata_hardware_cap(2) [OF assms]
  obtain w1 where w1: "ata_select P lba w = (0, w1)" "st w1 = drive_at lba (st w)" "ata_hardware E P st w1"
    by (rule ata_select_drive [OF hw lt])
  define w2 where "w2 = outb P ATA_COMMAND ATA_CMD_WRITE w1"
  have st2: "st w2 = drive_command ATA_CMD_WRITE (st w1)"
    unfolding w2_def by (rule ata_command_step [OF w1(3)]) (simp add: w1)
  then have ph: "d_phase (st w2) = Ata_Out (unat lba) 1 0"
    using w1(2) lba lt by (simp add: drive_command_def ATA_CMD_WRITE_def drive_at_lba)
  have sel: "drive_selected (st w2)" by (simp add: st2 w1)
  obtain w3 where w3: "ata_wait P ATA_STATUS_DRQ w2 = (0, w3)" "st w3 = (st w2)\<lparr>d_busy := 0\<rparr>"
    using ata_wait_drive(2) [OF sim _ sel] command_busy [OF w1(3)] ph by (auto simp: drive_drq_def st2)
  define w4 where "w4 = ata_put_words P b off [0..<256] w3"
  have st3: "d_phase (st w3) = Ata_Out (unat lba) 1 0" "d_busy (st w3) = 0" "drive_selected (st w3)"
    using ph sel by (simp_all add: w3)
  have "st w4 = (drive_at lba (st w))\<lparr>d_phase := Ata_Idle, d_commands := Suc (d_commands (st w)),
       d_busy := d_settle (st w) (Suc (d_commands (st w))),
       d_medium := (d_medium (st w))(unat lba :=
         \<lambda>i. if i < 512 then b (off + i) else d_medium (st w) (unat lba) i)\<rparr>"
    unfolding w4_def ata_put_words_sim [OF sim] drive_put_words [OF _ st3, simplified]
    by (simp add: w3 st2 drive_command_def w1 cong: if_cong)
  moreover have "ata_transfer P True lba (Some b) off True w =
      (case ata_wait P 0 (outb P ATA_COMMAND ATA_CMD_CACHE_FLUSH w4) of (r, w) \<Rightarrow> (r, Some b, w))"
    by (simp add: ata_transfer_def w1(1) w2_def [symmetric] w3(1) w4_def [symmetric] del: upt_rec_numeral)
  ultimately show thesis using that by blast
qed

lemma ata_flush_tolerated:
  assumes sim: "port_sim ata_port_set P (drive_ports E) st" and ok: "drive_ok (st w)" "flush_tolerated E (st w)"
    and st: "d_phase (st w) = Ata_Idle" "d_busy (st w) = d_settle (st w) k" "drive_selected (st w)"
  obtains w' where "ata_wait P 0 (outb P ATA_COMMAND ATA_CMD_CACHE_FLUSH w) = (0, w')"
    "same_drive (st w) (st w')" "d_medium (st w') = d_medium (st w)"
proof -
  define w1 where "w1 = outb P ATA_COMMAND ATA_CMD_CACHE_FLUSH w"
  have st1: "st w1 = (if d_busy (st w) = 0 then drive_command 0xe7 (st w) else E 0x1f7 0xe7 (st w))"
    using st by (simp add: w1_def sim_step [OF sim])
      (simp add: drive_outb_def drive_ready_def drive_drq_def ata_ports ATA_CMD_CACHE_FLUSH_def)
  have s1: "d_phase (st w1) = Ata_Idle \<and> d_busy (st w1) < 100000 \<and> drive_selected (st w1) \<and>
      d_medium (st w1) = d_medium (st w) \<and> d_delay (st w1) = d_delay (st w) \<and> d_settle (st w1) = d_settle (st w) \<and>
      d_capacity (st w1) = d_capacity (st w) \<and> d_ident (st w1) = d_ident (st w)"
  proof (cases "d_busy (st w) = 0")
    case True
    then show ?thesis using st ok(1) by (simp add: st1 drive_ok_def) (simp add: drive_command_def)
  next
    case False
    then have "early_flush_harmless E" "d_busy (st w) < 100000"
      using ok st(2) by (auto simp: flush_tolerated_def drive_ok_def)
    then show ?thesis using False st by (simp add: st1 early_flush_harmless_def Let_def)
  qed
  then obtain w2 where w2: "ata_wait P 0 w1 = (0, w2)" "st w2 = (st w1)\<lparr>d_busy := 0\<rparr>"
    using ata_wait_drive(1) [OF sim] by blast
  show thesis
  proof (rule that)
    show "ata_wait P 0 (outb P ATA_COMMAND ATA_CMD_CACHE_FLUSH w) = (0, w2)" using w2(1) by (simp add: w1_def)
    show "same_drive (st w) (st w2)" "d_medium (st w2) = d_medium (st w)"
      using s1 by (simp_all add: w2 same_drive_def)
  qed
qed

lemma ata_transfer_write:
  assumes hw: "ata_hardware E P st w" and tol: "flush_tolerated E (st w)" and lba: "unat lba < d_capacity (st w)"
  obtains w' where "ata_transfer P True lba (Some b) off True w = (0, Some b, w')"
    "same_drive (st w) (st w')"
    "d_medium (st w') = (d_medium (st w))(unat lba :=
       \<lambda>i. if i < 512 then b (off + i) else d_medium (st w) (unat lba) i)"
proof -
  obtain w1 where w1: "ata_transfer P True lba (Some b) off True w =
      (case ata_wait P 0 (outb P ATA_COMMAND ATA_CMD_CACHE_FLUSH w1) of (r, w) \<Rightarrow> (r, Some b, w))"
    "st w1 = (drive_at lba (st w))\<lparr>d_phase := Ata_Idle, d_commands := Suc (d_commands (st w)),
       d_busy := d_settle (st w) (Suc (d_commands (st w))),
       d_medium := (d_medium (st w))(unat lba :=
         \<lambda>i. if i < 512 then b (off + i) else d_medium (st w) (unat lba) i)\<rparr>"
    by (rule ata_transfer_words [OF hw lba])
  have s1: "drive_ok (st w1)" "flush_tolerated E (st w1)" "d_phase (st w1) = Ata_Idle"
    "d_busy (st w1) = d_settle (st w1) (Suc (d_commands (st w)))" "drive_selected (st w1)"
    using hw tol drive_at_simps(9) [of lba "st w"] unfolding drive_selected_def
    by (simp_all add: w1(2) ata_hardware_def drive_ok_def flush_tolerated_def)
  obtain w2 where "ata_wait P 0 (outb P ATA_COMMAND ATA_CMD_CACHE_FLUSH w1) = (0, w2)"
    "same_drive (st w1) (st w2)" "d_medium (st w2) = d_medium (st w1)"
    by (rule ata_flush_tolerated [OF ata_hardware_cap(1) [OF hw lba] s1])
  then show thesis by (intro that [of w2]) (simp_all add: w1 same_drive_def)
qed

lemma ata_transfer_beyond:
  assumes hw: "ata_hardware E P st w" and lba: "d_capacity (st w) \<le> unat lba"
  obtains w' where "ata_transfer P True lba (Some b) off write w = (-1, Some b, w')"
    "same_drive (st w) (st w')" "d_medium (st w') = d_medium (st w)"
proof (cases "lba < 0x10000000")
  case False
  then have "ata_transfer P True lba (Some b) off write w = (-1, Some b, w)"
    by (simp add: ata_transfer_def ata_select_def not_less)
  then show thesis by (rule that) (simp_all add: same_drive_refl [OF hw])
next
  case True
  have sim: "port_sim ata_port_set P (drive_ports E) st" using hw by (simp add: ata_hardware_def)
  obtain w1 where w1: "ata_select P lba w = (0, w1)" "st w1 = drive_at lba (st w)" "ata_hardware E P st w1"
    by (rule ata_select_drive [OF hw True])
  let ?c = "if write then ATA_CMD_WRITE else ATA_CMD_READ"
  define w2 where "w2 = outb P ATA_COMMAND ?c w1"
  have st2: "st w2 = drive_command ?c (st w1)"
    unfolding w2_def by (rule ata_command_step [OF w1(3)]) (simp add: w1)
  then have ph: "d_phase (st w2) = Ata_Err"
    using w1(2) lba True by (simp add: drive_command_def ATA_CMD_READ_def ATA_CMD_WRITE_def drive_at_lba)
  obtain w3 where w3: "ata_wait P ATA_STATUS_DRQ w2 = (-1, w3)" "st w3 = (st w2)\<lparr>d_busy := 0\<rparr>"
    using ata_wait_drive(3) [OF sim, of w2] command_busy [OF w1(3)] ph by (auto simp: st2 w1(2))
  have "ata_transfer P True lba (Some b) off write w = (-1, Some b, w3)"
    by (simp add: ata_transfer_def w1(1) w2_def [symmetric] w3(1))
  moreover have "d_phase (st w3) = Ata_Err" "d_busy (st w3) = 0" using ph by (simp_all add: w3)
  ultimately show thesis
    by (intro that [of w3]) (simp_all add: same_drive_def, simp_all add: w3 st2 drive_command_def w1)
qed

section \<open>Runs of sectors\<close>

lemma unat_sector_args:
  assumes "unat lba + unat i < 0x10000000" "unat i < 0x800000"
  shows "unat (lba + i :: u32) = unat lba + unat i" "unat (i * 512) = unat i * 512"
    "unat (i + 1) = Suc (unat i)"
  using assms by (simp_all add: unat_word_ariths)

lemma sector_offset:
  assumes "i * 512 \<le> j" "j < i * 512 + (512 :: nat)"
  shows "j div 512 = i" "j mod 512 = j - i * 512"
proof -
  show q: "j div 512 = i" using assms by (intro div_nat_eqI) simp_all
  show "j mod 512 = j - i * 512" using q minus_div_mult_eq_mod [of j 512] by simp
qed

lemma ata_sectors_read:
  "ata_hardware E P st w \<Longrightarrow> unat lba + unat i + n \<le> d_capacity (st w) \<Longrightarrow> unat i + n \<le> 0x800000 \<Longrightarrow>
   \<exists>w'. ata_sectors P True lba False n i (Some b) w =
      (0, Some (\<lambda>j. if unat i * 512 \<le> j \<and> j < (unat i + n) * 512
                    then d_medium (st w) (unat lba + j div 512) (j mod 512) else b j), w') \<and>
     same_drive (st w) (st w') \<and> d_medium (st w') = d_medium (st w)"
proof (induction n arbitrary: i b w)
  case 0
  then show ?case using same_drive_refl by (auto simp: fun_eq_iff)
next
  case (Suc n)
  have cap: "d_capacity (st w) \<le> 0x10000000"
    using Suc.prems(1) by (simp add: ata_hardware_def drive_ok_def)
  note args = unat_sector_args [of lba i]
  have u: "unat (lba + i) = unat lba + unat i" "unat (i * 512) = unat i * 512" "unat (i + 1) = Suc (unat i)"
    using args Suc.prems(2,3) cap by simp_all
  have lt: "unat (lba + i) < d_capacity (st w)" using Suc.prems(2) u by simp
  define b1 where "b1 = (\<lambda>j. if unat i * 512 \<le> j \<and> j < unat i * 512 + 512 then d_medium (st w) (unat lba + unat i) (j - unat i * 512) else b j)"
  obtain w1 where
    w1: "ata_transfer P True (lba + i) (Some b) (unat i * 512) False w =
      (0, Some b1, w1)"
    "same_drive (st w) (st w1)" "d_medium (st w1) = d_medium (st w)"
    by (rule ata_transfer_read [OF Suc.prems(1) lt, of b "unat (i * 512)", unfolded u, folded b1_def])
  have hw1: "ata_hardware E P st w1" by (rule same_drive_hardware [OF Suc.prems(1) w1(2)])
  have pre: "unat lba + unat (i + 1) + n \<le> d_capacity (st w1)" "unat (i + 1) + n \<le> 0x800000"
    using Suc.prems(2,3) w1(2) by (simp_all add: u same_drive_def)
  obtain w2 where w2: "ata_sectors P True lba False n (i + 1)
      (Some b1) w1 =
      (0, Some (\<lambda>j. if Suc (unat i) * 512 \<le> j \<and> j < (Suc (unat i) + n) * 512
                    then d_medium (st w) (unat lba + j div 512) (j mod 512)
                    else b1 j), w2)"
     "same_drive (st w1) (st w2)" "d_medium (st w2) = d_medium (st w1)"
    using Suc.IH [OF hw1 pre, of b1, unfolded u w1(3)] w1(3) by auto
  have "(\<lambda>j. if Suc (unat i) * 512 \<le> j \<and> j < (Suc (unat i) + n) * 512
                    then d_medium (st w) (unat lba + j div 512) (j mod 512)
                    else b1 j)
      = (\<lambda>j. if unat i * 512 \<le> j \<and> j < (unat i + Suc n) * 512
                    then d_medium (st w) (unat lba + j div 512) (j mod 512) else b j)"
    using sector_offset by (auto simp: fun_eq_iff b1_def)
  then show ?case using w1 w2 by (auto simp: same_drive_def u)
qed

lemma ata_sectors_write:
  "ata_hardware E P st w \<Longrightarrow> flush_tolerated E (st w) \<Longrightarrow> unat lba + unat i + n \<le> d_capacity (st w) \<Longrightarrow> unat i + n \<le> 0x800000 \<Longrightarrow>
   \<exists>w'. ata_sectors P True lba True n i (Some b) w = (0, Some b, w') \<and>
     same_drive (st w) (st w') \<and>
     d_medium (st w') = (\<lambda>k. if unat lba + unat i \<le> k \<and> k < unat lba + unat i + n
        then (\<lambda>j. if j < 512 then b ((k - unat lba) * 512 + j) else d_medium (st w) k j) else d_medium (st w) k)"
proof (induction n arbitrary: i w)
  case 0
  then show ?case using same_drive_refl by (auto simp: fun_eq_iff)
next
  case (Suc n)
  have cap: "d_capacity (st w) \<le> 0x10000000"
    using Suc.prems(1) by (simp add: ata_hardware_def drive_ok_def)
  note args = unat_sector_args [of lba i]
  have u: "unat (lba + i) = unat lba + unat i" "unat (i * 512) = unat i * 512" "unat (i + 1) = Suc (unat i)"
    using args Suc.prems(3,4) cap by simp_all
  have lt: "unat (lba + i) < d_capacity (st w)" using Suc.prems(3) u by simp
  obtain w1 where
    w1: "ata_transfer P True (lba + i) (Some b) (unat i * 512) True w = (0, Some b, w1)"
    "same_drive (st w) (st w1)"
    "d_medium (st w1) = (d_medium (st w))(unat lba + unat i :=
       \<lambda>j. if j < 512 then b (unat i * 512 + j) else d_medium (st w) (unat lba + unat i) j)"
    by (rule ata_transfer_write [OF Suc.prems(1,2) lt, of b "unat (i * 512)", unfolded u])
  have hw1: "ata_hardware E P st w1" by (rule same_drive_hardware [OF Suc.prems(1) w1(2)])
  have pre: "unat lba + unat (i + 1) + n \<le> d_capacity (st w1)" "unat (i + 1) + n \<le> 0x800000"
    using Suc.prems(3,4) w1(2) by (simp_all add: u same_drive_def)
  obtain w2 where w2: "ata_sectors P True lba True n (i + 1) (Some b) w1 = (0, Some b, w2)"
     "same_drive (st w1) (st w2)"
     "d_medium (st w2) = (\<lambda>k. if unat lba + Suc (unat i) \<le> k \<and> k < unat lba + Suc (unat i) + n
        then (\<lambda>j. if j < 512 then b ((k - unat lba) * 512 + j) else d_medium (st w1) k j) else d_medium (st w1) k)"
    using Suc.IH [OF hw1 same_drive_tolerated [OF w1(2) Suc.prems(2)] pre, unfolded u] by blast
  have "d_medium (st w2) = (\<lambda>k. if unat lba + unat i \<le> k \<and> k < unat lba + unat i + Suc n
        then (\<lambda>j. if j < 512 then b ((k - unat lba) * 512 + j) else d_medium (st w) k j) else d_medium (st w) k)"
    unfolding w2(3) w1(3) by (auto simp: fun_eq_iff)
  then show ?case using w1(1,2) w2(1,2) by (auto simp: same_drive_def u)
qed

section \<open>The driver as the block layer's device\<close>

definition ata_registry :: "'w ports \<Rightarrow> (bool \<times> 'w) block \<Rightarrow> bool" where
  "ata_registry P blk \<longleftrightarrow> block_default blk = Some ((ata_block P)\<lparr>bd_present := True\<rparr>)"

definition ata_ready :: "ata_early \<Rightarrow> 'w ports \<Rightarrow> ('w \<Rightarrow> ata_drive) \<Rightarrow> nat \<Rightarrow> bool \<times> 'w \<Rightarrow> bool" where
  "ata_ready E P st c s \<longleftrightarrow> fst s \<and> ata_hardware E P st (snd s) \<and> flush_tolerated E (st (snd s)) \<and> d_capacity (st (snd s)) = c"

definition ata_contents :: "('w \<Rightarrow> ata_drive) \<Rightarrow> bool \<times> 'w \<Rightarrow> nat \<Rightarrow> bytes" where
  "ata_contents st s = d_medium (st (snd s))"

lemma ata_ready_step:
  "ata_ready E P st c (p, w) \<Longrightarrow> same_drive (st w) (st w') \<Longrightarrow> ata_ready E P st c (p, w')"
  by (auto simp: ata_ready_def intro: same_drive_hardware same_drive_tolerated) (simp add: same_drive_def)

lemma ata_registry_read:
  assumes "ata_registry P blk"
  shows "block_read_sector blk lba (Some b) s =
    (if 0x10000000 \<le> lba then (-1, Some b, s)
     else case ata_transfer P (fst s) lba (Some b) 0 False (snd s) of
       (r, b', w) \<Rightarrow> (if r = 0 then 0 else -1, b', fst s, w))"
proof -
  have "\<not> 0x10000000 - lba < 1" if "\<not> 0x10000000 \<le> lba"
    using that by (simp add: word_less_nat_alt word_le_nat_alt unat_sub)
  then show ?thesis using assms
    by (auto simp: ata_registry_def block_read_sector_def ata_block_def ata_read_sector_def ata_read_def
      split: prod.splits)
qed

lemma ata_registry_write:
  assumes "ata_registry P blk"
  shows "block_write_sector blk lba (Some b) s =
    (if 0x10000000 \<le> lba then (-1, s)
     else case ata_transfer P (fst s) lba (Some b) 0 True (snd s) of
       (r, b', w) \<Rightarrow> (if r = 0 then 0 else -1, fst s, w))"
proof -
  have "\<not> 0x10000000 - lba < 1" if "\<not> 0x10000000 \<le> lba"
    using that by (simp add: word_less_nat_alt word_le_nat_alt unat_sub)
  then show ?thesis using assms
    by (auto simp: ata_registry_def block_write_sector_def ata_block_def ata_write_sector_def ata_write_def
      split: prod.splits)
qed

lemma ata_store:
  assumes reg: "ata_registry P blk"
  shows "sector_store blk (ata_ready E P st c) (ata_contents st) c"
proof
  show "\<exists>d. block_default blk = Some d \<and> write_sector d \<noteq> None"
    using reg by (simp add: ata_registry_def ata_block_def)
next
  fix h lba b r b' h'
  assume inv: "ata_ready E P st c h" and lba: "unat lba < c"
    and rd: "block_read_sector blk lba (Some b) h = (r, b', h')"
  have hw: "ata_hardware E P st (snd h)" "unat lba < d_capacity (st (snd h))" "\<not> 0x10000000 \<le> lba" "h = (True, snd h)"
    using inv lba by (auto simp: ata_ready_def ata_hardware_def drive_ok_def word_le_nat_alt prod_eq_iff)
  obtain w' where "ata_transfer P True lba (Some b) 0 False (snd h) =
      (0, Some (\<lambda>i. if 0 \<le> i \<and> i < 0 + 512 then d_medium (st (snd h)) (unat lba) (i - 0) else b i), w')"
    "same_drive (st (snd h)) (st w')" "d_medium (st w') = d_medium (st (snd h))"
    by (rule ata_transfer_read [OF hw(1,2)])
  moreover have "fst h" using hw(4) by (metis fst_conv)
  ultimately show "r = 0 \<and> b' = Some (\<lambda>i. if i < 512 then ata_contents st h (unat lba) i else b i) \<and>
      ata_ready E P st c h' \<and> ata_contents st h' = ata_contents st h"
    using rd hw(3) ata_ready_step [of E P st c True "snd h"] inv
    by (auto simp: ata_registry_read [OF reg] ata_contents_def hw(4) [symmetric])
next
  fix h lba b r h'
  assume inv: "ata_ready E P st c h" and lba: "unat lba < c"
    and wr: "block_write_sector blk lba (Some b) h = (r, h')"
  have hw: "ata_hardware E P st (snd h)" "flush_tolerated E (st (snd h))" "unat lba < d_capacity (st (snd h))" "\<not> 0x10000000 \<le> lba" "h = (True, snd h)"
    using inv lba by (auto simp: ata_ready_def ata_hardware_def drive_ok_def word_le_nat_alt prod_eq_iff)
  obtain w' where "ata_transfer P True lba (Some b) 0 True (snd h) = (0, Some b, w')"
    "same_drive (st (snd h)) (st w')"
    "d_medium (st w') = (d_medium (st (snd h)))(unat lba :=
       \<lambda>i. if i < 512 then b (0 + i) else d_medium (st (snd h)) (unat lba) i)"
    by (rule ata_transfer_write [OF hw(1-3)])
  moreover have "fst h" using hw(5) by (metis fst_conv)
  ultimately show "r = 0 \<and> ata_ready E P st c h' \<and>
      ata_contents st h' = (ata_contents st h)(unat lba := \<lambda>i. if i < 512 then b i else ata_contents st h (unat lba) i)"
    using wr hw(4) ata_ready_step [of E P st c True "snd h"] inv
    by (auto simp: ata_registry_write [OF reg] ata_contents_def hw(5) [symmetric] cong: if_cong)
next
  fix h lba b r b' h'
  assume inv: "ata_ready E P st c h" and lba: "c \<le> unat lba"
    and rd: "block_read_sector blk lba (Some b) h = (r, b', h')"
  have hw: "ata_hardware E P st (snd h)" "d_capacity (st (snd h)) \<le> unat lba" "h = (True, snd h)"
    using inv lba by (auto simp: ata_ready_def prod_eq_iff)
  obtain w' where "ata_transfer P True lba (Some b) 0 False (snd h) = (-1, Some b, w')"
    "same_drive (st (snd h)) (st w')" "d_medium (st w') = d_medium (st (snd h))"
    by (rule ata_transfer_beyond [OF hw(1,2)])
  moreover have "fst h" using hw(3) by (metis fst_conv)
  ultimately show "r = -1 \<and> b' = Some b \<and> ata_ready E P st c h' \<and> ata_contents st h' = ata_contents st h"
    using rd ata_ready_step [of E P st c True "snd h"] inv
    by (auto simp: ata_registry_read [OF reg] ata_contents_def hw(3) [symmetric] split: if_splits)
next
  fix h lba b r h'
  assume inv: "ata_ready E P st c h" and lba: "c \<le> unat lba"
    and wr: "block_write_sector blk lba (Some b) h = (r, h')"
  have hw: "ata_hardware E P st (snd h)" "d_capacity (st (snd h)) \<le> unat lba" "h = (True, snd h)"
    using inv lba by (auto simp: ata_ready_def prod_eq_iff)
  obtain w' where "ata_transfer P True lba (Some b) 0 True (snd h) = (-1, Some b, w')"
    "same_drive (st (snd h)) (st w')" "d_medium (st w') = d_medium (st (snd h))"
    by (rule ata_transfer_beyond [OF hw(1,2)])
  moreover have "fst h" using hw(3) by (metis fst_conv)
  ultimately show "r = -1 \<and> ata_ready E P st c h' \<and> ata_contents st h' = ata_contents st h"
    using wr ata_ready_step [of E P st c True "snd h"] inv
    by (auto simp: ata_registry_write [OF reg] ata_contents_def hw(3) [symmetric] split: if_splits)
qed

definition ata_blocks :: "ata_early \<Rightarrow> (bool \<times> ata_drive) block" where
  "ata_blocks E = snd (block_register (Some ((ata_block (drive_ports E))\<lparr>bd_present := True\<rparr>))
     \<lparr>devices = (\<lambda>_. None), device_count = 0\<rparr>)"

lemma ata_blocks_registry: "ata_registry (drive_ports E) (ata_blocks E)"
  by (simp add: ata_blocks_def ata_registry_def block_register_def block_default_def ata_block_def
    BLOCK_MAX_DEVICES_def)

interpretation ata_disk: sector_store "ata_blocks E" "ata_ready E (drive_ports E) (\<lambda>d. d) c" "ata_contents (\<lambda>d. d)" c for E c
  by (rule ata_store [OF ata_blocks_registry])

section \<open>Initialisation\<close>

lemma drive_identify_poll:
  "d_busy d < n \<Longrightarrow> drive_drq d \<Longrightarrow> drive_selected d \<Longrightarrow> ata_identify_poll (drive_ports E) n d = (Some True, d\<lparr>d_busy := 0\<rparr>)"
proof (induction n arbitrary: d)
  case (Suc n)
  show ?case
  proof (cases "d_busy d")
    case (Suc k)
    then show ?thesis using Suc.IH [of "d\<lparr>d_busy := k\<rparr>"] Suc.prems
      by (simp add: drive_inb_def drive_status_def ata_ports ata_consts)
  next
    case 0
    then show ?thesis using Suc.prems
      by (simp add: drive_inb_def drive_status_def ata_ports ata_consts)
  qed
qed simp

lemma ata_init_drive:
  assumes hw: "ata_hardware E P st w"
  obtains w' where "ata_init P dev blk w =
      (0, snd (block_register (Some (dev\<lparr>bd_present := True\<rparr>)) blk), True, w')"
    "same_drive (st w) (st w')" "d_medium (st w') = d_medium (st w)"
proof -
  have sim: "port_sim ata_port_set P (drive_ports E) st" and rdy: "drive_ready (st w)"
    using hw by (simp_all add: ata_hardware_def)
  define w1 where "w1 = outb P ATA_COMMAND ATA_CMD_IDENTIFY (outb P ATA_LBA2 0 (outb P ATA_LBA1 0 (outb P ATA_LBA0 0
    (outb P ATA_SECTOR_COUNT 0 (ata_delay P (outb P ATA_DRIVE 0xa0 w))))))"
  have st1: "st w1 = drive_command 0xec ((st w)\<lparr>d_select := 0xa0, d_count := 0, d_lba0 := 0, d_lba1 := 0, d_lba2 := 0\<rparr>)"
    using rdy by (simp add: w1_def sim_step [OF sim] ata_delay_sim [OF sim])
      (simp add: drive_outb_def ata_ports ATA_CMD_IDENTIFY_def drive_selected_def)
  have ph: "d_phase (st w1) = Ata_In [d_ident (st w)] 0" "d_busy (st w1) < 100000" "drive_selected (st w1)"
    using hw by (simp_all add: st1) (simp_all add: drive_command_def drive_selected_def ata_hardware_def drive_ok_def)
  obtain status w2 where w2: "inb P ATA_STATUS w1 = (status, w2)" by fastforce
  have "status = drive_status (st w1)" "st w2 = (st w1)\<lparr>d_busy := d_busy (st w1) - 1\<rparr>"
    using sim_step(3,4) [OF sim ata_port_set_mem(7), of w1]
    by (simp_all add: w2) (simp_all add: drive_inb_def ata_ports)
  moreover have "drive_status (st w1) \<noteq> 0" "drive_status (st w1) \<noteq> 0xff"
    using ph by (simp_all add: drive_status_def drive_drq_def)
  ultimately have s2: "status \<noteq> 0" "status \<noteq> 0xff" "d_busy (st w2) < ATA_TIMEOUT"
    "d_phase (st w2) = Ata_In [d_ident (st w)] 0" "drive_selected (st w2)" "d_medium (st w2) = d_medium (st w)"
    "d_delay (st w2) = d_delay (st w)" "d_settle (st w2) = d_settle (st w)" "d_capacity (st w2) = d_capacity (st w)"
    "d_ident (st w2) = d_ident (st w)"
    using ph by (simp_all add: ATA_TIMEOUT_def) (simp_all add: st1 drive_command_def)
  have "map_prod id st (ata_identify_poll P ATA_TIMEOUT w2) = (Some True, (st w2)\<lparr>d_busy := 0\<rparr>)"
    unfolding ata_identify_poll_sim [OF sim] using s2(3-5) by (intro drive_identify_poll) (simp_all add: drive_drq_def)
  then obtain w3 where w3: "ata_identify_poll P ATA_TIMEOUT w2 = (Some True, w3)" "st w3 = (st w2)\<lparr>d_busy := 0\<rparr>"
    by (rule map_prod_idE)
  define ident w4 where "ident = fst (ata_get_words P 0 [0..<256] (\<lambda>_. 0, w3))"
    and "w4 = snd (ata_get_words P 0 [0..<256] (\<lambda>_. 0, w3))"
  have ph3: "d_phase (st w3) = Ata_In [d_ident (st w)] 0" "d_busy (st w3) = 0" "drive_selected (st w3)"
    using s2(4,5) by (simp_all add: w3)
  have "st w4 = snd (map_prod id st (ata_get_words P 0 [0..<256] (\<lambda>_. 0, w3)))"
    by (simp add: w4_def)
  also have "\<dots> = (st w3)\<lparr>d_phase := Ata_Idle\<rparr>"
    unfolding ata_get_words_sim [OF sim] drive_get_words [OF _ ph3, simplified] by simp
  finally have st4: "same_drive (st w) (st w4)" "d_medium (st w4) = d_medium (st w)"
    using s2 by (simp_all add: w3 same_drive_def)
  have "ata_init P dev blk w = (0, snd (block_register (Some (dev\<lparr>bd_present := True\<rparr>)) blk), True, w4)"
    by (simp add: ata_init_def Let_def w1_def [symmetric] w2 s2(1,2) w3(1) w4_def split_beta del: upt_rec_numeral)
  then show thesis using st4 by (rule that)
qed

section \<open>Example drive\<close>

definition drive_example :: "(nat \<Rightarrow> bytes) \<Rightarrow> ata_drive" where
  "drive_example m = \<lparr>d_select = 0, d_count = 0, d_lba0 = 0, d_lba1 = 0, d_lba2 = 0, d_phase = Ata_Idle,
     d_busy = 0, d_commands = 0, d_delay = (\<lambda>n. n mod 7), d_settle = (\<lambda>n. n mod 3), d_heads = 16, d_track = 63,
     d_ident = (\<lambda>_. 0), d_capacity = 2048, d_medium = m\<rparr>"

text \<open>A drive that ignores what is written to its registers while it is busy, and one that aborts.\<close>

definition early_ignored :: ata_early where
  "early_ignored p v d = d"

definition early_aborts :: ata_early where
  "early_aborts p v d = d\<lparr>d_phase := Ata_Err\<rparr>"

lemma drive_example_hardware: "ata_hardware E (drive_ports E) (\<lambda>d. d) (drive_example m)"
proof -
  have "n mod 7 < (100000 :: nat)" "n mod 3 < (100000 :: nat)" for n :: nat
    using mod_less_divisor [of 7 n] mod_less_divisor [of 3 n] by simp_all
  then show ?thesis
    by (simp add: ata_hardware_def port_sim_refl drive_ok_def drive_example_def)
qed

lemma early_ignored_tolerated: "flush_tolerated early_ignored d"
  by (simp add: flush_tolerated_def early_flush_harmless_def early_ignored_def)

lemma drive_example_ready: "ata_ready early_ignored (drive_ports early_ignored) (\<lambda>d. d) 2048 (True, drive_example m)"
  using drive_example_hardware [of early_ignored m] early_ignored_tolerated
  by (simp add: ata_ready_def drive_example_def)

definition busy_ports :: "nat ports" where
  "busy_ports = \<lparr>inb = (\<lambda>p w. (0x80, Suc w)), outb = (\<lambda>p v w. w), inw = (\<lambda>p w. (0, w)),
     outw = (\<lambda>p v w. w), inl = (\<lambda>p w. (0, w)), outl = (\<lambda>p v w. w)\<rparr>"

section \<open>Properties\<close>

text \<open>C20: Reading \<open>n\<close> sectors from a drive that follows the register protocol succeeds and puts
  sector \<open>lba + k\<close> of the medium at offset \<open>512 * k\<close> of the buffer, touching no other byte of the
  buffer and no sector of the medium, whatever the response times of the drive (within the polling
  bound of the driver).\<close>

theorem ata_read_correct:
  assumes "ata_hardware E P st w" and "0 < unat n" and "unat n \<le> 0x800000"
    and "unat lba + unat n \<le> d_capacity (st w)"
  shows "\<exists>w'. ata_read P lba (Some b) n (True, w) =
      (0, Some (\<lambda>j. if j < unat n * 512 then d_medium (st w) (unat lba + j div 512) (j mod 512) else b j), True, w') \<and>
     ata_hardware E P st w' \<and> d_medium (st w') = d_medium (st w)"
proof -
  have cap: "d_capacity (st w) \<le> 0x10000000"
    using assms(1) by (simp add: ata_hardware_def drive_ok_def)
  then have "\<not> 0x10000000 \<le> lba" "\<not> 0x10000000 - lba < n" "n \<noteq> 0"
    using assms(2,4) by (auto simp: word_le_nat_alt word_less_nat_alt unat_sub)
  then show ?thesis
    using ata_sectors_read [OF assms(1), of lba 0 "unat n" b] assms(3,4) same_drive_hardware [OF assms(1)]
    by (auto simp: ata_read_def)
qed

theorem ata_read_correct_witness:
  "\<exists>w'. ata_read (drive_ports early_aborts) 5 (Some (\<lambda>_. 0)) 2 (True, drive_example (\<lambda>k i. of_nat (k + i))) =
      (0, Some (\<lambda>j. if j < 1024 then of_nat (5 + j div 512 + j mod 512) else 0), True, w')"
  using ata_read_correct [OF drive_example_hardware [of early_aborts], of 2 5 "\<lambda>k i. of_nat (k + i)" "\<lambda>_. 0"]
  by (auto simp: drive_example_def cong: if_cong)

text \<open>C21: Writing \<open>n\<close> sectors to such a drive. If the drive tolerates the flush command that the
  driver writes right after the last data word of a sector (the drive has stored the block by then,
  or a command written while it is busy changes neither its medium nor its later answers), the write
  succeeds and replaces exactly the sectors \<open>lba\<close> to \<open>lba + n - 1\<close> of the medium by the consecutive
  512-byte pieces of the buffer. On any drive, a write of one sector puts its 512 bytes on the medium
  and then writes the flush command with no wait in between: a drive still busy with the block gets
  a command while it is busy, which its protocol forbids, and the value returned is what the status
  shows after its reaction \<open>E\<close> to that.\<close>

theorem ata_write_correct:
  assumes "ata_hardware E P st w" and "0 < unat n" and "unat n \<le> 0x800000"
    and "unat lba + unat n \<le> d_capacity (st w)"
  shows "(flush_tolerated E (st w) \<longrightarrow>
      (\<exists>w'. ata_write P lba (Some b) n (True, w) = (0, True, w') \<and> ata_hardware E P st w' \<and>
        (\<forall>k j. j < 512 \<longrightarrow> d_medium (st w') k j =
          (if unat lba \<le> k \<and> k < unat lba + unat n then b ((k - unat lba) * 512 + j) else d_medium (st w) k j)))) \<and>
    (n = 1 \<longrightarrow>
      (\<exists>w1. d_busy (st w1) = d_settle (st w) (Suc (d_commands (st w))) \<and>
        (\<forall>k j. j < 512 \<longrightarrow> d_medium (st w1) k j = (if k = unat lba then b j else d_medium (st w) k j)) \<and>
        ata_write P lba (Some b) 1 (True, w) =
          (case ata_wait P 0 (outb P ATA_COMMAND ATA_CMD_CACHE_FLUSH w1) of (r, w') \<Rightarrow> (if r = 0 then 0 else -1, True, w')) \<and>
        (0 < d_busy (st w1) \<longrightarrow>
          st (outb P ATA_COMMAND ATA_CMD_CACHE_FLUSH w1) = E ATA_COMMAND ATA_CMD_CACHE_FLUSH (st w1))))"
proof (intro conjI impI)
  have cap: "d_capacity (st w) \<le> 0x10000000"
    using assms(1) by (simp add: ata_hardware_def drive_ok_def)
  then have ok: "\<not> 0x10000000 \<le> lba" "\<not> 0x10000000 - lba < n" "n \<noteq> 0"
    using assms(2,4) by (auto simp: word_le_nat_alt word_less_nat_alt unat_sub)
  {
    assume "flush_tolerated E (st w)"
    then show "\<exists>w'. ata_write P lba (Some b) n (True, w) = (0, True, w') \<and> ata_hardware E P st w' \<and>
        (\<forall>k j. j < 512 \<longrightarrow> d_medium (st w') k j =
          (if unat lba \<le> k \<and> k < unat lba + unat n then b ((k - unat lba) * 512 + j) else d_medium (st w) k j))"
      using ok ata_sectors_write [OF assms(1), of lba 0 "unat n" b] assms(3,4) same_drive_hardware [OF assms(1)]
      by (auto simp: ata_write_def)
  }
  assume n: "n = 1"
  have lt: "unat lba < d_capacity (st w)" using assms(4) by (simp add: n)
  obtain w1 where w1: "ata_transfer P True lba (Some b) 0 True w =
      (case ata_wait P 0 (outb P ATA_COMMAND ATA_CMD_CACHE_FLUSH w1) of (r, w) \<Rightarrow> (r, Some b, w))"
    "st w1 = (drive_at lba (st w))\<lparr>d_phase := Ata_Idle, d_commands := Suc (d_commands (st w)),
       d_busy := d_settle (st w) (Suc (d_commands (st w))),
       d_medium := (d_medium (st w))(unat lba :=
         \<lambda>i. if i < 512 then b (0 + i) else d_medium (st w) (unat lba) i)\<rparr>"
    by (rule ata_transfer_words [OF assms(1) lt])
  have "ata_write P lba (Some b) 1 (True, w) =
      (case ata_wait P 0 (outb P ATA_COMMAND ATA_CMD_CACHE_FLUSH w1) of (r, w') \<Rightarrow> (if r = 0 then 0 else -1, True, w'))"
    using ok w1(1) by (simp add: ata_write_def n split: prod.splits)
  moreover have "0 < d_busy (st w1) \<longrightarrow>
      st (outb P ATA_COMMAND ATA_CMD_CACHE_FLUSH w1) = E ATA_COMMAND ATA_CMD_CACHE_FLUSH (st w1)"
    using ata_hardware_cap(1) [OF assms(1) lt]
    by (simp add: sim_step [where E = E]) (simp add: drive_outb_def drive_ready_def ata_ports)
  ultimately show "\<exists>w1. d_busy (st w1) = d_settle (st w) (Suc (d_commands (st w))) \<and>
        (\<forall>k j. j < 512 \<longrightarrow> d_medium (st w1) k j = (if k = unat lba then b j else d_medium (st w) k j)) \<and>
        ata_write P lba (Some b) 1 (True, w) =
          (case ata_wait P 0 (outb P ATA_COMMAND ATA_CMD_CACHE_FLUSH w1) of (r, w') \<Rightarrow> (if r = 0 then 0 else -1, True, w')) \<and>
        (0 < d_busy (st w1) \<longrightarrow>
          st (outb P ATA_COMMAND ATA_CMD_CACHE_FLUSH w1) = E ATA_COMMAND ATA_CMD_CACHE_FLUSH (st w1))"
    by (intro exI [of _ w1]) (simp add: w1(2))
qed

theorem ata_write_correct_witness:
  "(\<exists>w'. ata_write (drive_ports early_ignored) 5 (Some (\<lambda>i. of_nat i)) 1 (True, drive_example (\<lambda>k i. 0)) = (0, True, w') \<and>
     d_medium w' 5 7 = 7 \<and> d_medium w' 6 7 = 0) \<and>
   (\<exists>d. d_busy d = 1 \<and> d_medium d 5 7 = 7 \<and>
     drive_outb early_aborts ATA_COMMAND ATA_CMD_CACHE_FLUSH d = d\<lparr>d_phase := Ata_Err\<rparr>)"
  using ata_write_correct [OF drive_example_hardware [of early_ignored], of 1 5 "\<lambda>k i. 0" "\<lambda>i. of_nat i"]
    ata_write_correct [OF drive_example_hardware [of early_aborts], of 1 5 "\<lambda>k i. 0" "\<lambda>i. of_nat i"]
  by (auto simp: drive_example_def early_ignored_tolerated early_aborts_def)

text \<open>C22: Initialisation on a drive that follows the protocol succeeds and keeps the medium. It
  appends the ATA device to the block registry, or leaves a full registry as it is and succeeds all
  the same. If no device was registered before, the ATA drive is the default device of the block
  layer, and on a drive that tolerates the driver's flush command it is a sector store over the
  drive's medium: the contract on which the file system code rests. If a device was registered
  before (\<open>kmain\<close> initialises virtio-blk first), that one stays the default.\<close>

theorem ata_init_provides_store:
  assumes "ata_hardware E P st w" and "ata_init P (ata_block P) blk w = (r, blk', present, w')"
  shows "r = 0 \<and> present \<and> d_medium (st w') = d_medium (st w) \<and>
    (if device_count blk < 4
     then blk' = blk\<lparr>devices := (devices blk)(unat (device_count blk) := Some ((ata_block P)\<lparr>bd_present := True\<rparr>)),
            device_count := device_count blk + 1\<rparr>
     else blk' = blk) \<and>
    (device_count blk = 0 \<and> flush_tolerated E (st w) \<longrightarrow>
      ata_ready E P st (d_capacity (st w)) (present, w') \<and>
      sector_store blk' (ata_ready E P st (d_capacity (st w))) (ata_contents st) (d_capacity (st w))) \<and>
    (device_count blk \<noteq> 0 \<longrightarrow> block_default blk' = block_default blk)"
proof -
  obtain w1 where w1: "ata_init P (ata_block P) blk w =
      (0, snd (block_register (Some ((ata_block P)\<lparr>bd_present := True\<rparr>)) blk), True, w1)"
    "same_drive (st w) (st w1)" "d_medium (st w1) = d_medium (st w)"
    by (rule ata_init_drive [OF assms(1)])
  have reg: "blk' = (if device_count blk < 4
     then blk\<lparr>devices := (devices blk)(unat (device_count blk) := Some ((ata_block P)\<lparr>bd_present := True\<rparr>)),
            device_count := device_count blk + 1\<rparr> else blk)"
  proof -
    have "blk' = snd (block_register (Some ((ata_block P)\<lparr>bd_present := True\<rparr>)) blk)"
      using assms(2) w1(1) by simp
    then show ?thesis by (simp add: block_register_def ata_block_def BLOCK_MAX_DEVICES_def not_le [symmetric])
  qed
  have "ata_registry P blk'" if "device_count blk = 0"
    using that by (simp add: reg ata_registry_def block_default_def)
  then have "device_count blk = 0 \<and> flush_tolerated E (st w) \<longrightarrow>
      ata_ready E P st (d_capacity (st w)) (present, w') \<and>
      sector_store blk' (ata_ready E P st (d_capacity (st w))) (ata_contents st) (d_capacity (st w))"
    using assms(2) w1 same_drive_hardware [OF assms(1) w1(2)] same_drive_tolerated [OF w1(2)] ata_store
    by (auto simp: ata_ready_def same_drive_def)
  moreover have "block_default blk' = block_default blk" if nz: "device_count blk \<noteq> 0"
  proof -
    have "device_count blk + 1 \<noteq> 0" if "device_count blk < 4"
      using that by (simp add: word_less_nat_alt unat_eq_0 [symmetric] unat_word_ariths del: unat_eq_0)
    moreover have "unat (device_count blk) \<noteq> 0" using nz by (simp add: unat_eq_zero)
    ultimately show ?thesis using nz by (simp add: reg block_default_def)
  qed
  ultimately show ?thesis using assms(2) w1(1,3) reg by auto
qed

theorem ata_init_provides_store_witness:
  "\<exists>blk' w'. ata_init (drive_ports early_ignored) (ata_block (drive_ports early_ignored)) (block_init (ata_blocks early_ignored))
      (drive_example (\<lambda>k i. 0)) = (0, blk', True, w') \<and>
     sector_store blk' (ata_ready early_ignored (drive_ports early_ignored) (\<lambda>d. d) 2048) (ata_contents (\<lambda>d. d)) 2048"
proof -
  let ?P = "drive_ports early_ignored"
  obtain r blk' p w' where run: "ata_init ?P (ata_block ?P) (block_init (ata_blocks early_ignored)) (drive_example (\<lambda>k i. 0)) =
      (r, blk', p, w')"
    by (cases "ata_init ?P (ata_block ?P) (block_init (ata_blocks early_ignored)) (drive_example (\<lambda>k i. 0))")
  then show ?thesis using ata_init_provides_store [OF drive_example_hardware run]
    by (auto simp: drive_example_def block_init_def early_ignored_tolerated)
qed

text \<open>C23: Polling is bounded on any hardware: a controller that stays busy is given up after exactly
  100000 status reads, and an I/O error is reported at once.\<close>

theorem ata_wait_bounded:
  assumes "\<And>w. fst (inb P ATA_STATUS w) AND 0xa1 = s"
  shows "(s = 0x80 \<longrightarrow> ata_wait P wanted w = (-1, ((\<lambda>w. snd (inb P ATA_STATUS w)) ^^ 100000) w)) \<and>
    (s AND 0x21 \<noteq> 0 \<longrightarrow> ata_wait P wanted w = (-1, snd (inb P ATA_STATUS w)))"
proof -
  have m: "x AND 0x21 = (x AND 0xa1) AND 0x21" "x AND 0x80 = (x AND 0xa1) AND 0x80" for x :: u8
    by (simp_all add: and.assoc)
  have "ata_poll P wanted n w = (-1, ((\<lambda>w. snd (inb P ATA_STATUS w)) ^^ n) w)" if "s = 0x80" for n w
  proof (induction n arbitrary: w)
    case (Suc n)
    then show ?case using assms [of w] that m [of "fst (inb P ATA_STATUS w)"]
      by (simp add: split_beta ATA_STATUS_ERR_def ATA_STATUS_DF_def ATA_STATUS_BSY_def funpow_Suc_right del: funpow.simps)
  qed simp
  moreover have "ata_poll P wanted (Suc n) w = (-1, snd (inb P ATA_STATUS w))" if "s AND 0x21 \<noteq> 0" for n
    using assms [of w] that m [of "fst (inb P ATA_STATUS w)"]
    by (simp add: split_beta ATA_STATUS_ERR_def ATA_STATUS_DF_def)
  ultimately show ?thesis
    unfolding ata_wait_def ATA_TIMEOUT_def by (metis Suc_pred' zero_less_numeral)
qed

theorem ata_wait_bounded_witness: "ata_wait busy_ports 8 0 = (-1, 100000)"
proof -
  have busy: "fst (inb busy_ports ATA_STATUS w) AND 0xa1 = 0x80" for w by (simp add: busy_ports_def)
  have "(\<lambda>w. snd (inb busy_ports ATA_STATUS w)) = Suc" by (simp add: busy_ports_def fun_eq_iff)
  moreover have "(Suc ^^ n) 0 = n" for n by (induction n) simp_all
  ultimately show ?thesis
    using conjunct1 [OF ata_wait_bounded [OF busy, of 8 0], THEN mp, OF refl] by (simp only:)
qed

text \<open>On any hardware, a transfer with a null buffer, no sectors, a range beyond LBA28 or no drive
  present is refused without touching a port or the buffer.\<close>

theorem ata_refuses:
  assumes "buffer = None \<or> n = 0 \<or> 0x10000000 < unat lba + unat n \<or> \<not> present"
  shows "ata_read P lba buffer n (present, w) = (-1, buffer, present, w) \<and>
    ata_write P lba buffer n (present, w) = (-1, present, w)"
proof -
  have "0x10000000 \<le> lba \<or> 0x10000000 - lba < n" if "0x10000000 < unat lba + unat n"
    using that unat_sub [of lba "0x10000000"] by (cases "lba \<le> 0x10000000") (auto simp: word_le_nat_alt word_less_nat_alt)
  moreover have "ata_sectors P False lba write (unat n) 0 buffer w = (-1, buffer, w)" if nz: "n \<noteq> 0" for "write"
  proof -
    obtain m where "unat n = Suc m" using nz unat_eq_zero [of n] by (cases "unat n") auto
    then show ?thesis by (simp add: ata_transfer_def split: option.splits)
  qed
  ultimately show ?thesis using assms by (auto simp: ata_read_def ata_write_def)
qed

theorem ata_refuses_witness:
  "ata_read (drive_ports early_ignored) 0x0fffffff (Some (\<lambda>_. 0)) 2 (True, drive_example (\<lambda>k i. 0)) =
     (-1, Some (\<lambda>_. 0), True, drive_example (\<lambda>k i. 0))"
  using ata_refuses [of "Some (\<lambda>_. 0)" 2 "0x0fffffff" True "drive_ports early_ignored" "drive_example (\<lambda>k i. 0)"] by simp

end
