(* ===== verification/Pci.thy ===== *)
theory Pci
  imports Ports
begin

text \<open>
  PCI configuration access \<open>drivers/pci/pci.c\<close> through the address and data ports: enumeration of
  bus 0, search for a device class, and sizing of a base address register; and the drivers
  \<open>drivers/ahci.c\<close>, \<open>drivers/nvme.c\<close> and \<open>drivers/nic.c\<close>, which only look for their controller.
\<close>

section \<open>Operations\<close>

record pci_device =
  bus :: u8
  slot :: u8
  pci_function :: u8
  vendor :: u16
  device :: u16
  class_code :: u8
  pci_subclass :: u8
  prog_if :: u8
  header_type :: u8

record pci_bar =
  bar_base :: u32
  bar_size :: u32
  bar_io :: u8
  bar_prefetchable :: u8
  bar_is_64bit :: u8

definition pci_address :: "u8 \<Rightarrow> u8 \<Rightarrow> u8 \<Rightarrow> u8 \<Rightarrow> u32" where
  "pci_address b s f off =
     0x80000000 OR push_bit 16 (ucast b) OR push_bit 11 (ucast (s AND 31)) OR push_bit 8 (ucast (f AND 7))
     OR ucast (off AND 0xfc)"

definition pci_config_read32 :: "'w ports \<Rightarrow> u8 \<Rightarrow> u8 \<Rightarrow> u8 \<Rightarrow> u8 \<Rightarrow> 'w \<Rightarrow> u32 \<times> 'w" where
  "pci_config_read32 P b s f off w = inl P 0xcfc (outl P 0xcf8 (pci_address b s f off) w)"

definition pci_config_write32 :: "'w ports \<Rightarrow> u8 \<Rightarrow> u8 \<Rightarrow> u8 \<Rightarrow> u8 \<Rightarrow> u32 \<Rightarrow> 'w \<Rightarrow> 'w" where
  "pci_config_write32 P b s f off v w = outl P 0xcfc v (outl P 0xcf8 (pci_address b s f off) w)"

definition read_device :: "'w ports \<Rightarrow> u8 \<Rightarrow> u8 \<Rightarrow> u8 \<Rightarrow> pci_device \<Rightarrow> 'w \<Rightarrow> int \<times> pci_device \<times> 'w" where
  "read_device P b s f out w =
     (case pci_config_read32 P b s f 0 w of (ident, w) \<Rightarrow>
        if ident AND 0xffff = 0xffff then (-1, out, w)
        else case pci_config_read32 P b s f 8 w of (classreg, w) \<Rightarrow>
          case pci_config_read32 P b s f 0x0c w of (header, w) \<Rightarrow>
            (0, \<lparr>bus = b, slot = s, pci_function = f,
                 vendor = ucast (ident AND 0xffff), device = ucast (drop_bit 16 ident),
                 class_code = ucast (drop_bit 24 classreg), pci_subclass = ucast (drop_bit 16 classreg),
                 prog_if = ucast (drop_bit 8 classreg), header_type = ucast (drop_bit 16 header)\<rparr>, w))"

text \<open>The two loops of \<open>pci_init\<close>; the result is the number of device functions it reports.\<close>

fun pci_count_functions :: "'w ports \<Rightarrow> u8 \<Rightarrow> u8 list \<Rightarrow> pci_device \<times> u32 \<times> 'w \<Rightarrow> pci_device \<times> u32 \<times> 'w" where
  "pci_count_functions P s [] st = st"
| "pci_count_functions P s (f # fs) (d, count, w) =
     (case read_device P 0 s f d w of (r, d, w) \<Rightarrow>
        pci_count_functions P s fs (d, if r = 0 then count + 1 else count, w))"

fun pci_count_slots :: "'w ports \<Rightarrow> u8 list \<Rightarrow> pci_device \<times> u32 \<times> 'w \<Rightarrow> pci_device \<times> u32 \<times> 'w" where
  "pci_count_slots P [] st = st"
| "pci_count_slots P (s # ss) (d, count, w) =
     (case read_device P 0 s 0 d w of (r, d, w) \<Rightarrow>
        if r = 0 then
          (let st = (d, count + 1, w) in
           pci_count_slots P ss
             (if header_type d AND 0x80 \<noteq> 0 then pci_count_functions P s (map of_nat [1..<8]) st else st))
        else pci_count_slots P ss (d, count, w))"

definition pci_init :: "'w ports \<Rightarrow> pci_device \<Rightarrow> 'w \<Rightarrow> u32 \<times> 'w" where
  "pci_init P d w = snd (pci_count_slots P (map of_nat [0..<32]) (d, 0, w))"

text \<open>The nested loops of \<open>pci_find_class\<close> over the functions left to look at.\<close>

fun pci_search :: "'w ports \<Rightarrow> u8 \<Rightarrow> u8 \<Rightarrow> (u8 \<times> u8) list \<Rightarrow> pci_device \<Rightarrow> 'w \<Rightarrow> int \<times> pci_device \<times> 'w" where
  "pci_search P c sc [] out w = (-1, out, w)"
| "pci_search P c sc ((s, f) # sfs) out w =
     (case read_device P 0 s f out w of (r, out, w) \<Rightarrow>
        if r = 0 \<and> class_code out = c \<and> pci_subclass out = sc then (0, out, w)
        else pci_search P c sc sfs out w)"

definition pci_functions :: "(u8 \<times> u8) list" where
  "pci_functions = List.product (map of_nat [0..<32]) (map of_nat [0..<8])"

definition pci_find_class :: "'w ports \<Rightarrow> u8 \<Rightarrow> u8 \<Rightarrow> pci_device option \<Rightarrow> 'w \<Rightarrow> int \<times> pci_device option \<times> 'w" where
  "pci_find_class P c sc out w =
     (case out of None \<Rightarrow> (-1, None, w)
      | Some d \<Rightarrow> (case pci_search P c sc pci_functions d w of (r, d, w) \<Rightarrow> (r, Some d, w)))"

text \<open>
  \<open>pci_read_bar\<close> in two parts: what it finds out from the register's value, and the sizing by
  writing ones, which restores the register.
\<close>

definition bar_probe :: "'w ports \<Rightarrow> pci_device \<Rightarrow> u8 \<Rightarrow> u32 \<Rightarrow> pci_bar \<Rightarrow> 'w \<Rightarrow> int \<times> pci_bar option \<times> 'w" where
  "bar_probe P d off original out w =
     (let w = pci_config_write32 P (bus d) (slot d) (pci_function d) off 0xffffffff w;
          (m, w) = pci_config_read32 P (bus d) (slot d) (pci_function d) off w;
          w = pci_config_write32 P (bus d) (slot d) (pci_function d) off original w;
          low = (if bar_io out \<noteq> 0 then 3 else 0xf);
          base = original AND NOT low;
          size = m AND NOT low
      in if size = 0 \<or> size = 0xffffffff then (-1, Some out, w)
         else if NOT size + 1 = 0 then (-1, Some out, w)
         else (0, Some (out\<lparr>bar_base := base, bar_size := NOT size + 1\<rparr>), w))"

definition pci_read_bar :: "'w ports \<Rightarrow> pci_device option \<Rightarrow> u8 \<Rightarrow> pci_bar option \<Rightarrow> 'w \<Rightarrow> int \<times> pci_bar option \<times> 'w" where
  "pci_read_bar P dev idx bar w =
     (case (dev, bar) of (Some d, Some out) \<Rightarrow>
        if 6 \<le> idx then (-1, bar, w)
        else (let off = 0x10 + idx * 4 in
          case pci_config_read32 P (bus d) (slot d) (pci_function d) off w of (original, w) \<Rightarrow>
          if original = 0 \<or> original = 0xffffffff then (-1, bar, w)
          else (let out = out\<lparr>bar_io := ucast (original AND 1), bar_prefetchable := 0, bar_is_64bit := 0\<rparr> in
            if bar_io out = 0 then
              (let type = ucast (drop_bit 1 original AND 3) :: u8;
                   out = out\<lparr>bar_prefetchable := ucast (drop_bit 3 original AND 1)\<rparr>
               in if type = 2 then
                    (case pci_config_read32 P (bus d) (slot d) (pci_function d) (off + 4) w of (high, w) \<Rightarrow>
                       if high \<noteq> 0 then (-1, Some out, w)
                       else bar_probe P d off original (out\<lparr>bar_is_64bit := 1\<rparr>) w)
                  else bar_probe P d off original out w)
            else bar_probe P d off original out w))
      | _ \<Rightarrow> (-1, bar, w))"

text \<open>The storage and network controllers that are only detected; the result includes \<open>present\<close>.\<close>

definition ahci_init :: "'w ports \<Rightarrow> pci_device \<Rightarrow> 'w \<Rightarrow> int \<times> bool \<times> 'w" where
  "ahci_init P d w =
     (case pci_find_class P 0x01 0x06 (Some d) w of (r, d', w) \<Rightarrow> if r \<noteq> 0 then (-1, False, w) else (0, True, w))"

definition nvme_init :: "'w ports \<Rightarrow> pci_device \<Rightarrow> 'w \<Rightarrow> int \<times> bool \<times> 'w" where
  "nvme_init P d w =
     (case pci_find_class P 0x01 0x08 (Some d) w of (r, d', w) \<Rightarrow> if r \<noteq> 0 then (-1, False, w) else (0, True, w))"

definition nic_init :: "'w ports \<Rightarrow> pci_device \<Rightarrow> 'w \<Rightarrow> int \<times> bool \<times> 'w" where
  "nic_init P d w =
     (case pci_find_class P 0x02 0x00 (Some d) w of (r, d', w) \<Rightarrow> if r \<noteq> 0 then (-1, False, w) else (0, True, w))"

definition ahci_present :: "bool \<Rightarrow> bool" where "ahci_present present = present"
definition nvme_present :: "bool \<Rightarrow> bool" where "nvme_present present = present"
definition nic_present :: "bool \<Rightarrow> bool" where "nic_present present = present"

section \<open>The configuration space behind the ports\<close>

text \<open>
  The host bridge: the address port selects a configuration register, the data port reads it and
  writes its writable bits.
\<close>

record pci_host =
  cfg_address :: u32
  cfg :: "u32 \<Rightarrow> u32"
  cfg_writable :: "u32 \<Rightarrow> u32"

definition host_outl :: "u16 \<Rightarrow> u32 \<Rightarrow> pci_host \<Rightarrow> pci_host" where
  "host_outl p v h =
     (if p = 0xcf8 then h\<lparr>cfg_address := v\<rparr>
      else if p = 0xcfc then
        h\<lparr>cfg := (cfg h)(cfg_address h :=
           cfg h (cfg_address h) AND NOT (cfg_writable h (cfg_address h)) OR v AND cfg_writable h (cfg_address h))\<rparr>
      else h)"

definition host_inl :: "u16 \<Rightarrow> pci_host \<Rightarrow> u32 \<times> pci_host" where
  "host_inl p h = (if p = 0xcfc then cfg h (cfg_address h) else 0, h)"

definition host_ports :: "pci_host ports" where
  "host_ports = \<lparr>inb = (\<lambda>p h. (0, h)), outb = (\<lambda>p v h. h), inw = (\<lambda>p h. (0, h)), outw = (\<lambda>p v h. h),
     inl = host_inl, outl = host_outl\<rparr>"

definition pci_hardware :: "'w ports \<Rightarrow> ('w \<Rightarrow> pci_host) \<Rightarrow> bool" where
  "pci_hardware P st \<longleftrightarrow> port_sim {0xcf8, 0xcfc} P host_ports st"

lemma pci_read_host:
  assumes "pci_hardware P st"
  shows "\<exists>w'. pci_config_read32 P b s f off w = (cfg (st w) (pci_address b s f off), w') \<and>
    st w' = (st w)\<lparr>cfg_address := pci_address b s f off\<rparr>"
proof -
  have sim: "port_sim {0xcf8, 0xcfc} P host_ports st" using assms by (simp add: pci_hardware_def)
  let ?w = "outl P 0xcf8 (pci_address b s f off) w"
  have st: "st ?w = (st w)\<lparr>cfg_address := pci_address b s f off\<rparr>"
    by (simp add: port_sim_out [OF sim]) (simp add: host_ports_def host_outl_def)
  have "fst (inl P 0xcfc ?w) = cfg (st w) (pci_address b s f off)" "st (snd (inl P 0xcfc ?w)) = st ?w"
    by (simp_all add: port_sim_in [OF sim]) (simp_all add: host_ports_def host_inl_def st)
  then show ?thesis by (auto simp: pci_config_read32_def st prod_eq_iff)
qed

lemma pci_write_host:
  assumes "pci_hardware P st"
  shows "st (pci_config_write32 P b s f off v w) =
    (let a = pci_address b s f off in
     (st w)\<lparr>cfg_address := a, cfg := (cfg (st w))(a :=
       cfg (st w) a AND NOT (cfg_writable (st w) a) OR v AND cfg_writable (st w) a)\<rparr>)"
proof -
  have sim: "port_sim {0xcf8, 0xcfc} P host_ports st" using assms by (simp add: pci_hardware_def)
  show ?thesis
    by (simp add: pci_config_write32_def port_sim_out [OF sim] Let_def) (simp add: host_ports_def host_outl_def)
qed

section \<open>Enumeration\<close>

definition device_at :: "(u32 \<Rightarrow> u32) \<Rightarrow> u8 \<Rightarrow> u8 \<Rightarrow> pci_device option" where
  "device_at cf s f =
     (let ident = cf (pci_address 0 s f 0); classreg = cf (pci_address 0 s f 8) in
      if ident AND 0xffff = 0xffff then None
      else Some \<lparr>bus = 0, slot = s, pci_function = f,
                 vendor = ucast (ident AND 0xffff), device = ucast (drop_bit 16 ident),
                 class_code = ucast (drop_bit 24 classreg), pci_subclass = ucast (drop_bit 16 classreg),
                 prog_if = ucast (drop_bit 8 classreg),
                 header_type = ucast (drop_bit 16 (cf (pci_address 0 s f 0x0c)))\<rparr>)"

definition class_at :: "(u32 \<Rightarrow> u32) \<Rightarrow> u8 \<Rightarrow> u8 \<Rightarrow> u8 \<times> u8 \<Rightarrow> bool" where
  "class_at cf c sc sf =
     (case device_at cf (fst sf) (snd sf) of None \<Rightarrow> False | Some d \<Rightarrow> class_code d = c \<and> pci_subclass d = sc)"

lemma read_device_host:
  assumes hw: "pci_hardware P st"
  obtains w' where "read_device P 0 s f out w =
      (case device_at (cfg (st w)) s f of None \<Rightarrow> (-1, out, w') | Some d \<Rightarrow> (0, d, w'))"
    "cfg (st w') = cfg (st w)"
proof -
  obtain w1 where w1: "pci_config_read32 P 0 s f 0 w = (cfg (st w) (pci_address 0 s f 0), w1)"
    "cfg (st w1) = cfg (st w)"
    using pci_read_host [OF hw] by fastforce
  obtain w2 where w2: "pci_config_read32 P 0 s f 8 w1 = (cfg (st w) (pci_address 0 s f 8), w2)"
    "cfg (st w2) = cfg (st w)"
    using pci_read_host [OF hw, of 0 s f 8 w1] w1(2) by fastforce
  obtain w3 where w3: "pci_config_read32 P 0 s f 0x0c w2 = (cfg (st w) (pci_address 0 s f 0x0c), w3)"
    "cfg (st w3) = cfg (st w)"
    using pci_read_host [OF hw, of 0 s f "0x0c" w2] w2(2) by fastforce
  show thesis
    by (rule that [of "if device_at (cfg (st w)) s f = None then w1 else w3"])
      (simp_all add: read_device_def device_at_def w1 w2 w3 Let_def)
qed

lemma pci_search_host:
  assumes hw: "pci_hardware P st"
  shows "cfg (st w) = cf \<Longrightarrow> \<exists>d' w'. pci_search P c sc sfs d w = (case find (class_at cf c sc) sfs of
      None \<Rightarrow> (-1, d', w') | Some (s, f) \<Rightarrow> (0, the (device_at cf s f), w')) \<and> cfg (st w') = cf"
proof (induction sfs arbitrary: d w)
  case Nil
  then show ?case by auto
next
  case (Cons sf sfs)
  obtain s f where sf: "sf = (s, f)" by (cases sf)
  obtain w1 where w1: "read_device P 0 s f d w =
      (case device_at cf s f of None \<Rightarrow> (-1, d, w1) | Some d \<Rightarrow> (0, d, w1))" "cfg (st w1) = cf"
    by (rule read_device_host [OF hw, of s f d w, unfolded Cons.prems])
  show ?case
  proof (cases "device_at cf s f")
    case None
    then have "\<not> class_at cf c sc sf" by (simp add: class_at_def sf)
    then show ?thesis using Cons.IH [OF w1(2), of d] w1(1) None by (simp add: sf)
  next
    case (Some a)
    show ?thesis
    proof (cases "class_at cf c sc sf")
      case True
      then show ?thesis using w1 Some by (auto simp: sf class_at_def)
    next
      case False
      then have "\<not> (class_code a = c \<and> pci_subclass a = sc)" using Some by (simp add: class_at_def sf)
      then show ?thesis using Cons.IH [OF w1(2), of a] w1(1) Some False by (auto simp: sf)
    qed
  qed
qed

section \<open>Base address registers\<close>

lemma writable_restore:
  fixes x m v :: u32
  shows "(x AND NOT m OR v AND m) AND NOT m OR x AND m = x"
  by (intro bit_word_eqI) (auto simp: bit_simps)

lemma bar_size_bits:
  fixes x :: u32
  assumes "k < 32" "j \<le> k" "drop_bit j (take_bit k x) = 0"
  shows "(x AND mask k OR NOT (mask k)) AND NOT (mask j) = NOT (mask k)"
proof (intro bit_word_eqI)
  fix n assume "n < LENGTH(32)"
  have "\<not> bit x n" if "n < k" "j \<le> n"
  proof -
    have "\<not> bit (drop_bit j (take_bit k x)) (n - j)" using assms(3) by simp
    then show ?thesis using that by (simp add: bit_simps)
  qed
  then show "bit ((x AND mask k OR NOT (mask k)) AND NOT (mask j)) n \<longleftrightarrow> bit (NOT (mask k :: u32)) n"
    using assms(2) \<open>n < LENGTH(32)\<close> by (auto simp: bit_simps)
qed

lemma ucast_small_eq: "(v :: u32) \<le> 255 \<Longrightarrow> ucast v = (c :: u8) \<longleftrightarrow> v = ucast c"
  using unsigned_less [of c, where 'a = nat]
  by (auto simp: word_unat_eq_iff word_le_nat_alt unsigned_ucast_eq take_bit_eq_mod)

lemma and_small: "(x :: u32) AND 1 \<le> 255" "x AND 3 \<le> 255"
  using word_and_le1 [of x 1] word_and_le1 [of x 3] by (auto intro: order_trans)

lemma and_ones: "0xffffffff AND (y :: u32) = y"
proof -
  have "(0xffffffff :: u32) = - 1" by simp
  then show ?thesis by (simp only: and.left_neutral)
qed

lemma bar_probe_host:
  assumes hw: "pci_hardware P st" and a: "a = pci_address (bus d) (slot d) (pci_function d) off"
    and x: "x = cfg (st w) a" and run: "bar_probe P d off x out w = (r, bar, w')"
  shows "cfg (st w') = cfg (st w) \<and>
    (let low = (if bar_io out = 0 then 0xf else 3);
         m = (x AND NOT (cfg_writable (st w) a) OR cfg_writable (st w) a) AND NOT low
     in if m = 0 \<or> m = 0xffffffff then r = -1
        else r = 0 \<and> bar = Some (out\<lparr>bar_base := x AND NOT low, bar_size := - m\<rparr>))"
proof -
  let ?m = "cfg_writable (st w) a"
  define w3 where "w3 = pci_config_write32 P (bus d) (slot d) (pci_function d) off 0xffffffff w"
  have w3: "cfg (st w3) = (cfg (st w))(a := x AND NOT ?m OR ?m)" "cfg_writable (st w3) = cfg_writable (st w)"
    by (simp_all add: x w3_def pci_write_host [OF hw] a [symmetric] Let_def and_ones)
  obtain w4 where w4: "pci_config_read32 P (bus d) (slot d) (pci_function d) off w3 = (x AND NOT ?m OR ?m, w4)"
    "cfg (st w4) = (cfg (st w))(a := x AND NOT ?m OR ?m)" "cfg_writable (st w4) = cfg_writable (st w)"
    using pci_read_host [OF hw, of "bus d" "slot d" "pci_function d" off w3] w3 a [symmetric] by auto
  define w5 where "w5 = pci_config_write32 P (bus d) (slot d) (pci_function d) off x w4"
  have "(x AND NOT ?m OR ?m) AND NOT ?m OR x AND ?m = x"
    by (intro bit_word_eqI) (auto simp: bit_simps)
  then have w5: "cfg (st w5) = cfg (st w)"
    using w4(2,3) x by (simp add: w5_def pci_write_host [OF hw] a [symmetric] Let_def)
  have neg: "NOT y + 1 = - y" for y :: u32 by (simp add: minus_eq_not_plus_1)
  show ?thesis
    using run w5 unfolding bar_probe_def Let_def w3_def [symmetric] w4(1) neg
    by (simp add: w5_def [symmetric] split: if_splits)
qed

lemma not_mask_facts:
  assumes "0 < k" "k < 32"
  shows "NOT (mask k :: u32) \<noteq> 0" "NOT (mask k :: u32) \<noteq> 0xffffffff" "- NOT (mask k :: u32) = 2 ^ k"
proof -
  have "bit (NOT (mask k :: u32)) k" "\<not> bit (NOT (mask k :: u32)) 0" using assms by (simp_all add: bit_simps)
  moreover have "bit (0xffffffff :: u32) 0" by simp
  ultimately show "NOT (mask k :: u32) \<noteq> 0" "NOT (mask k :: u32) \<noteq> 0xffffffff" by (metis bit_0_eq bot_apply bot_bool_def, metis)
  show "- NOT (mask k :: u32) = 2 ^ k"
    by (simp add: minus_eq_not_plus_1 mask_eq_exp_minus_1)
qed

lemma bar_low_mask: "(0xf :: u32) = mask 4" "(3 :: u32) = mask 2"
  by (simp_all add: mask_eq_exp_minus_1)

section \<open>Properties\<close>

text \<open>The search for a device class returns the first function of bus 0, in order of slot and
  function, whose class and subclass match, with its identification read from the configuration
  space; it fails when there is none, and it changes no configuration register.\<close>

theorem pci_find_class_first:
  assumes "pci_hardware P st" and "pci_find_class P c sc (Some d) w = (r, d', w')"
  shows "cfg (st w') = cfg (st w) \<and>
    (case find (class_at (cfg (st w)) c sc) pci_functions of None \<Rightarrow> r = -1
     | Some (s, f) \<Rightarrow> r = 0 \<and> d' = device_at (cfg (st w)) s f)"
proof -
  let ?cf = "cfg (st w)"
  have some: "device_at ?cf s f = Some (the (device_at ?cf s f))"
    if "find (class_at ?cf c sc) pci_functions = Some (s, f)" for s f
  proof -
    have "class_at ?cf c sc (s, f)" using that unfolding find_Some_iff by metis
    then show ?thesis by (simp add: class_at_def split: option.splits)
  qed
  obtain d1 w1 where s: "pci_search P c sc pci_functions d w = (case find (class_at ?cf c sc) pci_functions of
      None \<Rightarrow> (-1, d1, w1) | Some (s, f) \<Rightarrow> (0, the (device_at ?cf s f), w1))" "cfg (st w1) = ?cf"
    using pci_search_host [OF assms(1) refl] by blast
  show ?thesis
    using assms(2) s some by (cases "find (class_at ?cf c sc) pci_functions") (auto simp: pci_find_class_def)
qed

definition host_example :: pci_host where
  "host_example = \<lparr>cfg_address = 0,
     cfg = (\<lambda>a. if a = pci_address 0 3 0 0 then 0x10011af4 else if a = pci_address 0 3 0 8 then 0x01000000
        else if a = pci_address 0 3 0 0x10 then 0xc001 else if a = pci_address 0 3 0 0x0c then 0 else 0xffffffff),
     cfg_writable = (\<lambda>a. if a = pci_address 0 3 0 0x10 then NOT (mask 6) else 0)\<rparr>"

lemma host_example_hardware: "pci_hardware host_ports (\<lambda>h. h)"
  by (simp add: pci_hardware_def port_sim_refl)

definition pci_none :: pci_device where
  "pci_none = \<lparr>bus = 0, slot = 0, pci_function = 0, vendor = 0, device = 0, class_code = 0,
     pci_subclass = 0, prog_if = 0, header_type = 0\<rparr>"

theorem pci_find_class_first_witness:
  "cfg (snd (snd (pci_find_class host_ports 1 0 (Some pci_none) host_example))) = cfg host_example"
  using pci_find_class_first [OF host_example_hardware, of 1 0 pci_none host_example]
  by (cases "pci_find_class host_ports 1 0 (Some pci_none) host_example") simp

text \<open>Sizing a base address register of \<open>2 ^ k\<close> bytes (\<open>k\<close> at least 4 for memory, 2 for ports; the
  upper half of a 64-bit one zero) reports its base and its size, and restores the register: no
  configuration register has changed afterwards.\<close>

theorem pci_read_bar_correct:
  assumes "pci_hardware P st" and "idx < 6"
    and "a = pci_address (bus d) (slot d) (pci_function d) (0x10 + idx * 4)"
    and "x = cfg (st w) a" and "x \<noteq> 0" and "x \<noteq> 0xffffffff"
    and "x AND 1 = 0 \<Longrightarrow> drop_bit 1 x AND 3 = 2 \<Longrightarrow>
      cfg (st w) (pci_address (bus d) (slot d) (pci_function d) (0x10 + idx * 4 + 4)) = 0"
    and "j = (if x AND 1 = 0 then 4 else 2)" and "j \<le> k" and "k < 32"
    and "cfg_writable (st w) a = NOT (mask k)" and "drop_bit j (take_bit k x) = 0"
    and "pci_read_bar P (Some d) idx (Some out) w = (r, bar, w')"
  shows "r = 0 \<and> cfg (st w') = cfg (st w) \<and>
    (\<exists>out'. bar = Some out' \<and> bar_size out' = 2 ^ k \<and> bar_base out' = x AND NOT (mask j) \<and>
       (bar_io out' = 0 \<longleftrightarrow> x AND 1 = 0))"
proof -
  define off where "off = 0x10 + idx * 4"
  note a = assms(3) [folded off_def] and wide = assms(7) [folded off_def]
  have k: "0 < k" using assms(8,9) by (auto split: if_splits)
  obtain w1 where w1: "pci_config_read32 P (bus d) (slot d) (pci_function d) off w = (x, w1)"
    "cfg (st w1) = cfg (st w)" "cfg_writable (st w1) = cfg_writable (st w)"
    using pci_read_host [OF assms(1), of "bus d" "slot d" "pci_function d" off w] assms(4) a by auto
  have probe: "r' = 0 \<and> cfg (st w'') = cfg (st w) \<and> bar' = Some (o'\<lparr>bar_base := x AND NOT (mask j), bar_size := 2 ^ k\<rparr>)"
    if "bar_probe P d off x o' w2 = (r', bar', w'')" "cfg (st w2) = cfg (st w)" "cfg_writable (st w2) = cfg_writable (st w)"
      "bar_io o' = 0 \<longleftrightarrow> x AND 1 = 0" for o' r' bar' w2 w''
  proof -
    have "x = cfg (st w2) a" using that(2) assms(4) by simp
    note spec = bar_probe_host [OF assms(1) a this that(1)]
    have low: "(if bar_io o' = 0 then 0xf else 3) = (mask j :: u32)"
      using that(4) assms(8) by (auto simp: bar_low_mask)
    have m: "(x AND NOT (cfg_writable (st w2) a) OR cfg_writable (st w2) a) AND NOT (mask j) = NOT (mask k)"
      using bar_size_bits [OF assms(10,9,12)] that(3) assms(11) by simp
    show ?thesis using spec not_mask_facts [OF k assms(10)] that(2)
      by (simp only: low m Let_def if_False simp_thms)
  qed
  have io: "ucast (x AND 1) = (0 :: u8) \<longleftrightarrow> x AND 1 = 0" "ucast (drop_bit 1 x AND 3) = (2 :: u8) \<longleftrightarrow> drop_bit 1 x AND 3 = 2"
    using and_small by (simp_all add: ucast_small_eq)
  have idx: "\<not> 6 \<le> idx" using assms(2) by (simp add: not_le)
  show ?thesis
  proof (cases "x AND 1 = 0 \<and> drop_bit 1 x AND 3 = 2")
    case True
    obtain w2 where w2: "pci_config_read32 P (bus d) (slot d) (pci_function d) (off + 4) w1 = (0, w2)"
      "cfg (st w2) = cfg (st w)" "cfg_writable (st w2) = cfg_writable (st w)"
      using pci_read_host [OF assms(1), of "bus d" "slot d" "pci_function d" "off + 4" w1] wide w1(2,3) True by auto
    have "bar_probe P d off x (out\<lparr>bar_io := 0, bar_prefetchable := ucast (drop_bit 3 x AND 1), bar_is_64bit := 1\<rparr>) w2 = (r, bar, w')"
      using assms(13) True idx assms(5,6) unfolding pci_read_bar_def Let_def off_def [symmetric]
      by (simp add: w1(1) io w2(1) del: One_nat_def)
    from probe [OF this w2(2,3)] True show ?thesis by simp
  next
    case False
    have "\<exists>o'. bar_probe P d off x o' w1 = (r, bar, w') \<and> bar_io o' = ucast (x AND 1)"
      using assms(13) False idx assms(5,6) unfolding pci_read_bar_def Let_def off_def [symmetric]
      by (auto simp: w1(1) io simp del: One_nat_def split: if_splits)
    then obtain o' where o': "bar_probe P d off x o' w1 = (r, bar, w')" "bar_io o' = 0 \<longleftrightarrow> x AND 1 = 0"
      using io(1) by auto
    from probe [OF o'(1) w1(2,3) o'(2)] o'(2) show ?thesis by simp
  qed
qed

theorem pci_read_bar_correct_witness:
  "\<exists>out w'. pci_read_bar host_ports (Some \<lparr>bus = 0, slot = 3, pci_function = 0, vendor = 0, device = 0, class_code = 1,
       pci_subclass = 0, prog_if = 0, header_type = 0\<rparr>) 0
       (Some \<lparr>bar_base = 0, bar_size = 0, bar_io = 0, bar_prefetchable = 0, bar_is_64bit = 0\<rparr>) host_example =
     (0, Some out, w') \<and> bar_size out = 64 \<and> bar_base out = 0xc000 \<and> cfg w' = cfg host_example"
proof -
  let ?d = "\<lparr>bus = 0, slot = 3, pci_function = 0, vendor = 0, device = 0, class_code = 1,
       pci_subclass = 0, prog_if = 0, header_type = 0\<rparr>"
  let ?o = "\<lparr>bar_base = 0, bar_size = 0, bar_io = 0, bar_prefetchable = 0, bar_is_64bit = 0\<rparr>"
  have x: "cfg host_example (pci_address 0 3 0 0x10) = 0xc001"
    "cfg_writable host_example (pci_address 0 3 0 0x10) = NOT (mask 6)"
    by (simp_all add: host_example_def pci_address_def)
  obtain r bar w' where run: "pci_read_bar host_ports (Some ?d) 0 (Some ?o) host_example = (r, bar, w')"
    by (cases "pci_read_bar host_ports (Some ?d) 0 (Some ?o) host_example")
  have "r = 0 \<and> cfg w' = cfg host_example \<and>
    (\<exists>out'. bar = Some out' \<and> bar_size out' = 2 ^ 6 \<and> bar_base out' = 0xc001 AND NOT (mask 2) \<and>
       (bar_io out' = 0 \<longleftrightarrow> (0xc001 :: u32) AND 1 = 0))"
    by (rule pci_read_bar_correct [OF host_example_hardware _ refl _ _ _ _ _ _ _ _ _ run])
      (simp_all add: x take_bit_eq_mod drop_bit_eq_div)
  then show ?thesis using run by (auto simp: mask_eq_exp_minus_1)
qed

end
