(* ===== verification/Dma.thy ===== *)
theory Dma
  imports Pmm
begin

text \<open>
  The DMA buffer allocator \<open>drivers/dma/dma.c\<close>, a client of the page allocator: a buffer is a run
  of physically contiguous pages below 4 MiB, or nothing.
\<close>

section \<open>Operations\<close>

definition DMA_MAX_ADDRESS :: u32 where "DMA_MAX_ADDRESS = 0x00400000"

record dma_buffer =
  virtual_address :: u32
  physical_address :: u32
  dma_length :: u32
  dma_pages :: u32

definition dma_init :: "bool \<Rightarrow> bool" where
  "dma_init initialized = True"

text \<open>The loop of \<open>dma_alloc\<close> from page \<open>i\<close> on, \<open>n\<close> pages left: the first page, or \<open>None\<close> on failure.\<close>

fun dma_take :: "nat \<Rightarrow> u32 \<Rightarrow> u32 \<Rightarrow> pmm \<Rightarrow> u32 option \<times> pmm" where
  "dma_take 0 i first s = (Some first, s)"
| "dma_take (Suc n) i first s =
     (case pmm_alloc_page s of (p, s) \<Rightarrow>
        if p = 0 \<or> DMA_MAX_ADDRESS \<le> p \<or> i \<noteq> 0 \<and> p \<noteq> first + i * PAGE_SIZE then
          (let s = (if p \<noteq> 0 then pmm_free_page p s else s)
           in (None, fold pmm_free_page (map (\<lambda>j. first + of_nat j * PAGE_SIZE) [0..<unat i]) s))
        else dma_take n (i + 1) (if i = 0 then p else first) s)"

definition dma_alloc :: "bool \<Rightarrow> u32 \<Rightarrow> dma_buffer option \<Rightarrow> pmm \<Rightarrow> int \<times> dma_buffer option \<times> pmm" where
  "dma_alloc initialized len buffer s =
     (if \<not> initialized \<or> buffer = None \<or> len = 0 then (-1, buffer, s)
      else (let pages = (len + PAGE_SIZE - 1) div PAGE_SIZE in
        case dma_take (unat pages) 0 0 s of
          (None, s) \<Rightarrow> (-1, buffer, s)
        | (Some first, s) \<Rightarrow>
            (0, Some \<lparr>virtual_address = first, physical_address = first, dma_length = len, dma_pages = pages\<rparr>, s)))"

definition dma_free :: "dma_buffer option \<Rightarrow> pmm \<Rightarrow> dma_buffer option \<times> pmm" where
  "dma_free buffer s =
     (case buffer of None \<Rightarrow> (buffer, s)
      | Some b \<Rightarrow>
        if physical_address b = 0 \<or> dma_pages b = 0 then (buffer, s)
        else (Some \<lparr>virtual_address = 0, physical_address = 0, dma_length = 0, dma_pages = 0\<rparr>,
              fold pmm_free_page (map (\<lambda>i. physical_address b + of_nat i * PAGE_SIZE) [0..<unat (dma_pages b)]) s))"

section \<open>Contiguous runs\<close>

definition run_frames :: "u32 \<Rightarrow> nat \<Rightarrow> nat set" where
  "run_frames first n = {pfn first..<pfn first + n}"

text \<open>The pages of a run were free in \<open>s0\<close> and are the only ones taken since.\<close>

definition run_taken :: "pmm \<Rightarrow> u32 \<Rightarrow> nat \<Rightarrow> pmm \<Rightarrow> bool" where
  "run_taken s0 first n s \<longleftrightarrow> pmm_inv s \<and> (\<forall>p \<in> run_frames first n. refcount s0 p = 0) \<and>
     refcount s = (\<lambda>p. if p \<in> run_frames first n then 1 else refcount s0 p)"

lemma run_page:
  assumes "page_aligned first" "unat first + j * 4096 < 0x100000000"
  shows "pfn (first + of_nat j * 4096) = pfn first + j" "unat (first + of_nat j * 4096) = unat first + j * 4096"
proof -
  show u: "unat (first + of_nat j * 4096) = unat first + j * 4096"
    using assms(2) by (simp add: unat_word_ariths unat_of_nat mod_mult_left_eq mod_add_right_eq)
  show "pfn (first + of_nat j * 4096) = pfn first + j"
    by (simp add: pfn_def u)
qed

lemma run_free:
  assumes run: "run_taken s0 first n s" and al: "page_aligned first" and bound: "unat first + n * 4096 \<le> 0x100000000"
  shows "pmm_inv (fold pmm_free_page (map (\<lambda>j. first + of_nat j * 4096) [0..<n]) s) \<and>
    refcount (fold pmm_free_page (map (\<lambda>j. first + of_nat j * 4096) [0..<n]) s) = refcount s0"
proof -
  let ?as = "map (\<lambda>j. first + of_nat j * 4096 :: u32) [0..<n]"
  have pf: "map pfn ?as = map (\<lambda>j. pfn first + j) [0..<n]"
    using run_page(1) [OF al] bound by auto
  have set_eq: "pfn ` set ?as = run_frames first n"
    unfolding image_set pf by (auto simp: run_frames_def image_iff intro: bexI [where x = "x - pfn first" for x])
  have "distinct (map pfn ?as)" unfolding pf by (simp add: distinct_map)
  moreover have "refcount s (pfn a) \<noteq> 0" if "a \<in> set ?as" for a
  proof -
    have "pfn a \<in> run_frames first n" using that set_eq by blast
    then show ?thesis using run by (simp add: run_taken_def)
  qed
  ultimately have "pmm_inv (fold pmm_free_page ?as s) \<and> refcount (fold pmm_free_page ?as s) =
      (\<lambda>p. if p \<in> run_frames first n then refcount s p - 1 else refcount s p)"
    using pa.fold_free [of s ?as] run unfolding set_eq by (simp add: run_taken_def)
  with run show ?thesis by (auto simp: run_taken_def fun_eq_iff)
qed

lemma aligned_below:
  "page_aligned p \<Longrightarrow> p < 0x400000 \<Longrightarrow> unat p + 4096 \<le> 0x400000"
proof -
  assume "page_aligned p" "p < 0x400000"
  then have "4096 dvd unat p" "unat p < 0x400000"
    by (simp_all add: page_aligned_iff mod_eq_0_iff_dvd word_less_nat_alt)
  then obtain k where "unat p = 4096 * k" "4096 * k < 4096 * 1024" by (auto elim: dvdE)
  then show ?thesis by simp
qed

lemma dma_take_spec:
  "run_taken s0 first (unat i) s \<Longrightarrow> page_aligned first \<Longrightarrow> first = 0 \<longleftrightarrow> i = 0 \<Longrightarrow>
   unat first + unat i * 4096 \<le> 0x400000 \<Longrightarrow> dma_take n i first s = (r, s') \<Longrightarrow> pmm_inv s' \<and>
   (case r of None \<Rightarrow> refcount s' = refcount s0
    | Some a \<Rightarrow> run_taken s0 a (unat i + n) s' \<and> page_aligned a \<and> (a = 0 \<longleftrightarrow> unat i + n = 0) \<and>
        unat a + (unat i + n) * 4096 \<le> 0x400000)"
proof (induction n arbitrary: i first s)
  case 0
  then show ?case by (auto simp: run_taken_def unat_eq_zero)
next
  case (Suc n)
  obtain p s1 where al: "pmm_alloc_page s = (p, s1)" by fastforce
  have inv: "pmm_inv s" using Suc.prems(1) by (simp add: run_taken_def)
  show ?case
  proof (cases "p = 0 \<or> DMA_MAX_ADDRESS \<le> p \<or> i \<noteq> 0 \<and> p \<noteq> first + i * 4096")
    case True
    let ?s = "if p \<noteq> 0 then pmm_free_page p s1 else s1"
    have "pmm_inv ?s \<and> refcount ?s = refcount s"
    proof (cases "p = 0")
      case True
      then show ?thesis using pa.alloc_none [OF inv] al inv by simp
    next
      case False
      have "refcount s1 (pfn p) \<noteq> 0" using pa.alloc_refs [OF inv al False] by simp
      then show ?thesis
        using False pa.alloc_free_refs [OF inv al False] pa.free_inv [OF pa.alloc_inv [OF inv al]] by simp
    qed
    then have "run_taken s0 first (unat i) ?s" using Suc.prems(1) by (simp add: run_taken_def)
    from run_free [OF this Suc.prems(2)] show ?thesis
      using Suc.prems(4,5) True al by auto
  next
    case False
    let ?f = "if i = 0 then p else first"
    have take: "dma_take n (i + 1) ?f s1 = (r, s')" using Suc.prems(5) al False by simp
    have p: "p \<noteq> 0" "p < 0x400000" "page_aligned p"
      using False pa.alloc_aligned [OF inv al] by (simp_all add: DMA_MAX_ADDRESS_def not_le)
    have b: "unat p + 4096 \<le> 0x400000" by (rule aligned_below [OF p(3,2)])
    have i1: "unat (i + 1) = Suc (unat i)"
      using Suc.prems(4) by (intro unat_inc [of i 1025]) simp_all
    have "pfn p = pfn ?f + unat i \<and> unat p = unat ?f + unat i * 4096"
      using False run_page [OF Suc.prems(2), of "unat i"] Suc.prems(4) by auto
    then have pf: "pfn p = pfn ?f + unat i" "unat p = unat ?f + unat i * 4096" by auto
    have fr: "refcount s (pfn p) = 0" "refcount s1 = (refcount s)(pfn p := 1)"
      using pa.alloc_fresh [OF inv al p(1)] pa.alloc_refs [OF inv al p(1)] by auto
    have "run_taken s0 ?f (unat i) s"
      using Suc.prems(1) by (cases "i = 0") (simp_all add: run_taken_def run_frames_def)
    then have "run_taken s0 ?f (unat (i + 1)) s1"
      using fr pa.alloc_inv [OF inv al] unfolding run_taken_def run_frames_def i1 pf(1)
      by (auto simp: fun_eq_iff less_Suc_eq)
    moreover have "page_aligned ?f" "?f = 0 \<longleftrightarrow> i + 1 = 0" "unat ?f + unat (i + 1) * 4096 \<le> 0x400000"
      using p Suc.prems(2,3) i1 pf(2) b unat_eq_zero [of "i + 1"] by auto
    ultimately show ?thesis
      using Suc.IH [OF _ _ _ _ take, unfolded i1] i1 by (auto split: option.splits)
  qed
qed

lemma dma_take_start:
  assumes "pmm_inv s" "dma_take n 0 0 s = (r, s')"
  shows "pmm_inv s' \<and> (case r of None \<Rightarrow> refcount s' = refcount s
    | Some a \<Rightarrow> run_taken s a n s' \<and> page_aligned a \<and> (a = 0 \<longleftrightarrow> n = 0) \<and> unat a + n * 4096 \<le> 0x400000)"
proof -
  have "run_taken s 0 (unat (0 :: u32)) s" using assms(1) by (simp add: run_taken_def run_frames_def)
  from dma_take_spec [OF this _ _ _ assms(2)] show ?thesis by (auto simp: page_aligned_def split: option.splits)
qed

lemma dma_page_count:
  "0 < unat len \<Longrightarrow> unat len \<le> 0xfffff000 \<Longrightarrow> unat ((len + PAGE_SIZE - 1) div PAGE_SIZE :: u32) = (unat len + 4095) div 4096"
proof -
  assume "0 < unat len" "unat len \<le> 0xfffff000"
  then have "unat (len + 4095) = unat len + 4095" by (simp add: unat_word_ariths)
  moreover have "len + PAGE_SIZE - 1 = len + 4095" by simp
  ultimately show ?thesis by (simp only: unat_div_page pfn_def)
qed

text \<open>A buffer that describes a run taken since \<open>s0\<close>.\<close>

definition buffer_taken :: "pmm \<Rightarrow> dma_buffer \<Rightarrow> pmm \<Rightarrow> bool" where
  "buffer_taken s0 buf s \<longleftrightarrow> run_taken s0 (physical_address buf) (unat (dma_pages buf)) s \<and>
     physical_address buf \<noteq> 0 \<and> page_aligned (physical_address buf) \<and> dma_pages buf \<noteq> 0 \<and>
     virtual_address buf = physical_address buf \<and>
     unat (physical_address buf) + unat (dma_pages buf) * 4096 \<le> 0x400000"

lemma dma_alloc_cases:
  assumes "pmm_inv s" and "len \<noteq> 0" and "unat len \<le> 0xfffff000"
    and "dma_alloc ready len (Some b) s = (r, b', s')"
  obtains (refused) "r = -1" "b' = Some b" "pmm_inv s'" "refcount s' = refcount s"
  | (granted) buf where "r = 0" "b' = Some buf" "pmm_inv s'" "buffer_taken s buf s'"
      "unat (dma_pages buf) = (unat len + 4095) div 4096"
proof -
  define n where "n = (len + PAGE_SIZE - 1) div PAGE_SIZE"
  have len: "0 < unat len" using assms(2) by (simp add: unat_gt_0)
  have np: "unat n = (unat len + 4095) div 4096" unfolding n_def by (rule dma_page_count [OF len assms(3)])
  then have "0 < unat n" using len by (simp add: div_greater_zero_iff)
  then have nz: "unat n \<noteq> 0" "n \<noteq> 0" by auto
  obtain a s1 where take: "dma_take (unat n) 0 0 s = (a, s1)" by fastforce
  note spec = dma_take_start [OF assms(1) take]
  have res: "(r, b', s') = (if \<not> ready then (-1, Some b, s) else case a of None \<Rightarrow> (-1, Some b, s1)
      | Some first \<Rightarrow> (0, Some \<lparr>virtual_address = first, physical_address = first, dma_length = len, dma_pages = n\<rparr>, s1))"
    using assms(4) unfolding dma_alloc_def Let_def n_def [symmetric] take using assms(2)
    by (simp split: option.splits if_splits)
  show thesis
  proof (cases "ready \<and> a \<noteq> None")
    case True
    then obtain first where "a = Some first" by auto
    then show thesis using res spec nz np True by (intro granted) (auto simp: buffer_taken_def)
  next
    case False
    then show thesis using res spec assms(1) by (intro refused) (auto split: if_splits)
  qed
qed

lemma dma_free_taken:
  assumes "buffer_taken s0 buf s"
  obtains s' where "dma_free (Some buf) s =
      (Some \<lparr>virtual_address = 0, physical_address = 0, dma_length = 0, dma_pages = 0\<rparr>, s')"
    "pmm_inv s'" "refcount s' = refcount s0"
  using assms run_free [of s0 "physical_address buf" "unat (dma_pages buf)" s]
  by (auto simp: buffer_taken_def dma_free_def)

section \<open>Properties\<close>

text \<open>C24: DMA allocation is all or nothing. For a length that does not wrap when rounded up to pages,
  success hands out the pages of the length as one contiguous, page-aligned run below 4 MiB, all of
  them free before and held once now, and no other page changes; failure changes no reference count
  and leaves the buffer alone. Freeing the buffer gives exactly these pages back and clears it.\<close>

theorem dma_alloc_free_correct:
  assumes "pmm_inv s" and "len \<noteq> 0" and "unat len \<le> 0xfffff000"
    and "dma_alloc True len (Some b) s = (r, b', s')"
  shows "pmm_inv s' \<and>
    (r = 0 \<and> (\<exists>buf. b' = Some buf \<and> unat (dma_pages buf) = (unat len + 4095) div 4096 \<and>
        physical_address buf \<noteq> 0 \<and> page_aligned (physical_address buf) \<and>
        virtual_address buf = physical_address buf \<and>
        unat (physical_address buf) + unat (dma_pages buf) * 4096 \<le> 0x400000 \<and>
        (\<forall>p. refcount s' p = (if p \<in> run_frames (physical_address buf) (unat (dma_pages buf)) then 1 else refcount s p)) \<and>
        (\<forall>p \<in> run_frames (physical_address buf) (unat (dma_pages buf)). refcount s p = 0) \<and>
        (case dma_free b' s' of (b'', s'') \<Rightarrow> pmm_inv s'' \<and> refcount s'' = refcount s \<and>
           b'' = Some \<lparr>virtual_address = 0, physical_address = 0, dma_length = 0, dma_pages = 0\<rparr>)) \<or>
     r = -1 \<and> b' = Some b \<and> refcount s' = refcount s)"
proof (rule dma_alloc_cases [OF assms])
  fix buf
  assume granted: "r = 0" "b' = Some buf" "pmm_inv s'" "buffer_taken s buf s'"
    "unat (dma_pages buf) = (unat len + 4095) div 4096"
  obtain s'' where free: "dma_free (Some buf) s' =
      (Some \<lparr>virtual_address = 0, physical_address = 0, dma_length = 0, dma_pages = 0\<rparr>, s'')"
    "pmm_inv s''" "refcount s'' = refcount s"
    by (rule dma_free_taken [OF granted(4)])
  have rc: "refcount s' p = (if p \<in> run_frames (physical_address buf) (unat (dma_pages buf)) then 1 else refcount s p)"
    "p \<in> run_frames (physical_address buf) (unat (dma_pages buf)) \<Longrightarrow> refcount s p = 0" for p
    using granted(4) by (simp_all add: buffer_taken_def run_taken_def)
  show ?thesis
    unfolding granted(1,2)
    by (intro conjI disjI1 exI [of _ buf]) (use granted free rc in \<open>simp_all add: buffer_taken_def\<close>)
qed simp

theorem dma_alloc_free_correct_witness:
  "pmm_inv (snd (snd (dma_alloc True 8192 (Some \<lparr>virtual_address = 0, physical_address = 0, dma_length = 0, dma_pages = 0\<rparr>) pmm_example)))"
  using dma_alloc_free_correct [OF pmm_example_inv, of 8192 "\<lparr>virtual_address = 0, physical_address = 0, dma_length = 0, dma_pages = 0\<rparr>"]
  by (cases "dma_alloc True 8192 (Some \<lparr>virtual_address = 0, physical_address = 0, dma_length = 0, dma_pages = 0\<rparr>) pmm_example") simp

end
