(* ===== verification/Virtio.thy ===== *)
theory Virtio
  imports Pci Dma Block
begin

text \<open>
  The legacy virtio block driver \<open>drivers/virtio/virtio_blk.c\<close>. The virtqueue and the request live in
  DMA memory that the device reads and writes: the memory accesses of the driver are a parameter,
  like the port instructions, over the hardware state. The packed structures of the source
  are given by the offsets of their fields.
\<close>

section \<open>Constants and layout\<close>

definition VIRTIO_VENDOR :: u16 where "VIRTIO_VENDOR = 0x1af4"
definition VIRTIO_BLK_DEVICE :: u16 where "VIRTIO_BLK_DEVICE = 0x1001"
definition VIRTQ_DESC_F_NEXT :: u16 where "VIRTQ_DESC_F_NEXT = 1"
definition VIRTQ_DESC_F_WRITE :: u16 where "VIRTQ_DESC_F_WRITE = 2"
definition VIRTIO_STATUS_ACK :: u8 where "VIRTIO_STATUS_ACK = 1"
definition VIRTIO_STATUS_DRIVER :: u8 where "VIRTIO_STATUS_DRIVER = 2"
definition VIRTIO_STATUS_DRIVER_OK :: u8 where "VIRTIO_STATUS_DRIVER_OK = 4"
definition VIRTIO_STATUS_FAILED :: u8 where "VIRTIO_STATUS_FAILED = 128"
definition VIRTIO_BLK_T_IN :: u32 where "VIRTIO_BLK_T_IN = 0"
definition VIRTIO_BLK_QUEUE :: u16 where "VIRTIO_BLK_QUEUE = 0"
definition VIRTIO_QUEUE_SIZE :: u32 where "VIRTIO_QUEUE_SIZE = 8"
definition VIRTIO_QUEUE_ALIGN :: u32 where "VIRTIO_QUEUE_ALIGN = 4096"
definition VIRTIO_POLL_LIMIT :: nat where "VIRTIO_POLL_LIMIT = 1000000"

record 'w memory =
  ld8 :: "u32 \<Rightarrow> 'w \<Rightarrow> u8 \<times> 'w"
  st8 :: "u32 \<Rightarrow> u8 \<Rightarrow> 'w \<Rightarrow> 'w"
  ld16 :: "u32 \<Rightarrow> 'w \<Rightarrow> u16 \<times> 'w"
  st16 :: "u32 \<Rightarrow> u16 \<Rightarrow> 'w \<Rightarrow> 'w"
  st32 :: "u32 \<Rightarrow> u32 \<Rightarrow> 'w \<Rightarrow> 'w"
  st64 :: "u32 \<Rightarrow> u64 \<Rightarrow> 'w \<Rightarrow> 'w"

text \<open>\<open>virtq_desc_t\<close>: address, length, flags, next; 12 bytes.\<close>

definition virtq_desc_size :: u32 where "virtq_desc_size = 12"

definition virtq_desc :: "u32 \<Rightarrow> u32 \<Rightarrow> u32" where
  "virtq_desc table i = table + i * virtq_desc_size"

text \<open>\<open>virtq_avail_t\<close>: flags, idx and a ring of eight 16-bit entries; 20 bytes.\<close>

definition virtq_avail_size :: u32 where "virtq_avail_size = 4 + 2 * VIRTIO_QUEUE_SIZE"
definition avail_idx :: "u32 \<Rightarrow> u32" where "avail_idx avail = avail + 2"
definition avail_ring :: "u32 \<Rightarrow> u32 \<Rightarrow> u32" where "avail_ring avail i = avail + 4 + 2 * i"

text \<open>\<open>virtq_used_elem_t\<close> and \<open>virtq_used_t\<close>: flags, idx and a ring of eight 8-byte elements; 68 bytes.\<close>

definition virtq_used_elem_size :: u32 where "virtq_used_elem_size = 8"
definition virtq_used_size :: u32 where "virtq_used_size = 4 + virtq_used_elem_size * VIRTIO_QUEUE_SIZE"
definition used_idx :: "u32 \<Rightarrow> u32" where "used_idx used = used + 2"

text \<open>\<open>virtio_blk_req_t\<close>: type, reserved, sector; 16 bytes.\<close>

definition virtio_blk_req_size :: u32 where "virtio_blk_req_size = 16"

record virtio =
  io_base :: u16
  vio_present :: bool
  queue_dma :: dma_buffer
  request_dma :: dma_buffer
  vio_desc :: u32
  vio_avail :: u32
  vio_used :: u32
  vio_request :: u32
  vio_data :: u32
  vio_status :: u32
  last_used :: u16

section \<open>Device status\<close>

definition cfg_status :: "'w ports \<Rightarrow> virtio \<Rightarrow> 'w \<Rightarrow> u8 \<times> 'w" where
  "cfg_status P v w = inb P (io_base v + 18) w"

definition set_status :: "'w ports \<Rightarrow> virtio \<Rightarrow> u8 \<Rightarrow> 'w \<Rightarrow> 'w" where
  "set_status P v x w = outb P (io_base v + 18) x w"

definition vio_fail :: "'w ports \<Rightarrow> virtio \<Rightarrow> 'w \<Rightarrow> 'w" where
  "vio_fail P v w = (case cfg_status P v w of (x, w) \<Rightarrow> set_status P v (x OR VIRTIO_STATUS_FAILED) w)"

section \<open>Requests\<close>

text \<open>The descriptor stores of the source are one field at a time.\<close>

definition desc_address :: "'w memory \<Rightarrow> virtio \<Rightarrow> u32 \<Rightarrow> u32 \<Rightarrow> 'w \<Rightarrow> 'w" where
  "desc_address M v i x w = st32 M (virtq_desc (vio_desc v) i) x w"
definition desc_length :: "'w memory \<Rightarrow> virtio \<Rightarrow> u32 \<Rightarrow> u32 \<Rightarrow> 'w \<Rightarrow> 'w" where
  "desc_length M v i x w = st32 M (virtq_desc (vio_desc v) i + 4) x w"
definition desc_flags :: "'w memory \<Rightarrow> virtio \<Rightarrow> u32 \<Rightarrow> u16 \<Rightarrow> 'w \<Rightarrow> 'w" where
  "desc_flags M v i x w = st16 M (virtq_desc (vio_desc v) i + 8) x w"
definition desc_next :: "'w memory \<Rightarrow> virtio \<Rightarrow> u32 \<Rightarrow> u16 \<Rightarrow> 'w \<Rightarrow> 'w" where
  "desc_next M v i x w = st16 M (virtq_desc (vio_desc v) i + 10) x w"

definition put_request :: "'w memory \<Rightarrow> virtio \<Rightarrow> u32 \<Rightarrow> u32 \<Rightarrow> 'w \<Rightarrow> 'w" where
  "put_request M v type lba w =
     (let w = st32 M (vio_request v) type w;
          w = st32 M (vio_request v + 4) 0 w
      in st64 M (vio_request v + 8) (ucast lba) w)"

definition put_data :: "'w memory \<Rightarrow> virtio \<Rightarrow> bytes \<Rightarrow> 'w \<Rightarrow> 'w" where
  "put_data M v b w = fold (\<lambda>i. st8 M (vio_data v + of_nat i) (b i)) [0..<512] w"

fun get_data :: "'w memory \<Rightarrow> virtio \<Rightarrow> nat list \<Rightarrow> bytes \<times> 'w \<Rightarrow> bytes \<times> 'w" where
  "get_data M v [] bw = bw"
| "get_data M v (i # is) (b, w) =
     (case ld8 M (vio_data v + of_nat i) w of (x, w) \<Rightarrow> get_data M v is (b(i := x), w))"

text \<open>Publishing the request in the available ring and notifying the device.\<close>

definition virtio_submit :: "'w ports \<Rightarrow> 'w memory \<Rightarrow> virtio \<Rightarrow> 'w \<Rightarrow> 'w" where
  "virtio_submit P M v w =
     (let (idx, w) = ld16 M (avail_idx (vio_avail v)) w;
          w = st16 M (avail_ring (vio_avail v) (ucast idx mod VIRTIO_QUEUE_SIZE)) 0 w;
          (idx, w) = ld16 M (avail_idx (vio_avail v)) w;
          w = st16 M (avail_idx (vio_avail v)) (idx + 1) w
      in outw P (io_base v + 16) VIRTIO_BLK_QUEUE w)"

text \<open>The completion loop: \<open>Some\<close> the new \<open>last_used\<close> when the used index moved, \<open>None\<close> at the limit.\<close>

fun virtio_poll :: "'w memory \<Rightarrow> virtio \<Rightarrow> nat \<Rightarrow> 'w \<Rightarrow> u16 option \<times> 'w" where
  "virtio_poll M v 0 w = (None, w)"
| "virtio_poll M v (Suc n) w =
     (case ld16 M (used_idx (vio_used v)) w of (x, w) \<Rightarrow>
        if x \<noteq> last_used v then (case ld16 M (used_idx (vio_used v)) w of (x, w) \<Rightarrow> (Some x, w))
        else virtio_poll M v n w)"

definition virtio_blk_read_sector ::
  "'w ports \<Rightarrow> 'w memory \<Rightarrow> u32 \<Rightarrow> bytes option \<Rightarrow> virtio \<times> 'w \<Rightarrow> int \<times> bytes option \<times> virtio \<times> 'w" where
  "virtio_blk_read_sector P M lba buffer s =
     (case (buffer, s) of (None, _) \<Rightarrow> (-1, buffer, s)
      | (Some b, v, w) \<Rightarrow>
        if \<not> vio_present v then (-1, buffer, s)
        else (let w = put_request M v VIRTIO_BLK_T_IN lba w;
                  w = st8 M (vio_status v) 0xff w;
                  w = put_data M v (\<lambda>_. 0) w;
                  w = virtio_submit P M v w
              in case virtio_poll M v VIRTIO_POLL_LIMIT w of
                (None, w) \<Rightarrow> (-1, buffer, v, w)
              | (Some x, w) \<Rightarrow>
                  (let v = v\<lparr>last_used := x\<rparr> in
                   case ld8 M (vio_status v) w of (st, w) \<Rightarrow>
                     if st \<noteq> 0 then (-1, buffer, v, w)
                     else (case get_data M v [0..<512] (b, w) of (b, w) \<Rightarrow> (0, Some b, v, w)))))"

definition virtio_blk_write_sector ::
  "'w ports \<Rightarrow> 'w memory \<Rightarrow> u32 \<Rightarrow> bytes option \<Rightarrow> virtio \<times> 'w \<Rightarrow> int \<times> virtio \<times> 'w" where
  "virtio_blk_write_sector P M lba buffer s =
     (case (buffer, s) of (None, _) \<Rightarrow> (-1, s)
      | (Some b, v, w) \<Rightarrow>
        if \<not> vio_present v then (-1, s)
        else (let w = put_request M v 1 lba w;
                  w = put_data M v b w;
                  w = st8 M (vio_status v) 0xff w;
                  w = desc_flags M v 1 VIRTQ_DESC_F_NEXT w;
                  w = virtio_submit P M v w
              in case virtio_poll M v VIRTIO_POLL_LIMIT w of
                (None, w) \<Rightarrow> (-1, v, desc_flags M v 1 (VIRTQ_DESC_F_NEXT OR VIRTQ_DESC_F_WRITE) w)
              | (Some x, w) \<Rightarrow>
                  (let v = v\<lparr>last_used := x\<rparr>;
                       w = desc_flags M v 1 (VIRTQ_DESC_F_NEXT OR VIRTQ_DESC_F_WRITE) w
                   in case ld8 M (vio_status v) w of (st, w) \<Rightarrow> (if st = 0 then 0 else -1, v, w))))"

definition virtio_blk_present :: "virtio \<Rightarrow> bool" where
  "virtio_blk_present v = vio_present v"

definition virtio_block :: "'w ports \<Rightarrow> 'w memory \<Rightarrow> (virtio \<times> 'w) block_device" where
  "virtio_block P M =
     \<lparr>bd_name = ''virtio0'', sector_size = 512, sector_count = 0xffffffff,
      read_sector = Some (virtio_blk_read_sector P M), write_sector = Some (virtio_blk_write_sector P M),
      bd_present = False\<rparr>"

section \<open>Initialisation\<close>

text \<open>The descriptor table for the three-part request: header, data, status.\<close>

definition virtio_setup_queue :: "'w memory \<Rightarrow> virtio \<Rightarrow> 'w \<Rightarrow> 'w" where
  "virtio_setup_queue M v w =
     (let q = virtual_address (queue_dma v); r = physical_address (request_dma v);
          w = fold (\<lambda>i. st8 M (q + of_nat i) 0) [0..<8192] w;
          w = fold (\<lambda>i w. desc_next M v (of_nat i) 0 (desc_flags M v (of_nat i) 0
                (desc_length M v (of_nat i) 0 (desc_address M v (of_nat i) 0 w)))) [0..<unat VIRTIO_QUEUE_SIZE] w;
          w = desc_address M v 0 r w;
          w = desc_length M v 0 virtio_blk_req_size w;
          w = desc_flags M v 0 VIRTQ_DESC_F_NEXT w;
          w = desc_next M v 0 1 w;
          w = desc_address M v 1 (r + 64) w;
          w = desc_length M v 1 512 w;
          w = desc_flags M v 1 (VIRTQ_DESC_F_NEXT OR VIRTQ_DESC_F_WRITE) w;
          w = desc_next M v 1 2 w;
          w = desc_address M v 2 (r + 576) w;
          w = desc_length M v 2 1 w
      in desc_flags M v 2 VIRTQ_DESC_F_WRITE w)"

definition virtio_pointers :: "virtio \<Rightarrow> virtio" where
  "virtio_pointers v =
     (let q = virtual_address (queue_dma v); r = virtual_address (request_dma v);
          avail_offset = virtq_desc_size * VIRTIO_QUEUE_SIZE;
          used_offset = (avail_offset + virtq_avail_size + VIRTIO_QUEUE_ALIGN - 1) AND NOT (VIRTIO_QUEUE_ALIGN - 1)
      in v\<lparr>vio_desc := q, vio_avail := q + avail_offset, vio_used := q + used_offset,
           vio_request := r, vio_data := r + 64, vio_status := r + 64 + 512\<rparr>)"

text \<open>The part of \<open>virtio_blk_init\<close> after the device and its I/O base are known.\<close>

definition virtio_start ::
  "'w ports \<Rightarrow> 'w memory \<Rightarrow> 'h block_device \<Rightarrow> bool \<Rightarrow> 'h block \<times> pmm \<times> virtio \<times> 'w \<Rightarrow> 'h block \<times> pmm \<times> virtio \<times> 'w" where
  "virtio_start P M dev dma_ready = (\<lambda>(blk, pm, v, w).
     (let w = set_status P v 0 w;
          w = snd (inl P (io_base v + 0) w);
          w = outl P (io_base v + 4) 0 w;
          w = set_status P v (VIRTIO_STATUS_ACK OR VIRTIO_STATUS_DRIVER) w;
          w = outw P (io_base v + 14) VIRTIO_BLK_QUEUE w;
          (x, w) = inl P (io_base v + 12) w;
          qsize = ucast (ucast x :: u16) :: u32
      in if qsize < VIRTIO_QUEUE_SIZE then (blk, pm, v, vio_fail P v w)
      else (let (r1, qb, pm) = dma_alloc dma_ready 8192 (Some (queue_dma v)) pm;
                v = v\<lparr>queue_dma := the qb\<rparr>;
                (r2, rb, pm) = (if r1 \<noteq> 0 then (-1, Some (request_dma v), pm)
                                else dma_alloc dma_ready PAGE_SIZE (Some (request_dma v)) pm);
                v = v\<lparr>request_dma := the rb\<rparr>
            in if r1 \<noteq> 0 \<or> r2 \<noteq> 0 then
                 (let (qb, pm) = (if physical_address (queue_dma v) \<noteq> 0 then dma_free (Some (queue_dma v)) pm
                                  else (Some (queue_dma v), pm));
                      v = v\<lparr>queue_dma := the qb\<rparr>
                  in (blk, pm, v, vio_fail P v w))
               else (let v = virtio_pointers v;
                         w = virtio_setup_queue M v w;
                         w = outl P (io_base v + 8) (drop_bit 12 (physical_address (queue_dma v))) w;
                         w = set_status P v (VIRTIO_STATUS_ACK OR VIRTIO_STATUS_DRIVER OR VIRTIO_STATUS_DRIVER_OK) w
                     in (snd (block_register (Some (dev\<lparr>bd_present := True\<rparr>)) blk), pm,
                         v\<lparr>vio_present := True, last_used := 0\<rparr>, w)))))"

definition virtio_blk_init ::
  "'w ports \<Rightarrow> 'w memory \<Rightarrow> 'h block_device \<Rightarrow> bool \<Rightarrow> pci_device \<Rightarrow> pci_bar \<Rightarrow>
   'h block \<times> pmm \<times> virtio \<times> 'w \<Rightarrow> 'h block \<times> pmm \<times> virtio \<times> 'w" where
  "virtio_blk_init P M dev dma_ready d bar = (\<lambda>(blk, pm, v, w).
     (let (r, d, w) = pci_find_class P 0x01 0x00 (Some d) w in
      if r \<noteq> 0 \<or> vendor (the d) \<noteq> VIRTIO_VENDOR \<or> device (the d) \<noteq> VIRTIO_BLK_DEVICE then (blk, pm, v, w)
      else (let (r, bar, w) = pci_read_bar P d 0 (Some bar) w in
        if r \<noteq> 0 \<or> bar_io (the bar) = 0 \<or> 0xffff < bar_base (the bar) then (blk, pm, v, w)
        else virtio_start P M dev dma_ready (blk, pm, v\<lparr>io_base := ucast (bar_base (the bar))\<rparr>, w))))"

end
