(* ===== verification/Virtio_Props.thy ===== *)
theory Virtio_Props
  imports Virtio
begin

text \<open>
  What holds of the virtio driver whatever the device does: its stores stay inside its two DMA
  buffers, its waiting is bounded, the caller's buffer changes only on success, and a failed
  initialisation gives back all memory.
\<close>

section \<open>Frame conditions\<close>

definition in_buffer :: "dma_buffer \<Rightarrow> nat \<Rightarrow> u32 \<Rightarrow> bool" where
  "in_buffer b n a \<longleftrightarrow> unat (a - virtual_address b) < n"

definition dma_region :: "virtio \<Rightarrow> u32 set" where
  "dma_region v = {a. in_buffer (queue_dma v) 8192 a \<or> in_buffer (request_dma v) 4096 a}"

text \<open>
  \<open>I\<close> is a condition on the hardware that only a store outside of \<open>A\<close> could break.
\<close>

definition frame :: "'w ports \<Rightarrow> 'w memory \<Rightarrow> u32 set \<Rightarrow> ('w \<Rightarrow> bool) \<Rightarrow> bool" where
  "frame P M A I \<longleftrightarrow> (\<forall>w. I w \<longrightarrow>
     (\<forall>a. I (snd (ld8 M a w)) \<and> I (snd (ld16 M a w))) \<and>
     (\<forall>p. I (snd (inb P p w)) \<and> I (snd (inl P p w)) \<and>
          (\<forall>x. I (outb P p x w)) \<and> (\<forall>x. I (outw P p x w)) \<and> (\<forall>x. I (outl P p x w))) \<and>
     (\<forall>a x. a \<in> A \<longrightarrow> I (st8 M a x w)) \<and>
     (\<forall>a x. (\<forall>i < 2. a + of_nat i \<in> A) \<longrightarrow> I (st16 M a x w)) \<and>
     (\<forall>a x. (\<forall>i < 4. a + of_nat i \<in> A) \<longrightarrow> I (st32 M a x w)) \<and>
     (\<forall>a x. (\<forall>i < 8. a + of_nat i \<in> A) \<longrightarrow> I (st64 M a x w)))"

lemma frameD:
  assumes "frame P M A I" "I w"
  shows "I (snd (ld8 M a w))" "I (snd (ld16 M a w))" "I (snd (inb P p w))" "I (snd (inl P p w))"
    "I (outb P p x8 w)" "I (outw P p x16 w)" "I (outl P p x32 w)"
    "a \<in> A \<Longrightarrow> I (st8 M a x8 w)" "(\<And>i. i < 2 \<Longrightarrow> a + of_nat i \<in> A) \<Longrightarrow> I (st16 M a x16 w)"
    "(\<And>i. i < 4 \<Longrightarrow> a + of_nat i \<in> A) \<Longrightarrow> I (st32 M a x32 w)"
    "(\<And>i. i < 8 \<Longrightarrow> a + of_nat i \<in> A) \<Longrightarrow> I (st64 M a x64 w)"
  using assms by (simp_all add: frame_def)

definition virtio_ready :: "virtio \<Rightarrow> bool" where
  "virtio_ready v \<longleftrightarrow> vio_desc v = virtual_address (queue_dma v) \<and>
     vio_avail v = virtual_address (queue_dma v) + 96 \<and>
     vio_used v = virtual_address (queue_dma v) + 4096 \<and>
     vio_request v = virtual_address (request_dma v) \<and>
     vio_data v = virtual_address (request_dma v) + 64 \<and>
     vio_status v = virtual_address (request_dma v) + 576"

lemma virtio_pointers_ready: "virtio_ready (virtio_pointers v)"
  by (simp add: virtio_ready_def virtio_pointers_def Let_def virtq_desc_size_def VIRTIO_QUEUE_SIZE_def
    virtq_avail_size_def VIRTIO_QUEUE_ALIGN_def)

lemma unat_offset: "unat (c :: u32) + n \<le> m \<Longrightarrow> m \<le> 8192 \<Longrightarrow> i < n \<Longrightarrow> unat (c + of_nat i) < m"
  by (simp add: unat_word_ariths unat_of_nat)

lemma region_queue:
  assumes "unat c + n \<le> 8192" "i < n"
  shows "virtual_address (queue_dma v) + c + of_nat i \<in> dma_region v"
  using unat_offset [OF assms(1) _ assms(2)] by (simp add: dma_region_def in_buffer_def algebra_simps)

lemma region_request:
  assumes "unat c + n \<le> 4096" "i < n"
  shows "virtual_address (request_dma v) + c + of_nat i \<in> dma_region v"
  using unat_offset [OF assms(1) _ assms(2)] by (simp add: dma_region_def in_buffer_def algebra_simps)

lemma fold_keeps: "(\<And>i w. i \<in> set is \<Longrightarrow> I w \<Longrightarrow> I (f i w)) \<Longrightarrow> I w \<Longrightarrow> I (fold f is w)"
  by (induction "is" arbitrary: w) simp_all

section \<open>Requests stay in the DMA buffers\<close>

lemma put_request_frame:
  assumes fr: "frame P M (dma_region v) I" and "virtio_ready v" "I w"
  shows "I (put_request M v t lba w)"
  using assms(2,3) region_request [of 0 4 _ v] region_request [of 4 4 _ v] region_request [of 8 8 _ v]
  unfolding put_request_def Let_def virtio_ready_def
  by (intro frameD(10,11) [OF fr]) simp_all

lemma put_data_frame:
  assumes fr: "frame P M (dma_region v) I" and "virtio_ready v" "I w"
  shows "I (put_data M v b w)"
  unfolding put_data_def
proof (rule fold_keeps [where I = I])
  show "I w" by fact
next
  fix i w assume "i \<in> set [0..<512]" "I w"
  then show "I (st8 M (vio_data v + of_nat i) (b i) w)"
    using region_request [of 64 512 i v] assms(2) by (intro frameD(8) [OF fr]) (simp_all add: virtio_ready_def)
qed

lemma put_status_frame:
  assumes fr: "frame P M (dma_region v) I" and "virtio_ready v" "I w"
  shows "I (st8 M (vio_status v) x w)"
  using assms(2,3) region_request [of 576 1 0 v] by (intro frameD(8) [OF fr]) (simp_all add: virtio_ready_def)

lemma desc_flags_frame:
  assumes fr: "frame P M (dma_region v) I" and "virtio_ready v" "I w" "vio_desc u = vio_desc v"
  shows "I (desc_flags M u 1 x w)"
proof -
  have "virtual_address (queue_dma v) + 20 + of_nat i \<in> dma_region v" if "i < 2" for i
    using that by (intro region_queue [of 20 2]) simp_all
  then show ?thesis
    using assms(2-4) unfolding desc_flags_def virtq_desc_def virtq_desc_size_def virtio_ready_def
    by (intro frameD(9) [OF fr]) (simp_all add: algebra_simps)
qed

lemma virtio_submit_frame:
  assumes fr: "frame P M (dma_region v) I" and ready: "virtio_ready v" and "I w"
  shows "I (virtio_submit P M v w)"
proof -
  obtain x w1 where w1: "ld16 M (avail_idx (vio_avail v)) w = (x, w1)" by fastforce
  let ?a = "avail_ring (vio_avail v) (ucast x mod VIRTIO_QUEUE_SIZE)"
  obtain y w2 where w2: "ld16 M (avail_idx (vio_avail v)) (st16 M ?a 0 w1) = (y, w2)" by fastforce
  have "unat (ucast x mod 8 :: u32) < 8"
    using word_mod_less_divisor [of 8 "ucast x :: u32"] by (simp add: word_less_nat_alt)
  then have "unat (100 + 2 * (ucast x mod 8) :: u32) + 2 \<le> 8192" by (simp add: unat_word_ariths)
  from region_queue [OF this] have "?a + of_nat i \<in> dma_region v" if "i < 2" for i
    using that ready by (simp add: avail_ring_def virtio_ready_def VIRTIO_QUEUE_SIZE_def algebra_simps)
  moreover have "I w1" using frameD(2) [OF fr assms(3), of "avail_idx (vio_avail v)"] w1 by simp
  ultimately have "I (st16 M ?a 0 w1)" using frameD(9) [OF fr] by blast
  then have "I w2" using frameD(2) [OF fr, of _ "avail_idx (vio_avail v)"] w2 by fastforce
  moreover have "virtual_address (queue_dma v) + 98 + of_nat i \<in> dma_region v" if "i < 2" for i
    using that by (intro region_queue [of 98 2]) simp_all
  ultimately have "I (st16 M (avail_idx (vio_avail v)) (y + 1) w2)"
    using ready
    by (intro frameD(9) [OF fr]) (simp_all add: avail_idx_def virtio_ready_def algebra_simps)
  then show ?thesis using frameD(6) [OF fr] by (simp add: virtio_submit_def w1 w2 Let_def)
qed

lemma virtio_poll_frame:
  assumes fr: "frame P M A I"
  shows "I w \<Longrightarrow> I (snd (virtio_poll M v n w))"
proof (induction n arbitrary: w)
  case (Suc n)
  obtain x w1 where w1: "ld16 M (used_idx (vio_used v)) w = (x, w1)" by fastforce
  have "I w1" using frameD(2) [OF fr Suc.prems, of "used_idx (vio_used v)"] w1 by simp
  then show ?case using Suc.IH frameD(2) [OF fr, of w1 "used_idx (vio_used v)"] w1 by (simp add: split_beta)
qed simp

lemma get_data_frame:
  assumes fr: "frame P M A I"
  shows "I w \<Longrightarrow> get_data M v is (b, w) = (b', w') \<Longrightarrow> I w' \<and> (\<forall>i. i \<notin> set is \<longrightarrow> b' i = b i)"
proof (induction "is" arbitrary: b w)
  case (Cons i "is")
  obtain x w1 where w1: "ld8 M (vio_data v + of_nat i) w = (x, w1)" by fastforce
  have "I w1" using frameD(1) [OF fr Cons.prems(1), of "vio_data v + of_nat i"] w1 by simp
  moreover have "get_data M v is (b(i := x), w1) = (b', w')" using Cons.prems(2) w1 by simp
  ultimately show ?case using Cons.IH by fastforce
qed simp

lemma virtio_ready_last [simp]: "virtio_ready (v\<lparr>last_used := x\<rparr>) = virtio_ready v" "dma_region (v\<lparr>last_used := x\<rparr>) = dma_region v"
  by (simp_all add: virtio_ready_def dma_region_def)

lemma virtio_read_frame:
  assumes fr: "frame P M (dma_region v) I" and ready: "virtio_ready v" and "I w"
    and run: "virtio_blk_read_sector P M lba (Some b) (v, w) = (r, b', v', w')"
  shows "I w' \<and> (r = 0 \<or> r = -1 \<and> b' = Some b) \<and> (\<exists>c. b' = Some c \<and> (\<forall>i \<ge> 512. c i = b i))"
proof (cases "vio_present v")
  case False
  then show ?thesis using run assms(3) by (auto simp: virtio_blk_read_sector_def)
next
  case True
  define w1 where "w1 = virtio_submit P M v (put_data M v (\<lambda>_. 0) (st8 M (vio_status v) 0xff (put_request M v VIRTIO_BLK_T_IN lba w)))"
  have "I w1" unfolding w1_def
    by (intro virtio_submit_frame [OF fr ready] put_data_frame [OF fr ready] put_status_frame [OF fr ready]
      put_request_frame [OF fr ready] assms(3))
  obtain x w2 where w2: "virtio_poll M v VIRTIO_POLL_LIMIT w1 = (x, w2)" by fastforce
  have I2: "I w2" using virtio_poll_frame [OF fr \<open>I w1\<close>, of v VIRTIO_POLL_LIMIT] w2 by simp
  obtain st w3 where w3: "ld8 M (vio_status v) w2 = (st, w3)" by fastforce
  have I3: "I w3" using frameD(1) [OF fr I2, of "vio_status v"] w3 by simp
  have upd: "get_data M (v\<lparr>last_used := y\<rparr>) is bw = get_data M v is bw" for y "is" bw
    by (induction "is" arbitrary: bw) (auto simp: split_beta)
  obtain c w4 where w4: "get_data M v [0..<512] (b, w3) = (c, w4)" by fastforce
  have "I w4 \<and> (\<forall>i. i \<notin> set [0..<512] \<longrightarrow> c i = b i)" by (rule get_data_frame [OF fr I3 w4])
  then show ?thesis using run True I2 I3
    by (auto simp: virtio_blk_read_sector_def Let_def w1_def [symmetric] w2 w3 upd w4 simp del: upt_rec_numeral
      split: option.splits if_splits)
qed

lemma virtio_write_frame:
  assumes fr: "frame P M (dma_region v) I" and ready: "virtio_ready v" and "I w"
    and run: "virtio_blk_write_sector P M lba (Some b) (v, w) = (r, v', w')"
  shows "I w' \<and> (r = 0 \<or> r = -1)"
proof (cases "vio_present v")
  case False
  then show ?thesis using run assms(3) by (auto simp: virtio_blk_write_sector_def)
next
  case True
  define w1 where "w1 = virtio_submit P M v (desc_flags M v 1 VIRTQ_DESC_F_NEXT
    (st8 M (vio_status v) 0xff (put_data M v b (put_request M v 1 lba w))))"
  have "I w1" unfolding w1_def
    by (intro virtio_submit_frame [OF fr ready] put_data_frame [OF fr ready] put_status_frame [OF fr ready]
      put_request_frame [OF fr ready] desc_flags_frame [OF fr ready] assms(3) refl)
  obtain x w2 where w2: "virtio_poll M v VIRTIO_POLL_LIMIT w1 = (x, w2)" by fastforce
  have I2: "I w2" using virtio_poll_frame [OF fr \<open>I w1\<close>, of v VIRTIO_POLL_LIMIT] w2 by simp
  have I3: "I (desc_flags M u 1 f w2)" if "vio_desc u = vio_desc v" for u f
    by (rule desc_flags_frame [OF fr ready I2 that])
  show ?thesis using run True I3 frameD(1) [OF fr]
    by (auto simp: virtio_blk_write_sector_def Let_def w1_def [symmetric] w2 split_beta
      split: option.splits if_splits)
qed

section \<open>Initialisation\<close>

text \<open>The queue buffer (two pages) and the request buffer (one page), both taken since \<open>s0\<close>.\<close>

definition virtio_buffers :: "pmm \<Rightarrow> virtio \<Rightarrow> pmm \<Rightarrow> bool" where
  "virtio_buffers s0 v s \<longleftrightarrow> (\<exists>s1. buffer_taken s0 (queue_dma v) s1 \<and> buffer_taken s1 (request_dma v) s) \<and>
     dma_pages (queue_dma v) = 2 \<and> dma_pages (request_dma v) = 1"

lemma virtio_pointers_buffers [simp]:
  "queue_dma (virtio_pointers v) = queue_dma v" "request_dma (virtio_pointers v) = request_dma v"
  by (simp_all add: virtio_pointers_def Let_def)

lemma buffer_taken_refs:
  "buffer_taken s0 b s \<Longrightarrow> pmm_inv s' \<Longrightarrow> refcount s' = refcount s \<Longrightarrow> buffer_taken s0 b s'"
  by (simp add: buffer_taken_def run_taken_def)

lemma virtio_start_memory:
  assumes inv: "pmm_inv pm" and fresh: "physical_address (queue_dma v) = 0" "\<not> vio_present v"
    and run: "virtio_start P M dev ready (blk, pm, v, w) = (blk', pm', v', w')"
  shows "pmm_inv pm' \<and>
    (if vio_present v' then virtio_ready v' \<and> virtio_buffers pm v' pm' \<and>
       blk' = snd (block_register (Some (dev\<lparr>bd_present := True\<rparr>)) blk)
     else refcount pm' = refcount pm \<and> blk' = blk \<and> physical_address (queue_dma v') = 0)"
proof -
  obtain x w1 where w1: "inl P (io_base v + 12) (outw P (io_base v + 14) VIRTIO_BLK_QUEUE
      (set_status P v (VIRTIO_STATUS_ACK OR VIRTIO_STATUS_DRIVER) (outl P (io_base v + 4) 0
      (snd (inl P (io_base v) (set_status P v 0 w)))))) = (x, w1)" by fastforce
  obtain r1 qb pm1 where q: "dma_alloc ready 8192 (Some (queue_dma v)) pm = (r1, qb, pm1)" by (metis prod_cases3)
  obtain r2 rb pm2 where r: "dma_alloc ready 4096 (Some (request_dma v)) pm1 = (r2, rb, pm2)" by (metis prod_cases3)
  show ?thesis
  proof (cases "ucast (ucast x :: u16) < VIRTIO_QUEUE_SIZE")
    case True
    then show ?thesis using run inv fresh by (auto simp: virtio_start_def Let_def w1)
  next
    case False
    have len: "(8192 :: u32) \<noteq> 0" "unat (8192 :: u32) \<le> 0xfffff000" "(4096 :: u32) \<noteq> 0" "unat (4096 :: u32) \<le> 0xfffff000"
      by simp_all
    from dma_alloc_cases [OF inv len(1,2) q]
    consider (refused) "r1 = -1" "qb = Some (queue_dma v)" "pmm_inv pm1" "refcount pm1 = refcount pm"
      | (granted) qbuf where "r1 = 0" "qb = Some qbuf" "pmm_inv pm1" "buffer_taken pm qbuf pm1"
          "unat (dma_pages qbuf) = (unat (8192 :: u32) + 4095) div 4096"
      by blast
    then show ?thesis
    proof cases
      case refused
      then show ?thesis using run fresh False by (auto simp: virtio_start_def Let_def w1 q)
    next
      case queue: (granted qbuf)
      from dma_alloc_cases [OF queue(3) len(3,4) r]
      consider (refused) "r2 = -1" "rb = Some (request_dma v)" "pmm_inv pm2" "refcount pm2 = refcount pm1"
        | (granted) rbuf where "r2 = 0" "rb = Some rbuf" "pmm_inv pm2" "buffer_taken pm1 rbuf pm2"
            "unat (dma_pages rbuf) = (unat (4096 :: u32) + 4095) div 4096"
        by blast
      then show ?thesis
      proof cases
        case refused
        have taken: "buffer_taken pm qbuf pm2" by (rule buffer_taken_refs [OF queue(4) refused(3,4)])
        obtain pm3 where "dma_free (Some qbuf) pm2 =
            (Some \<lparr>virtual_address = 0, physical_address = 0, dma_length = 0, dma_pages = 0\<rparr>, pm3)"
          "pmm_inv pm3" "refcount pm3 = refcount pm"
          by (rule dma_free_taken [OF taken])
        moreover have "physical_address qbuf \<noteq> 0" using queue(4) by (simp add: buffer_taken_def)
        ultimately show ?thesis using run fresh False refused queue
          by (auto simp: virtio_start_def Let_def w1 q r)
      next
        case (granted rbuf)
        have pages: "dma_pages qbuf = 2" "dma_pages rbuf = 1"
          using queue(5) granted(5) by (simp_all add: word_unat_eq_iff)
        have v': "pm' = pm2" "blk' = snd (block_register (Some (dev\<lparr>bd_present := True\<rparr>)) blk)"
          "v' = (virtio_pointers (v\<lparr>queue_dma := qbuf, request_dma := rbuf\<rparr>))\<lparr>vio_present := True, last_used := 0\<rparr>"
          using run False queue(1,2) granted(1,2) by (auto simp: virtio_start_def Let_def w1 q r)
        have "virtio_ready v'"
          using virtio_pointers_ready [of "v\<lparr>queue_dma := qbuf, request_dma := rbuf\<rparr>"] unfolding v'(3)
          by (simp add: virtio_ready_def)
        then show ?thesis using granted queue pages by (auto simp: v' virtio_buffers_def)
      qed
    qed
  qed
qed

section \<open>Properties\<close>

definition memory_example :: "(u32 \<Rightarrow> u8) memory" where
  "memory_example =
     \<lparr>ld8 = (\<lambda>a m. (m a, m)), st8 = (\<lambda>a x m. m(a := x)),
      ld16 = (\<lambda>a m. (ucast (m a) OR push_bit 8 (ucast (m (a + 1))), m)),
      st16 = (\<lambda>a x m b. if unat (b - a) < 2 then ucast (drop_bit (8 * unat (b - a)) x) else m b),
      st32 = (\<lambda>a x m b. if unat (b - a) < 4 then ucast (drop_bit (8 * unat (b - a)) x) else m b),
      st64 = (\<lambda>a x m b. if unat (b - a) < 8 then ucast (drop_bit (8 * unat (b - a)) x) else m b)\<rparr>"

definition quiet_ports :: "'w ports" where
  "quiet_ports = \<lparr>inb = (\<lambda>p w. (0, w)), outb = (\<lambda>p v w. w), inw = (\<lambda>p w. (0, w)),
     outw = (\<lambda>p v w. w), inl = (\<lambda>p w. (0, w)), outl = (\<lambda>p v w. w)\<rparr>"

definition memory_host :: "pci_host memory" where
  "memory_host = \<lparr>ld8 = (\<lambda>a w. (0, w)), st8 = (\<lambda>a x w. w), ld16 = (\<lambda>a w. (0, w)), st16 = (\<lambda>a x w. w),
     st32 = (\<lambda>a x w. w), st64 = (\<lambda>a x w. w)\<rparr>"

definition virtio_example :: virtio where
  "virtio_example = (virtio_pointers
     \<lparr>io_base = 0xc000, vio_present = True,
      queue_dma = \<lparr>virtual_address = 0x2000, physical_address = 0x2000, dma_length = 8192, dma_pages = 2\<rparr>,
      request_dma = \<lparr>virtual_address = 0x4000, physical_address = 0x4000, dma_length = 4096, dma_pages = 1\<rparr>,
      vio_desc = 0, vio_avail = 0, vio_used = 0, vio_request = 0, vio_data = 0, vio_status = 0, last_used = 0\<rparr>)"

definition virtio_absent :: virtio where
  "virtio_absent = virtio_example\<lparr>vio_present := False,
     queue_dma := \<lparr>virtual_address = 0, physical_address = 0, dma_length = 0, dma_pages = 0\<rparr>\<rparr>"

lemma memory_example_frame:
  assumes "a \<notin> A"
  shows "frame quiet_ports memory_example A (\<lambda>m. m a = x)"
proof -
  have "\<not> unat (a - a') < n" if "\<forall>i < n. a' + of_nat i \<in> A" for a' n
    using that assms by force
  then show ?thesis using assms by (auto simp: frame_def memory_example_def quiet_ports_def)
qed

text \<open>C25: Whatever the device does, a read or write of a sector stores only inside the driver's two DMA
  buffers: any condition on the hardware that no load, no port access and no store inside these buffers
  can break still holds afterwards. The caller's buffer keeps its bytes from 512 on, and all of them when
  the request fails.\<close>

theorem virtio_requests_confined:
  assumes "frame P M (dma_region v) I" and "virtio_ready v" and "I w"
  shows "(case virtio_blk_read_sector P M lba (Some b) (v, w) of (r, b', v', w') \<Rightarrow>
      I w' \<and> (r = 0 \<or> r = -1 \<and> b' = Some b) \<and> (\<exists>c. b' = Some c \<and> (\<forall>i \<ge> 512. c i = b i))) \<and>
    (case virtio_blk_write_sector P M lba (Some b) (v, w) of (r, v', w') \<Rightarrow> I w' \<and> (r = 0 \<or> r = -1))"
  using virtio_read_frame [OF assms] virtio_write_frame [OF assms] by (auto split: prod.splits)

theorem virtio_requests_confined_witness:
  "(snd (snd (snd (virtio_blk_read_sector quiet_ports memory_example 7 (Some (\<lambda>_. 0)) (virtio_example, \<lambda>_. 0))))) 0x9000 = 0"
proof -
  have "0x9000 \<notin> dma_region virtio_example"
    by (simp add: dma_region_def in_buffer_def virtio_example_def)
  then have fr: "frame quiet_ports memory_example (dma_region virtio_example) (\<lambda>m. m 0x9000 = 0)"
    by (rule memory_example_frame)
  have "virtio_ready virtio_example" by (simp add: virtio_example_def virtio_pointers_ready)
  from virtio_requests_confined [OF fr this, where w = "\<lambda>_. 0" and b = "\<lambda>_. 0" and lba = 7] show ?thesis
    by (auto split: prod.splits)
qed

text \<open>Initialisation is all or nothing. Either the driver is present, with its structures placed inside
  two freshly allocated DMA buffers of two and one pages, and has registered its block device; or it is
  absent, every page reference count is as before, and nothing is registered.\<close>

theorem virtio_init_all_or_nothing:
  assumes "pmm_inv pm" and "physical_address (queue_dma v) = 0" and "\<not> vio_present v"
    and "virtio_blk_init P M dev ready d bar (blk, pm, v, w) = (blk', pm', v', w')"
  shows "pmm_inv pm' \<and>
    (if vio_present v' then virtio_ready v' \<and> virtio_buffers pm v' pm' \<and>
       blk' = snd (block_register (Some (dev\<lparr>bd_present := True\<rparr>)) blk)
     else refcount pm' = refcount pm \<and> blk' = blk \<and> physical_address (queue_dma v') = 0)"
proof -
  obtain r1 d1 w1 where w1: "pci_find_class P 0x01 0x00 (Some d) w = (r1, d1, w1)" by (metis prod_cases3)
  obtain r2 bar1 w2 where w2: "pci_read_bar P d1 0 (Some bar) w1 = (r2, bar1, w2)" by (metis prod_cases3)
  have "(blk', pm', v') = (blk, pm, v) \<or>
      virtio_start P M dev ready (blk, pm, v\<lparr>io_base := ucast (bar_base (the bar1))\<rparr>, w2) = (blk', pm', v', w')"
    using assms(4) by (auto simp: virtio_blk_init_def Let_def w1 w2 split: if_splits)
  then show ?thesis
  proof
    assume "virtio_start P M dev ready (blk, pm, v\<lparr>io_base := ucast (bar_base (the bar1))\<rparr>, w2) = (blk', pm', v', w')"
    from virtio_start_memory [OF assms(1) _ _ this] show ?thesis using assms(2,3) by simp
  qed (use assms(1-3) in simp)
qed

theorem virtio_init_all_or_nothing_witness:
  "pmm_inv (fst (snd (virtio_blk_init host_ports memory_host (virtio_block host_ports memory_host) True pci_none
      \<lparr>bar_base = 0, bar_size = 0, bar_io = 0, bar_prefetchable = 0, bar_is_64bit = 0\<rparr>
      (\<lparr>devices = (\<lambda>_. None), device_count = 0\<rparr>, pmm_example, virtio_absent, host_example))))"
proof -
  obtain blk' pm' v' w' where run: "virtio_blk_init host_ports memory_host (virtio_block host_ports memory_host) True pci_none
      \<lparr>bar_base = 0, bar_size = 0, bar_io = 0, bar_prefetchable = 0, bar_is_64bit = 0\<rparr>
      (\<lparr>devices = (\<lambda>_. None), device_count = 0\<rparr>, pmm_example, virtio_absent, host_example) = (blk', pm', v', w')"
    by (metis prod_cases4)
  have "physical_address (queue_dma virtio_absent) = 0" "\<not> vio_present virtio_absent"
    by (simp_all add: virtio_absent_def)
  from virtio_init_all_or_nothing [OF pmm_example_inv this run] show ?thesis
    by (simp add: run)
qed

end
