(* ===== verification/Console.thy ===== *)
theory Console
  imports Ports
begin

text \<open>
  The console drivers: the VGA text screen \<open>drivers/vga/vga.c\<close>, the serial port
  \<open>drivers/serial/serial.c\<close> and the timer \<open>drivers/timer/pit.c\<close>. The screen memory is a function
  from cell index to cell; a wait for the serial port that may never end yields \<open>None\<close> when it does not.
\<close>

section \<open>The screen\<close>

record vga =
  video :: "nat \<Rightarrow> u16"
  row :: u8
  col :: u8
  color :: u8

definition vga_cell :: "vga \<Rightarrow> u8 \<Rightarrow> u16" where
  "vga_cell s c = push_bit 8 (ucast (color s)) OR ucast c"

definition vga_set_color :: "u8 \<Rightarrow> u8 \<Rightarrow> vga \<Rightarrow> vga" where
  "vga_set_color fg bg s = s\<lparr>color := push_bit 4 bg OR (fg AND 15)\<rparr>"

definition vga_set_cursor :: "'w ports \<Rightarrow> u8 \<Rightarrow> u8 \<Rightarrow> 'w \<Rightarrow> 'w" where
  "vga_set_cursor P r c w =
     (let pos = ucast r * 80 + ucast c :: u16;
          w = outb P 0x3d4 0x0f w;
          w = outb P 0x3d5 (ucast pos) w;
          w = outb P 0x3d4 0x0e w
      in outb P 0x3d5 (ucast (drop_bit 8 pos)) w)"

definition vga_scroll :: "vga \<Rightarrow> vga" where
  "vga_scroll s =
     (let v = fold (\<lambda>r. fold (\<lambda>c v. v((r - 1) * 80 + c := v (r * 80 + c))) [0..<80]) [1..<25] (video s);
          v = fold (\<lambda>c v. v(24 * 80 + c := vga_cell s 0x20)) [0..<80] v
      in s\<lparr>video := v, row := 24\<rparr>)"

definition vga_clear :: "'w ports \<Rightarrow> vga \<times> 'w \<Rightarrow> vga \<times> 'w" where
  "vga_clear P = (\<lambda>(s, w).
     (let v = fold (\<lambda>i v. v(i := vga_cell s 0x20)) [0..<80 * 25] (video s);
          s = s\<lparr>video := v, row := 0, col := 0\<rparr>
      in (s, vga_set_cursor P (row s) (col s) w)))"

definition vga_init :: "'w ports \<Rightarrow> vga \<times> 'w \<Rightarrow> vga \<times> 'w" where
  "vga_init P sw = vga_clear P sw"

definition vga_putc :: "'w ports \<Rightarrow> u8 \<Rightarrow> vga \<times> 'w \<Rightarrow> vga \<times> 'w" where
  "vga_putc P c = (\<lambda>(s, w).
     (let s = (if c = 0x0a then s\<lparr>col := 0, row := row s + 1\<rparr>
               else if c = 0x0d then s\<lparr>col := 0\<rparr>
               else if c = 0x09 then s\<lparr>col := (col s + 8) AND NOT 7\<rparr>
               else (let s = s\<lparr>video := (video s)(unat (row s) * 80 + unat (col s) := vga_cell s c), col := col s + 1\<rparr>
                     in if 80 \<le> col s then s\<lparr>col := 0, row := row s + 1\<rparr> else s));
          s = (if 25 \<le> row s then vga_scroll s else s)
      in (s, vga_set_cursor P (row s) (col s) w)))"

text \<open>A C string is the list of its characters before the terminating zero.\<close>

definition vga_write :: "'w ports \<Rightarrow> u8 list \<Rightarrow> vga \<times> 'w \<Rightarrow> vga \<times> 'w" where
  "vga_write P str sw = fold (vga_putc P) str sw"

section \<open>The serial port\<close>

definition serial_init :: "'w ports \<Rightarrow> 'w \<Rightarrow> 'w" where
  "serial_init P w =
     (let w = outb P 0x3f9 0 w; w = outb P 0x3fb 0x80 w; w = outb P 0x3f8 3 w; w = outb P 0x3f9 0 w;
          w = outb P 0x3fb 3 w; w = outb P 0x3fa 0xc7 w in outb P 0x3fc 0x0b w)"

text \<open>The wait for the transmitter: \<open>None\<close> when it never becomes ready.\<close>

partial_function (option) serial_wait :: "'w ports \<Rightarrow> 'w \<Rightarrow> 'w option" where
  "serial_wait P w = (case inb P 0x3fd w of (x, w') \<Rightarrow> if x AND 0x20 \<noteq> 0 then Some w' else serial_wait P w')"

fun serial_write_n :: "'w ports \<Rightarrow> u8 list \<Rightarrow> 'w \<Rightarrow> 'w option" where
  "serial_write_n P [] w = Some w"
| "serial_write_n P (c # cs) w =
     (case serial_wait P w of None \<Rightarrow> None | Some w \<Rightarrow> serial_write_n P cs (outb P 0x3f8 c w))"

definition serial_write :: "'w ports \<Rightarrow> u8 list \<Rightarrow> 'w \<Rightarrow> 'w option" where
  "serial_write P str w = serial_write_n P str w"

definition serial_read :: "'w ports \<Rightarrow> 'w \<Rightarrow> int \<times> 'w" where
  "serial_read P w =
     (case inb P 0x3fd w of (x, w) \<Rightarrow>
        if x AND 1 \<noteq> 0 then (case inb P 0x3f8 w of (c, w) \<Rightarrow> (uint c, w)) else (-1, w))"

section \<open>The timer\<close>

record pit =
  uptime_ticks :: u32
  timer_hz :: u32

definition pit_init :: "'w ports \<Rightarrow> u32 \<Rightarrow> pit \<times> 'w \<Rightarrow> pit \<times> 'w" where
  "pit_init P hz = (\<lambda>(t, w).
     (let hz = (if hz = 0 then 100 else hz);
          d = ucast (1193182 div hz) :: u16;
          w = outb P 0x43 0x36 w;
          w = outb P 0x40 (ucast (d AND 255)) w
      in (t\<lparr>timer_hz := hz\<rparr>, outb P 0x40 (ucast (drop_bit 8 d)) w)))"

definition timer_irq :: "pit \<Rightarrow> pit" where
  "timer_irq t = t\<lparr>uptime_ticks := uptime_ticks t + 1\<rparr>"

definition timer_uptime_ms :: "pit \<Rightarrow> u32" where
  "timer_uptime_ms t = (uptime_ticks t * 1000) div timer_hz t"

text \<open>The sleep waits for interrupts; \<open>None\<close> when it is not over after \<open>n\<close> of them.\<close>

definition sleep_target :: "pit \<Rightarrow> u32 \<Rightarrow> u32" where
  "sleep_target t ms = uptime_ticks t + (ms * timer_hz t + 999) div 1000"

fun sleep_until :: "nat \<Rightarrow> u32 \<Rightarrow> pit \<Rightarrow> pit option" where
  "sleep_until n target t =
     (if \<not> uptime_ticks t < target then Some t
      else case n of 0 \<Rightarrow> None | Suc m \<Rightarrow> sleep_until m target (timer_irq t))"

definition ksleep_ms :: "nat \<Rightarrow> u32 \<Rightarrow> pit \<Rightarrow> pit option" where
  "ksleep_ms n ms t = sleep_until n (sleep_target t ms) t"

section \<open>The screen stays in bounds\<close>

lemma fold_upd_outside:
  "(\<And>c v i. c \<in> set cs \<Longrightarrow> n \<le> i \<Longrightarrow> f c v i = v i) \<Longrightarrow> n \<le> i \<Longrightarrow> fold f cs v i = v (i :: nat)"
  by (induction cs arbitrary: v) simp_all

lemma vga_scroll_outside: "2000 \<le> i \<Longrightarrow> video (vga_scroll s) i = video s i"
proof -
  assume i: "2000 \<le> i"
  have inner: "fold (\<lambda>c v. v((r - 1) * 80 + c := v (r * 80 + c))) [0..<80] v i = v i" if "r < 25" "2000 \<le> i" for r i and v :: "nat \<Rightarrow> u16"
  proof (rule fold_upd_outside [OF _ that(2)])
    fix c and v :: "nat \<Rightarrow> u16" and i :: nat assume c: "c \<in> set [0..<80]" and i: "2000 \<le> i"
    have "(r - 1) * 80 \<le> 23 * 80" using that(1) by (intro mult_le_mono1) simp
    then show "(v((r - 1) * 80 + c := v (r * 80 + c))) i = v i" using c i by simp
  qed
  have rows: "fold (\<lambda>r. fold (\<lambda>c v. v((r - 1) * 80 + c := v (r * 80 + c))) [0..<80]) [1..<25] v i = v i" for v :: "nat \<Rightarrow> u16"
    by (rule fold_upd_outside [OF _ i]) (rule inner, simp_all)
  have "fold (\<lambda>c v. v(1920 + c := x)) [0..<80] v i = v i" for v :: "nat \<Rightarrow> u16" and x
    by (rule fold_upd_outside [OF _ i]) auto
  then show ?thesis using rows by (simp add: vga_scroll_def Let_def del: upt_rec_numeral)
qed

lemma vga_scroll_cursor [simp]: "row (vga_scroll s) = 24" "col (vga_scroll s) = col s"
  by (simp_all add: vga_scroll_def Let_def del: upt_rec_numeral)

lemma vga_cell_index: "row s < 25 \<Longrightarrow> unat (row s) * 80 \<le> 1920"
  by (simp add: word_less_nat_alt)

lemma vga_putc_row:
  assumes "row s < 25"
  shows "row (fst (vga_putc P c (s, w))) < 25"
proof -
  have "row s + 1 = 25 \<or> row s + 1 < 25"
    using assms unat_inc [of "row s" 25] by (auto simp: word_less_nat_alt word_unat_eq_iff)
  then show ?thesis using assms by (auto simp: vga_putc_def Let_def)
qed

lemma vga_putc_outside:
  assumes "row s < 25" "2176 \<le> i"
  shows "video (fst (vga_putc P c (s, w))) i = video s i"
proof -
  have "i \<noteq> unat (row s) * 80 + unat (col s)"
    using vga_cell_index [OF assms(1)] unsigned_less [of "col s", where 'a = nat] assms(2) by auto
  then show ?thesis using assms(2) by (simp add: vga_putc_def Let_def vga_scroll_outside)
qed

lemma vga_putc_plain:
  assumes "row s < 25" "col s < 80" "c \<noteq> 9"
  shows "col (fst (vga_putc P c (s, w))) < 80" "2000 \<le> i \<Longrightarrow> video (fst (vga_putc P c (s, w))) i = video s i"
proof -
  have "i \<noteq> unat (row s) * 80 + unat (col s)" if "2000 \<le> i" for i
    using vga_cell_index [OF assms(1)] assms(2) that by (auto simp: word_less_nat_alt)
  then show "col (fst (vga_putc P c (s, w))) < 80" "2000 \<le> i \<Longrightarrow> video (fst (vga_putc P c (s, w))) i = video s i"
    using assms by (simp_all add: vga_putc_def Let_def vga_scroll_outside not_le)
qed

lemma vga_putc_state: "vga_putc P c (s, w) = (fst (vga_putc P c (s, w)), snd (vga_putc P c (s, w)))"
  by simp

lemma vga_write_bounds:
  "row s < 25 \<Longrightarrow> row (fst (vga_write P str (s, w))) < 25 \<and> (\<forall>i \<ge> 2176. video (fst (vga_write P str (s, w))) i = video s i)"
proof (induction str arbitrary: s w)
  case Nil
  then show ?case by (simp add: vga_write_def)
next
  case (Cons c str)
  obtain s1 w1 where s1: "vga_putc P c (s, w) = (s1, w1)" by fastforce
  have "row s1 < 25" "\<forall>i \<ge> 2176. video s1 i = video s i"
    using vga_putc_row [OF Cons.prems, of P c w] vga_putc_outside [OF Cons.prems, of _ P c w] s1 by simp_all
  then show ?case using Cons.IH [of s1 w1] by (simp add: vga_write_def s1)
qed

lemma vga_write_plain:
  "row s < 25 \<Longrightarrow> col s < 80 \<Longrightarrow> 9 \<notin> set str \<Longrightarrow>
   col (fst (vga_write P str (s, w))) < 80 \<and> (\<forall>i \<ge> 2000. video (fst (vga_write P str (s, w))) i = video s i)"
proof (induction str arbitrary: s w)
  case Nil
  then show ?case by (simp add: vga_write_def)
next
  case (Cons c str)
  obtain s1 w1 where s1: "vga_putc P c (s, w) = (s1, w1)" by fastforce
  have "row s1 < 25" "col s1 < 80" "\<forall>i \<ge> 2000. video s1 i = video s i"
    using vga_putc_row [OF Cons.prems(1), of P c w] vga_putc_plain [OF Cons.prems(1,2), where c = c and P = P and w = w]
      Cons.prems(3) s1 by auto
  then show ?case using Cons.IH [of s1 w1] Cons.prems(3) by (simp add: vga_write_def s1)
qed

section \<open>The serial port sends every byte\<close>

text \<open>
  A serial port that becomes ready again some polls after each byte: it records what it was
  given to send.
\<close>

record uart =
  uart_sent :: "u8 list"
  uart_busy :: nat
  uart_delay :: "nat \<Rightarrow> nat"

definition uart_inb :: "u16 \<Rightarrow> uart \<Rightarrow> u8 \<times> uart" where
  "uart_inb p u = (if p = 0x3fd then (if 0 < uart_busy u then 0 else 0x20, u\<lparr>uart_busy := uart_busy u - 1\<rparr>) else (0, u))"

definition uart_outb :: "u16 \<Rightarrow> u8 \<Rightarrow> uart \<Rightarrow> uart" where
  "uart_outb p c u =
     (if p = 0x3f8 then u\<lparr>uart_sent := uart_sent u @ [c], uart_busy := uart_delay u (length (uart_sent u))\<rparr> else u)"

definition uart_ports :: "uart ports" where
  "uart_ports = \<lparr>inb = uart_inb, outb = uart_outb, inw = (\<lambda>p u. (0, u)), outw = (\<lambda>p v u. u),
     inl = (\<lambda>p u. (0, u)), outl = (\<lambda>p v u. u)\<rparr>"

definition uart_hardware :: "'w ports \<Rightarrow> ('w \<Rightarrow> uart) \<Rightarrow> bool" where
  "uart_hardware P st \<longleftrightarrow> port_sim {0x3f8, 0x3fd} P uart_ports st"

lemma serial_wait_ready:
  assumes hw: "uart_hardware P st"
  shows "\<exists>w'. serial_wait P w = Some w' \<and> uart_sent (st w') = uart_sent (st w) \<and> uart_delay (st w') = uart_delay (st w)"
proof (induction "uart_busy (st w)" arbitrary: w)
  have sim: "port_sim {0x3f8, 0x3fd} P uart_ports st" using hw by (simp add: uart_hardware_def)
  case 0
  obtain x w1 where w1: "inb P 0x3fd w = (x, w1)" by fastforce
  have "x = 0x20" "uart_sent (st w1) = uart_sent (st w)" "uart_delay (st w1) = uart_delay (st w)"
    using port_sim_in(1,2) [OF sim, of "0x3fd" w] w1 0 by (simp_all add: uart_ports_def uart_inb_def)
  then show ?case by (subst serial_wait.simps) (simp add: w1)
next
  have sim: "port_sim {0x3f8, 0x3fd} P uart_ports st" using hw by (simp add: uart_hardware_def)
  case (Suc n)
  obtain x w1 where w1: "inb P 0x3fd w = (x, w1)" by fastforce
  have "x = 0" "uart_busy (st w1) = n" "uart_sent (st w1) = uart_sent (st w)" "uart_delay (st w1) = uart_delay (st w)"
    using port_sim_in(1,2) [OF sim, of "0x3fd" w] w1 Suc(2) [symmetric] by (simp_all add: uart_ports_def uart_inb_def)
  then show ?case using Suc(1) [of w1] by (subst serial_wait.simps) (simp add: w1)
qed

lemma serial_write_n_sends:
  assumes hw: "uart_hardware P st"
  shows "\<exists>w'. serial_write_n P cs w = Some w' \<and> uart_sent (st w') = uart_sent (st w) @ cs"
proof (induction cs arbitrary: w)
  case (Cons c cs)
  have sim: "port_sim {0x3f8, 0x3fd} P uart_ports st" using hw by (simp add: uart_hardware_def)
  obtain w1 where w1: "serial_wait P w = Some w1" "uart_sent (st w1) = uart_sent (st w)"
    using serial_wait_ready [OF hw] by blast
  have "uart_sent (st (outb P 0x3f8 c w1)) = uart_sent (st w) @ [c]"
    using port_sim_out(1) [OF sim, of "0x3f8" c w1] w1(2) by (simp add: uart_ports_def uart_outb_def)
  then show ?case using Cons.IH [of "outb P 0x3f8 c w1"] w1(1) by auto
qed simp

section \<open>Sleeping ends\<close>

lemma sleep_until_spec:
  "unat (uptime_ticks t) + n = unat target \<Longrightarrow> sleep_until n target t = Some (t\<lparr>uptime_ticks := target\<rparr>)"
proof (induction n arbitrary: t)
  case 0
  then have "uptime_ticks t = target" by (simp add: word_unat_eq_iff)
  then show ?case by (subst sleep_until.simps) simp
next
  case (Suc n)
  have "uptime_ticks t < target" using Suc.prems by (simp add: word_less_nat_alt)
  moreover have "unat (uptime_ticks t + 1) = Suc (unat (uptime_ticks t))"
    using Suc.prems unsigned_less [of target, where 'a = nat] by (intro unat_inc [of _ "unat target"]) simp_all
  then have "sleep_until n target (timer_irq t) = Some ((timer_irq t)\<lparr>uptime_ticks := target\<rparr>)"
    using Suc.prems by (intro Suc.IH) (simp add: timer_irq_def)
  ultimately show ?case by (subst sleep_until.simps) (simp add: timer_irq_def)
qed

lemma ksleep_ms_ends:
  assumes "unat ms * unat (timer_hz t) + 999 < 0x100000000"
    and "unat (uptime_ticks t) + (unat ms * unat (timer_hz t) + 999) div 1000 < 0x100000000"
  shows "ksleep_ms ((unat ms * unat (timer_hz t) + 999) div 1000) ms t =
    Some (t\<lparr>uptime_ticks := uptime_ticks t + of_nat ((unat ms * unat (timer_hz t) + 999) div 1000)\<rparr>)"
proof -
  define q where "q = (ms * timer_hz t + 999) div 1000"
  have d: "unat q = (unat ms * unat (timer_hz t) + 999) div 1000"
    using assms(1) by (simp add: q_def unat_div_distrib unat_word_ariths)
  have target: "sleep_target t ms = uptime_ticks t + q" by (simp add: sleep_target_def q_def)
  have "unat (sleep_target t ms) = unat (uptime_ticks t) + unat q"
    using assms(2) d by (simp add: target unat_word_ariths)
  then show ?thesis using sleep_until_spec [of t "unat q" "sleep_target t ms"]
    by (simp add: ksleep_ms_def target d [symmetric])
qed

section \<open>Properties\<close>

text \<open>Writing any string from a cursor on the screen keeps the cursor row on the screen and changes no
  cell from 2176 on; a string without tabs also keeps the column on the screen and writes only the
  2000 visible cells. (A tab can move the column past the right edge, so 2000 is not a bound in general.)\<close>

theorem vga_write_in_bounds:
  assumes "row s < 25"
  shows "row (fst (vga_write P str (s, w))) < 25 \<and>
    (\<forall>i \<ge> 2176. video (fst (vga_write P str (s, w))) i = video s i) \<and>
    (9 \<notin> set str \<and> col s < 80 \<longrightarrow> col (fst (vga_write P str (s, w))) < 80 \<and>
       (\<forall>i \<ge> 2000. video (fst (vga_write P str (s, w))) i = video s i))"
  using vga_write_bounds [OF assms, where P = P and str = str and w = w]
    vga_write_plain [OF assms, where P = P and str = str and w = w] by simp

theorem vga_write_in_bounds_witness:
  "video (fst (vga_write uart_ports [72, 105, 10] (\<lparr>video = (\<lambda>_. 0), row = 24, col = 79, color = 7\<rparr>,
     \<lparr>uart_sent = [], uart_busy = 0, uart_delay = (\<lambda>_. 0)\<rparr>))) 2000 = 0"
proof -
  let ?s = "\<lparr>video = (\<lambda>_. 0), row = 24, col = 79, color = 7\<rparr>"
  let ?w = "\<lparr>uart_sent = [], uart_busy = 0, uart_delay = (\<lambda>_. 0)\<rparr>"
  have s: "row ?s < 25" "9 \<notin> set [72, 105, 10 :: u8] \<and> col ?s < 80" by simp_all
  have "\<forall>i \<ge> 2000. video (fst (vga_write uart_ports [72, 105, 10] (?s, ?w))) i = video ?s i"
    by (rule vga_write_in_bounds [OF s(1), THEN conjunct2, THEN conjunct2, THEN mp, OF s(2), THEN conjunct2])
  then show ?thesis by simp
qed

end
