(* ===== verification/Journal.thy ===== *)
theory Journal
  imports Block
begin

text \<open>
  The recovery journal (\<open>fs/journal.c\<close>). A record of the log is the packed structure of 532 bytes of
  the source; the block layer transfers its first 512 bytes. What an uninitialised local record holds
  is an argument of the operations that declare one.
\<close>

section \<open>Records\<close>

definition JOURNAL_MAGIC :: u32 where "JOURNAL_MAGIC = 0x434a4e4c"
definition JOURNAL_COMMITTED :: u8 where "JOURNAL_COMMITTED = 0xa5"
definition JOURNAL_MAX_SLOTS :: u32 where "JOURNAL_MAX_SLOTS = 64"

record journal_record =
  magic :: u32
  jr_sequence :: u32
  target_lba :: u32
  jr_checksum :: u32
  committed :: u8
  reserved :: bytes
  jr_data :: bytes

text \<open>The layout of the packed structure.\<close>

definition record_bytes :: "journal_record \<Rightarrow> bytes" where
  "record_bytes r i =
     (if i < 4 then byte_of (magic r) i
      else if i < 8 then byte_of (jr_sequence r) (i - 4)
      else if i < 12 then byte_of (target_lba r) (i - 8)
      else if i < 16 then byte_of (jr_checksum r) (i - 12)
      else if i = 16 then committed r
      else if i < 20 then reserved r (i - 17)
      else jr_data r (i - 20))"

definition record_of :: "bytes \<Rightarrow> journal_record" where
  "record_of b = \<lparr>magic = ld32 b 0, jr_sequence = ld32 b 4, target_lba = ld32 b 8, jr_checksum = ld32 b 12,
     committed = b 16, reserved = (\<lambda>i. b (17 + i)), jr_data = (\<lambda>i. b (20 + i))\<rparr>"

definition fnv_step :: "u32 \<Rightarrow> u32 \<Rightarrow> u32" where
  "fnv_step h x = (h XOR x) * 16777619"

definition checksum :: "journal_record \<Rightarrow> u32" where
  "checksum r =
     (let h = fold (\<lambda>i h. fnv_step h (ucast (jr_data r i))) [0..<512] 2166136261
      in fnv_step h (target_lba r) XOR jr_sequence r)"

section \<open>Operations\<close>

record journal =
  j_base :: u32
  j_slot_count :: u32
  j_sequence :: u32
  j_ready :: bool

definition journal_init :: "'h block \<Rightarrow> u32 \<Rightarrow> u32 \<Rightarrow> journal \<Rightarrow> int \<times> journal" where
  "journal_init blk start_lba slots j =
     (let j = j\<lparr>j_base := start_lba, j_slot_count := (if JOURNAL_MAX_SLOTS < slots then JOURNAL_MAX_SLOTS else slots)\<rparr>;
          j = j\<lparr>j_ready := block_default blk \<noteq> None \<and> j_slot_count j \<noteq> 0, j_sequence := 1\<rparr>
      in (if j_ready j then 0 else -1, j))"

definition journal_is_ready :: "journal \<Rightarrow> bool" where
  "journal_is_ready j = j_ready j"

text \<open>
  One round of the replay loop. The local record \<open>r\<close> is shared by all rounds, so a round starts with
  what the last one left in it.
\<close>

definition replay_slot :: "'h block \<Rightarrow> u32 \<Rightarrow> bytes \<times> int \<times> 'h \<Rightarrow> bytes \<times> int \<times> 'h" where
  "replay_slot blk lba = (\<lambda>(r, applied, h).
     (case block_read_sector blk lba (Some r) h of
        (x, b, h) \<Rightarrow>
          let r = (case b of Some b \<Rightarrow> b | None \<Rightarrow> r); v = record_of r in
          if x \<noteq> 0 then (r, applied, h)
          else if magic v \<noteq> JOURNAL_MAGIC \<or> committed v \<noteq> JOURNAL_COMMITTED \<or> jr_checksum v \<noteq> checksum v
          then (r, applied, h)
          else (case block_write_sector blk (target_lba v) (Some (jr_data v)) h of
                  (x, h) \<Rightarrow>
                    if x = 0 then
                      (let r = r(16 := 0) in
                       (case block_write_sector blk lba (Some r) h of (x, h) \<Rightarrow> (r, applied + 1, h)))
                    else (r, applied, h))))"

definition journal_replay :: "'h block \<Rightarrow> bytes \<Rightarrow> journal \<Rightarrow> 'h \<Rightarrow> int \<times> 'h" where
  "journal_replay blk r j h =
     (if \<not> j_ready j then (-1, h)
      else (case fold (\<lambda>i. replay_slot blk (j_base j + of_nat i)) [0..<unat (j_slot_count j)] (r, 0, h) of
              (r, applied, h) \<Rightarrow> (applied, h)))"

text \<open>\<open>ready\<close> implies that there is a default device: devices are never removed.\<close>

definition new_record :: "journal_record \<Rightarrow> u32 \<Rightarrow> u32 \<Rightarrow> bytes \<Rightarrow> journal_record" where
  "new_record r s target sector =
     (let r = r\<lparr>magic := JOURNAL_MAGIC, jr_sequence := s, target_lba := target, committed := JOURNAL_COMMITTED,
                jr_data := (\<lambda>i. if i < 512 then sector i else jr_data r i)\<rparr>
      in r\<lparr>jr_checksum := checksum r\<rparr>)"

definition journal_write :: "'h block \<Rightarrow> journal_record \<Rightarrow> u32 \<Rightarrow> bytes option \<Rightarrow> journal \<times> 'h \<Rightarrow> int \<times> journal \<times> 'h" where
  "journal_write blk r target sector = (\<lambda>(j, h).
     if \<not> j_ready j \<or> sector = None \<or> (case block_default blk of None \<Rightarrow> True | Some d \<Rightarrow> write_sector d = None)
     then (-1, j, h)
     else
       (let r = new_record r (j_sequence j) target (the sector);
            j = j\<lparr>j_sequence := j_sequence j + 1\<rparr>;
            slot = j_base j + (jr_sequence r mod j_slot_count j)
        in case block_write_sector blk slot (Some (record_bytes r)) h of
             (x, h) \<Rightarrow>
               if x \<noteq> 0 then (-1, j, h)
               else (case block_write_sector blk target sector h of
                       (x, h) \<Rightarrow>
                         if x \<noteq> 0 then (-1, j, h)
                         else (case block_write_sector blk slot (Some (record_bytes (r\<lparr>committed := 0\<rparr>))) h of
                                 (x, h) \<Rightarrow> (x, j, h)))))"

fun clear_slots :: "'h block \<Rightarrow> u32 \<Rightarrow> nat list \<Rightarrow> 'h \<Rightarrow> int \<times> 'h" where
  "clear_slots blk b [] h = (0, h)"
| "clear_slots blk b (i # is) h =
     (case block_write_sector blk (b + of_nat i) (Some (\<lambda>_. 0)) h of
        (x, h) \<Rightarrow> if x \<noteq> 0 then (-1, h) else clear_slots blk b is h)"

definition journal_clear :: "'h block \<Rightarrow> journal \<Rightarrow> 'h \<Rightarrow> int \<times> 'h" where
  "journal_clear blk j h =
     (if \<not> j_ready j then (-1, h) else clear_slots blk (j_base j) [0..<unat (j_slot_count j)] h)"

end
