(* ===== verification/Fat32.thy ===== *)
theory Fat32
  imports Block Journal
begin

text \<open>
  The read-only FAT32 file system (\<open>fs/fat32/fat32.c\<close>) over the block layer. The static variables
  of the file are the record \<open>fat32\<close>, its one-sector buffer included; a path is the list of its
  characters without the terminating zero. Loops over a cluster chain follow what the disk holds, so
  they need not end: their result is an option.
\<close>

section \<open>State\<close>

definition FAT32_EOC :: u32 where "FAT32_EOC = 0x0ffffff8"
definition FAT32_MAX_CLUSTER :: u32 where "FAT32_MAX_CLUSTER = 0x0ffffff6"

record fat32_file =
  first_cluster :: u32
  file_size :: u32
  file_position :: u32
  directory :: u8

record fat32 =
  fat_sector :: bytes
  partition_lba :: u32
  fat_lba :: u32
  data_lba :: u32
  sectors_per_cluster :: u32
  bytes_per_sector :: u32
  fat_size :: u32
  root_cluster :: u32
  mounted :: bool

section \<open>Reading the volume\<close>

definition le16 :: "bytes \<Rightarrow> nat \<Rightarrow> u16" where
  "le16 b k = ucast (b k) OR push_bit 8 (ucast (b (k + 1)))"

definition le32 :: "bytes \<Rightarrow> nat \<Rightarrow> u32" where
  "le32 b k = ucast (b k) OR push_bit 8 (ucast (b (k + 1)))
     OR push_bit 16 (ucast (b (k + 2))) OR push_bit 24 (ucast (b (k + 3)))"

definition cluster_lba :: "fat32 \<Rightarrow> u32 \<Rightarrow> u32" where
  "cluster_lba fs c = data_lba fs + (c - 2) * sectors_per_cluster fs"

definition valid_cluster :: "u32 \<Rightarrow> bool" where
  "valid_cluster c \<longleftrightarrow> 2 \<le> c \<and> c \<le> FAT32_MAX_CLUSTER"

text \<open>\<open>block_read_sector(lba, sector)\<close> on the static buffer.\<close>

definition fat_load :: "'h block \<Rightarrow> u32 \<Rightarrow> fat32 \<times> 'h \<Rightarrow> int \<times> fat32 \<times> 'h" where
  "fat_load blk lba = (\<lambda>(fs, h).
     (case block_read_sector blk lba (Some (fat_sector fs)) h of
        (r, b, h) \<Rightarrow> (r, (case b of Some b \<Rightarrow> fs\<lparr>fat_sector := b\<rparr> | None \<Rightarrow> fs), h)))"

definition next_cluster :: "'h block \<Rightarrow> u32 \<Rightarrow> fat32 \<times> 'h \<Rightarrow> u32 \<times> fat32 \<times> 'h" where
  "next_cluster blk c = (\<lambda>(fs, h).
     let l = fat_lba fs + (c * 4) div bytes_per_sector fs;
         k = (c * 4) mod bytes_per_sector fs
     in (case fat_load blk l (fs, h) of
           (r, fs, h) \<Rightarrow> if r \<noteq> 0 then (0, fs, h) else (le32 (fat_sector fs) (unat k) AND 0x0fffffff, fs, h)))"

section \<open>Names\<close>

text \<open>\<open>copy_name\<close> is the loop body of \<open>short_name\<close>: it copies until a blank or the capacity.\<close>

primrec copy_name :: "nat list \<Rightarrow> bytes \<Rightarrow> u32 \<Rightarrow> nat \<times> bytes \<Rightarrow> nat \<times> bytes" where
  "copy_name [] e cap s = s"
| "copy_name (j # js) e cap s =
     (if Suc (fst s) < unat cap \<and> e j \<noteq> 0x20 then copy_name js e cap (Suc (fst s), (snd s)(fst s := e j)) else s)"

definition short_name :: "bytes \<Rightarrow> bytes \<Rightarrow> u32 \<Rightarrow> bytes" where
  "short_name e n cap =
     (let s = copy_name [0..<8] e cap (0, n);
          s = (if e 8 \<noteq> 0x20 \<and> Suc (fst s) < unat cap
               then copy_name [8..<11] e cap (Suc (fst s), (snd s)(fst s := 0x2e)) else s)
      in if cap \<noteq> 0 then (snd s)((if fst s < unat cap then fst s else unat cap - 1) := 0) else snd s)"

definition upcase :: "u8 \<Rightarrow> u8" where
  "upcase c = (if 0x61 \<le> c \<and> c \<le> 0x7a then c - 0x61 + 0x41 else c)"

fun base_83 :: "u8 list \<Rightarrow> nat \<Rightarrow> bytes \<Rightarrow> u8 list \<times> bytes" where
  "base_83 [] i out = ([], out)"
| "base_83 (c # p) i out =
     (if c = 0x2f \<or> 8 \<le> i then (c # p, out)
      else if upcase c = 0x2e then (p, out) else base_83 p (Suc i) (out(i := upcase c)))"

fun ext_83 :: "u8 list \<Rightarrow> nat \<Rightarrow> bytes \<Rightarrow> bytes" where
  "ext_83 [] i out = out"
| "ext_83 (c # p) i out = (if c = 0x2f \<or> 11 \<le> i then out else ext_83 p (Suc i) (out(i := upcase c)))"

definition make_83 :: "u8 list \<Rightarrow> bytes \<Rightarrow> bytes" where
  "make_83 p out =
     (case base_83 p 0 (\<lambda>i. if i < 11 then 0x20 else out i) of
        (p, out) \<Rightarrow> ext_83 (case p of c # q \<Rightarrow> if c = 0x2e then q else p | [] \<Rightarrow> p) 8 out)"

section \<open>The root directory\<close>

text \<open>
  \<open>scan_root\<close> is called with a name to find (\<open>wanted\<close>) or with an index. Its output parameters are
  the record \<open>scan_out\<close>; looking at a directory entry either keeps going with the next index or
  returns.
\<close>

record scan_out =
  so_found :: fat32_file
  so_name :: bytes
  so_size :: "u32 option"

datatype scan = Keep u32 | Done int scan_out

definition scan_entry :: "bytes option \<Rightarrow> u32 \<Rightarrow> u32 \<Rightarrow> bytes \<Rightarrow> u32 \<Rightarrow> scan_out \<Rightarrow> scan" where
  "scan_entry wanted wanted_index cap d index out =
     (if d 0 = 0 then Done (-1) out
      else if d 0 = 0xe5 \<or> d 11 = 0x0f \<or> d 11 AND 0x08 \<noteq> 0 then Keep index
      else if d 11 AND 0x10 \<noteq> 0 then
        (if wanted = None \<and> wanted_index = index
         then Done 0 (out\<lparr>so_name := short_name d (so_name out) cap, so_size := map_option (\<lambda>_. le32 d 28) (so_size out)\<rparr>)
         else Keep (index + 1))
      else (case wanted of None \<Rightarrow> Keep (index + 1)
            | Some w \<Rightarrow>
               if list_all (\<lambda>i. d i = w i) [0..<11]
               then Done 0 (out\<lparr>so_found := \<lparr>first_cluster = push_bit 16 (ucast (le16 d 20)) OR ucast (le16 d 26),
                 file_size = le32 d 28, file_position = 0, directory = 0\<rparr>\<rparr>)
               else Keep (index + 1)))"

fun scan_entries :: "bytes option \<Rightarrow> u32 \<Rightarrow> u32 \<Rightarrow> bytes list \<Rightarrow> u32 \<Rightarrow> scan_out \<Rightarrow> scan" where
  "scan_entries wanted wi cap [] index out = Keep index"
| "scan_entries wanted wi cap (d # ds) index out =
     (case scan_entry wanted wi cap d index out of
        Done r out \<Rightarrow> Done r out
      | Keep index \<Rightarrow> scan_entries wanted wi cap ds index out)"

definition entries_of :: "u32 \<Rightarrow> bytes \<Rightarrow> bytes list" where
  "entries_of n b = map (\<lambda>e i. b (32 * e + i)) [0..<(unat n + 31) div 32]"

fun scan_sectors :: "'h block \<Rightarrow> bytes option \<Rightarrow> u32 \<Rightarrow> u32 \<Rightarrow> u32 \<Rightarrow> nat list \<Rightarrow> u32 \<Rightarrow> scan_out \<Rightarrow> fat32 \<times> 'h \<Rightarrow>
    scan \<times> fat32 \<times> 'h" where
  "scan_sectors blk wanted wi cap cluster [] index out st = (Keep index, st)"
| "scan_sectors blk wanted wi cap cluster (s # ss) index out st =
     (case fat_load blk (cluster_lba (fst st) cluster + of_nat s) st of
        (r, st) \<Rightarrow>
          if r \<noteq> 0 then (Done (-1) out, st)
          else (case scan_entries wanted wi cap (entries_of (bytes_per_sector (fst st)) (fat_sector (fst st))) index out of
                  Done r out \<Rightarrow> (Done r out, st)
                | Keep index \<Rightarrow> scan_sectors blk wanted wi cap cluster ss index out st))"

partial_function (option) scan_clusters ::
  "'h block \<Rightarrow> bytes option \<Rightarrow> u32 \<Rightarrow> u32 \<Rightarrow> u32 \<Rightarrow> u32 \<Rightarrow> scan_out \<Rightarrow> fat32 \<times> 'h \<Rightarrow> (int \<times> scan_out \<times> fat32 \<times> 'h) option" where
  [code]: "scan_clusters blk wanted wi cap cluster index out st =
     (if \<not> valid_cluster cluster then Some (-1, out, st)
      else (case scan_sectors blk wanted wi cap cluster [0..<unat (sectors_per_cluster (fst st))] index out st of
              (Done r out, st) \<Rightarrow> Some (r, out, st)
            | (Keep index, st) \<Rightarrow>
               (case next_cluster blk cluster st of
                  (c, st) \<Rightarrow> if FAT32_EOC \<le> c then Some (-1, out, st)
                             else scan_clusters blk wanted wi cap c index out st)))"

definition scan_root :: "'h block \<Rightarrow> bytes option \<Rightarrow> u32 \<Rightarrow> u32 \<Rightarrow> scan_out \<Rightarrow> fat32 \<times> 'h \<Rightarrow>
    (int \<times> scan_out \<times> fat32 \<times> 'h) option" where
  "scan_root blk wanted wi cap out st = scan_clusters blk wanted wi cap (root_cluster (fst st)) 0 out st"

definition fat32_readdir :: "'h block \<Rightarrow> u32 \<Rightarrow> bytes option \<Rightarrow> u32 \<Rightarrow> u32 option \<Rightarrow> fat32 \<times> 'h \<Rightarrow>
    (int \<times> bytes option \<times> u32 option \<times> fat32 \<times> 'h) option" where
  "fat32_readdir blk index name capacity sz st =
     (case name of
        Some n \<Rightarrow>
          if \<not> mounted (fst st) \<or> capacity = 0 then Some (-1, name, sz, st)
          else map_option (\<lambda>(r, out, st). (r, Some (so_name out), so_size out, st))
            (scan_root blk None index capacity
               \<lparr>so_found = \<lparr>first_cluster = 0, file_size = 0, file_position = 0, directory = 0\<rparr>, so_name = n, so_size = sz\<rparr> st)
      | None \<Rightarrow> Some (-1, name, sz, st))"

section \<open>Mounting and opening\<close>

definition find_partition :: "bytes \<Rightarrow> u32" where
  "find_partition b =
     (if b 510 = 0x55 \<and> b 511 = 0xaa \<and> b 450 \<noteq> 0
      then (case find (\<lambda>p. b (446 + p * 16 + 4) = 0x0b \<or> b (446 + p * 16 + 4) = 0x0c) [0..<4] of
              Some p \<Rightarrow> le32 b (446 + p * 16 + 8) | None \<Rightarrow> 0)
      else 0)"

definition fat32_mount :: "'h block \<Rightarrow> fat32 \<times> 'h \<Rightarrow> int \<times> fat32 \<times> 'h" where
  "fat32_mount blk st =
     (if block_default blk = None then (-1, st)
      else (case fat_load blk 0 st of
        (r, fs, h) \<Rightarrow>
          if r \<noteq> 0 then (-1, fs, h)
          else (let fs = fs\<lparr>partition_lba := find_partition (fat_sector fs)\<rparr> in
            (case fat_load blk (partition_lba fs) (fs, h) of
               (r, fs, h) \<Rightarrow>
                 if r \<noteq> 0 then (-1, fs, h)
                 else
                   (let b = fat_sector fs; reserved = ucast (le16 b 14); fats = ucast (b 16);
                        fs = fs\<lparr>bytes_per_sector := ucast (le16 b 11), sectors_per_cluster := ucast (b 13),
                                fat_size := le32 b 36, root_cluster := le32 b 44\<rparr>
                    in if bytes_per_sector fs \<noteq> 512 \<or> sectors_per_cluster fs = 0 \<or> fats = 0 \<or> fat_size fs = 0 \<or>
                          \<not> valid_cluster (root_cluster fs)
                       then (-1, fs, h)
                       else (let fs = fs\<lparr>fat_lba := partition_lba fs + reserved\<rparr>
                             in (0, fs\<lparr>data_lba := fat_lba fs + fats * fat_size fs, mounted := True\<rparr>, h)))))))"

definition fat32_is_mounted :: "fat32 \<Rightarrow> bool" where
  "fat32_is_mounted fs = mounted fs"

definition fat32_write_sector :: "'h block \<Rightarrow> journal_record \<Rightarrow> u32 \<Rightarrow> bytes option \<Rightarrow> fat32 \<Rightarrow> journal \<times> 'h \<Rightarrow>
    int \<times> journal \<times> 'h" where
  "fat32_write_sector blk r lba buffer fs = (\<lambda>(j, h).
     if \<not> mounted fs \<or> buffer = None then (-1, j, h)
     else if journal_is_ready j then journal_write blk r lba buffer (j, h)
     else (case block_write_sector blk lba buffer h of (x, h) \<Rightarrow> (x, j, h)))"

text \<open>\<open>wanted\<close> is the local array of \<open>fat32_open\<close>; \<open>make_83\<close> sets all of its 11 bytes.\<close>

definition fat32_open :: "'h block \<Rightarrow> u8 list option \<Rightarrow> fat32_file option \<Rightarrow> fat32 \<times> 'h \<Rightarrow>
    (int \<times> fat32_file option \<times> fat32 \<times> 'h) option" where
  "fat32_open blk path file st =
     (case (path, file) of
        (Some p, Some f) \<Rightarrow>
          if \<not> mounted (fst st) then Some (-1, file, st)
          else (let p = dropWhile (\<lambda>c. c = 0x2f) p in
            if p = [] then Some (-1, file, st)
            else map_option (\<lambda>(r, out, st). (r, Some (so_found out), st))
              (scan_root blk (Some (make_83 p (\<lambda>_. 0))) 0 0 \<lparr>so_found = f, so_name = (\<lambda>_. 0), so_size = None\<rparr> st))
      | _ \<Rightarrow> Some (-1, file, st))"

section \<open>Reading a file\<close>

primrec skip_clusters :: "'h block \<Rightarrow> nat \<Rightarrow> u32 \<Rightarrow> fat32 \<times> 'h \<Rightarrow> u32 \<times> fat32 \<times> 'h" where
  "skip_clusters blk 0 c st = (c, st)"
| "skip_clusters blk (Suc n) c st =
     (if valid_cluster c then (case next_cluster blk c st of (c, st) \<Rightarrow> skip_clusters blk n c st) else (c, st))"

text \<open>
  The loop over the sectors of a cluster. It returns the value the function returns from inside it,
  if any, and otherwise the number of bytes read so far.
\<close>

fun read_sectors :: "'h block \<Rightarrow> u32 \<Rightarrow> u32 \<Rightarrow> nat list \<Rightarrow> fat32_file \<times> bytes \<times> u32 \<times> fat32 \<times> 'h \<Rightarrow>
    int option \<times> fat32_file \<times> bytes \<times> u32 \<times> fat32 \<times> 'h" where
  "read_sectors blk cluster len [] s = (None, s)"
| "read_sectors blk cluster len (s # ss) (f, out, done, st) =
     (if done < len then
        (let offset = file_position f mod bytes_per_sector (fst st) in
         (case fat_load blk (cluster_lba (fst st) cluster + of_nat s) st of
            (r, st) \<Rightarrow>
              if r \<noteq> 0 then (Some (if done \<noteq> 0 then sint done else -1), f, out, done, st)
              else
                (let n = bytes_per_sector (fst st) - offset;
                     n = (if len - done < n then len - done else n);
                     out = copy_bytes (unat done) (unat n) (\<lambda>i. fat_sector (fst st) (unat offset + i)) out
                 in read_sectors blk cluster len ss
                      (f\<lparr>file_position := file_position f + n\<rparr>, out, done + n, st))))
      else (None, f, out, done, st))"

partial_function (option) read_clusters ::
  "'h block \<Rightarrow> u32 \<Rightarrow> u32 \<Rightarrow> fat32_file \<times> bytes \<times> u32 \<times> fat32 \<times> 'h \<Rightarrow> (int \<times> fat32_file \<times> bytes \<times> fat32 \<times> 'h) option" where
  [code]: "read_clusters blk len cluster s =
     (case s of (f, out, done, st) \<Rightarrow>
       if done < len \<and> valid_cluster cluster then
         (let first = (file_position f div bytes_per_sector (fst st)) mod sectors_per_cluster (fst st) in
          (case read_sectors blk cluster len [unat first..<unat (sectors_per_cluster (fst st))] s of
             (Some r, f, out, done, st) \<Rightarrow> Some (r, f, out, st)
           | (None, f, out, done, st) \<Rightarrow>
               (case next_cluster blk cluster st of
                  (c, st) \<Rightarrow> read_clusters blk len c (f, out, done, st))))
       else Some (sint done, f, out, st))"

definition fat32_read_file :: "'h block \<Rightarrow> fat32_file option \<Rightarrow> bytes option \<Rightarrow> u32 \<Rightarrow> fat32 \<times> 'h \<Rightarrow>
    (int \<times> fat32_file option \<times> bytes option \<times> fat32 \<times> 'h) option" where
  "fat32_read_file blk file buffer len st =
     (case (file, buffer) of
        (Some f, Some out) \<Rightarrow>
          if \<not> mounted (fst st) \<or> directory f \<noteq> 0 \<or> file_size f \<le> file_position f then Some (0, file, buffer, st)
          else
            (let len = (if file_size f - file_position f < len then file_size f - file_position f else len);
                 skip = file_position f div (sectors_per_cluster (fst st) * bytes_per_sector (fst st))
             in (case skip_clusters blk (unat skip) (first_cluster f) st of
                   (cluster, st) \<Rightarrow>
                     map_option (\<lambda>(r, f, out, st). (r, Some f, Some out, st))
                       (read_clusters blk len cluster (f, out, 0, st))))
      | _ \<Rightarrow> Some (0, file, buffer, st))"

end
