(* ===== verification/Vfs.thy ===== *)
theory Vfs
  imports Fat32 Console
begin

text \<open>
  The virtual file system (\<open>fs/vfs.c\<close>): a table of eight descriptors per process slot over the
  console, the raw default block device (descriptor 3) and files of the FAT32 volume. A descriptor is
  free when its name is null (\<open>None\<close>).
\<close>

section \<open>State\<close>

definition VFS_MAX_PROCESSES :: u32 where "VFS_MAX_PROCESSES = 32"
definition VFS_FD_RAW_HDA :: nat where "VFS_FD_RAW_HDA = 3"
definition VFS_FD_FIRST_FILE :: nat where "VFS_FD_FIRST_FILE = 4"

lemmas vfs_fds = VFS_FD_RAW_HDA_def VFS_FD_FIRST_FILE_def VFS_MAX_PROCESSES_def

record vfs_file =
  vf_name :: "u8 list option"
  vf_flags :: u32
  vf_position :: u32
  vf_kind :: u8
  vf_fat :: fat32_file

record vfs =
  files :: "nat \<Rightarrow> nat \<Rightarrow> vfs_file"
  vfs_sector :: bytes
  active_pid :: pid_t

definition slot_for_pid :: "pid_t \<Rightarrow> nat" where
  "slot_for_pid p =
     (let slot = p AND 0xff in
      if slot = 0 then 0 else (let slot = slot - 1 in if slot < VFS_MAX_PROCESSES then unat slot else 0))"

definition vfs_table :: "vfs \<Rightarrow> nat \<Rightarrow> vfs_file" where
  "vfs_table v = files v (slot_for_pid (active_pid v))"

definition upd_file :: "nat \<Rightarrow> nat \<Rightarrow> (vfs_file \<Rightarrow> vfs_file) \<Rightarrow> vfs \<Rightarrow> vfs" where
  "upd_file p i f v = v\<lparr>files := (files v)(p := (files v p)(i := f (files v p i)))\<rparr>"

definition upd_fd :: "nat \<Rightarrow> (vfs_file \<Rightarrow> vfs_file) \<Rightarrow> vfs \<Rightarrow> vfs" where
  "upd_fd i f v = upd_file (slot_for_pid (active_pid v)) i f v"

definition vfs_set_process :: "pid_t \<Rightarrow> vfs \<Rightarrow> vfs" where
  "vfs_set_process p v = v\<lparr>active_pid := if p \<noteq> 0 then p else 1\<rparr>"

definition clear_file :: "vfs_file \<Rightarrow> vfs_file" where
  "clear_file x = x\<lparr>vf_name := None, vf_kind := 0, vf_position := 0\<rparr>"

definition vfs_init :: "'h block \<Rightarrow> vfs \<Rightarrow> vfs" where
  "vfs_init blk v =
     (let v = fold (\<lambda>p. fold (\<lambda>i. upd_file p i clear_file) [0..<8]) [0..<32] v in
      if block_default blk \<noteq> None
      then fold (\<lambda>p. upd_file p VFS_FD_RAW_HDA (\<lambda>x. x\<lparr>vf_name := Some [0x68, 0x64, 0x61], vf_kind := 1\<rparr>)) [0..<32] v
      else v)"

definition vfs_inherit_process :: "pid_t \<Rightarrow> pid_t \<Rightarrow> vfs \<Rightarrow> vfs" where
  "vfs_inherit_process parent child v =
     (let p = slot_for_pid parent; c = slot_for_pid child in
      if 32 \<le> p \<or> 32 \<le> c then v
      else v\<lparr>files := (files v)(c := \<lambda>i. if i < 8 then files v p i else files v c i)\<rparr>)"

definition vfs_release_process :: "pid_t \<Rightarrow> vfs \<Rightarrow> vfs" where
  "vfs_release_process pid v =
     (let p = slot_for_pid pid in
      if 32 \<le> p then v else fold (\<lambda>i. upd_file p i clear_file) [VFS_FD_FIRST_FILE..<8] v)"

section \<open>Opening and closing\<close>

definition free_fd :: "vfs \<Rightarrow> nat option" where
  "free_fd v = find (\<lambda>i. vf_name (vfs_table v i) = None) [VFS_FD_FIRST_FILE..<8]"

definition vfs_open_plain :: "u8 list \<Rightarrow> u32 \<Rightarrow> vfs \<Rightarrow> int \<times> vfs" where
  "vfs_open_plain n f v =
     (if n = [0x68, 0x64, 0x61]
      then (if vf_name (vfs_table v VFS_FD_RAW_HDA) \<noteq> None then int VFS_FD_RAW_HDA else -1, v)
      else (case free_fd v of
              Some i \<Rightarrow> (int i, upd_fd i (\<lambda>x. x\<lparr>vf_name := Some n, vf_flags := f, vf_position := 0, vf_kind := 0\<rparr>) v)
            | None \<Rightarrow> (-1, v)))"

definition vfs_open :: "'h block \<Rightarrow> u8 list option \<Rightarrow> u32 \<Rightarrow> vfs \<times> fat32 \<times> 'h \<Rightarrow> (int \<times> vfs \<times> fat32 \<times> 'h) option" where
  "vfs_open blk name f = (\<lambda>(v, fs, h).
     (case name of
        None \<Rightarrow> Some (-1, v, fs, h)
      | Some n \<Rightarrow>
         (case (if take 4 n = [0x68, 0x64, 0x61, 0x2f] \<and> fat32_is_mounted fs then free_fd v else None) of
            None \<Rightarrow> (case vfs_open_plain n f v of (r, v) \<Rightarrow> Some (r, v, fs, h))
          | Some i \<Rightarrow>
             (let v = upd_fd i (\<lambda>x. x\<lparr>vf_name := Some [0x66, 0x61, 0x74, 0x2d, 0x66, 0x69, 0x6c, 0x65],
                                     vf_kind := 2, vf_flags := f, vf_position := 0\<rparr>) v
              in (case fat32_open blk (Some (drop 4 n)) (Some (vf_fat (vfs_table v i))) (fs, h) of
                    None \<Rightarrow> None
                  | Some (r, file, fs, h) \<Rightarrow>
                     (let v = (case file of Some g \<Rightarrow> upd_fd i (\<lambda>x. x\<lparr>vf_fat := g\<rparr>) v | None \<Rightarrow> v) in
                      if r \<noteq> 0 then Some (-1, upd_fd i (\<lambda>x. x\<lparr>vf_name := None\<rparr>) v, fs, h)
                      else Some (int i, v, fs, h)))))))"

definition vfs_close :: "int \<Rightarrow> vfs \<Rightarrow> int \<times> vfs" where
  "vfs_close fd v =
     (if fd < int VFS_FD_FIRST_FILE \<or> 8 \<le> fd \<or> vf_name (vfs_table v (nat fd)) = None then (-1, v)
      else (0, upd_fd (nat fd) (\<lambda>x. x\<lparr>vf_name := None, vf_kind := 0\<rparr>) v))"

section \<open>Reading and writing\<close>

text \<open>
  The loops over the raw device move whole sectors; each round moves at least one byte, so they end.
  \<open>raw_take\<close> is the number of bytes a round moves, \<open>raw_load\<close> the read into the static buffer.
\<close>

definition raw_pos :: "vfs \<Rightarrow> u32" where
  "raw_pos v = vf_position (vfs_table v VFS_FD_RAW_HDA)"

definition raw_take :: "u32 \<Rightarrow> u32 \<Rightarrow> u32" where
  "raw_take left pos = (if left < 512 - pos mod 512 then left else 512 - pos mod 512)"

definition raw_advance :: "u32 \<Rightarrow> vfs \<Rightarrow> vfs" where
  "raw_advance n v = upd_fd VFS_FD_RAW_HDA (\<lambda>x. x\<lparr>vf_position := vf_position x + n\<rparr>) v"

definition raw_load :: "'h block \<Rightarrow> u32 \<Rightarrow> vfs \<times> 'h \<Rightarrow> int \<times> vfs \<times> 'h" where
  "raw_load blk lba = (\<lambda>(v, h).
     (case block_read_sector blk lba (Some (vfs_sector v)) h of
        (r, b, h) \<Rightarrow> (r, (case b of Some b \<Rightarrow> v\<lparr>vfs_sector := b\<rparr> | None \<Rightarrow> v), h)))"

definition partial_result :: "u32 \<Rightarrow> int" where
  "partial_result done = (if done \<noteq> 0 then sint done else -1)"

lemma raw_take_progress: "done < n \<Longrightarrow> unat (n - (done + raw_take (n - done) pos)) < unat (n - done)"
proof -
  assume lt: "done < n"
  let ?t = "raw_take (n - done) pos"
  have m: "unat (pos mod 512) < 512" by (simp add: unat_mod)
  have "512 - pos mod 512 \<noteq> 0" using m by auto
  moreover have "n - done \<noteq> 0" using lt by auto
  ultimately have t: "?t \<noteq> 0" "?t \<le> n - done" by (auto simp: raw_take_def)
  have "n - (done + ?t) = (n - done) - ?t" by simp
  moreover have "0 < unat ?t" using t(1) by (simp add: unat_gt_0)
  ultimately show ?thesis using t(2) by (simp only:) (simp add: unat_sub word_le_nat_alt)
qed

function raw_read :: "'h block \<Rightarrow> u32 \<Rightarrow> bytes \<times> u32 \<times> vfs \<times> 'h \<Rightarrow> int \<times> bytes \<times> vfs \<times> 'h" where
  "raw_read blk n (out, done, v, h) =
     (if done < n then
        (let pos = raw_pos v; len = raw_take (n - done) pos in
         (case raw_load blk (pos div 512) (v, h) of
            (r, v, h) \<Rightarrow>
              if r \<noteq> 0 then (partial_result done, out, v, h)
              else raw_read blk n
                (copy_bytes (unat done) (unat len) (\<lambda>i. vfs_sector v (unat (pos mod 512) + i)) out, done + len, raw_advance len v, h)))
      else (sint done, out, v, h))"
  by pat_completeness auto
termination
  by (relation "measure (\<lambda>(blk, n, out, done, v, h). unat (n - done))") (simp_all add: raw_take_progress)

function raw_write :: "'h block \<Rightarrow> u32 \<Rightarrow> bytes \<Rightarrow> u32 \<times> vfs \<times> 'h \<Rightarrow> int \<times> vfs \<times> 'h" where
  "raw_write blk n src (done, v, h) =
     (if done < n then
        (let pos = raw_pos v; len = raw_take (n - done) pos in
         (case (if pos mod 512 \<noteq> 0 \<or> len < 512 then raw_load blk (pos div 512) (v, h) else (0, v, h)) of
            (r, v, h) \<Rightarrow>
              if r \<noteq> 0 then (partial_result done, v, h)
              else
                (let v = v\<lparr>vfs_sector := copy_bytes (unat (pos mod 512)) (unat len) (\<lambda>i. src (unat done + i)) (vfs_sector v)\<rparr> in
                 (case block_write_sector blk (pos div 512) (Some (vfs_sector v)) h of
                    (r, h) \<Rightarrow>
                      if r \<noteq> 0 then (partial_result done, v, h)
                      else raw_write blk n src (done + len, raw_advance len v, h)))))
      else (sint done, v, h))"
  by pat_completeness auto
termination
  by (relation "measure (\<lambda>(blk, n, src, done, v, h). unat (n - done))") (simp_all add: raw_take_progress)

declare raw_read.simps [simp del] raw_write.simps [simp del]

definition vfs_read :: "'h ports \<Rightarrow> 'h block \<Rightarrow> int \<Rightarrow> bytes option \<Rightarrow> u32 \<Rightarrow> vfs \<times> fat32 \<times> 'h \<Rightarrow>
    (int \<times> bytes option \<times> vfs \<times> fat32 \<times> 'h) option" where
  "vfs_read P blk fd buf n = (\<lambda>(v, fs, h).
     (case buf of
        None \<Rightarrow> Some (-1, buf, v, fs, h)
      | Some out \<Rightarrow>
         if fd = 0 \<and> n \<noteq> 0 then
           (case serial_read P h of
              (c, h) \<Rightarrow> if c < 0 then Some (0, buf, v, fs, h) else Some (1, Some (out(0 := word_of_int c)), v, fs, h))
         else if fd = int VFS_FD_RAW_HDA \<and> vf_name (vfs_table v VFS_FD_RAW_HDA) \<noteq> None then
           (case raw_read blk n (out, 0, v, h) of (r, out, v, h) \<Rightarrow> Some (r, Some out, v, fs, h))
         else if int VFS_FD_FIRST_FILE \<le> fd \<and> fd < 8 \<and> vf_kind (vfs_table v (nat fd)) = 2 then
           (case fat32_read_file blk (Some (vf_fat (vfs_table v (nat fd)))) buf n (fs, h) of
              None \<Rightarrow> None
            | Some (r, file, buf, fs, h) \<Rightarrow>
               Some (r, buf, (case file of Some g \<Rightarrow> upd_fd (nat fd) (\<lambda>x. x\<lparr>vf_fat := g\<rparr>) v | None \<Rightarrow> v), fs, h))
         else Some (-1, buf, v, fs, h)))"

definition vfs_write :: "'h ports \<Rightarrow> 'h block \<Rightarrow> int \<Rightarrow> bytes option \<Rightarrow> u32 \<Rightarrow> vfs \<times> vga \<times> 'h \<Rightarrow>
    (int \<times> vfs \<times> vga \<times> 'h) option" where
  "vfs_write P blk fd buf n = (\<lambda>(v, g, h).
     (case buf of
        None \<Rightarrow> Some (-1, v, g, h)
      | Some src \<Rightarrow>
         if fd = 1 then
           (case fold (\<lambda>i. vga_putc P (src i)) [0..<unat n] (g, h) of (g, h) \<Rightarrow> Some (sint n, v, g, h))
         else if fd = 2 then
           (case serial_write_n P (map src [0..<unat n]) h of None \<Rightarrow> None | Some h \<Rightarrow> Some (sint n, v, g, h))
         else if fd = int VFS_FD_RAW_HDA \<and> vf_name (vfs_table v VFS_FD_RAW_HDA) \<noteq> None then
           (case raw_write blk n src (0, v, h) of (r, v, h) \<Rightarrow> Some (r, v, g, h))
         else Some (-1, v, g, h)))"

end
