(* ===== verification/Sched.thy ===== *)
theory Sched
  imports Vmm Vfs
begin

text \<open>
  Process control blocks (\<open>include/scheduler.h\<close>), the per-processor record
  (\<open>kernel/percpu.c\<close>) and the round-robin scheduler (\<open>scheduler/round_robin.c\<close>). A pointer to a
  process is \<open>None\<close> (null) or an index: the 32 slots of the process table, and \<open>IDLE\<close> for the
  scheduler's own idle process. The ready queue is linked through \<open>next_pcb\<close>, as in the code. An
  interrupt frame is known by its address; \<open>frames\<close> holds the registers stored there.
\<close>

section \<open>State\<close>

definition PROCESS_READY :: u32 where "PROCESS_READY = 0"
definition PROCESS_RUNNING :: u32 where "PROCESS_RUNNING = 1"
definition PROCESS_BLOCKED :: u32 where "PROCESS_BLOCKED = 2"
definition PROCESS_ZOMBIE :: u32 where "PROCESS_ZOMBIE = 3"

lemmas process_states = PROCESS_READY_def PROCESS_RUNNING_def PROCESS_BLOCKED_def PROCESS_ZOMBIE_def

record credentials =
  uid :: u32
  gid :: u32
  euid :: u32
  egid :: u32
  capabilities :: u32

definition CAP_KILL :: u32 where "CAP_KILL = 1"
definition CAP_SYS_ADMIN :: u32 where "CAP_SYS_ADMIN = 2"

record cpu_state =
  c_eax :: u32
  c_ebx :: u32
  c_ecx :: u32
  c_edx :: u32
  c_esi :: u32
  c_edi :: u32
  c_ebp :: u32
  c_esp :: u32
  c_eip :: u32
  c_eflags :: u32

record registers =
  edi :: u32
  esi :: u32
  ebp :: u32
  esp :: u32
  ebx :: u32
  edx :: u32
  ecx :: u32
  eax :: u32
  int_no :: u32
  err_code :: u32
  eip :: u32
  cs :: u32
  eflags :: u32
  useresp :: u32
  ss :: u32

record pcb =
  pid :: pid_t
  state :: u32
  ticks :: u32
  pcb_name :: string
  cpu_state :: cpu_state
  next_pcb :: "nat option"
  entry_point :: u32
  user_stack :: u32
  user_mode :: bool
  address_space :: space_ptr
  parent_pid :: pid_t
  exit_code :: u32
  wait_for_pid :: pid_t
  wait_status_ptr :: u32
  wait_status :: u32
  credentials :: credentials
  pending_signals :: u32
  signal_mask :: u32
  futex_key :: u32
  futex_expected :: u32
  started :: bool
  interrupt_frame :: u32
  allocated :: bool
  generation :: u32
  signal_handlers :: "nat \<Rightarrow> u32"
  signal_saved_frame :: registers
  signal_active :: bool
  futex_deadline :: u32

record cpu_local =
  cpu_id :: u32
  cpu_apic_id :: u32
  cpu_online :: u32
  irq_depth :: u32
  cpu_current :: "nat option"

record kern =
  procs :: "nat \<Rightarrow> pcb"
  process_count :: nat
  current :: "nat option"
  ready_head :: "nat option"
  quantum_ticks :: u32
  frames :: "u32 \<Rightarrow> registers"
  boot_cpu :: cpu_local
  tss_esp0 :: u32
  fds :: vfs
  mem :: mm
  timer :: pit
  stack_top :: "nat \<Rightarrow> u32"
  frame_at :: "nat \<Rightarrow> u32"

text \<open>
  \<open>stack_top p\<close> is the address \<open>&p->kernel_stack[4096]\<close> and \<open>frame_at p\<close> the address
  \<open>p->initial_frame\<close>: link-time constants.
\<close>

definition MAX_PROCESSES :: nat where "MAX_PROCESSES = 32"
definition IDLE :: nat where "IDLE = 32"

definition upd_pcb :: "nat \<Rightarrow> (pcb \<Rightarrow> pcb) \<Rightarrow> kern \<Rightarrow> kern" where
  "upd_pcb p f k = k\<lparr>procs := (procs k)(p := f (procs k p))\<rparr>"

lemma upd_pcb_simps [simp]:
  "procs (upd_pcb p f k) = (procs k)(p := f (procs k p))"
  "current (upd_pcb p f k) = current k" "ready_head (upd_pcb p f k) = ready_head k"
  "process_count (upd_pcb p f k) = process_count k" "quantum_ticks (upd_pcb p f k) = quantum_ticks k"
  "frames (upd_pcb p f k) = frames k" "mem (upd_pcb p f k) = mem k" "timer (upd_pcb p f k) = timer k"
  "boot_cpu (upd_pcb p f k) = boot_cpu k" "stack_top (upd_pcb p f k) = stack_top k" "frame_at (upd_pcb p f k) = frame_at k"
  by (simp_all add: upd_pcb_def)

section \<open>Per-processor record\<close>

definition percpu_init :: "u32 \<Rightarrow> u32 \<Rightarrow> kern \<Rightarrow> kern" where
  "percpu_init n apic k =
     k\<lparr>boot_cpu := \<lparr>cpu_id = n, cpu_apic_id = apic, cpu_online = 1, irq_depth = 0, cpu_current = None\<rparr>\<rparr>"

definition percpu_current :: "kern \<Rightarrow> cpu_local" where
  "percpu_current k = boot_cpu k"

definition percpu_set_current :: "nat option \<Rightarrow> kern \<Rightarrow> kern" where
  "percpu_set_current p k = k\<lparr>boot_cpu := (boot_cpu k)\<lparr>cpu_current := p\<rparr>\<rparr>"

definition percpu_irq_enter :: "kern \<Rightarrow> kern" where
  "percpu_irq_enter k = k\<lparr>boot_cpu := (boot_cpu k)\<lparr>irq_depth := irq_depth (boot_cpu k) + 1\<rparr>\<rparr>"

definition percpu_irq_leave :: "kern \<Rightarrow> kern" where
  "percpu_irq_leave k =
     (if irq_depth (boot_cpu k) \<noteq> 0
      then k\<lparr>boot_cpu := (boot_cpu k)\<lparr>irq_depth := irq_depth (boot_cpu k) - 1\<rparr>\<rparr> else k)"

section \<open>The ready queue\<close>

text \<open>
  The walk to the last element. There are 33 process records, so a chain that has not ended after
  33 steps is cyclic and the loop of the code does not end: \<open>None\<close>.
\<close>

fun queue_last :: "nat \<Rightarrow> kern \<Rightarrow> nat \<Rightarrow> nat option" where
  "queue_last 0 k q = None"
| "queue_last (Suc n) k q = (case next_pcb (procs k q) of None \<Rightarrow> Some q | Some q' \<Rightarrow> queue_last n k q')"

definition enqueue :: "nat option \<Rightarrow> kern \<Rightarrow> kern option" where
  "enqueue ptr k =
     (case ptr of None \<Rightarrow> Some k
      | Some p \<Rightarrow>
        if \<not> allocated (procs k p) \<or> state (procs k p) = PROCESS_ZOMBIE \<or> c_esp (cpu_state (procs k p)) = 0 then Some k
        else (let k = upd_pcb p (\<lambda>x. x\<lparr>next_pcb := None\<rparr>) k in
          case ready_head k of None \<Rightarrow> Some (k\<lparr>ready_head := Some p\<rparr>)
          | Some q \<Rightarrow> (case queue_last 33 k q of None \<Rightarrow> None
              | Some l \<Rightarrow> Some (upd_pcb l (\<lambda>x. x\<lparr>next_pcb := Some p\<rparr>) k))))"

text \<open>
  The dequeue loop clears the link of each record it takes off, so it ends after at most one round
  more than there are records.
\<close>

fun dequeue_ready :: "nat \<Rightarrow> kern \<Rightarrow> (nat \<times> kern) option" where
  "dequeue_ready 0 k = None"
| "dequeue_ready (Suc n) k =
     (case ready_head k of None \<Rightarrow> Some (IDLE, k)
      | Some p \<Rightarrow>
        let k = upd_pcb p (\<lambda>x. x\<lparr>next_pcb := None\<rparr>) (k\<lparr>ready_head := next_pcb (procs k p)\<rparr>) in
        if allocated (procs k p) \<and> state (procs k p) = PROCESS_READY then Some (p, k)
        else dequeue_ready n k)"

definition next_ready :: "kern \<Rightarrow> (nat \<times> kern) option" where
  "next_ready k = dequeue_ready 35 k"

definition activate :: "nat \<Rightarrow> kern \<Rightarrow> kern" where
  "activate p k =
     (let k = upd_pcb p (\<lambda>x. x\<lparr>state := PROCESS_RUNNING\<rparr>) k;
          k = k\<lparr>mem := on_vm (vmm_switch_address_space (address_space (procs k p))) (mem k)\<rparr>;
          k = k\<lparr>tss_esp0 := stack_top k p, current := Some p\<rparr>;
          k = percpu_set_current (Some p) k
      in k\<lparr>fds := vfs_set_process (pid (procs k p)) (fds k)\<rparr>)"

section \<open>The scheduler\<close>

definition rr_init :: "kern \<Rightarrow> int \<times> kern" where
  "rr_init k = (0, k\<lparr>current := Some IDLE, ready_head := None\<rparr>)"

text \<open>
  Both tick functions charge the tick and, at the end of the quantum, put a running process back in
  the queue and take the next one.
\<close>

definition charge_tick :: "nat \<Rightarrow> kern \<Rightarrow> bool \<times> kern" where
  "charge_tick p k =
     (let k = upd_pcb p (\<lambda>x. x\<lparr>ticks := ticks x + 1\<rparr>) k in
      if ticks (procs k p) < quantum_ticks k then (False, k)
      else (True, upd_pcb p (\<lambda>x. x\<lparr>ticks := 0\<rparr>) k))"

definition requeue_running :: "nat \<Rightarrow> kern \<Rightarrow> kern option" where
  "requeue_running p k =
     (if p \<noteq> IDLE \<and> state (procs k p) = PROCESS_RUNNING
      then enqueue (Some p) (upd_pcb p (\<lambda>x. x\<lparr>state := PROCESS_READY\<rparr>) k) else Some k)"

text \<open>\<open>switch\<close> is the assembly routine \<open>context_switch\<close>.\<close>

definition rr_tick :: "(nat \<Rightarrow> nat \<Rightarrow> kern \<Rightarrow> kern) \<Rightarrow> kern \<Rightarrow> kern option" where
  "rr_tick switch k =
     (case current k of None \<Rightarrow> Some k
      | Some previous \<Rightarrow>
        (case charge_tick previous k of
           (False, k) \<Rightarrow> Some k
         | (True, k) \<Rightarrow>
            (case requeue_running previous k of None \<Rightarrow> None
             | Some k \<Rightarrow>
              (case next_ready k of None \<Rightarrow> None
               | Some (n, k) \<Rightarrow> if n = previous then Some k else Some (switch previous n (activate n k))))))"

definition rr_current :: "kern \<Rightarrow> nat option" where
  "rr_current k = current k"

record scheduler =
  sched_name :: string
  sched_init :: "(kern \<Rightarrow> int \<times> kern) option"
  sched_tick :: "(kern \<Rightarrow> kern option) option"
  sched_current :: "(kern \<Rightarrow> nat option) option"

definition rr :: "(nat \<Rightarrow> nat \<Rightarrow> kern \<Rightarrow> kern) \<Rightarrow> scheduler" where
  "rr switch = \<lparr>sched_name = ''round-robin'', sched_init = Some rr_init, sched_tick = Some (rr_tick switch),
     sched_current = Some rr_current\<rparr>"

definition scheduler_register :: "scheduler option \<Rightarrow> scheduler \<times> kern \<Rightarrow> int \<times> scheduler \<times> kern" where
  "scheduler_register s = (\<lambda>(r, k).
     (case s of None \<Rightarrow> (-1, r, k)
      | Some r \<Rightarrow> (case sched_init r of None \<Rightarrow> (0, r, k) | Some f \<Rightarrow> (case f k of (x, k) \<Rightarrow> (x, r, k)))))"

definition scheduler_add :: "nat option \<Rightarrow> kern \<Rightarrow> (int \<times> kern) option" where
  "scheduler_add ptr k =
     (case ptr of None \<Rightarrow> Some (-1, k)
      | Some p \<Rightarrow>
        if \<not> allocated (procs k p) \<or> c_esp (cpu_state (procs k p)) = 0 then Some (-1, k)
        else map_option (Pair 0) (enqueue ptr k))"

definition scheduler_tick :: "scheduler \<Rightarrow> kern \<Rightarrow> kern option" where
  "scheduler_tick r k = (case sched_tick r of None \<Rightarrow> Some k | Some f \<Rightarrow> f k)"

definition scheduler_current :: "scheduler \<Rightarrow> kern \<Rightarrow> nat option" where
  "scheduler_current r k = (case sched_current r of None \<Rightarrow> current k | Some f \<Rightarrow> f k)"

definition scheduler_yield :: "scheduler \<Rightarrow> kern \<Rightarrow> kern option" where
  "scheduler_yield r k =
     scheduler_tick r (case current k of None \<Rightarrow> k
       | Some p \<Rightarrow> upd_pcb p (\<lambda>x. x\<lparr>ticks := quantum_ticks k\<rparr>) k)"

definition scheduler_set_current :: "nat option \<Rightarrow> kern \<Rightarrow> kern" where
  "scheduler_set_current ptr k =
     (case ptr of None \<Rightarrow> k
      | Some p \<Rightarrow>
        let k = percpu_set_current (Some p) (k\<lparr>current := Some p\<rparr>);
            k = upd_pcb p (\<lambda>x. x\<lparr>state := PROCESS_RUNNING, interrupt_frame := 0\<rparr>) k
        in k\<lparr>fds := vfs_set_process (pid (procs k p)) (fds k)\<rparr>)"

text \<open>The frame a process starts from (\<open>kernel/process.c\<close>).\<close>

definition process_initial_frame :: "nat \<Rightarrow> kern \<Rightarrow> u32" where
  "process_initial_frame p k = (if user_mode (procs k p) then frame_at k p else stack_top k p - 60)"

definition resume_frame :: "nat \<Rightarrow> kern \<Rightarrow> u32" where
  "resume_frame n k =
     (if interrupt_frame (procs k n) \<noteq> 0 then interrupt_frame (procs k n) else process_initial_frame n k)"

section \<open>Timeouts and preemption\<close>

text \<open>
  \<open>process_poll_timeouts\<close> (\<open>kernel/process.c\<close>), over the table entries left to look at; the signed
  comparison of the deadline is the sign of the difference.
\<close>

definition timed_out :: "u32 \<Rightarrow> pcb \<Rightarrow> bool" where
  "timed_out now x \<longleftrightarrow> allocated x \<and> state x = PROCESS_BLOCKED \<and> futex_key x \<noteq> 0 \<and> futex_deadline x \<noteq> 0 \<and>
     0 \<le> sint (now - futex_deadline x)"

definition set_frame_eax :: "u32 \<Rightarrow> u32 \<Rightarrow> kern \<Rightarrow> kern" where
  "set_frame_eax f v k = (if f \<noteq> 0 then k\<lparr>frames := (frames k)(f := (frames k f)\<lparr>eax := v\<rparr>)\<rparr> else k)"

fun poll_timeouts :: "u32 \<Rightarrow> nat option \<Rightarrow> nat list \<Rightarrow> kern \<Rightarrow> kern option" where
  "poll_timeouts now running [] k = Some k"
| "poll_timeouts now running (i # is) k =
     (if timed_out now (procs k i) then
        (let k = upd_pcb i (\<lambda>x. x\<lparr>futex_key := 0, futex_expected := 0, futex_deadline := 0\<rparr>) k in
         if running = Some i then poll_timeouts now running is (upd_pcb i (\<lambda>x. x\<lparr>state := PROCESS_RUNNING\<rparr>) k)
         else (case scheduler_add (Some i) (set_frame_eax (interrupt_frame (procs k i)) (-110)
                 (upd_pcb i (\<lambda>x. x\<lparr>state := PROCESS_READY\<rparr>) k)) of
                 None \<Rightarrow> None | Some (r, k) \<Rightarrow> poll_timeouts now running is k))
      else poll_timeouts now running is k)"

definition process_poll_timeouts :: "scheduler \<Rightarrow> kern \<Rightarrow> kern option" where
  "process_poll_timeouts r k =
     poll_timeouts (timer_uptime_ms (timer k)) (scheduler_current r k) [0..<process_count k] k"

text \<open>What the timer interrupt and \<open>scheduler_block_current\<close> do with the process taken from the queue.\<close>

definition switch_to :: "u32 \<Rightarrow> nat \<Rightarrow> kern \<Rightarrow> u32 \<times> kern" where
  "switch_to r n k = (let k = activate n k in (resume_frame n k, k))"

definition scheduler_timer_tick :: "scheduler \<Rightarrow> u32 \<Rightarrow> kern \<Rightarrow> (u32 \<times> kern) option" where
  "scheduler_timer_tick sched r k =
     (case process_poll_timeouts sched k of None \<Rightarrow> None
      | Some k \<Rightarrow>
       (case current k of None \<Rightarrow> Some (r, k)
        | Some previous \<Rightarrow>
          (case charge_tick previous (upd_pcb previous (\<lambda>x. x\<lparr>interrupt_frame := r\<rparr>) k) of
             (False, k) \<Rightarrow> Some (r, k)
           | (True, k) \<Rightarrow>
              (case requeue_running previous k of None \<Rightarrow> None
               | Some k \<Rightarrow>
                (case next_ready k of None \<Rightarrow> None
                 | Some (n, k) \<Rightarrow>
                    if n = previous then Some (r, k)
                    else if n = IDLE then
                      (let k = (if previous \<noteq> IDLE \<and> state (procs k previous) = PROCESS_READY
                                then upd_pcb previous (\<lambda>x. x\<lparr>state := PROCESS_RUNNING\<rparr>) k else k)
                       in Some (r, k\<lparr>current := if state (procs k previous) = PROCESS_RUNNING then Some previous else Some IDLE\<rparr>))
                    else Some (switch_to r n k))))))"

definition switch_from_current :: "u32 \<Rightarrow> kern \<Rightarrow> (u32 \<times> kern) option" where
  "switch_from_current r k =
     (case current k of None \<Rightarrow> Some (r, k)
      | Some previous \<Rightarrow>
        (let k = upd_pcb previous (\<lambda>x. x\<lparr>interrupt_frame := r\<rparr>) k;
             k = (if state (procs k previous) = PROCESS_RUNNING
                  then upd_pcb previous (\<lambda>x. x\<lparr>state := PROCESS_BLOCKED\<rparr>) k else k)
         in case next_ready k of None \<Rightarrow> None
          | Some (n, k) \<Rightarrow>
             if n = IDLE then
               (let k = (if previous \<noteq> IDLE \<and> state (procs k previous) \<noteq> PROCESS_BLOCKED \<and>
                            state (procs k previous) \<noteq> PROCESS_ZOMBIE
                         then upd_pcb previous (\<lambda>x. x\<lparr>state := PROCESS_RUNNING\<rparr>) k else k)
                in Some (r, k\<lparr>current := if state (procs k previous) = PROCESS_RUNNING then Some previous else Some IDLE\<rparr>))
             else Some (switch_to r n k)))"

definition scheduler_block_current :: "u32 \<Rightarrow> kern \<Rightarrow> (u32 \<times> kern) option" where
  "scheduler_block_current r k = switch_from_current r k"

end
