(* ===== verification/Sched_Props.thy ===== *)
theory Sched_Props
  imports Sched
begin

text \<open>
  The linked ready queue refines a list; the timer interrupt rotates the running process and the
  ready processes; and what happens to a process that runs alone.
\<close>

section \<open>The queue as a list\<close>

fun chain :: "(nat \<Rightarrow> pcb) \<Rightarrow> nat option \<Rightarrow> nat list \<Rightarrow> bool" where
  "chain ps h [] \<longleftrightarrow> h = None"
| "chain ps h (x # xs) \<longleftrightarrow> h = Some x \<and> chain ps (next_pcb (ps x)) xs"

definition ready_list :: "kern \<Rightarrow> nat list \<Rightarrow> bool" where
  "ready_list k xs \<longleftrightarrow> chain (procs k) (ready_head k) xs \<and> distinct xs \<and> set xs \<subseteq> {..<32}"

text \<open>The kernel state without the links of the queue.\<close>

definition strip :: "kern \<Rightarrow> kern" where
  "strip k = k\<lparr>ready_head := None, procs := \<lambda>p. (procs k p)\<lparr>next_pcb := None\<rparr>\<rparr>"

lemma strip_fields:
  assumes "strip k' = strip k"
  shows "(procs k' p)\<lparr>next_pcb := None\<rparr> = (procs k p)\<lparr>next_pcb := None\<rparr>"
    "current k' = current k" "process_count k' = process_count k" "quantum_ticks k' = quantum_ticks k"
    "frames k' = frames k" "mem k' = mem k" "timer k' = timer k" "boot_cpu k' = boot_cpu k"
    "stack_top k' = stack_top k" "frame_at k' = frame_at k"
proof -
  have "procs (strip k') p = procs (strip k) p" using assms by simp
  then show "(procs k' p)\<lparr>next_pcb := None\<rparr> = (procs k p)\<lparr>next_pcb := None\<rparr>" by (simp add: strip_def)
  have "current (strip k') = current (strip k)" "process_count (strip k') = process_count (strip k)"
    "quantum_ticks (strip k') = quantum_ticks (strip k)" "frames (strip k') = frames (strip k)"
    "mem (strip k') = mem (strip k)" "timer (strip k') = timer (strip k)" "boot_cpu (strip k') = boot_cpu (strip k)"
    "stack_top (strip k') = stack_top (strip k)" "frame_at (strip k') = frame_at (strip k)"
    using assms by simp_all
  then show "current k' = current k" "process_count k' = process_count k" "quantum_ticks k' = quantum_ticks k"
    "frames k' = frames k" "mem k' = mem k" "timer k' = timer k" "boot_cpu k' = boot_cpu k"
    "stack_top k' = stack_top k" "frame_at k' = frame_at k"
    by (simp_all add: strip_def)
qed

lemma pcb_eq_fields:
  assumes "x\<lparr>next_pcb := None\<rparr> = y\<lparr>next_pcb := None\<rparr>"
  shows "pid x = pid y" "state x = state y" "ticks x = ticks y" "allocated x = allocated y" "cpu_state x = cpu_state y"
    "interrupt_frame x = interrupt_frame y" "futex_key x = futex_key y" "futex_deadline x = futex_deadline y"
    "user_mode x = user_mode y" "address_space x = address_space y" "parent_pid x = parent_pid y"
    "generation x = generation y" "exit_code x = exit_code y" "wait_for_pid x = wait_for_pid y"
    "signal_active x = signal_active y" "pending_signals x = pending_signals y"
proof -
  have "pid (x\<lparr>next_pcb := None\<rparr>) = pid (y\<lparr>next_pcb := None\<rparr>)" "state (x\<lparr>next_pcb := None\<rparr>) = state (y\<lparr>next_pcb := None\<rparr>)"
    "ticks (x\<lparr>next_pcb := None\<rparr>) = ticks (y\<lparr>next_pcb := None\<rparr>)" "allocated (x\<lparr>next_pcb := None\<rparr>) = allocated (y\<lparr>next_pcb := None\<rparr>)"
    "cpu_state (x\<lparr>next_pcb := None\<rparr>) = cpu_state (y\<lparr>next_pcb := None\<rparr>)" "interrupt_frame (x\<lparr>next_pcb := None\<rparr>) = interrupt_frame (y\<lparr>next_pcb := None\<rparr>)"
    "futex_key (x\<lparr>next_pcb := None\<rparr>) = futex_key (y\<lparr>next_pcb := None\<rparr>)" "futex_deadline (x\<lparr>next_pcb := None\<rparr>) = futex_deadline (y\<lparr>next_pcb := None\<rparr>)"
    "user_mode (x\<lparr>next_pcb := None\<rparr>) = user_mode (y\<lparr>next_pcb := None\<rparr>)" "address_space (x\<lparr>next_pcb := None\<rparr>) = address_space (y\<lparr>next_pcb := None\<rparr>)"
    "parent_pid (x\<lparr>next_pcb := None\<rparr>) = parent_pid (y\<lparr>next_pcb := None\<rparr>)" "generation (x\<lparr>next_pcb := None\<rparr>) = generation (y\<lparr>next_pcb := None\<rparr>)"
    "exit_code (x\<lparr>next_pcb := None\<rparr>) = exit_code (y\<lparr>next_pcb := None\<rparr>)" "wait_for_pid (x\<lparr>next_pcb := None\<rparr>) = wait_for_pid (y\<lparr>next_pcb := None\<rparr>)"
    "signal_active (x\<lparr>next_pcb := None\<rparr>) = signal_active (y\<lparr>next_pcb := None\<rparr>)" "pending_signals (x\<lparr>next_pcb := None\<rparr>) = pending_signals (y\<lparr>next_pcb := None\<rparr>)"
    using assms by simp_all
  then show "pid x = pid y" "state x = state y" "ticks x = ticks y" "allocated x = allocated y" "cpu_state x = cpu_state y"
    "interrupt_frame x = interrupt_frame y" "futex_key x = futex_key y" "futex_deadline x = futex_deadline y"
    "user_mode x = user_mode y" "address_space x = address_space y" "parent_pid x = parent_pid y"
    "generation x = generation y" "exit_code x = exit_code y" "wait_for_pid x = wait_for_pid y"
    "signal_active x = signal_active y" "pending_signals x = pending_signals y"
    by simp_all
qed

lemma strip_pcb:
  assumes "strip k' = strip k"
  shows "state (procs k' p) = state (procs k p)" "ticks (procs k' p) = ticks (procs k p)"
    "allocated (procs k' p) = allocated (procs k p)" "cpu_state (procs k' p) = cpu_state (procs k p)"
    "pid (procs k' p) = pid (procs k p)" "futex_key (procs k' p) = futex_key (procs k p)"
    "futex_deadline (procs k' p) = futex_deadline (procs k p)"
  using pcb_eq_fields [OF strip_fields(1) [OF assms, of p]] by simp_all

lemma strip_links [simp]:
  "strip (upd_pcb p (\<lambda>x. x\<lparr>next_pcb := h\<rparr>) k) = strip k" "strip (k\<lparr>ready_head := h\<rparr>) = strip k"
  by (auto simp: strip_def upd_pcb_def fun_eq_iff)

lemma chain_upd: "p \<notin> set xs \<Longrightarrow> chain (ps(p := y)) h xs = chain ps h xs"
  by (induction xs arbitrary: h) auto

lemma chain_snoc:
  assumes "chain ps h xs" "xs \<noteq> []" "distinct xs" "p \<notin> set xs" "next_pcb (ps p) = None"
  shows "chain (ps(last xs := (ps (last xs))\<lparr>next_pcb := Some p\<rparr>)) h (xs @ [p])"
  using assms
proof (induction xs arbitrary: h)
  case (Cons x xs)
  show ?case
  proof (cases xs)
    case Nil
    then show ?thesis using Cons.prems by auto
  next
    case (Cons y ys)
    then have "last xs \<noteq> x" using Cons.prems(3) by (metis distinct.simps(2) last_in_set list.discI)
    then show ?thesis using Cons.IH Cons.prems \<open>xs = y # ys\<close> by simp
  qed
qed simp

lemma queue_last_chain:
  "chain (procs k) (Some q) xs \<Longrightarrow> length xs \<le> n \<Longrightarrow> queue_last n k q = Some (last xs)"
proof (induction n arbitrary: q xs)
  case (Suc n)
  then obtain ys where xs: "xs = q # ys" "chain (procs k) (next_pcb (procs k q)) ys"
    by (cases xs) auto
  show ?case using xs Suc.IH [of _ ys] Suc.prems(2) by (cases ys) auto
qed (cases xs; simp)

lemma ready_list_length: "ready_list k xs \<Longrightarrow> length xs \<le> 32"
  using card_mono [of "{..<32}" "set xs"] by (simp add: ready_list_def distinct_card)

lemma enqueue_list:
  assumes q: "ready_list k xs" and p: "p < 32" "p \<notin> set xs"
    and ok: "allocated (procs k p)" "state (procs k p) \<noteq> PROCESS_ZOMBIE" "c_esp (cpu_state (procs k p)) \<noteq> 0"
  obtains k' where "enqueue (Some p) k = Some k'" "ready_list k' (xs @ [p])" "strip k' = strip k"
proof -
  define k1 where "k1 = upd_pcb p (\<lambda>x. x\<lparr>next_pcb := None\<rparr>) k"
  have c1: "chain (procs k1) (ready_head k1) xs"
    using q p(2) by (simp add: ready_list_def k1_def chain_upd)
  have s1: "strip k1 = strip k" and n1: "next_pcb (procs k1 p) = None" by (simp_all add: k1_def)
  show thesis
  proof (cases "xs = []")
    case True
    let ?k = "k1\<lparr>ready_head := Some p\<rparr>"
    have "enqueue (Some p) k = Some ?k"
      using ok c1 True by (simp add: enqueue_def Let_def k1_def)
    moreover have "ready_list ?k (xs @ [p])" using True p(1) n1 by (simp add: ready_list_def)
    ultimately show thesis by (rule that) (simp add: s1)
  next
    case False
    then obtain q' where h: "ready_head k1 = Some q'" using c1 by (cases xs) auto
    then have l: "queue_last 33 k1 q' = Some (last xs)"
      using queue_last_chain [of k1 q' xs 33] c1 ready_list_length [OF q] by simp
    let ?k = "upd_pcb (last xs) (\<lambda>x. x\<lparr>next_pcb := Some p\<rparr>) k1"
    have "enqueue (Some p) k = Some ?k"
      unfolding enqueue_def Let_def k1_def [symmetric] using ok h l by (simp add: k1_def)
    moreover have "ready_list ?k (xs @ [p])"
      using chain_snoc [OF c1 False _ p(2) n1] q p by (auto simp: ready_list_def)
    ultimately show thesis by (rule that) (simp add: s1)
  qed
qed

definition is_ready :: "kern \<Rightarrow> nat \<Rightarrow> bool" where
  "is_ready k p \<longleftrightarrow> allocated (procs k p) \<and> state (procs k p) = PROCESS_READY"

lemma is_ready_strip: "strip k' = strip k \<Longrightarrow> is_ready k' p = is_ready k p"
  using strip_pcb [of k' k p] by (simp add: is_ready_def)

definition first_ready :: "kern \<Rightarrow> nat list \<Rightarrow> nat \<times> nat list" where
  "first_ready k xs = (case dropWhile (\<lambda>x. \<not> is_ready k x) xs of [] \<Rightarrow> (IDLE, []) | y # ys \<Rightarrow> (y, ys))"

lemma dequeue_ready_list:
  "ready_list k xs \<Longrightarrow> length xs < n \<Longrightarrow>
   \<exists>k'. dequeue_ready n k = Some (fst (first_ready k xs), k') \<and> ready_list k' (snd (first_ready k xs)) \<and> strip k' = strip k"
proof (induction n arbitrary: k xs)
  case (Suc n)
  show ?case
  proof (cases xs)
    case Nil
    then show ?thesis using Suc.prems(1) by (auto simp: ready_list_def first_ready_def)
  next
    case (Cons x ys)
    let ?k = "upd_pcb x (\<lambda>y. y\<lparr>next_pcb := None\<rparr>) (k\<lparr>ready_head := next_pcb (procs k x)\<rparr>)"
    have h: "ready_head k = Some x" using Suc.prems(1) Cons by (simp add: ready_list_def)
    have q: "ready_list ?k ys" using Suc.prems(1) Cons by (simp add: ready_list_def chain_upd)
    have s: "strip ?k = strip k" by simp
    have r: "allocated (procs ?k x) \<and> state (procs ?k x) = PROCESS_READY \<longleftrightarrow> is_ready k x" by (simp add: is_ready_def)
    show ?thesis
    proof (cases "is_ready k x")
      case True
      then show ?thesis using q r by (simp add: h Let_def Cons first_ready_def del: strip_links) (use s in simp)
    next
      case False
      have eq: "first_ready ?k ys = first_ready k xs"
        using False by (simp add: first_ready_def Cons is_ready_strip [OF s])
      obtain k' where "dequeue_ready n ?k = Some (fst (first_ready ?k ys), k')" "ready_list k' (snd (first_ready ?k ys))" "strip k' = strip ?k"
        using Suc.IH [OF q] Suc.prems(2) Cons by auto
      then show ?thesis using False r eq s by (auto simp: h Let_def simp del: strip_links)
    qed
  qed
qed simp

lemma next_ready_list:
  assumes "ready_list k xs"
  obtains k' where "next_ready k = Some (fst (first_ready k xs), k')" "ready_list k' (snd (first_ready k xs))" "strip k' = strip k"
  using dequeue_ready_list [OF assms, of 35] ready_list_length [OF assms] by (auto simp: next_ready_def)

lemma chain_cong: "(\<And>p. next_pcb (ps' p) = next_pcb (ps p)) \<Longrightarrow> chain ps' h xs = chain ps h xs"
  by (induction xs arbitrary: h) auto

lemma ready_list_cong:
  "(\<And>p. next_pcb (procs k' p) = next_pcb (procs k p)) \<Longrightarrow> ready_head k' = ready_head k \<Longrightarrow> ready_list k' xs = ready_list k xs"
  using chain_cong [of "procs k'" "procs k"] by (simp add: ready_list_def)

section \<open>Rotation\<close>

lemma poll_timeouts_none:
  "(\<And>i. i \<in> set is \<Longrightarrow> \<not> timed_out now (procs k i)) \<Longrightarrow> poll_timeouts now running is k = Some k"
  by (induction "is") simp_all

definition no_deadlines :: "kern \<Rightarrow> bool" where
  "no_deadlines k \<longleftrightarrow> (\<forall>i < process_count k. \<not> (state (procs k i) = PROCESS_BLOCKED \<and> futex_deadline (procs k i) \<noteq> 0))"

lemma poll_no_deadlines: "no_deadlines k \<Longrightarrow> process_poll_timeouts sched k = Some k"
  unfolding process_poll_timeouts_def no_deadlines_def
  by (rule poll_timeouts_none) (auto simp: timed_out_def)

text \<open>A process that the scheduler can run, with a count of ticks that the next one does not wrap.\<close>

definition runnable :: "kern \<Rightarrow> nat \<Rightarrow> bool" where
  "runnable k p \<longleftrightarrow> allocated (procs k p) \<and> c_esp (cpu_state (procs k p)) \<noteq> 0 \<and> ticks (procs k p) + 1 \<noteq> 0"

text \<open>Process \<open>p\<close>, not the idle one, runs and is marked as running; the processes \<open>xs\<close> are ready and the queue
  holds them in this order and no others; the quantum is one tick, and no blocked process waits for a deadline.\<close>

definition running_ring :: "kern \<Rightarrow> nat \<Rightarrow> nat list \<Rightarrow> bool" where
  "running_ring k p xs \<longleftrightarrow> current k = Some p \<and> p < 32 \<and> p \<notin> set xs \<and> ready_list k xs \<and> quantum_ticks k = 1 \<and>
     (\<forall>x \<in> set (p # xs). runnable k x) \<and> state (procs k p) = PROCESS_RUNNING \<and>
     (\<forall>x \<in> set xs. state (procs k x) = PROCESS_READY) \<and> no_deadlines k"

text \<open>The same with the idle process on the processor.\<close>

definition idle_ring :: "kern \<Rightarrow> nat list \<Rightarrow> bool" where
  "idle_ring k xs \<longleftrightarrow> current k = Some IDLE \<and> ticks (procs k IDLE) + 1 \<noteq> 0 \<and> ready_list k xs \<and> quantum_ticks k = 1 \<and>
     (\<forall>x \<in> set xs. runnable k x \<and> state (procs k x) = PROCESS_READY) \<and> no_deadlines k"

definition tick_charged :: "nat \<Rightarrow> u32 \<Rightarrow> u32 \<Rightarrow> kern \<Rightarrow> kern" where
  "tick_charged p r st k = upd_pcb p (\<lambda>x. x\<lparr>interrupt_frame := r, ticks := 0, state := st\<rparr>) k"

lemma charge_tick_ring:
  "quantum_ticks k = 1 \<Longrightarrow> ticks (procs k p) + 1 \<noteq> 0 \<Longrightarrow>
   charge_tick p (upd_pcb p (\<lambda>x. x\<lparr>interrupt_frame := r\<rparr>) k) = (True, tick_charged p r (state (procs k p)) k)"
  by (simp add: charge_tick_def tick_charged_def upd_pcb_def word_less_1)

lemma tick_requeues:
  assumes ring: "running_ring k p xs"
  obtains k3 where "requeue_running p (tick_charged p r (state (procs k p)) k) = Some k3"
    "ready_list k3 (xs @ [p])" "strip k3 = strip (tick_charged p r PROCESS_READY k)"
proof -
  let ?k = "tick_charged p r PROCESS_READY k"
  have upd: "upd_pcb p (\<lambda>x. x\<lparr>state := PROCESS_READY\<rparr>) (tick_charged p r st k) = ?k" for st
    by (simp add: tick_charged_def upd_pcb_def)
  have st: "state (procs (tick_charged p r PROCESS_RUNNING k) p) = PROCESS_RUNNING" by (simp add: tick_charged_def)
  have p: "p \<noteq> IDLE" "state (procs k p) = PROCESS_RUNNING" "p < 32" "p \<notin> set xs"
    using ring by (simp_all add: running_ring_def IDLE_def)
  have q: "ready_list ?k xs"
    using ring ready_list_cong [of ?k k xs] by (simp add: running_ring_def tick_charged_def)
  have ok: "allocated (procs ?k p)" "state (procs ?k p) \<noteq> PROCESS_ZOMBIE" "c_esp (cpu_state (procs ?k p)) \<noteq> 0"
    using ring by (simp_all add: running_ring_def runnable_def tick_charged_def process_states)
  obtain k3 where "enqueue (Some p) ?k = Some k3" "ready_list k3 (xs @ [p])" "strip k3 = strip ?k"
    by (rule enqueue_list [OF q p(3,4) ok])
  then show thesis using p by (intro that [of k3]) (simp_all add: requeue_running_def upd st)
qed

lemma activate_fields:
  "next_pcb (procs (activate n k) q) = next_pcb (procs k q)"
  "ready_head (activate n k) = ready_head k" "current (activate n k) = Some n"
  "quantum_ticks (activate n k) = quantum_ticks k" "process_count (activate n k) = process_count k"
  "allocated (procs (activate n k) q) = allocated (procs k q)" "cpu_state (procs (activate n k) q) = cpu_state (procs k q)"
  "ticks (procs (activate n k) q) = ticks (procs k q)" "futex_deadline (procs (activate n k) q) = futex_deadline (procs k q)"
  "state (procs (activate n k) q) = (if q = n then PROCESS_RUNNING else state (procs k q))"
  by (simp_all add: activate_def Let_def percpu_set_current_def)

lemma tick_rotates:
  assumes ring: "running_ring k p (x # xs)"
  obtains r' k' where "scheduler_timer_tick (rr switch) r k = Some (r', k')" "running_ring k' x (xs @ [p])"
proof -
  let ?c = "tick_charged p r PROCESS_READY k"
  obtain k3 where k3: "requeue_running p (tick_charged p r (state (procs k p)) k) = Some k3"
    "ready_list k3 ((x # xs) @ [p])" "strip k3 = strip ?c"
    by (rule tick_requeues [OF ring])
  have x: "x < 32" "x \<noteq> p" "x \<notin> set xs" "allocated (procs k x)" "state (procs k x) = PROCESS_READY"
    using ring by (auto simp: running_ring_def runnable_def ready_list_def)
  have "is_ready k3 x"
    using x unfolding is_ready_strip [OF k3(3)] by (simp add: is_ready_def tick_charged_def)
  then have fr: "first_ready k3 ((x # xs) @ [p]) = (x, xs @ [p])" by (simp add: first_ready_def)
  obtain k4 where k4: "next_ready k3 = Some (x, k4)" "ready_list k4 (xs @ [p])" "strip k4 = strip k3"
    using next_ready_list [OF k3(2)] by (metis fr fst_conv snd_conv)
  have s4: "strip k4 = strip ?c" using k4(3) k3(3) by simp
  have f: "state (procs k4 q) = state (procs ?c q)" "ticks (procs k4 q) = ticks (procs ?c q)"
    "allocated (procs k4 q) = allocated (procs ?c q)" "cpu_state (procs k4 q) = cpu_state (procs ?c q)"
    "futex_deadline (procs k4 q) = futex_deadline (procs ?c q)" for q
    using strip_pcb [OF s4, of q] by simp_all
  have tick: "scheduler_timer_tick (rr switch) r k = Some (switch_to r x k4)"
    using ring x charge_tick_ring [of k p r] k3(1) k4(1)
    by (simp add: scheduler_timer_tick_def poll_no_deadlines running_ring_def runnable_def IDLE_def)
  have "running_ring (activate x k4) x (xs @ [p])"
    using ring x k4(2) ready_list_cong [of "activate x k4" k4 "xs @ [p]"] strip_fields [OF s4]
    by (auto simp: running_ring_def activate_fields runnable_def f no_deadlines_def tick_charged_def process_states)
  then show thesis using tick by (intro that) (simp_all add: switch_to_def Let_def)
qed

lemma idle_tick:
  assumes ring: "idle_ring k (x # xs)"
  obtains r' k' where "scheduler_timer_tick (rr switch) r k = Some (r', k')" "running_ring k' x xs"
proof -
  define c where "c = tick_charged IDLE r (state (procs k IDLE)) k"
  have x: "x < 32" "x \<notin> set xs" "\<And>y. y \<in> set (x # xs) \<Longrightarrow> y \<noteq> IDLE" "state (procs k x) = PROCESS_READY" "allocated (procs k x)"
    using ring by (auto simp: idle_ring_def runnable_def ready_list_def IDLE_def)
  have q: "ready_list c (x # xs)"
    using ring ready_list_cong [of c k "x # xs"] by (simp add: idle_ring_def c_def tick_charged_def)
  have "is_ready c x" using x by (simp add: is_ready_def c_def tick_charged_def)
  then have fr: "first_ready c (x # xs) = (x, xs)" by (simp add: first_ready_def)
  obtain k4 where k4: "next_ready c = Some (x, k4)" "ready_list k4 xs" "strip k4 = strip c"
    using next_ready_list [OF q] by (metis fr fst_conv snd_conv)
  have f: "state (procs k4 q) = state (procs c q)" "ticks (procs k4 q) = ticks (procs c q)"
    "allocated (procs k4 q) = allocated (procs c q)" "cpu_state (procs k4 q) = cpu_state (procs c q)"
    "futex_deadline (procs k4 q) = futex_deadline (procs c q)" for q
    using strip_pcb [OF k4(3), of q] by simp_all
  have tick: "scheduler_timer_tick (rr switch) r k = Some (switch_to r x k4)"
    using ring x charge_tick_ring [of k IDLE r] k4(1)
    by (simp add: scheduler_timer_tick_def poll_no_deadlines idle_ring_def requeue_running_def c_def)
  have "runnable (activate x k4) y" "y \<noteq> x \<Longrightarrow> state (procs (activate x k4) y) = PROCESS_READY" if "y \<in> set (x # xs)" for y
    using ring that x(3) [OF that] by (auto simp: idle_ring_def activate_fields runnable_def f c_def tick_charged_def)
  moreover have "no_deadlines (activate x k4)" "quantum_ticks (activate x k4) = 1"
    using ring strip_fields [OF k4(3)]
    by (auto simp: idle_ring_def activate_fields f no_deadlines_def c_def tick_charged_def process_states)
  ultimately have "running_ring (activate x k4) x xs"
    using x(1,2) k4(2) ready_list_cong [of "activate x k4" k4 xs]
    by (auto simp: running_ring_def activate_fields)
  then show thesis using tick by (intro that) (simp_all add: switch_to_def Let_def)
qed

text \<open>Successive timer interrupts, each with the frame of the interrupted process.\<close>

fun timer_ticks :: "scheduler \<Rightarrow> u32 list \<Rightarrow> kern \<Rightarrow> kern option" where
  "timer_ticks sched [] k = Some k"
| "timer_ticks sched (r # rs) k =
     (case scheduler_timer_tick sched r k of None \<Rightarrow> None | Some (r', k) \<Rightarrow> timer_ticks sched rs k)"

lemma timer_ticks_rotate:
  "running_ring k p xs \<Longrightarrow> xs \<noteq> [] \<Longrightarrow>
   \<exists>k'. timer_ticks (rr switch) rs k = Some k' \<and>
     running_ring k' (hd (rotate (length rs) (p # xs))) (tl (rotate (length rs) (p # xs)))"
proof (induction rs arbitrary: k p xs)
  case (Cons r rs)
  obtain x ys where xs: "xs = x # ys" using Cons.prems(2) by (cases xs) auto
  obtain r' k1 where k1: "scheduler_timer_tick (rr switch) r k = Some (r', k1)" "running_ring k1 x (ys @ [p])"
    by (rule tick_rotates [OF Cons.prems(1) [unfolded xs]])
  have "rotate (length (r # rs)) (p # xs) = rotate (length rs) (x # ys @ [p])"
    using rotate_rotate [of "length rs" 1 "p # xs"] by (simp add: xs rotate1_def)
  then show ?case using Cons.IH [OF k1(2)] k1(1) by simp
qed simp

lemma ring_reaches_any:
  assumes "q \<in> set (p # xs)"
  obtains n where "n \<le> length xs" "\<And>k rs. running_ring k p xs \<Longrightarrow> length rs = n \<Longrightarrow>
    \<exists>k' ys. timer_ticks (rr switch) rs k = Some k' \<and> current k' = Some q \<and> running_ring k' q ys \<and> set (q # ys) = set (p # xs)"
    "q \<noteq> p \<Longrightarrow> 0 < n"
proof -
  obtain i where i: "i < Suc (length xs)" "(p # xs) ! i = q" using assms by (metis in_set_conv_nth length_Cons)
  have hd: "hd (rotate i (p # xs)) = q" using i hd_rotate_conv_nth [of "p # xs" i] by simp
  have "\<exists>k' ys. timer_ticks (rr switch) rs k = Some k' \<and> current k' = Some q \<and> running_ring k' q ys \<and> set (q # ys) = set (p # xs)"
    if ring: "running_ring k p xs" and rs: "length rs = i" for k rs
  proof (cases "i = 0")
    case True
    then show ?thesis using ring rs i by (auto simp: running_ring_def)
  next
    case False
    then have ne: "xs \<noteq> []" using i by auto
    obtain k' where k': "timer_ticks (rr switch) rs k = Some k'" "running_ring k' q (tl (rotate i (p # xs)))"
      using timer_ticks_rotate [OF ring ne, of switch rs] rs hd by auto
    have "rotate i (p # xs) \<noteq> []" by simp
    then have "q # tl (rotate i (p # xs)) = rotate i (p # xs)" using hd by (metis list.collapse)
    then have "set (q # tl (rotate i (p # xs))) = set (p # xs)" by (metis set_rotate)
    moreover have "current k' = Some q" using k'(2) by (simp add: running_ring_def)
    ultimately show ?thesis using k' by blast
  qed
  moreover have "q \<noteq> p \<Longrightarrow> 0 < i" using i by (cases i) simp_all
  ultimately show thesis using i by (intro that [of i]) auto
qed

lemma ring_reaches:
  assumes "running_ring k p xs" "q \<in> set xs"
  obtains n where "0 < n" "n \<le> length xs" "\<And>rs. length rs = n \<Longrightarrow>
    \<exists>k' ys. timer_ticks (rr switch) rs k = Some k' \<and> current k' = Some q \<and> running_ring k' q ys \<and> set (q # ys) = set (p # xs)"
proof -
  have q: "q \<in> set (p # xs)" "q \<noteq> p" using assms by (auto simp: running_ring_def)
  obtain n where "n \<le> length xs" "\<And>k rs. running_ring k p xs \<Longrightarrow> length rs = n \<Longrightarrow>
    \<exists>k' ys. timer_ticks (rr switch) rs k = Some k' \<and> current k' = Some q \<and> running_ring k' q ys \<and> set (q # ys) = set (p # xs)"
    "q \<noteq> p \<Longrightarrow> 0 < n"
    by (rule ring_reaches_any [OF q(1), where switch = switch]) (rule that)
  then show thesis using q(2) assms(1) by (intro that [of n]) auto
qed

section \<open>A process alone\<close>

lemma lone_tick:
  assumes ring: "running_ring k p []"
  obtains k' where "scheduler_timer_tick (rr switch) r k = Some (r, k')" "ready_list k' []"
    "strip k' = strip (tick_charged p r PROCESS_READY k)"
proof -
  let ?c = "tick_charged p r PROCESS_READY k"
  obtain k3 where k3: "requeue_running p (tick_charged p r (state (procs k p)) k) = Some k3"
    "ready_list k3 ([] @ [p])" "strip k3 = strip ?c"
    by (rule tick_requeues [OF ring])
  have "is_ready k3 p"
    using ring unfolding is_ready_strip [OF k3(3)] by (simp add: is_ready_def tick_charged_def running_ring_def runnable_def)
  then have fr: "first_ready k3 ([] @ [p]) = (p, [])" by (simp add: first_ready_def)
  obtain k4 where k4: "next_ready k3 = Some (p, k4)" "ready_list k4 []" "strip k4 = strip k3"
    using next_ready_list [OF k3(2)] by (metis fr fst_conv snd_conv)
  have "scheduler_timer_tick (rr switch) r k = Some (r, k4)"
    using ring charge_tick_ring [of k p r] k3(1) k4(1)
    by (simp add: scheduler_timer_tick_def poll_no_deadlines running_ring_def runnable_def)
  then show thesis using k4 k3 by (intro that [of k4]) simp_all
qed

section \<open>Properties\<close>

text \<open>C27: The ready queue, linked through the process records, implements a list: adding a runnable process
  that is not queued appends it, and taking the next one skips processes that are no longer ready and
  removes the first that is (the idle process when there is none). Nothing but the links changes, and both
  walks of the linked structure end.\<close>

theorem ready_queue_refines_list:
  assumes "ready_list k xs"
  shows "(\<forall>p. p < 32 \<and> p \<notin> set xs \<and> allocated (procs k p) \<and> state (procs k p) \<noteq> PROCESS_ZOMBIE \<and>
        c_esp (cpu_state (procs k p)) \<noteq> 0 \<longrightarrow>
        (\<exists>k'. enqueue (Some p) k = Some k' \<and> ready_list k' (xs @ [p]) \<and> strip k' = strip k)) \<and>
    (\<exists>k'. next_ready k = Some (fst (first_ready k xs), k') \<and> ready_list k' (snd (first_ready k xs)) \<and> strip k' = strip k)"
proof (intro conjI allI impI)
  fix p
  assume p: "p < 32 \<and> p \<notin> set xs \<and> allocated (procs k p) \<and> state (procs k p) \<noteq> PROCESS_ZOMBIE \<and>
    c_esp (cpu_state (procs k p)) \<noteq> 0"
  then obtain k' where "enqueue (Some p) k = Some k'" "ready_list k' (xs @ [p])" "strip k' = strip k"
    using enqueue_list [OF assms] by metis
  then show "\<exists>k'. enqueue (Some p) k = Some k' \<and> ready_list k' (xs @ [p]) \<and> strip k' = strip k" by blast
next
  obtain k' where "next_ready k = Some (fst (first_ready k xs), k')" "ready_list k' (snd (first_ready k xs))" "strip k' = strip k"
    by (rule next_ready_list [OF assms])
  then show "\<exists>k'. next_ready k = Some (fst (first_ready k xs), k') \<and> ready_list k' (snd (first_ready k xs)) \<and> strip k' = strip k"
    by blast
qed

definition pcb_example :: pcb where
  "pcb_example = \<lparr>pid = 0, state = PROCESS_READY, ticks = 0, pcb_name = [],
     cpu_state = \<lparr>c_eax = 0, c_ebx = 0, c_ecx = 0, c_edx = 0, c_esi = 0, c_edi = 0, c_ebp = 0, c_esp = 0x1000, c_eip = 0, c_eflags = 0\<rparr>,
     next_pcb = None, entry_point = 0, user_stack = 0, user_mode = False, address_space = None, parent_pid = 0,
     exit_code = 0, wait_for_pid = 0, wait_status_ptr = 0, wait_status = 0,
     credentials = \<lparr>uid = 0, gid = 0, euid = 0, egid = 0, capabilities = 0\<rparr>,
     pending_signals = 0, signal_mask = 0, futex_key = 0, futex_expected = 0, started = False, interrupt_frame = 0,
     allocated = True, generation = 1, signal_handlers = (\<lambda>_. 0),
     signal_saved_frame = \<lparr>edi = 0, esi = 0, ebp = 0, esp = 0, ebx = 0, edx = 0, ecx = 0, eax = 0, int_no = 0, err_code = 0,
       eip = 0, cs = 0, eflags = 0, useresp = 0, ss = 0\<rparr>,
     signal_active = False, futex_deadline = 0\<rparr>"

text \<open>Process 0 runs, processes 1 and 2 are queued.\<close>

definition kern_example :: kern where
  "kern_example =
     \<lparr>procs = (\<lambda>p. pcb_example)(0 := pcb_example\<lparr>state := PROCESS_RUNNING\<rparr>, 1 := pcb_example\<lparr>next_pcb := Some 2\<rparr>),
      process_count = 3, current = Some 0, ready_head = Some 1, quantum_ticks = 1,
      frames = (\<lambda>_. signal_saved_frame pcb_example),
      boot_cpu = \<lparr>cpu_id = 0, cpu_apic_id = 0, cpu_online = 1, irq_depth = 0, cpu_current = None\<rparr>,
      tss_esp0 = 0, fds = \<lparr>files = (\<lambda>_ _. \<lparr>vf_name = None, vf_flags = 0, vf_position = 0, vf_kind = 0, vf_fat = \<lparr>first_cluster = 0, file_size = 0, file_position = 0, directory = 0\<rparr>\<rparr>), vfs_sector = (\<lambda>_. 0), active_pid = 1\<rparr>, mem = mm_booted, timer = \<lparr>uptime_ticks = 0, timer_hz = 100\<rparr>,
      stack_top = (\<lambda>p. 0x100000 + of_nat p * 0x2000), frame_at = (\<lambda>p. 0x200000 + of_nat p * 0x100)\<rparr>"

lemma kern_example_ring: "running_ring kern_example 0 [1, 2]"
  by (simp add: running_ring_def kern_example_def ready_list_def runnable_def pcb_example_def no_deadlines_def process_states)


theorem ready_queue_refines_list_witness:
  "\<exists>k'. next_ready kern_example = Some (1, k') \<and> ready_list k' [2]"
proof -
  have q: "ready_list kern_example [1, 2]" using kern_example_ring by (simp add: running_ring_def)
  have "first_ready kern_example [1, 2] = (1, [2])"
    by (simp add: first_ready_def is_ready_def kern_example_def pcb_example_def)
  then show ?thesis using ready_queue_refines_list [OF q] by auto
qed

text \<open>C26: No starvation among queued processes. Let process \<open>p\<close> run, not the idle one and marked as running, or let the
  idle process run, let the ready queue hold exactly the processes \<open>xs\<close>, all runnable and marked as ready, with a
  quantum of one tick and no blocked process that waits for a deadline. Then every process of the queue gets the
  processor within as many timer interrupts as there are queued processes, whatever frames the interrupts
  bring, and the ring of runnable processes is kept. (A process that is marked as ready but not queued is not
  covered: the scheduler can lose one.)\<close>

theorem round_robin_fair:
  assumes "running_ring k p xs \<or> idle_ring k xs" and "q \<in> set xs"
  shows "\<exists>n. 0 < n \<and> n \<le> length xs \<and> (\<forall>rs. length rs = n \<longrightarrow>
    (\<exists>k' ys. timer_ticks (rr switch) rs k = Some k' \<and> current k' = Some q \<and> running_ring k' q ys \<and>
       (running_ring k p xs \<longrightarrow> set (q # ys) = set (p # xs)) \<and> (idle_ring k xs \<longrightarrow> set (q # ys) = set xs)))"
proof -
  have excl: "\<not> (running_ring k p xs \<and> idle_ring k xs)" by (auto simp: running_ring_def idle_ring_def IDLE_def)
  show ?thesis
  proof (cases "running_ring k p xs")
    case True
    obtain n where "0 < n" "n \<le> length xs" "\<And>rs. length rs = n \<Longrightarrow>
      \<exists>k' ys. timer_ticks (rr switch) rs k = Some k' \<and> current k' = Some q \<and> running_ring k' q ys \<and> set (q # ys) = set (p # xs)"
      by (rule ring_reaches [OF True assms(2), where switch = switch]) (rule that)
    then show ?thesis using True excl by blast
  next
    case False
    then have ring: "idle_ring k xs" using assms(1) by blast
    obtain x ys where xs: "xs = x # ys" using assms(2) by (cases xs) auto
    obtain n where n: "n \<le> length ys" "\<And>k1 rs. running_ring k1 x ys \<Longrightarrow> length rs = n \<Longrightarrow>
      \<exists>k' zs. timer_ticks (rr switch) rs k1 = Some k' \<and> current k' = Some q \<and> running_ring k' q zs \<and> set (q # zs) = set xs"
      by (rule ring_reaches_any [of q x ys switch]) (use assms(2) xs in auto)
    have "\<exists>k' zs. timer_ticks (rr switch) rs k = Some k' \<and> current k' = Some q \<and> running_ring k' q zs \<and> set (q # zs) = set xs"
      if len: "length rs = Suc n" for rs
    proof -
      obtain r rs' where rs: "rs = r # rs'" "length rs' = n" using len by (cases rs) auto
      obtain r' k1 where k1: "scheduler_timer_tick (rr switch) r k = Some (r', k1)" "running_ring k1 x ys"
        by (rule idle_tick [OF ring [unfolded xs]])
      then show ?thesis using n(2) [OF k1(2) rs(2)] by (simp add: rs(1))
    qed
    then have all: "\<forall>rs. length rs = Suc n \<longrightarrow> (\<exists>k' zs. timer_ticks (rr switch) rs k = Some k' \<and> current k' = Some q \<and>
        running_ring k' q zs \<and> (running_ring k p xs \<longrightarrow> set (q # zs) = set (p # xs)) \<and> (idle_ring k xs \<longrightarrow> set (q # zs) = set xs))"
      using False by blast
    have "0 < Suc n \<and> Suc n \<le> length xs" using n(1) by (simp add: xs)
    with all show ?thesis by blast
  qed
qed

theorem round_robin_fair_witness:
  "\<exists>n. 0 < n \<and> n \<le> 2 \<and> (\<forall>rs. length rs = n \<longrightarrow>
    (\<exists>k'. timer_ticks (rr (\<lambda>_ _ k. k)) rs kern_example = Some k' \<and> current k' = Some 2))"
proof -
  have "2 \<in> set [1, 2 :: nat]" by simp
  from round_robin_fair [OF disjI1 [OF kern_example_ring] this, of "\<lambda>_ _ k. k"] obtain n where
    n: "0 < n" "n \<le> length [1, 2 :: nat]"
    "\<forall>rs. length rs = n \<longrightarrow> (\<exists>k' ys. timer_ticks (rr (\<lambda>_ _ k. k)) rs kern_example = Some k' \<and> current k' = Some 2 \<and>
      running_ring k' 2 ys \<and> (running_ring kern_example 0 [1, 2] \<longrightarrow> set (2 # ys) = set [0, 1, 2]) \<and>
      (idle_ring kern_example [1, 2] \<longrightarrow> set (2 # ys) = set [1, 2]))"
    by (elim exE conjE)
  then show ?thesis by (intro exI [of _ n] conjI allI impI) (simp, simp, drule spec, drule (1) mp, elim exE conjE, rule exI, rule conjI)
qed

text \<open>C28: A process can be lost. When the running process is alone, the timer interrupt leaves it marked as
  ready while it goes on running; if another process becomes ready before the next interrupt, that interrupt
  switches to it without putting the first one back in the queue. The first process is then allocated
  and ready, but neither running nor queued.\<close>

theorem lone_process_lost:
  assumes "running_ring k p []" and "q < 32" and "q \<noteq> p" and "runnable k q" and "state (procs k q) = PROCESS_READY"
  shows "\<exists>k1 k2 r' k3. scheduler_timer_tick (rr switch) r1 k = Some (r1, k1) \<and> scheduler_add (Some q) k1 = Some (0, k2) \<and>
    scheduler_timer_tick (rr switch) r2 k2 = Some (r', k3) \<and>
    current k3 = Some q \<and> ready_list k3 [] \<and> allocated (procs k3 p) \<and> state (procs k3 p) = PROCESS_READY"
proof -
  let ?c = "tick_charged p r1 PROCESS_READY k"
  obtain k1 where k1: "scheduler_timer_tick (rr switch) r1 k = Some (r1, k1)" "ready_list k1 []" "strip k1 = strip ?c"
    by (rule lone_tick [OF assms(1)])
  have q1: "allocated (procs k1 q)" "state (procs k1 q) = PROCESS_READY" "c_esp (cpu_state (procs k1 q)) \<noteq> 0"
    using strip_pcb [OF k1(3), of q] assms(3-5) by (simp_all add: tick_charged_def runnable_def)
  obtain k2 where k2: "enqueue (Some q) k1 = Some k2" "ready_list k2 ([] @ [q])" "strip k2 = strip k1"
    using enqueue_list [OF k1(2) assms(2) _ q1(1) _ q1(3)] q1(2) by (auto simp: process_states)
  have add: "scheduler_add (Some q) k1 = Some (0, k2)"
    using q1 k2(1) by (simp add: scheduler_add_def)
  have s2: "strip k2 = strip ?c" using k2(3) k1(3) by simp
  have f: "current k2 = Some p" "quantum_ticks k2 = 1" "ticks (procs k2 p) = 0" "state (procs k2 p) = PROCESS_READY"
    "allocated (procs k2 p)" "is_ready k2 q" "no_deadlines k2"
    using strip_fields(2-4) [OF s2] strip_pcb [OF s2] assms is_ready_strip [OF s2, of q]
    by (auto simp: tick_charged_def running_ring_def runnable_def is_ready_def no_deadlines_def process_states)
  let ?c2 = "tick_charged p r2 PROCESS_READY k2"
  have re: "requeue_running p ?c2 = Some ?c2"
    by (simp add: requeue_running_def tick_charged_def process_states)
  have ql: "ready_list ?c2 [q]"
    using ready_list_cong [of ?c2 k2 "[q]"] k2(2) by (simp add: tick_charged_def)
  have "is_ready ?c2 q" using f(6) assms(3) by (simp add: is_ready_def tick_charged_def)
  then have fr: "first_ready ?c2 [q] = (q, [])" by (simp add: first_ready_def)
  obtain k4 where k4: "next_ready ?c2 = Some (q, k4)" "ready_list k4 []" "strip k4 = strip ?c2"
    using next_ready_list [OF ql] by (metis fr fst_conv snd_conv)
  have "scheduler_timer_tick (rr switch) r2 k2 = Some (switch_to r2 q k4)"
    using charge_tick_ring [of k2 p r2] f re k4(1) assms(2,3)
    by (simp add: scheduler_timer_tick_def poll_no_deadlines IDLE_def)
  moreover have "ready_list (activate q k4) []" using ready_list_cong [of "activate q k4" k4 "[]"] k4(2) by (simp add: activate_fields)
  moreover have "allocated (procs k4 p)" "state (procs k4 p) = PROCESS_READY"
    using strip_pcb [OF k4(3), of p] f(5) by (simp_all add: tick_charged_def)
  ultimately show ?thesis
    using k1(1) add assms(3) by (auto simp: switch_to_def Let_def activate_fields)
qed

definition kern_lone :: kern where
  "kern_lone = kern_example\<lparr>ready_head := None\<rparr>"

theorem lone_process_lost_witness:
  "\<exists>k3. ready_list k3 [] \<and> current k3 = Some 2 \<and> state (procs k3 0) = PROCESS_READY"
proof -
  have ring: "running_ring kern_lone 0 []"
    by (simp add: running_ring_def kern_lone_def kern_example_def ready_list_def runnable_def pcb_example_def no_deadlines_def process_states)
  have q: "runnable kern_lone 2" "state (procs kern_lone 2) = PROCESS_READY"
    by (simp_all add: kern_lone_def kern_example_def runnable_def pcb_example_def)
  show ?thesis using lone_process_lost [OF ring _ _ q, of "\<lambda>_ _ k. k" 0 0] by auto
qed

end
