(* ===== verification/Journal_Props.thy ===== *)
theory Journal_Props
  imports Journal Ata_Props
begin

text \<open>
  The journal over any device that keeps the contract \<open>sector_store\<close>: what a logged write leaves on
  the disk, and what a replay after an interrupted write makes of it.
\<close>

section \<open>Checksums and layout\<close>

definition put_sector :: "u32 \<Rightarrow> bytes \<Rightarrow> (nat \<Rightarrow> bytes) \<Rightarrow> nat \<Rightarrow> bytes" where
  "put_sector lba b m = m(unat lba := \<lambda>i. if i < 512 then b i else m (unat lba) i)"

lemma put_sector_at: "put_sector lba b m k i = (if k = unat lba \<and> i < 512 then b i else m k i)"
  by (simp add: put_sector_def)

lemma put_sector_other: "k \<noteq> unat lba \<Longrightarrow> put_sector lba b m k = m k"
  by (simp add: put_sector_def)

lemma put_sector_cong: "(\<And>i. i < 512 \<Longrightarrow> b i = b' i) \<Longrightarrow> put_sector lba b m = put_sector lba b' m"
  by (auto simp: put_sector_def fun_eq_iff)

lemma xor_cancel: "a XOR c = b XOR c \<longleftrightarrow> a = b" for a b c :: u32
proof
  assume "a XOR c = b XOR c"
  then have "(a XOR c) XOR c = (b XOR c) XOR c" by simp
  then show "a = b" by (simp add: xor.assoc)
qed simp

lemma fnv_step_inj: "fnv_step h x = fnv_step h' x \<longleftrightarrow> h = h'"
proof
  assume "fnv_step h x = fnv_step h' x"
  then have "(h XOR x) * 16777619 * 899433627 = (h' XOR x) * 16777619 * 899433627" by (simp add: fnv_step_def)
  moreover have "y * 16777619 * 899433627 = y" for y :: u32
  proof -
    have "(16777619 :: u32) * 899433627 = 1" by simp
    then show ?thesis by (metis mult.assoc mult.right_neutral)
  qed
  ultimately show "h = h'" by (simp add: xor_cancel)
qed simp

lemma fnv_step_data: "fnv_step h (ucast a) = fnv_step h (ucast b) \<longleftrightarrow> a = b" for a b :: u8
proof
  assume "fnv_step h (ucast a) = fnv_step h (ucast b)"
  then have "fnv_step (ucast a) h = fnv_step (ucast b) h" by (simp add: fnv_step_def xor.commute)
  then have "(ucast a :: u32) = ucast b" by (simp only: fnv_step_inj)
  moreover have "(ucast (ucast c :: u32) :: u8) = c" for c :: u8
    by (rule bit_word_eqI) (simp add: bit_simps)
  ultimately show "a = b" by metis
qed simp

lemma fold_fnv_inj:
  "fold (\<lambda>i h. fnv_step h (f i)) xs h = fold (\<lambda>i h. fnv_step h (f i)) xs h' \<longleftrightarrow> h = h'"
  by (induction xs arbitrary: h h') (simp_all add: fnv_step_inj)

lemma fold_data_cong:
  "(\<And>i. i \<in> set xs \<Longrightarrow> f i = g i) \<Longrightarrow> fold (\<lambda>i h. fnv_step h (f i)) xs h = fold (\<lambda>i h. fnv_step h (g i)) xs h"
  by (induction xs arbitrary: h) simp_all

text \<open>The checksum of two records that differ in exactly one byte of data differs.\<close>

lemma checksum_cong:
  assumes "\<And>i. i < 512 \<Longrightarrow> jr_data r i = jr_data r' i" "target_lba r = target_lba r'" "jr_sequence r = jr_sequence r'"
  shows "checksum r = checksum r'"
proof -
  have "fold (\<lambda>i h. fnv_step h (ucast (jr_data r i))) [0..<512] h = fold (\<lambda>i h. fnv_step h (ucast (jr_data r' i))) [0..<512] h" for h
    by (rule fold_data_cong) (simp add: assms(1))
  then show ?thesis using assms(2,3) by (simp add: checksum_def)
qed

lemma checksum_one_byte:
  assumes "k < 512" "\<And>i. i < 512 \<Longrightarrow> i \<noteq> k \<Longrightarrow> jr_data r i = jr_data r' i" "jr_data r k \<noteq> jr_data r' k"
    "target_lba r = target_lba r'" "jr_sequence r = jr_sequence r'"
  shows "checksum r \<noteq> checksum r'"
proof -
  let ?F = "\<lambda>r xs h. fold (\<lambda>i h. fnv_step h (ucast (jr_data r i))) xs h"
  have split: "[0..<512] = [0..<k] @ k # [Suc k..<512]"
    using assms(1) by (metis less_imp_le_nat upt_add_eq_append upt_conv_Cons le_add_diff_inverse zero_le)
  have l: "?F r [0..<k] h = ?F r' [0..<k] h" "?F r [Suc k..<512] h = ?F r' [Suc k..<512] h" for h
    using assms(1,2) by (auto intro: fold_data_cong)
  have "?F r [0..<512] h \<noteq> ?F r' [0..<512] h" for h
    using assms(3) by (simp add: split l fold_fnv_inj fnv_step_data)
  then show ?thesis using assms(4,5) by (simp add: checksum_def fnv_step_inj xor_cancel)
qed

text \<open>A record read back: the first 492 bytes of data come from the disk, the others from memory.\<close>

lemma new_record_simps:
  assumes "rec = new_record r s target sector"
  shows "target_lba rec = target" "jr_checksum rec = checksum rec" "magic rec = JOURNAL_MAGIC"
    "committed rec = JOURNAL_COMMITTED" "i < 512 \<Longrightarrow> jr_data rec i = sector i"
  by (simp_all add: assms new_record_def Let_def) (simp add: checksum_def)

lemma record_of_disk:
  assumes "\<And>i. i < 512 \<Longrightarrow> b i = record_bytes r i" "v = record_of b"
  shows "magic v = magic r" "jr_sequence v = jr_sequence r" "target_lba v = target_lba r" "jr_checksum v = jr_checksum r"
    "committed v = committed r" "i < 492 \<Longrightarrow> jr_data v i = jr_data r i" "jr_data v i = b (20 + i)"
  using assms(1) by (simp_all add: assms(2) record_of_def record_bytes_def ld32_byte_of)

definition dead :: "bytes \<Rightarrow> bool" where
  "dead b \<longleftrightarrow> ld32 b 0 \<noteq> JOURNAL_MAGIC \<or> b 16 \<noteq> JOURNAL_COMMITTED"

definition read_over :: "bytes \<Rightarrow> bytes \<Rightarrow> bytes" where
  "read_over a r i = (if i < 512 then a i else r i)"

lemma read_over_dead [simp]: "dead (read_over a r) = dead a"
  by (simp add: dead_def read_over_def ld32_def)

lemma record_dead: "magic (record_of b) \<noteq> JOURNAL_MAGIC \<or> committed (record_of b) \<noteq> JOURNAL_COMMITTED \<longleftrightarrow> dead b"
  by (simp add: dead_def record_of_def)

section \<open>Operations on a store\<close>

context sector_store
begin

lemma read_into:
  assumes "inv h" "unat lba < cap"
  obtains h' where "block_read_sector blk lba (Some r) h = (0, Some (read_over (contents h (unat lba)) r), h')"
    "inv h'" "contents h' = contents h"
proof -
  obtain h' where "block_read_sector blk lba (Some r) h = (0, Some (\<lambda>i. if i < 512 then contents h (unat lba) i else r i), h')"
    "inv h'" "contents h' = contents h"
    by (rule read_eq [OF assms])
  then show ?thesis by (intro that [of h']) (simp_all add: read_over_def [abs_def])
qed

lemma write_put:
  assumes "inv h" "unat lba < cap"
  obtains h' where "block_write_sector blk lba (Some b) h = (0, h')" "inv h'" "contents h' = put_sector lba b (contents h)"
  unfolding put_sector_def by (rule write_eq [OF assms])

lemma journal_write_eq:
  assumes "inv h" "j_ready j" "unat target < cap" "slot = j_base j + j_sequence j mod j_slot_count j" "unat slot < cap"
    and "rec = new_record r (j_sequence j) target sector"
  obtains h' where "journal_write blk r target (Some sector) (j, h) = (0, j\<lparr>j_sequence := j_sequence j + 1\<rparr>, h')" "inv h'"
    "contents h' = put_sector slot (record_bytes (rec\<lparr>committed := 0\<rparr>)) (put_sector target sector (put_sector slot (record_bytes rec) (contents h)))"
proof -
  obtain h1 where h1: "block_write_sector blk slot (Some (record_bytes rec)) h = (0, h1)" "inv h1"
    "contents h1 = put_sector slot (record_bytes rec) (contents h)"
    by (rule write_put [OF assms(1,5)])
  obtain h2 where h2: "block_write_sector blk target (Some sector) h1 = (0, h2)" "inv h2"
    "contents h2 = put_sector target sector (contents h1)"
    by (rule write_put [OF h1(2) assms(3)])
  obtain h3 where h3: "block_write_sector blk slot (Some (record_bytes (rec\<lparr>committed := 0\<rparr>))) h2 = (0, h3)" "inv h3"
    "contents h3 = put_sector slot (record_bytes (rec\<lparr>committed := 0\<rparr>)) (contents h2)"
    by (rule write_put [OF h2(2) assms(5)])
  have seq: "jr_sequence rec = j_sequence j" by (simp add: assms(6) new_record_def Let_def)
  have run: "journal_write blk r target (Some sector) (j, h) = (0, j\<lparr>j_sequence := j_sequence j + 1\<rparr>, h3)"
    using default assms(2) h1(1) h2(1) h3(1) seq
    by (auto simp: journal_write_def Let_def assms(4) assms(6) [symmetric])
  show ?thesis by (rule that [OF run h3(2)]) (simp add: h3(3) h2(3) h1(3))
qed

lemma replay_slot_read:
  assumes "inv h" "unat lba < cap" "b = read_over (contents h (unat lba)) r" "v = record_of b"
  obtains h' where "inv h'" "contents h' = contents h"
    "replay_slot blk lba (r, a, h) =
       (if dead (contents h (unat lba)) \<or> jr_checksum v \<noteq> checksum v then (b, a, h')
        else (case block_write_sector blk (target_lba v) (Some (jr_data v)) h' of
                (x, h) \<Rightarrow> if x = 0 then (b(16 := 0), a + 1, snd (block_write_sector blk lba (Some (b(16 := 0))) h)) else (b, a, h)))"
proof -
  obtain h' where "block_read_sector blk lba (Some r) h = (0, Some b, h')" "inv h'" "contents h' = contents h"
    unfolding assms(3) by (rule read_into [OF assms(1,2)])
  moreover have "dead (contents h (unat lba)) \<longleftrightarrow> magic v \<noteq> JOURNAL_MAGIC \<or> committed v \<noteq> JOURNAL_COMMITTED"
    using record_dead [of b] by (simp add: assms(3,4))
  ultimately show ?thesis
    by (intro that [of h']) (auto simp: replay_slot_def Let_def assms(4) split: prod.splits)
qed

text \<open>Slots without a committed record are passed over.\<close>

lemma replay_dead_slots:
  assumes "inv h" "\<And>i. i \<in> set ix \<Longrightarrow> unat (b + of_nat i) < cap \<and> dead (contents h (unat (b + of_nat i)))"
  obtains r' h' where "fold (\<lambda>i. replay_slot blk (b + of_nat i)) ix (r, a, h) = (r', a, h')"
    "\<forall>i\<ge>512. r' i = r i" "inv h'" "contents h' = contents h"
  using assms
proof (induction ix arbitrary: r h thesis)
  case Nil
  then show ?case by (intro Nil.prems(1) [of r h]) simp_all
next
  case (Cons k ks)
  let ?r = "read_over (contents h (unat (b + of_nat k))) r"
  have k: "unat (b + of_nat k) < cap" "dead (contents h (unat (b + of_nat k)))" using Cons.prems(3) [of k] by simp_all
  obtain h1 where h1: "inv h1" "contents h1 = contents h" "replay_slot blk (b + of_nat k) (r, a, h) = (?r, a, h1)"
    by (rule replay_slot_read [OF Cons.prems(2) k(1) refl refl]) (simp add: k(2))
  have sub: "unat (b + of_nat i) < cap \<and> dead (contents h1 (unat (b + of_nat i)))" if "i \<in> set ks" for i
    using Cons.prems(3) [of i] that h1(2) by simp
  obtain r' h' where r: "fold (\<lambda>i. replay_slot blk (b + of_nat i)) ks (?r, a, h1) = (r', a, h')"
    "\<forall>i\<ge>512. r' i = ?r i" "inv h'" "contents h' = contents h1"
    by (rule Cons.IH [OF _ h1(1) sub])
  show ?case by (rule Cons.prems(1) [of r' h']) (use r h1 in \<open>simp_all add: read_over_def\<close>)
qed

text \<open>
  The log holds one committed record, in slot \<open>k\<close>, whose write was interrupted before the target
  sector: what a replay with the record \<open>r\<close> in memory does.
\<close>

lemma replay_one:
  fixes r :: bytes
  assumes "inv h" "j_ready j" "k < unat (j_slot_count j)" "unat (j_base j) + unat (j_slot_count j) \<le> cap" "cap \<le> 2 ^ 32"
    and log: "\<And>i. i < unat (j_slot_count j) \<Longrightarrow> i \<noteq> k \<Longrightarrow> dead (contents h (unat (j_base j) + i))"
      "\<And>i. i < 512 \<Longrightarrow> contents h (unat (j_base j) + k) i = record_bytes rec i" "rec = new_record r0 s target sector"
    and tgt: "unat target < cap" "unat target < unat (j_base j) \<or> unat (j_base j) + unat (j_slot_count j) \<le> unat target"
  defines "v \<equiv> rec\<lparr>jr_data := \<lambda>i. if i < 492 then sector i else r (20 + i)\<rparr>"
  obtains r' h' where "inv h'" "journal_replay blk r j h = (if checksum v = checksum rec then 1 else 0, h')"
    "contents h' = (if checksum v = checksum rec
       then put_sector (j_base j + of_nat k) (r'(16 := 0)) (put_sector target (jr_data v) (contents h)) else contents h)"
    "\<And>i. i < 512 \<Longrightarrow> r' i = record_bytes rec i"
proof -
  let ?n = "unat (j_slot_count j)" and ?b = "unat (j_base j)"
  have slot: "unat (j_base j + of_nat i) = ?b + i" if "i < ?n" for i
    using that assms(4,5) by (simp add: unat_word_ariths unat_of_nat)
  have split: "[0..<?n] = [0..<k] @ k # [Suc k..<?n]"
    using assms(3) by (metis less_imp_le_nat upt_add_eq_append upt_conv_Cons le_add_diff_inverse zero_le)
  note rec = new_record_simps [OF log(3)]
  have before: "unat (j_base j + of_nat i) < cap \<and> dead (contents h (unat (j_base j + of_nat i)))" if "i \<in> set [0..<k]" for i
    using that assms(3,4) log(1) [of i] slot [of i] by simp
  obtain r1 h1 where one: "fold (\<lambda>i. replay_slot blk (j_base j + of_nat i)) [0..<k] (r, 0, h) = (r1, 0, h1)"
    "\<forall>i\<ge>512. r1 i = r i" "inv h1" "contents h1 = contents h"
    by (rule replay_dead_slots [OF assms(1) before])
  define b where "b = read_over (contents h1 (unat (j_base j + of_nat k))) r1"
  define w where "w = record_of b"
  have b: "b i = record_bytes rec i" if "i < 512" for i
    using that log(2) slot [OF assms(3)] by (simp add: b_def read_over_def one(4))
  note w = record_of_disk [OF b w_def]
  have data: "jr_data w i = jr_data v i" if "i < 512" for i
    using that w(6) [of i] w(7) [of i] rec(5) one(2) by (simp add: v_def b_def read_over_def)
  have sum: "checksum w = checksum v" using w data by (intro checksum_cong) (simp_all add: v_def)
  have live: "\<not> dead (contents h1 (unat (j_base j + of_nat k)))"
    using record_dead [of b] w rec by (simp add: w_def [symmetric]) (simp add: b_def)
  obtain h2 where two: "inv h2" "contents h2 = contents h1" "replay_slot blk (j_base j + of_nat k) (r1, 0, h1) =
      (if dead (contents h1 (unat (j_base j + of_nat k))) \<or> jr_checksum w \<noteq> checksum w then (b, 0, h2)
       else (case block_write_sector blk (target_lba w) (Some (jr_data w)) h2 of
          (x, h) \<Rightarrow> if x = 0 then (b(16 := 0), 0 + 1, snd (block_write_sector blk (j_base j + of_nat k) (Some (b(16 := 0))) h)) else (b, 0, h)))"
    by (rule replay_slot_read [OF one(3) _ b_def w_def]) (use assms(3,4) slot in simp)
  have rest: "\<exists>r' h'. fold (\<lambda>i. replay_slot blk (j_base j + of_nat i)) [Suc k..<?n] (q, a, h3) = (r', a, h') \<and> inv h' \<and>
      contents h' = contents h3" if h3: "inv h3" "\<And>i. i < ?n \<Longrightarrow> i \<noteq> k \<Longrightarrow> contents h3 (?b + i) = contents h (?b + i)"
    for q a h3
  proof -
    have after: "unat (j_base j + of_nat i) < cap \<and> dead (contents h3 (unat (j_base j + of_nat i)))" if "i \<in> set [Suc k..<?n]" for i
      using that assms(4) log(1) [of i] slot [of i] h3(2) [of i] by simp
    show ?thesis by (rule replay_dead_slots [OF h3(1) after, where r = q and a = a and ix = "[Suc k..<?n]"]) blast+
  qed
  show ?thesis
  proof (cases "checksum v = checksum rec")
    case False
    obtain r' h' where r: "fold (\<lambda>i. replay_slot blk (j_base j + of_nat i)) [Suc k..<?n] (b, 0, h2) = (r', 0, h')" "inv h'"
      "contents h' = contents h2"
      using rest [OF two(1)] two(2) one(4) by metis
    show ?thesis
      by (rule that [of h' b]) (use False r two one b w(4) rec(2) sum assms(2) in \<open>simp_all add: journal_replay_def split\<close>)
  next
    case True
    have wt: "unat (target_lba w) < cap" and wk: "unat (j_base j + of_nat k) < cap"
      using w(3) rec(1) tgt(1) assms(3,4) slot [OF assms(3)] by simp_all
    obtain h3 where h3: "block_write_sector blk (target_lba w) (Some (jr_data w)) h2 = (0, h3)" "inv h3"
      "contents h3 = put_sector (target_lba w) (jr_data w) (contents h2)"
      by (rule write_put [OF two(1) wt])
    obtain h4 where h4: "block_write_sector blk (j_base j + of_nat k) (Some (b(16 := 0))) h3 = (0, h4)" "inv h4"
      "contents h4 = put_sector (j_base j + of_nat k) (b(16 := 0)) (contents h3)"
      by (rule write_put [OF h3(2) wk])
    have same: "contents h4 (?b + i) = contents h (?b + i)" if "i < ?n" "i \<noteq> k" for i
      using that h4(3) h3(3) w(3) rec(1) tgt(2) slot [OF assms(3)] two(2) one(4) by (auto simp: put_sector_other)
    obtain r' h' where r: "fold (\<lambda>i. replay_slot blk (j_base j + of_nat i)) [Suc k..<?n] (b(16 := 0), 1, h4) = (r', 1, h')" "inv h'"
      "contents h' = contents h4"
      using rest [OF h4(2) same] by metis
    have "put_sector target (jr_data w) (contents h) = put_sector target (jr_data v) (contents h)"
      by (rule put_sector_cong) (rule data)
    then show ?thesis
      by (intro that [of h' b])
        (use True live r two one b w(3,4) rec(1,2) sum h3 h4 assms(2) in \<open>simp_all add: journal_replay_def split\<close>)
  qed
qed

end

section \<open>Properties\<close>

text \<open>C29: Over any block device that stores sectors, a journalled write that finds its log slot and its
  target on the disk succeeds, leaves the new data in the target sector and an uncommitted record in the log slot
  of its sequence number, changes no other sector, and uses up one sequence number.\<close>

theorem journal_write_correct:
  assumes "sector_store blk ok contents cap" "ok h" "j_ready j" "unat target < cap"
    and "slot = j_base j + j_sequence j mod j_slot_count j" "unat slot < cap" "slot \<noteq> target"
  shows "\<exists>h'. journal_write blk r target (Some sector) (j, h) = (0, j\<lparr>j_sequence := j_sequence j + 1\<rparr>, h') \<and> ok h' \<and>
    (\<forall>i<512. contents h' (unat target) i = sector i) \<and> dead (contents h' (unat slot)) \<and>
    (\<forall>k. k \<noteq> unat target \<longrightarrow> k \<noteq> unat slot \<longrightarrow> contents h' k = contents h k)"
proof -
  define rec where "rec = new_record r (j_sequence j) target sector"
  obtain h' where h': "journal_write blk r target (Some sector) (j, h) = (0, j\<lparr>j_sequence := j_sequence j + 1\<rparr>, h')" "ok h'"
    "contents h' = put_sector slot (record_bytes (rec\<lparr>committed := 0\<rparr>)) (put_sector target sector (put_sector slot (record_bytes rec) (contents h)))"
    by (rule sector_store.journal_write_eq [OF assms(1-6) rec_def])
  have ne: "unat target \<noteq> unat slot" using assms(7) by (simp add: word_unat_eq_iff)
  have "dead (contents h' (unat slot))"
    by (simp add: h'(3) dead_def put_sector_at record_bytes_def JOURNAL_COMMITTED_def)
  then show ?thesis using h' ne by (auto simp: put_sector_at put_sector_other)
qed

theorem journal_write_correct_witness:
  "\<exists>h'. journal_write (ata_blocks early_ignored) (record_of (\<lambda>_. 0)) 100 (Some (\<lambda>_. 7))
      (\<lparr>j_base = 8, j_slot_count = 32, j_sequence = 1, j_ready = True\<rparr>, True, drive_example (\<lambda>_ _. 0)) =
      (0, \<lparr>j_base = 8, j_slot_count = 32, j_sequence = 2, j_ready = True\<rparr>, h') \<and>
    (\<forall>i<512. ata_contents (\<lambda>d. d) h' 100 i = 7)"
  using journal_write_correct [OF ata_disk.sector_store_axioms, of early_ignored 2048 "(True, drive_example (\<lambda>_ _. 0))"
      "\<lparr>j_base = 8, j_slot_count = 32, j_sequence = 1, j_ready = True\<rparr>" 100 9 "record_of (\<lambda>_. 0)" "\<lambda>_. 7"]
    drive_example_ready [of "\<lambda>_ _. 0"]
  by auto

text \<open>C30: After a power failure between the log write and the write of the target sector, with no other
  committed record in the log, a replay depends on what the memory of its local record happens to hold, since only
  492 of the 512 data bytes of a record fit in its sector. If the memory holds the 20 missing bytes, the target sector
  is recovered and the record is marked done; if it differs in exactly one of them, the record fails its
  checksum and the replay changes nothing: the write is lost. Whatever the memory holds, the replay either changes
  nothing or writes a target sector of the 492 logged bytes followed by 20 bytes of that memory.\<close>

theorem journal_replay_after_crash:
  assumes "sector_store blk ok contents cap" "ok h" "j_ready j" "k < unat (j_slot_count j)"
    and "unat (j_base j) + unat (j_slot_count j) \<le> cap" "cap \<le> 2 ^ 32"
    and "\<And>i. i < unat (j_slot_count j) \<Longrightarrow> i \<noteq> k \<Longrightarrow> dead (contents h (unat (j_base j) + i))"
    and "\<And>i. i < 512 \<Longrightarrow> contents h (unat (j_base j) + k) i = record_bytes rec i" "rec = new_record r0 s target sector"
    and "unat target < cap" "unat target < unat (j_base j) \<or> unat (j_base j) + unat (j_slot_count j) \<le> unat target"
  shows "((\<forall>i<20. r (512 + i) = sector (492 + i)) \<longrightarrow>
      (\<exists>h'. journal_replay blk r j h = (1, h') \<and> ok h' \<and> (\<forall>i<512. contents h' (unat target) i = sector i) \<and>
        dead (contents h' (unat (j_base j) + k)))) \<and>
    ((\<exists>p<20. r (512 + p) \<noteq> sector (492 + p) \<and> (\<forall>i<20. i \<noteq> p \<longrightarrow> r (512 + i) = sector (492 + i))) \<longrightarrow>
      (\<exists>h'. journal_replay blk r j h = (0, h') \<and> ok h' \<and> contents h' = contents h)) \<and>
    (\<exists>h'. ok h' \<and>
      (journal_replay blk r j h = (0, h') \<and> contents h' = contents h \<or>
       journal_replay blk r j h = (1, h') \<and> (\<forall>i<492. contents h' (unat target) i = sector i) \<and>
         (\<forall>i<20. contents h' (unat target) (492 + i) = r (512 + i)) \<and>
         (\<forall>m. m \<noteq> unat target \<longrightarrow> m \<noteq> unat (j_base j) + k \<longrightarrow> contents h' m = contents h m)))"
proof -
  define v where "v = rec\<lparr>jr_data := \<lambda>i. if i < 492 then sector i else r (20 + i)\<rparr>"
  obtain r' h' where h': "ok h'" "journal_replay blk r j h = (if checksum v = checksum rec then 1 else 0, h')"
    "contents h' = (if checksum v = checksum rec
       then put_sector (j_base j + of_nat k) (r'(16 := 0)) (put_sector target (jr_data v) (contents h)) else contents h)"
    unfolding v_def by (rule sector_store.replay_one [OF assms, where r = r])
  note rec = new_record_simps [OF assms(9)]
  have slot: "unat (j_base j + of_nat k) = unat (j_base j) + k"
    using assms(4-6) by (simp add: unat_word_ariths unat_of_nat)
  have tail: "i < 492 \<or> (\<exists>p<20. i = 492 + p)" if "i < 512" for i :: nat
    using that by (cases "i < 492") (auto intro!: exI [of _ "i - 492"])
  show ?thesis
  proof (intro conjI impI)
    assume mem: "\<forall>i<20. r (512 + i) = sector (492 + i)"
    have data: "jr_data v i = sector i" if "i < 512" for i
      using tail [OF that] mem by (auto simp: v_def)
    then have "checksum v = checksum rec" by (intro checksum_cong) (simp_all add: v_def rec(5))
    then show "\<exists>h'. journal_replay blk r j h = (1, h') \<and> ok h' \<and> (\<forall>i<512. contents h' (unat target) i = sector i) \<and>
        dead (contents h' (unat (j_base j) + k))"
      using h' data slot assms(4,11) by (auto simp: put_sector_at dead_def JOURNAL_COMMITTED_def)
  next
    assume "\<exists>p<20. r (512 + p) \<noteq> sector (492 + p) \<and> (\<forall>i<20. i \<noteq> p \<longrightarrow> r (512 + i) = sector (492 + i))"
    then obtain p where p: "p < 20" "r (512 + p) \<noteq> sector (492 + p)" "\<forall>i<20. i \<noteq> p \<longrightarrow> r (512 + i) = sector (492 + i)"
      by blast
    have "checksum v \<noteq> checksum rec"
    proof (rule checksum_one_byte [of "492 + p"])
      fix i assume "i < 512" "i \<noteq> 492 + p"
      then show "jr_data v i = jr_data rec i" using tail [of i] p(3) rec(5) by (auto simp: v_def)
    qed (use p(1,2) rec(5) in \<open>simp_all add: v_def\<close>)
    then show "\<exists>h'. journal_replay blk r j h = (0, h') \<and> ok h' \<and> contents h' = contents h" using h' by simp
  next
    have ne: "unat target \<noteq> unat (j_base j) + k" using assms(4,11) by auto
    have mem: "r (20 + (492 + i)) = r (512 + i)" for i by (simp add: add.assoc [symmetric])
    show "\<exists>h'. ok h' \<and>
      (journal_replay blk r j h = (0, h') \<and> contents h' = contents h \<or>
       journal_replay blk r j h = (1, h') \<and> (\<forall>i<492. contents h' (unat target) i = sector i) \<and>
         (\<forall>i<20. contents h' (unat target) (492 + i) = r (512 + i)) \<and>
         (\<forall>m. m \<noteq> unat target \<longrightarrow> m \<noteq> unat (j_base j) + k \<longrightarrow> contents h' m = contents h m))"
      using h' ne slot by (intro exI [of _ h']) (simp add: put_sector_at put_sector_other v_def mem fun_eq_iff)
  qed
qed

text \<open>The log of one slot in sector 8, holding a committed record for sector 100 whose data are all 0.\<close>

definition journal_disk :: "nat \<Rightarrow> bytes" where
  "journal_disk k = (if k = 8 then record_bytes (new_record (record_of (\<lambda>_. 0)) 1 100 (\<lambda>_. 0)) else (\<lambda>_. 1))"

theorem journal_replay_after_crash_witness:
  "(\<exists>h'. journal_replay (ata_blocks early_ignored) (\<lambda>_. 0) \<lparr>j_base = 8, j_slot_count = 1, j_sequence = 1, j_ready = True\<rparr>
        (True, drive_example journal_disk) = (1, h') \<and> (\<forall>i<512. ata_contents (\<lambda>d. d) h' 100 i = 0)) \<and>
   (\<exists>h'. journal_replay (ata_blocks early_ignored) (\<lambda>i. if i = 513 then 1 else 0) \<lparr>j_base = 8, j_slot_count = 1, j_sequence = 1, j_ready = True\<rparr>
        (True, drive_example journal_disk) = (0, h') \<and> ata_contents (\<lambda>d. d) h' 100 0 = 1)"
proof -
  have pre: "ata_ready early_ignored (drive_ports early_ignored) (\<lambda>d. d) 2048 (True, drive_example journal_disk)"
    "ata_contents (\<lambda>d. d) (True, drive_example journal_disk) = journal_disk"
    by (rule drive_example_ready) (simp add: ata_contents_def drive_example_def)
  let ?j = "\<lparr>j_base = 8, j_slot_count = 1, j_sequence = 1, j_ready = True\<rparr>"
  have log: "ata_contents (\<lambda>d. d) (True, drive_example journal_disk) (unat (j_base ?j) + 0) i =
      record_bytes (new_record (record_of (\<lambda>_. 0)) 1 100 (\<lambda>_. 0)) i" for i
    unfolding pre(2) by (simp add: journal_disk_def)
  note crash = journal_replay_after_crash [OF ata_disk.sector_store_axioms pre(1) _ _ _ _ _ log refl]
  have "\<exists>h'. journal_replay (ata_blocks early_ignored) (\<lambda>_. 0) ?j (True, drive_example journal_disk) = (1, h') \<and>
      (\<forall>i<512. ata_contents (\<lambda>d. d) h' 100 i = 0)"
    using crash [of "\<lambda>_. 0"] by simp blast
  moreover have "\<exists>p<20 :: nat. (if 512 + p = 513 then 1 else 0) \<noteq> (0 :: u8) \<and> (\<forall>i<20. i \<noteq> p \<longrightarrow> (if 512 + i = 513 then 1 else 0) = (0 :: u8))"
    by (intro exI [of _ 1]) auto
  then have "\<exists>h'. journal_replay (ata_blocks early_ignored) (\<lambda>i. if i = 513 then 1 else 0) ?j (True, drive_example journal_disk) = (0, h') \<and>
      ata_contents (\<lambda>d. d) h' = journal_disk"
    using crash [of "\<lambda>i. if i = 513 then 1 else 0"] by (simp add: pre(2)) blast
  moreover have "journal_disk 100 0 = 1" by (simp add: journal_disk_def)
  ultimately show ?thesis by metis
qed

end
