(* ===== verification/Fat32_Props.thy ===== *)
theory Fat32_Props
  imports Fat32 Ata_Props
begin

text \<open>
  Correctness of the FAT32 reader over any device that keeps the contract \<open>sector_store\<close> of the
  block layer: a cluster chain on the disk is a list of clusters, the root directory is the list of
  the 32-byte entries along its chain, and the contents of a file are the bytes along its chain.
\<close>

section \<open>What the disk holds\<close>

definition over :: "bytes \<Rightarrow> bytes \<Rightarrow> bytes" where
  "over a b i = (if i < 512 then a i else b i)"

definition fat_entry_lba :: "fat32 \<Rightarrow> u32 \<Rightarrow> nat" where
  "fat_entry_lba fs c = unat (fat_lba fs + (c * 4) div 512)"

definition fat_next :: "fat32 \<Rightarrow> (nat \<Rightarrow> bytes) \<Rightarrow> u32 \<Rightarrow> u32" where
  "fat_next fs m c = le32 (m (fat_entry_lba fs c)) (4 * (unat c mod 128)) AND 0x0fffffff"

definition data_sector :: "fat32 \<Rightarrow> u32 \<Rightarrow> nat \<Rightarrow> nat" where
  "data_sector fs c s = unat (cluster_lba fs c + of_nat s)"

primrec fat_chain :: "nat \<Rightarrow> fat32 \<Rightarrow> (nat \<Rightarrow> bytes) \<Rightarrow> u32 list \<Rightarrow> u32 \<Rightarrow> bool" where
  "fat_chain cap fs m [] c \<longleftrightarrow> \<not> valid_cluster c"
| "fat_chain cap fs m (x # xs) c \<longleftrightarrow>
     x = c \<and> valid_cluster c \<and> fat_entry_lba fs c < cap \<and>
     list_all (\<lambda>s. data_sector fs c s < cap) [0..<unat (sectors_per_cluster fs)] \<and> fat_chain cap fs m xs (fat_next fs m c)"

definition dir_entries :: "fat32 \<Rightarrow> (nat \<Rightarrow> bytes) \<Rightarrow> u32 list \<Rightarrow> bytes list" where
  "dir_entries fs m cs =
     concat (map (\<lambda>c. concat (map (\<lambda>s. entries_of 512 (m (data_sector fs c s))) [0..<unat (sectors_per_cluster fs)])) cs)"

definition file_byte :: "fat32 \<Rightarrow> (nat \<Rightarrow> bytes) \<Rightarrow> u32 list \<Rightarrow> nat \<Rightarrow> u8" where
  "file_byte fs m cs k =
     (let S = unat (sectors_per_cluster fs) in m (data_sector fs (cs ! (k div 512 div S)) (k div 512 mod S)) (k mod 512))"

definition fat_ready :: "fat32 \<Rightarrow> bool" where
  "fat_ready fs \<longleftrightarrow> mounted fs \<and> bytes_per_sector fs = 512 \<and> sectors_per_cluster fs \<noteq> 0 \<and> sectors_per_cluster fs \<le> 255"

text \<open>The reader changes nothing of its state but the sector buffer.\<close>

lemma volume_sector [simp]:
  "cluster_lba (fs\<lparr>fat_sector := b\<rparr>) = cluster_lba fs" "data_sector (fs\<lparr>fat_sector := b\<rparr>) = data_sector fs"
  "fat_entry_lba (fs\<lparr>fat_sector := b\<rparr>) = fat_entry_lba fs" "fat_next (fs\<lparr>fat_sector := b\<rparr>) = fat_next fs"
  "fat_ready (fs\<lparr>fat_sector := b\<rparr>) = fat_ready fs"
  "dir_entries (fs\<lparr>fat_sector := b\<rparr>) = dir_entries fs" "file_byte (fs\<lparr>fat_sector := b\<rparr>) = file_byte fs"
  by (simp_all add: fun_eq_iff cluster_lba_def data_sector_def fat_entry_lba_def fat_next_def fat_ready_def
      dir_entries_def file_byte_def)

lemma fat_chain_sector [simp]: "fat_chain cap (fs\<lparr>fat_sector := b\<rparr>) m cs c = fat_chain cap fs m cs c"
  by (induction cs arbitrary: c) simp_all

lemma dir_entries_Cons:
  "dir_entries fs m (c # cs) =
     concat (map (\<lambda>s. entries_of 512 (m (data_sector fs c s))) [0..<unat (sectors_per_cluster fs)]) @ dir_entries fs m cs"
  by (simp add: dir_entries_def)

lemma position_same: "unat (file_position f) = n \<Longrightarrow> f\<lparr>file_position := of_nat n\<rparr> = f"
  by auto

lemma next_sector: "p + (512 - p mod 512) = Suc (p div 512) * 512" for p :: nat
proof -
  have "q * 512 + r + (512 - r) = Suc q * 512" if "r < 512" for q r :: nat
    using that by simp
  from this [of "p mod 512" "p div 512"] show ?thesis by simp
qed

lemma entry_offset: "unat ((c * 4) mod (512 :: u32)) = 4 * (unat c mod 128)"
proof -
  have "unat ((c * 4) mod (512 :: u32)) = (unat c * 4) mod 2 ^ 32 mod 512"
    by (simp add: unat_mod unat_word_ariths)
  also have "\<dots> = (4 * unat c) mod (4 * 128)"
    by (simp add: mod_mod_cancel mult.commute)
  finally show ?thesis by (simp only: mult_mod_right)
qed

lemma le32_over: "k + 3 < 512 \<Longrightarrow> le32 (over a b) k = le32 a k"
  by (simp add: le32_def over_def)

section \<open>Directory entries\<close>

definition entry_matches :: "bytes \<Rightarrow> bytes \<Rightarrow> bool" where
  "entry_matches w d \<longleftrightarrow> d 0 \<noteq> 0xe5 \<and> d 11 \<noteq> 0x0f \<and> d 11 AND 0x08 = 0 \<and> d 11 AND 0x10 = 0 \<and> list_all (\<lambda>i. d i = w i) [0..<11]"

definition stops :: "bytes \<Rightarrow> bytes \<Rightarrow> bool" where
  "stops w d \<longleftrightarrow> d 0 = 0 \<or> entry_matches w d"

definition file_of :: "bytes \<Rightarrow> fat32_file" where
  "file_of d = \<lparr>first_cluster = push_bit 16 (ucast (le16 d 20)) OR ucast (le16 d 26), file_size = le32 d 28,
     file_position = 0, directory = 0\<rparr>"

definition lookup :: "bytes \<Rightarrow> bytes list \<Rightarrow> bytes option" where
  "lookup w ds = (case find (stops w) ds of None \<Rightarrow> None | Some d \<Rightarrow> if d 0 = 0 then None else Some d)"

text \<open>What a scan for the name \<open>w\<close> over the entries \<open>ds\<close> ends with.\<close>

definition scanned :: "bytes \<Rightarrow> bytes list \<Rightarrow> scan_out \<Rightarrow> scan \<Rightarrow> bool" where
  "scanned w ds out s \<longleftrightarrow>
     (case find (stops w) ds of None \<Rightarrow> (\<exists>i. s = Keep i)
      | Some d \<Rightarrow> s = (if d 0 = 0 then Done (-1) out else Done 0 (out\<lparr>so_found := file_of d\<rparr>)))"

lemma find_append: "find P (xs @ ys) = (case find P xs of None \<Rightarrow> find P ys | Some x \<Rightarrow> Some x)"
  by (induction xs) simp_all

lemma scanned_append:
  "scanned w xs out (Keep i) \<Longrightarrow> scanned w ys out s \<Longrightarrow> scanned w (xs @ ys) out s"
  "scanned w xs out (Done r out') \<Longrightarrow> scanned w (xs @ ys) out (Done r out')"
  by (auto simp: scanned_def find_append split: option.splits if_splits)

lemma scanned_Keep: "scanned w xs out (Keep i) \<Longrightarrow> scanned w xs out (Keep j)"
  by (auto simp: scanned_def split: option.splits if_splits)

lemma scan_entry_scanned: "scanned w [d] out (scan_entry (Some w) wi c d i out)"
  by (simp add: scanned_def stops_def entry_matches_def scan_entry_def file_of_def)

lemma scan_entries_scanned: "scanned w ds out (scan_entries (Some w) wi c ds i out)"
proof (induction ds arbitrary: i)
  case Nil
  then show ?case by (simp add: scanned_def)
next
  case (Cons d ds)
  show ?case
    using scan_entry_scanned [of w d out wi c i] Cons.IH scanned_append [of w "[d]" out]
    by (cases "scan_entry (Some w) wi c d i out") auto
qed

lemma scan_entry_cong:
  assumes "\<And>i. i < 32 \<Longrightarrow> d i = d' i"
  shows "scan_entry (Some w) wi c d k out = scan_entry (Some w) wi c d' k out"
proof -
  have "le16 d 20 = le16 d' 20" "le16 d 26 = le16 d' 26" "le32 d 28 = le32 d' 28" "d 0 = d' 0" "d 11 = d' 11"
    using assms by (simp_all add: le16_def le32_def)
  moreover have "list_all (\<lambda>i. d i = w i) [0..<11] = list_all (\<lambda>i. d' i = w i) [0..<11]"
    using assms by (intro list.pred_cong) auto
  ultimately show ?thesis by (simp add: scan_entry_def)
qed

lemma scan_entries_cong:
  "list_all2 (\<lambda>d d'. \<forall>i<32. d i = d' i) ds ds' \<Longrightarrow>
     scan_entries (Some w) wi c ds k out = scan_entries (Some w) wi c ds' k out"
proof (induction ds ds' arbitrary: k rule: list_all2_induct)
  case (Cons d ds d' ds')
  have "scan_entry (Some w) wi c d k out = scan_entry (Some w) wi c d' k out"
    using Cons.hyps(1) by (intro scan_entry_cong) blast
  with Cons.IH show ?case by (simp split: scan.splits)
qed simp

lemma scan_entries_over:
  "scan_entries (Some w) wi c (entries_of 512 (over a b)) k out = scan_entries (Some w) wi c (entries_of 512 a) k out"
  by (intro scan_entries_cong) (auto simp: entries_of_def list_all2_conv_all_nth over_def)

section \<open>Reading along a chain\<close>

context sector_store
begin

lemma fat_load_eq:
  assumes "inv h" "unat lba < cap"
  obtains h' where "fat_load blk lba (fs, h) = (0, fs\<lparr>fat_sector := over (contents h (unat lba)) (fat_sector fs)\<rparr>, h')"
    "inv h'" "contents h' = contents h"
proof -
  obtain h' where "block_read_sector blk lba (Some (fat_sector fs)) h =
      (0, Some (\<lambda>i. if i < 512 then contents h (unat lba) i else fat_sector fs i), h')"
    "inv h'" "contents h' = contents h"
    by (rule read_eq [OF assms])
  then show ?thesis
    by (intro that [of h']) (simp_all add: fat_load_def over_def [abs_def])
qed

lemma next_cluster_eq:
  assumes "inv h" "bytes_per_sector fs = 512" "fat_entry_lba fs c < cap"
  obtains b h' where "next_cluster blk c (fs, h) = (fat_next fs (contents h) c, fs\<lparr>fat_sector := b\<rparr>, h')"
    "inv h'" "contents h' = contents h"
proof -
  let ?l = "fat_lba fs + (c * 4) div 512"
  obtain h' where h': "fat_load blk ?l (fs, h) = (0, fs\<lparr>fat_sector := over (contents h (unat ?l)) (fat_sector fs)\<rparr>, h')"
    "inv h'" "contents h' = contents h"
    by (rule fat_load_eq [OF assms(1) assms(3) [unfolded fat_entry_lba_def]])
  have "le32 (over (contents h (unat ?l)) (fat_sector fs)) (4 * (unat c mod 128)) = le32 (contents h (unat ?l)) (4 * (unat c mod 128))"
    by (rule le32_over) (use mod_less_divisor [of 128 "unat c"] in linarith)
  then show ?thesis
    using h' by (intro that [OF _ h'(2,3)])
      (simp add: next_cluster_def Let_def assms(2) entry_offset fat_next_def fat_entry_lba_def)
qed

lemma skip_clusters_eq:
  assumes "inv h" "bytes_per_sector fs = 512" "fat_chain cap fs (contents h) cs c" "n \<le> length cs"
  obtains c' b h' where "skip_clusters blk n c (fs, h) = (c', fs\<lparr>fat_sector := b\<rparr>, h')"
    "fat_chain cap fs (contents h) (drop n cs) c'" "inv h'" "contents h' = contents h"
  using assms
proof (induction n arbitrary: c fs h cs thesis)
  case 0
  show ?case by (rule "0.prems"(1) [of c "fat_sector fs" h]) (use "0.prems"(2-) in simp_all)
next
  case (Suc n)
  obtain xs where cs: "cs = c # xs" using Suc.prems(4,5) by (cases cs) auto
  with Suc.prems(2-) have c: "valid_cluster c" "fat_entry_lba fs c < cap" "fat_chain cap fs (contents h) xs (fat_next fs (contents h) c)" by simp_all
  obtain b h1 where n1: "next_cluster blk c (fs, h) = (fat_next fs (contents h) c, fs\<lparr>fat_sector := b\<rparr>, h1)"
    "inv h1" "contents h1 = contents h"
    by (rule next_cluster_eq [OF Suc.prems(2,3) c(2)])
  have sub: "bytes_per_sector (fs\<lparr>fat_sector := b\<rparr>) = 512" "n \<le> length xs"
    "fat_chain cap (fs\<lparr>fat_sector := b\<rparr>) (contents h1) xs (fat_next fs (contents h) c)"
    using Suc.prems(3,5) c(3) cs n1(3) by simp_all
  obtain c' b' h' where n2: "skip_clusters blk n (fat_next fs (contents h) c) (fs\<lparr>fat_sector := b\<rparr>, h1) = (c', fs\<lparr>fat_sector := b\<rparr>\<lparr>fat_sector := b'\<rparr>, h')"
    "fat_chain cap (fs\<lparr>fat_sector := b\<rparr>) (contents h1) (drop n xs) c'" "inv h'" "contents h' = contents h1"
    by (rule Suc.IH [OF _ n1(2) sub(1,3,2)])
  show ?case
    by (rule Suc.prems(1) [of c' b' h']) (use n1 n2 c cs in simp_all)
qed

lemma scan_sectors_scanned:
  assumes "inv h" "bytes_per_sector fs = 512" "list_all (\<lambda>s. data_sector fs c s < cap) ss"
  obtains s b h' where "scan_sectors blk (Some w) wi n c ss i out (fs, h) = (s, fs\<lparr>fat_sector := b\<rparr>, h')"
    "scanned w (concat (map (\<lambda>s. entries_of 512 (contents h (data_sector fs c s))) ss)) out s"
    "inv h'" "contents h' = contents h"
  using assms
proof (induction ss arbitrary: fs h i thesis)
  case Nil
  show ?case by (rule Nil.prems(1) [of "Keep i" "fat_sector fs" h]) (use Nil.prems(2-) in \<open>simp_all add: scanned_def\<close>)
next
  case (Cons s ss)
  let ?es = "\<lambda>s. entries_of 512 (contents h (data_sector fs c s))"
  have lt: "unat (cluster_lba fs c + of_nat s) < cap" using Cons.prems(4) by (simp add: data_sector_def)
  obtain h1 where l: "fat_load blk (cluster_lba fs c + of_nat s) (fs, h) =
      (0, fs\<lparr>fat_sector := over (contents h (data_sector fs c s)) (fat_sector fs)\<rparr>, h1)" "inv h1" "contents h1 = contents h"
    using fat_load_eq [OF Cons.prems(2) lt, of fs] unfolding data_sector_def by blast
  let ?fs = "fs\<lparr>fat_sector := over (contents h (data_sector fs c s)) (fat_sector fs)\<rparr>"
  have sub: "bytes_per_sector ?fs = 512" "list_all (\<lambda>s. data_sector ?fs c s < cap) ss"
    using Cons.prems(3,4) by simp_all
  have first: "scanned w (?es s) out (scan_entries (Some w) wi n (?es s) i out)" by (rule scan_entries_scanned)
  show ?case
  proof (cases "scan_entries (Some w) wi n (?es s) i out")
    case (Done r out')
    then show ?thesis using first l Cons.prems(3)
      by (intro Cons.prems(1) [of "Done r out'" "fat_sector ?fs" h1]) (simp_all add: scan_entries_over scanned_append)
  next
    case (Keep i')
    obtain s' b h' where r: "scan_sectors blk (Some w) wi n c ss i' out (?fs, h1) = (s', ?fs\<lparr>fat_sector := b\<rparr>, h')"
      "scanned w (concat (map (\<lambda>s. entries_of 512 (contents h1 (data_sector ?fs c s))) ss)) out s'"
      "inv h'" "contents h' = contents h1"
      by (rule Cons.IH [OF _ l(2) sub])
    then show ?thesis using first l Keep Cons.prems(3)
      by (intro Cons.prems(1) [of s' b h']) (simp_all add: scan_entries_over scanned_append)
  qed
qed

lemma scan_clusters_scanned:
  assumes "inv h" "bytes_per_sector fs = 512" "fat_chain cap fs (contents h) cs c"
  obtains r out' b h' where "scan_clusters blk (Some w) wi n c i out (fs, h) = Some (r, out', fs\<lparr>fat_sector := b\<rparr>, h')"
    "scanned w (dir_entries fs (contents h) cs) out (Keep 0) \<and> r = -1 \<and> out' = out \<or>
     scanned w (dir_entries fs (contents h) cs) out (Done r out')"
    "inv h'" "contents h' = contents h"
  using assms
proof (induction cs arbitrary: c i fs h thesis)
  case Nil
  show ?case
    by (rule Nil.prems(1) [of "-1" out "fat_sector fs" h])
      (use Nil.prems(2-) in \<open>simp_all add: scanned_def dir_entries_def scan_clusters.simps\<close>)
next
  case (Cons x cs)
  note run = scan_clusters.simps [of blk "Some w" wi n c i out]
  have c: "x = c" "valid_cluster c" "fat_entry_lba fs c < cap" "fat_chain cap fs (contents h) cs (fat_next fs (contents h) c)"
    "list_all (\<lambda>s. data_sector fs c s < cap) [0..<unat (sectors_per_cluster fs)]"
    using Cons.prems(4) by simp_all
  let ?xs = "concat (map (\<lambda>s. entries_of 512 (contents h (data_sector fs c s))) [0..<unat (sectors_per_cluster fs)])"
  obtain s b1 h1 where s: "scan_sectors blk (Some w) wi n c [0..<unat (sectors_per_cluster fs)] i out (fs, h) = (s, fs\<lparr>fat_sector := b1\<rparr>, h1)"
    "scanned w ?xs out s" "inv h1" "contents h1 = contents h"
    by (rule scan_sectors_scanned [OF Cons.prems(2,3) c(5)])
  note app = dir_entries_Cons c(1)
  show ?case
  proof (cases s)
    case (Done r out')
    then show ?thesis using s c
      by (intro Cons.prems(1) [of r out' b1 h1]) (simp_all add: run app scanned_append)
  next
    case (Keep i')
    let ?fs = "fs\<lparr>fat_sector := b1\<rparr>" and ?c = "fat_next fs (contents h) c"
    have pre: "bytes_per_sector ?fs = 512" "fat_entry_lba ?fs c < cap" using Cons.prems(3) c(3) by simp_all
    obtain b2 h2 where n2: "next_cluster blk c (?fs, h1) = (fat_next ?fs (contents h1) c, ?fs\<lparr>fat_sector := b2\<rparr>, h2)"
      "inv h2" "contents h2 = contents h1"
      by (rule next_cluster_eq [OF s(3) pre])
    have ch: "fat_chain cap (?fs\<lparr>fat_sector := b2\<rparr>) (contents h2) cs ?c" using c(4) n2(3) s(4) by simp
    obtain r out' b3 h3 where n3: "scan_clusters blk (Some w) wi n ?c i' out (?fs\<lparr>fat_sector := b2\<rparr>, h2) =
        Some (r, out', ?fs\<lparr>fat_sector := b2\<rparr>\<lparr>fat_sector := b3\<rparr>, h3)"
      "scanned w (dir_entries (?fs\<lparr>fat_sector := b2\<rparr>) (contents h2) cs) out (Keep 0) \<and> r = -1 \<and> out' = out \<or>
       scanned w (dir_entries (?fs\<lparr>fat_sector := b2\<rparr>) (contents h2) cs) out (Done r out')"
      "inv h3" "contents h3 = contents h2"
      by (rule Cons.IH [OF _ n2(2) _ ch]) (use Cons.prems(3) in simp_all)
    have last_one: "FAT32_EOC \<le> ?c \<Longrightarrow> cs = [] \<and> \<not> valid_cluster ?c" using c(4)
      by (cases cs) (auto simp: valid_cluster_def FAT32_EOC_def FAT32_MAX_CLUSTER_def word_le_nat_alt)
    have step: "scan_clusters blk (Some w) wi n c i out (fs, h) =
        (if FAT32_EOC \<le> ?c then Some (-1, out, fs\<lparr>fat_sector := b2\<rparr>, h2)
         else scan_clusters blk (Some w) wi n ?c i' out (?fs\<lparr>fat_sector := b2\<rparr>, h2))"
      using s c n2 Keep by (simp add: run)
    show ?thesis
    proof (cases "FAT32_EOC \<le> ?c")
      case True
      then show ?thesis using s n2 Keep last_one step
        by (intro Cons.prems(1) [of "-1" out b2 h2]) (simp_all add: app scanned_Keep dir_entries_def)
    next
      case False
      show ?thesis
        by (rule Cons.prems(1) [of r out' b3 h3])
          (use False n2 n3 s step in \<open>simp_all add: app\<close>, metis Keep s(2) scanned_append(1))
    qed
  qed
qed

lemma read_sectors_step:
  fixes fs :: fat32
  assumes "inv h" "bytes_per_sector fs = 512" "data_sector fs (cs ! ci) s < cap" "s < unat (sectors_per_cluster fs)"
    and p: "p div 512 = ci * unat (sectors_per_cluster fs) + s" "unat (file_position f) = p" "p + (L - d) < 2 ^ 32"
    and d: "d < L" "unat done = d" "unat len = L"
  defines "n \<equiv> min (L - d) (512 - p mod 512)"
  obtains b h' where "read_sectors blk (cs ! ci) len (s # ss) (f, out, done, fs, h) =
      read_sectors blk (cs ! ci) len ss (f\<lparr>file_position := of_nat (p + n)\<rparr>,
        copy_bytes d n (\<lambda>i. file_byte fs (contents h) cs (p + i)) out,
        of_nat (d + n), fs\<lparr>fat_sector := b\<rparr>, h')" "inv h'" "contents h' = contents h"
proof -
  let ?b = "over (contents h (data_sector fs (cs ! ci) s)) (fat_sector fs)"
  obtain h1 where l: "fat_load blk (cluster_lba fs (cs ! ci) + of_nat s) (fs, h) = (0, fs\<lparr>fat_sector := ?b\<rparr>, h1)"
    "inv h1" "contents h1 = contents h"
    using fat_load_eq [OF assms(1) assms(3) [unfolded data_sector_def], of fs] unfolding data_sector_def by blast
  have "done < len" using d by (simp add: word_less_nat_alt)
  have off: "unat (file_position f mod 512) = p mod 512" using p by (simp add: unat_mod)
  have m: "p mod 512 < 512" by simp
  then have full: "unat (512 - file_position f mod 512) = 512 - p mod 512"
    using off by (subst unat_sub) (simp_all add: word_le_nat_alt)
  have left: "unat (len - done) = L - d"
    using d by (subst unat_sub) (simp_all add: word_le_nat_alt)
  define t where "t = (if len - done < 512 - file_position f mod 512 then len - done else 512 - file_position f mod 512)"
  have n: "unat t = n" using full left by (simp add: t_def n_def word_less_nat_alt)
  have pos: "file_position f + t = of_nat (p + n)" and don: "done + t = of_nat (d + n)"
    using n p(2) d(2) by (simp_all only: of_nat_add of_unat)
  have run: "read_sectors blk (cs ! ci) len (s # ss) (f, out, done, fs, h) =
      read_sectors blk (cs ! ci) len ss (f\<lparr>file_position := file_position f + t\<rparr>,
        copy_bytes (unat done) (unat t) (\<lambda>i. ?b (unat (file_position f mod 512) + i)) out, done + t, fs\<lparr>fat_sector := ?b\<rparr>, h1)"
    using l \<open>done < len\<close> assms(2) by (simp add: Let_def t_def)
  have out: "copy_bytes d n (\<lambda>i. ?b (p mod 512 + i)) out = copy_bytes d n (\<lambda>i. file_byte fs (contents h) cs (p + i)) out"
  proof (rule copy_bytes_cong)
    fix i assume "i < n"
    then have i: "p mod 512 + i < 512" using m by (auto simp: n_def)
    show "?b (p mod 512 + i) = file_byte fs (contents h) cs (p + i)"
      using i p(1) assms(4) by (simp add: over_def file_byte_def Let_def add_in_block)
  qed
  show ?thesis
    by (rule that [OF run [unfolded pos don n off d(2) out] l(2,3)])
qed

lemma read_sectors_done:
  "\<not> done < len \<Longrightarrow> read_sectors blk c len ss (f, out, done, st) = (None, f, out, done, st)"
  by (cases ss) simp_all

text \<open>
  Reading the part of a file that lies in one cluster. The file position is \<open>p\<close>, in sector \<open>s\<close> of
  the cluster with index \<open>ci\<close> of the file; \<open>d\<close> of the \<open>L\<close> bytes wanted have been read.
\<close>

lemma read_sectors_eq:
  fixes fs :: fat32
  defines "S \<equiv> unat (sectors_per_cluster fs)"
  assumes "inv h" "bytes_per_sector fs = 512" "list_all (\<lambda>s. data_sector fs (cs ! ci) s < cap) [0..<S]"
    "s \<le> S" "p div 512 = ci * S + s" "d \<le> L" "p + (L - d) < 2 ^ 32" "L < 2 ^ 32"
    "unat (file_position f) = p" "unat done = d" "unat len = L"
  obtains n b h' where "n = min (L - d) (Suc ci * S * 512 - p)"
    "read_sectors blk (cs ! ci) len [s..<S] (f, out, done, fs, h) =
       (None, f\<lparr>file_position := of_nat (p + n)\<rparr>,
        copy_bytes d n (\<lambda>i. file_byte fs (contents h) cs (p + i)) out,
        of_nat (d + n), fs\<lparr>fat_sector := b\<rparr>, h')"
    "inv h'" "contents h' = contents h"
  using assms(2-) unfolding assms(1)
proof (induction "unat (sectors_per_cluster fs) - s" arbitrary: s p d f out "done" fs h thesis)
  case 0
  then have s: "s = unat (sectors_per_cluster fs)" by simp
  have "Suc ci * unat (sectors_per_cluster fs) = p div 512" using "0.prems"(6) s by (simp add: algebra_simps)
  then have z: "Suc ci * unat (sectors_per_cluster fs) * 512 - p = 0"
    using div_times_less_eq_dividend [of p 512] by simp
  show ?case
    by (rule "0.prems"(1) [of 0 "fat_sector fs" h]) (use z "0.prems"(2-) s in \<open>simp_all add: position_same of_unat\<close>)
next
  case (Suc x)
  let ?S = "unat (sectors_per_cluster fs)"
  have s: "s < ?S" "[s..<?S] = s # [Suc s..<?S]" using Suc.hyps(2) by (simp_all add: upt_conv_Cons)
  show ?case
  proof (cases "d < L")
    case False
    then have "\<not> done < len" "L - d = 0" using Suc.prems(7,11,12) by (simp_all add: word_less_nat_alt)
    then show ?thesis
      by (intro Suc.prems(1) [of 0 "fat_sector fs" h]) (use Suc.prems(2-) in \<open>simp_all add: read_sectors_done position_same of_unat\<close>)
  next
    case True
    define n where "n = min (L - d) (512 - p mod 512)"
    let ?f = "f\<lparr>file_position := of_nat (p + n)\<rparr>"
      and ?out = "copy_bytes d n (\<lambda>i. file_byte fs (contents h) cs (p + i)) out"
    have cap: "data_sector fs (cs ! ci) s < cap" using Suc.prems(4) s(1) by (simp add: list_all_iff)
    obtain b h1 where st: "read_sectors blk (cs ! ci) len (s # [Suc s..<?S]) (f, out, done, fs, h) =
        read_sectors blk (cs ! ci) len [Suc s..<?S] (?f, ?out, of_nat (d + n), fs\<lparr>fat_sector := b\<rparr>, h1)"
      "inv h1" "contents h1 = contents h"
      unfolding n_def by (rule read_sectors_step [OF Suc.prems(2,3) cap s(1) Suc.prems(6,10,8) True Suc.prems(11,12)])
    note p = next_sector [of p]
    have le: "Suc (p div 512) * 512 \<le> Suc ci * ?S * 512" using Suc.prems(6) s(1) by simp
    show ?thesis
    proof (cases "L - d \<le> 512 - p mod 512")
      case True
      then have n: "n = L - d" "n = min (L - d) (Suc ci * ?S * 512 - p)" using p le by (simp_all add: n_def)
      have "\<not> (of_nat (d + n) :: u32) < len" using n(1) Suc.prems(7,9,12) by (simp add: word_less_nat_alt unat_of_nat)
      then show ?thesis using st s(2) by (intro Suc.prems(1) [OF n(2), of b h1]) (simp_all add: read_sectors_done)
    next
      case False
      then have n: "n = 512 - p mod 512" "p + n = Suc (p div 512) * 512" using p by (simp_all add: n_def)
      have u: "unat (of_nat (p + n) :: u32) = p + n" "unat (of_nat (d + n) :: u32) = d + n"
        by (rule unat_of_nat_small, use False n(1) Suc.prems(8,9) True in linarith)+
      have dn: "d + n \<le> L" "p + n + (L - (d + n)) < 2 ^ 32" "x = unat (sectors_per_cluster fs) - Suc s"
        using False n(1) Suc.prems(8) Suc.hyps(2) by linarith+
      have "(p + n) div 512 = ci * ?S + Suc s" using Suc.prems(6) by (simp only: n(2)) simp
      then have sub: "x = unat (sectors_per_cluster (fs\<lparr>fat_sector := b\<rparr>)) - Suc s" "bytes_per_sector (fs\<lparr>fat_sector := b\<rparr>) = 512"
        "list_all (\<lambda>s. data_sector (fs\<lparr>fat_sector := b\<rparr>) (cs ! ci) s < cap) [0..<unat (sectors_per_cluster (fs\<lparr>fat_sector := b\<rparr>))]"
        "Suc s \<le> unat (sectors_per_cluster (fs\<lparr>fat_sector := b\<rparr>))"
        "(p + n) div 512 = ci * unat (sectors_per_cluster (fs\<lparr>fat_sector := b\<rparr>)) + Suc s"
        "unat (file_position ?f) = p + n"
        using dn(3) Suc.prems(3,4) s(1) u(1) by (simp_all del: of_nat_add)
      obtain m b' h' where r: "m = min (L - (d + n)) (Suc ci * unat (sectors_per_cluster (fs\<lparr>fat_sector := b\<rparr>)) * 512 - (p + n))"
        "read_sectors blk (cs ! ci) len [Suc s..<unat (sectors_per_cluster (fs\<lparr>fat_sector := b\<rparr>))] (?f, ?out, of_nat (d + n), fs\<lparr>fat_sector := b\<rparr>, h1) =
           (None, ?f\<lparr>file_position := of_nat (p + n + m)\<rparr>,
            copy_bytes (d + n) m (\<lambda>i. file_byte (fs\<lparr>fat_sector := b\<rparr>) (contents h1) cs (p + n + i)) ?out,
            of_nat (d + n + m), fs\<lparr>fat_sector := b\<rparr>\<lparr>fat_sector := b'\<rparr>, h')" "inv h'" "contents h' = contents h1"
        by (rule Suc.hyps(1) [OF sub(1) _ st(2) sub(2-5) dn(1,2) Suc.prems(9) sub(6) u(2) Suc.prems(12)])
      have "copy_bytes (d + n) m (\<lambda>i. file_byte fs (contents h) cs (p + n + i)) ?out =
          copy_bytes d (n + m) (\<lambda>i. file_byte fs (contents h) cs (p + i)) out"
        by (simp add: add.assoc copy_bytes_append [of d n m "\<lambda>i. file_byte fs (contents h) cs (p + i)"])
      moreover have "n + min (L - (d + n)) (E - (p + n)) = min (L - d) (E - p)" if "p + n \<le> E" for E
        using that dn(1) by linarith
      then have "n + m = min (L - d) (Suc ci * ?S * 512 - p)" using r(1) n(2) le by simp
      ultimately show ?thesis using r(2-) st s(2)
        by (intro Suc.prems(1) [of "n + m" b' h']) (simp_all add: add.assoc)
    qed
  qed
qed

lemma read_clusters_eq:
  fixes fs :: fat32
  assumes "inv h" "fat_ready fs" "fat_chain cap fs (contents h) (drop ci cs) c"
    "d < L \<Longrightarrow> p div 512 div unat (sectors_per_cluster fs) = ci" "d \<le> L" "p + (L - d) < 2 ^ 32" "L < 2 ^ 32"
    "p + (L - d) \<le> length cs * unat (sectors_per_cluster fs) * 512"
    "unat (file_position f) = p" "unat done = d" "unat len = L"
  obtains b h' where "read_clusters blk len c (f, out, done, fs, h) =
      Some (sint len, f\<lparr>file_position := of_nat (p + (L - d))\<rparr>,
        copy_bytes d (L - d) (\<lambda>i. file_byte fs (contents h) cs (p + i)) out, fs\<lparr>fat_sector := b\<rparr>, h')"
    "inv h'" "contents h' = contents h"
  using assms
proof (induction "length cs - ci" arbitrary: ci c p d f out "done" fs h thesis rule: less_induct)
  case less
  let ?S = "unat (sectors_per_cluster fs)"
  have vol: "bytes_per_sector fs = 512" "0 < ?S" using less.prems(3) by (simp_all add: fat_ready_def unat_gt_0)
  show ?case
  proof (cases "d < L")
    case False
    then have "done = len" "d = L" using less.prems(6,11,12) by (simp_all add: word_unat_eq_iff)
    then show ?thesis
      by (intro less.prems(1) [of "fat_sector fs" h])
        (use less.prems(2-) in \<open>simp_all add: read_clusters.simps position_same\<close>)
  next
    case True
    define s where "s = p div 512 mod ?S"
    have s: "s < ?S" "p div 512 = ci * ?S + s" using less.prems(5) [OF True] vol(2) div_mult_mod_eq [of "p div 512" ?S]
      by (simp_all add: s_def)
    have "p div 512 div ?S < length cs"
      using True less.prems(9) vol(2) by (simp add: less_mult_imp_div_less div_mult2_eq [symmetric] mult.commute mult.left_commute)
    then have ci: "drop ci cs = cs ! ci # drop (Suc ci) cs" "ci < length cs"
      using less.prems(5) [OF True] by (simp_all add: Cons_nth_drop_Suc)
    have c: "c = cs ! ci" "valid_cluster c" "fat_entry_lba fs c < cap" "list_all (\<lambda>s. data_sector fs (cs ! ci) s < cap) [0..<?S]"
      "fat_chain cap fs (contents h) (drop (Suc ci) cs) (fat_next fs (contents h) c)"
      using less.prems(4) unfolding ci(1) by simp_all
    obtain n b1 h1 where n: "n = min (L - d) (Suc ci * ?S * 512 - p)"
      and rs: "read_sectors blk (cs ! ci) len [s..<?S] (f, out, done, fs, h) = (None, f\<lparr>file_position := of_nat (p + n)\<rparr>,
        copy_bytes d n (\<lambda>i. file_byte fs (contents h) cs (p + i)) out, of_nat (d + n), fs\<lparr>fat_sector := b1\<rparr>, h1)"
      "inv h1" "contents h1 = contents h"
      by (rule read_sectors_eq [OF less.prems(2) vol(1) c(4) less_imp_le [OF s(1)] s(2) less.prems(6-8,10-12)])
    obtain b2 h2 where nx: "next_cluster blk c (fs\<lparr>fat_sector := b1\<rparr>, h1) =
        (fat_next (fs\<lparr>fat_sector := b1\<rparr>) (contents h1) c, fs\<lparr>fat_sector := b1\<rparr>\<lparr>fat_sector := b2\<rparr>, h2)" "inv h2" "contents h2 = contents h1"
      by (rule next_cluster_eq [OF rs(2), of "fs\<lparr>fat_sector := b1\<rparr>" c]) (use vol c(3) in simp_all)
    let ?f = "f\<lparr>file_position := of_nat (p + n)\<rparr>" and ?fs = "fs\<lparr>fat_sector := b2\<rparr>" and ?c = "fat_next fs (contents h) c"
      and ?out = "copy_bytes d n (\<lambda>i. file_byte fs (contents h) cs (p + i)) out"
    have s_unat: "unat (file_position f div 512 mod sectors_per_cluster fs) = s"
      using less.prems(10) by (simp add: s_def unat_mod unat_div)
    have step: "read_clusters blk len c (f, out, done, fs, h) = read_clusters blk len ?c (?f, ?out, of_nat (d + n), ?fs, h2)"
      using True less.prems(11,12) c(1,2) rs nx s_unat vol(1)
      by (subst read_clusters.simps) (simp add: word_less_nat_alt del: of_nat_add)
    have up: "p < Suc ci * ?S * 512" using s dividend_less_times_div [of 512 p] by simp
    have le: "n \<le> L - d" "d + n < L \<Longrightarrow> p + n = Suc ci * ?S * 512" using n up by linarith+
    have u: "unat (of_nat (p + n) :: u32) = p + n" "unat (of_nat (d + n) :: u32) = d + n"
      by (rule unat_of_nat_small, use le(1) less.prems(6-8) in linarith)+
    have eq: "p + n + (L - (d + n)) = p + (L - d)" "d + n \<le> L" using le(1) True by linarith+
    have sub: "length cs - Suc ci < length cs - ci" "fat_ready ?fs" "fat_chain cap ?fs (contents h2) (drop (Suc ci) cs) ?c"
      "d + n < L \<Longrightarrow> (p + n) div 512 div unat (sectors_per_cluster ?fs) = Suc ci"
      "p + n + (L - (d + n)) \<le> length cs * unat (sectors_per_cluster ?fs) * 512" "p + n + (L - (d + n)) < 2 ^ 32"
      "unat (file_position ?f) = p + n"
      using ci(2) less.prems(3,7,9) c(5) nx(3) rs(3) le(2) vol(2) u(1) unfolding eq by (simp_all del: of_nat_add)
    obtain b h' where r: "read_clusters blk len ?c (?f, ?out, of_nat (d + n), ?fs, h2) =
        Some (sint len, ?f\<lparr>file_position := of_nat (p + n + (L - (d + n)))\<rparr>,
          copy_bytes (d + n) (L - (d + n)) (\<lambda>i. file_byte ?fs (contents h2) cs (p + n + i)) ?out, ?fs\<lparr>fat_sector := b\<rparr>, h')"
      "inv h'" "contents h' = contents h2"
      by (rule less.hyps [OF sub(1) _ nx(2) sub(2-4) eq(2) sub(6) less.prems(8) sub(5,7) u(2) less.prems(12)])
    have "copy_bytes (d + n) (L - (d + n)) (\<lambda>i. file_byte fs (contents h) cs (p + n + i)) ?out =
        copy_bytes d (n + (L - (d + n))) (\<lambda>i. file_byte fs (contents h) cs (p + i)) out"
      by (simp add: add.assoc copy_bytes_append [of d n _ "\<lambda>i. file_byte fs (contents h) cs (p + i)"])
    then show ?thesis
      by (intro less.prems(1) [of b h']) (use r nx(3) rs(3) step eq in \<open>simp_all del: of_nat_add\<close>)
  qed
qed

lemma fat32_read_file_eq:
  fixes fs :: fat32 and f :: fat32_file and len :: u32
  assumes "inv h" "fat_ready fs" "fat_chain cap fs (contents h) cs (first_cluster f)" "directory f = 0"
    "unat (file_size f) \<le> length cs * unat (sectors_per_cluster fs) * 512"
  defines "p \<equiv> unat (file_position f)"
  defines "n \<equiv> min (unat len) (unat (file_size f) - p)"
  obtains b h' where "fat32_read_file blk (Some f) (Some out) len (fs, h) =
      Some (sint (of_nat n :: u32), Some (f\<lparr>file_position := of_nat (p + n)\<rparr>),
        Some (copy_bytes 0 n (\<lambda>i. file_byte fs (contents h) cs (p + i)) out), fs\<lparr>fat_sector := b\<rparr>, h')"
    "inv h'" "contents h' = contents h"
proof (cases "file_size f \<le> file_position f")
  case True
  then have "n = 0" by (simp add: n_def p_def word_le_nat_alt)
  then show ?thesis using True assms(1)
    by (intro that [of "fat_sector fs" h]) (simp_all add: fat32_read_file_def p_def)
next
  case False
  let ?S = "unat (sectors_per_cluster fs)"
  define l where "l = (if file_size f - file_position f < len then file_size f - file_position f else len)"
  have sz: "unat (file_size f - file_position f) = unat (file_size f) - p" "p < unat (file_size f)"
    using False by (simp_all add: p_def unat_sub word_le_nat_alt)
  have pos: "unat (file_position f) = p" by (simp add: p_def)
  have l: "unat l = n" using sz(1) by (simp add: l_def n_def word_less_nat_alt)
  have vol: "bytes_per_sector fs = 512" "0 < ?S" "mounted fs" using assms(2) by (simp_all add: fat_ready_def unat_gt_0)
  have small: "unat (file_size f) < 2 ^ 32" using unsigned_less [of "file_size f"] by simp
  have pn: "p + n \<le> unat (file_size f)" "n < 2 ^ 32" using sz(2) small by (simp_all add: n_def)
  have "unat (sectors_per_cluster fs * 512) = ?S * 512"
    using assms(2) by (subst unat_mult_lem [THEN iffD1]) (simp_all add: fat_ready_def word_le_nat_alt)
  then have skip: "unat (file_position f div (sectors_per_cluster fs * 512)) = p div 512 div ?S"
    by (simp add: unat_div p_def div_mult2_eq [symmetric] mult.commute)
  have "p div 512 div ?S < length cs"
    using sz(2) assms(5) by (simp add: less_mult_imp_div_less div_mult2_eq [symmetric] mult.commute mult.left_commute)
  then have "p div 512 div ?S \<le> length cs" by simp
  then obtain c b1 h1 where sk: "skip_clusters blk (p div 512 div ?S) (first_cluster f) (fs, h) = (c, fs\<lparr>fat_sector := b1\<rparr>, h1)"
    "fat_chain cap fs (contents h) (drop (p div 512 div ?S) cs) c" "inv h1" "contents h1 = contents h"
    by (rule skip_clusters_eq [OF assms(1) vol(1) assms(3)])
  let ?fs = "fs\<lparr>fat_sector := b1\<rparr>"
  have sub: "fat_ready ?fs" "fat_chain cap ?fs (contents h1) (drop (p div 512 div ?S) cs) c"
    "p div 512 div unat (sectors_per_cluster ?fs) = p div 512 div ?S" "p + (n - 0) < 2 ^ 32"
    "p + (n - 0) \<le> length cs * unat (sectors_per_cluster ?fs) * 512"
    using assms(2,5) sk pn(1) small by simp_all
  obtain b h' where r: "read_clusters blk l c (f, out, 0, ?fs, h1) =
      Some (sint l, f\<lparr>file_position := of_nat (p + (n - 0))\<rparr>,
        copy_bytes 0 (n - 0) (\<lambda>i. file_byte ?fs (contents h1) cs (p + i)) out, ?fs\<lparr>fat_sector := b\<rparr>, h')"
    "inv h'" "contents h' = contents h1"
    by (rule read_clusters_eq [OF sk(3) sub(1-3) _ sub(4) pn(2) sub(5) pos _ l, of 0]) simp_all
  have "fat32_read_file blk (Some f) (Some out) len (fs, h) =
      map_option (\<lambda>(r, f, out, st). (r, Some f, Some out, st)) (read_clusters blk l c (f, out, 0, ?fs, h1))"
    using False vol assms(4) skip sk(1) by (simp add: fat32_read_file_def Let_def l_def)
  then show ?thesis
    by (intro that [of b h']) (use r sk(4) of_unat [OF l] in \<open>simp_all del: of_nat_add\<close>)
qed

lemma fat32_open_eq:
  assumes "inv h" "fat_ready fs" "fat_chain cap fs (contents h) cs (root_cluster fs)" "dropWhile (\<lambda>c. c = 0x2f) path = name" "name \<noteq> []"
  obtains b h' where "fat32_open blk (Some path) (Some f) (fs, h) =
      Some (case lookup (make_83 name (\<lambda>_. 0)) (dir_entries fs (contents h) cs) of
              None \<Rightarrow> (-1, Some f, fs\<lparr>fat_sector := b\<rparr>, h')
            | Some d \<Rightarrow> (0, Some (file_of d), fs\<lparr>fat_sector := b\<rparr>, h'))" "inv h'" "contents h' = contents h"
proof -
  let ?w = "make_83 name (\<lambda>_. 0)" and ?out = "\<lparr>so_found = f, so_name = (\<lambda>_. 0), so_size = None\<rparr>"
  have vol: "bytes_per_sector fs = 512" "mounted fs" using assms(2) by (simp_all add: fat_ready_def)
  obtain r out' b h' where sc: "scan_clusters blk (Some ?w) 0 0 (root_cluster fs) 0 ?out (fs, h) = Some (r, out', fs\<lparr>fat_sector := b\<rparr>, h')"
    "scanned ?w (dir_entries fs (contents h) cs) ?out (Keep 0) \<and> r = -1 \<and> out' = ?out \<or>
     scanned ?w (dir_entries fs (contents h) cs) ?out (Done r out')" "inv h'" "contents h' = contents h"
    by (rule scan_clusters_scanned [OF assms(1) vol(1) assms(3)])
  have "(r, so_found out') = (case lookup ?w (dir_entries fs (contents h) cs) of None \<Rightarrow> (-1, f) | Some d \<Rightarrow> (0, file_of d))"
    using sc(2) by (auto simp: scanned_def lookup_def split: option.splits if_splits)
  moreover have "fat32_open blk (Some path) (Some f) (fs, h) = Some (r, Some (so_found out'), fs\<lparr>fat_sector := b\<rparr>, h')"
    using sc(1) vol(2) assms(4,5) by (simp add: fat32_open_def scan_root_def Let_def)
  ultimately show ?thesis using sc(3,4)
    by (intro that [of b h']) (simp_all split: option.splits)
qed

lemma ucast_byte_le: "(ucast b :: u32) \<le> 255" for b :: u8
proof -
  have "unat b < 256" using unsigned_less [of b, where ?'a = nat] by simp
  then show ?thesis by (simp add: word_le_nat_alt unsigned_ucast_eq take_bit_nat_eq_self)
qed

text \<open>Mounting succeeds only on a volume the other operations can work with.\<close>

lemma fat32_mount_ready:
  "fat32_mount blk (fs, h) = (0, fs', h') \<Longrightarrow> fat_ready fs'"
  by (auto simp: fat32_mount_def fat_ready_def Let_def ucast_byte_le split: if_splits prod.splits)

end

section \<open>An example volume\<close>

text \<open>
  A volume with one sector per cluster: the FAT in sector 1, the root directory in sector 2 (cluster
  2), holding the file \<open>A.TXT\<close> of 600 bytes in the clusters 3 and 4.
\<close>

definition fat_example :: fat32 where
  "fat_example = \<lparr>fat_sector = (\<lambda>_. 0), partition_lba = 0, fat_lba = 1, data_lba = 2, sectors_per_cluster = 1,
     bytes_per_sector = 512, fat_size = 1, root_cluster = 2, mounted = True\<rparr>"

definition fat_disk :: "nat \<Rightarrow> bytes" where
  "fat_disk k i =
     (if k = 1 then (if i div 4 = 2 \<or> i div 4 = 4 then 0xff else if i = 12 then 4 else 0)
      else if k = 2 then (if i = 0 then 0x41 else if i < 8 then 0x20 else if i = 8 \<or> i = 10 then 0x54 else if i = 9 then 0x58
                          else if i = 26 then 3 else if i = 28 then 0x58 else if i = 29 then 2 else 0)
      else if k = 3 then 7 else if k = 4 then 9 else 0)"

definition file_example :: fat32_file where
  "file_example = \<lparr>first_cluster = 3, file_size = 600, file_position = 0, directory = 0\<rparr>"

lemma fat_example_simps:
  "fat_ready fat_example" "ata_ready early_ignored (drive_ports early_ignored) (\<lambda>d. d) 2048 (True, drive_example fat_disk)"
  "ata_contents (\<lambda>d. d) (True, drive_example fat_disk) = fat_disk" "sectors_per_cluster fat_example = 1"
  using drive_example_ready [of fat_disk]
  by (simp_all add: fat_ready_def fat_example_def ata_contents_def drive_example_def)

lemma fat_example_chains:
  "fat_chain 2048 fat_example fat_disk [2] 2" "fat_chain 2048 fat_example fat_disk [3, 4] 3"
  by (simp_all add: fat_example_def fat_disk_def fat_next_def fat_entry_lba_def data_sector_def cluster_lba_def
      valid_cluster_def le32_def FAT32_MAX_CLUSTER_def)

lemma fat_example_lookup:
  "lookup (make_83 [0x61, 0x2e, 0x74, 0x78, 0x74] (\<lambda>_. 0)) (dir_entries fat_example fat_disk [2]) = Some (fat_disk 2)"
  "file_of (fat_disk 2) = file_example"
proof -
  have "[0..<16] = 0 # [1..<16 :: nat]" by (simp add: upt_rec)
  then have "dir_entries fat_example fat_disk [2] = fat_disk 2 # map (\<lambda>e i. fat_disk 2 (32 * e + i)) [1..<16]"
    by (simp add: dir_entries_def entries_of_def data_sector_def cluster_lba_def fat_example_def)
  moreover have "entry_matches (make_83 [0x61, 0x2e, 0x74, 0x78, 0x74] (\<lambda>_. 0)) (fat_disk 2)"
    by (simp add: entry_matches_def make_83_def upcase_def fat_disk_def upt_rec)
  moreover have "fat_disk 2 0 \<noteq> 0" by (simp add: fat_disk_def)
  ultimately show "lookup (make_83 [0x61, 0x2e, 0x74, 0x78, 0x74] (\<lambda>_. 0)) (dir_entries fat_example fat_disk [2]) = Some (fat_disk 2)"
    by (simp add: lookup_def stops_def)
  show "file_of (fat_disk 2) = file_example"
    by (simp add: file_of_def file_example_def fat_disk_def le16_def le32_def)
qed

section \<open>Properties\<close>

text \<open>C31: On a mounted volume over any block device that stores sectors, \<open>fat32_open\<close> of a path ends, reads
  without changing the disk, and finds exactly the first regular entry of the root directory (along its
  cluster chain, before the end mark) with the 8.3 form of the name, returning its first cluster and size at
  position 0; without such an entry it returns -1 and leaves the file alone.\<close>

theorem fat32_open_correct:
  assumes "sector_store blk ok contents cap" "ok h" "fat_ready fs" "fat_chain cap fs (contents h) cs (root_cluster fs)"
    and "dropWhile (\<lambda>c. c = 0x2f) path = name" "name \<noteq> []"
  shows "\<exists>b h'. ok h' \<and> contents h' = contents h \<and>
    fat32_open blk (Some path) (Some f) (fs, h) =
      Some (case lookup (make_83 name (\<lambda>_. 0)) (dir_entries fs (contents h) cs) of
              None \<Rightarrow> (-1, Some f, fs\<lparr>fat_sector := b\<rparr>, h')
            | Some d \<Rightarrow> (0, Some (file_of d), fs\<lparr>fat_sector := b\<rparr>, h'))"
  by (rule sector_store.fat32_open_eq [OF assms]) blast

theorem fat32_open_correct_witness:
  "\<exists>b h'. fat32_open (ata_blocks early_ignored) (Some [0x2f, 0x61, 0x2e, 0x74, 0x78, 0x74]) (Some (file_example\<lparr>first_cluster := 0\<rparr>))
       (fat_example, True, drive_example fat_disk) = Some (0, Some file_example, fat_example\<lparr>fat_sector := b\<rparr>, h')"
proof -
  have ch: "fat_chain 2048 fat_example (ata_contents (\<lambda>d. d) (True, drive_example fat_disk)) [2] (root_cluster fat_example)"
    unfolding fat_example_simps using fat_example_chains(1) by (simp add: fat_example_def)
  show ?thesis
    using fat32_open_correct [OF ata_disk.sector_store_axioms fat_example_simps(2,1) ch,
      of "[0x2f, 0x61, 0x2e, 0x74, 0x78, 0x74]" "[0x61, 0x2e, 0x74, 0x78, 0x74]" "file_example\<lparr>first_cluster := 0\<rparr>"]
    by (auto simp: fat_example_simps fat_example_lookup)
qed

text \<open>C32: On a mounted volume over any block device that stores sectors, \<open>fat32_read_file\<close> ends and copies
  to the buffer exactly the bytes of the file from its position on, as many as were asked for or are left,
  returns their number and advances the position by it; the disk is unchanged.\<close>

theorem fat32_read_file_correct:
  assumes "sector_store blk ok contents cap" "ok h" "fat_ready fs" "fat_chain cap fs (contents h) cs (first_cluster f)"
    and "directory f = 0" "unat (file_size f) \<le> length cs * unat (sectors_per_cluster fs) * 512"
    and "n = min (unat len) (unat (file_size f) - unat (file_position f))"
  shows "\<exists>b h'. ok h' \<and> contents h' = contents h \<and>
    fat32_read_file blk (Some f) (Some out) len (fs, h) =
      Some (sint (of_nat n :: u32), Some (f\<lparr>file_position := file_position f + of_nat n\<rparr>),
        Some (copy_bytes 0 n (\<lambda>i. file_byte fs (contents h) cs (unat (file_position f) + i)) out), fs\<lparr>fat_sector := b\<rparr>, h')"
  unfolding assms(7)
  by (rule sector_store.fat32_read_file_eq [OF assms(1-6), where len = len and out = out]) auto

theorem fat32_read_file_correct_witness:
  "\<exists>b h'. fat32_read_file (ata_blocks early_ignored) (Some (file_example\<lparr>file_position := 500\<rparr>)) (Some (\<lambda>_. 0)) 1000
       (fat_example, True, drive_example fat_disk) =
     Some (100, Some (file_example\<lparr>file_position := 600\<rparr>), Some (\<lambda>i. if i < 12 then 7 else if i < 100 then 9 else 0),
       fat_example\<lparr>fat_sector := b\<rparr>, h')"
proof -
  have ch: "fat_chain 2048 fat_example (ata_contents (\<lambda>d. d) (True, drive_example fat_disk)) [3, 4]
      (first_cluster (file_example\<lparr>file_position := 500\<rparr>))"
    unfolding fat_example_simps using fat_example_chains(2) by (simp add: file_example_def del: fat_chain.simps)
  have bytes: "copy_bytes 0 100 (\<lambda>i. file_byte fat_example fat_disk [3, 4] (500 + i)) (\<lambda>_. 0) =
      (\<lambda>i. if i < 12 then 7 else if i < 100 then 9 else 0)"
    by (auto simp: fun_eq_iff copy_bytes_def file_byte_def fat_example_def data_sector_def cluster_lba_def fat_disk_def Let_def
        nth_Cons' less_Suc_eq_0_disj)
  show ?thesis
    using fat32_read_file_correct [OF ata_disk.sector_store_axioms fat_example_simps(2,1) ch, of 100 1000 "\<lambda>_. 0"]
    by (simp add: file_example_def fat_example_simps bytes) blast
qed

end
