(* ===== verification/Vfs_Props.thy ===== *)
theory Vfs_Props
  imports Vfs Ata_Props
begin

text \<open>
  Correctness of the virtual file system: over a device that keeps the contract \<open>sector_store\<close>, the
  raw descriptor is a byte stream over the sectors of the disk; and a process works on the descriptors of
  its own slot only.
\<close>

section \<open>Descriptor tables\<close>

lemma slot_for_pid_bound: "slot_for_pid p < 32"
  by (simp add: slot_for_pid_def Let_def VFS_MAX_PROCESSES_def word_less_nat_alt)

lemma upd_fd_table [simp]: "vfs_table (upd_fd i f v) j = (if j = i then f (vfs_table v i) else vfs_table v j)"
  by (simp add: vfs_table_def upd_fd_def upd_file_def)

lemma upd_fd_simps [simp]:
  "active_pid (upd_fd i f v) = active_pid v" "vfs_sector (upd_fd i f v) = vfs_sector v"
  "vfs_table (v\<lparr>vfs_sector := b\<rparr>) = vfs_table v"
  "upd_fd i f (v\<lparr>vfs_sector := b\<rparr>) = (upd_fd i f v)\<lparr>vfs_sector := b\<rparr>"
  "q \<noteq> slot_for_pid (active_pid v) \<Longrightarrow> files (upd_fd i f v) q = files v q"
  by (simp_all add: upd_fd_def upd_file_def vfs_table_def fun_eq_iff)

lemma raw_pos_simps [simp]:
  "raw_pos (v\<lparr>vfs_sector := b\<rparr>) = raw_pos v" "raw_pos (raw_advance n v) = raw_pos v + n"
  "raw_advance n (v\<lparr>vfs_sector := b\<rparr>) = (raw_advance n v)\<lparr>vfs_sector := b\<rparr>"
  by (simp_all add: raw_pos_def raw_advance_def)

lemma raw_advance_add: "raw_advance m (raw_advance n v) = raw_advance (n + m) v"
  by (simp add: raw_advance_def upd_fd_def upd_file_def add.assoc)

lemma raw_advance_0 [simp]: "raw_advance 0 v = v"
  by (simp add: raw_advance_def upd_fd_def upd_file_def)

section \<open>The raw device as a stream\<close>

definition stream :: "(nat \<Rightarrow> bytes) \<Rightarrow> nat \<Rightarrow> u8" where
  "stream m k = m (k div 512) (k mod 512)"

lemma raw_round:
  assumes "unat (pos :: u32) = p" "unat done = d" "unat n = N" "d < N" "p + (N - d) \<le> cap * 512"
  defines "t \<equiv> unat (raw_take (n - done) pos)"
  shows "t = min (N - d) (512 - p mod 512)" "done < n" "unat (pos div 512) = p div 512" "unat (pos mod 512) = p mod 512"
    "p div 512 < cap" "0 < t" "d + t \<le> N" "p mod 512 + t \<le> 512"
proof -
  show "done < n" using assms by (simp add: word_less_nat_alt)
  show "unat (pos div 512) = p div 512" using assms(1) by (simp add: unat_div)
  show m: "unat (pos mod 512) = p mod 512" using assms(1) by (simp add: unat_mod)
  have lt: "p mod 512 < 512" by simp
  have f: "unat (512 - pos mod 512) = 512 - p mod 512"
    using m lt by (subst unat_sub) (simp_all add: word_le_nat_alt)
  have l: "unat (n - done) = N - d" using assms(2-4) by (subst unat_sub) (simp_all add: word_le_nat_alt)
  show t: "t = min (N - d) (512 - p mod 512)" using f l by (simp add: t_def raw_take_def word_less_nat_alt)
  show "p div 512 < cap" using assms(4,5) by (intro less_mult_imp_div_less) simp
  show "0 < t" "d + t \<le> N" "p mod 512 + t \<le> 512" using t assms(4) lt by simp_all
qed

lemma raw_round_next:
  assumes "unat (pos :: u32) = p" "unat done = d" "unat n = N" "d < N" "p + (N - d) \<le> cap * 512" "p + (N - d) < 2 ^ 32"
  defines "t \<equiv> raw_take (n - done) pos"
  shows "unat (pos + t) = p + unat t" "unat (done + t) = d + unat t"
proof -
  note r = raw_round [OF assms(1-5), folded t_def]
  have "unat n < 2 ^ 32" using unsigned_less [of n, where ?'a = nat] by simp
  then have "p + unat t < 2 ^ 32" "d + unat t < 2 ^ 32" using assms(3,4,6) r(7) by linarith+
  then show "unat (pos + t) = p + unat t" "unat (done + t) = d + unat t"
    using assms(1,2) by (simp_all add: unat_word_ariths)
qed

context sector_store
begin

lemma raw_load_eq:
  assumes "inv h" "unat lba < cap"
  obtains b h' where "raw_load blk lba (v, h) = (0, v\<lparr>vfs_sector := b\<rparr>, h')" "\<forall>i<512. b i = contents h (unat lba) i"
    "inv h'" "contents h' = contents h"
proof -
  obtain h' where "block_read_sector blk lba (Some (vfs_sector v)) h =
      (0, Some (\<lambda>i. if i < 512 then contents h (unat lba) i else vfs_sector v i), h')" "inv h'" "contents h' = contents h"
    by (rule read_eq [OF assms])
  then show ?thesis
    by (intro that [of "\<lambda>i. if i < 512 then contents h (unat lba) i else vfs_sector v i" h']) (simp_all add: raw_load_def)
qed

lemma raw_read_eq:
  assumes "inv h" "unat (raw_pos v) = p" "unat done = d" "unat n = N" "d \<le> N" "p + (N - d) \<le> cap * 512" "p + (N - d) < 2 ^ 32"
  obtains b h' where "raw_read blk n (out, done, v, h) =
      (sint n, copy_bytes d (N - d) (\<lambda>i. stream (contents h) (p + i)) out, (raw_advance (n - done) v)\<lparr>vfs_sector := b\<rparr>, h')"
    "inv h'" "contents h' = contents h"
  using assms
proof (induction "N - d" arbitrary: p d "done" out v h thesis rule: less_induct)
  case less
  show ?case
  proof (cases "d < N")
    case False
    then have "done = n" using less.prems(4-6) by (simp add: word_unat_eq_iff)
    then show ?thesis using less.prems(5) less.prems(4)
      by (intro less.prems(1) [of "vfs_sector v" h]) (use less.prems(2) in \<open>simp_all add: raw_read.simps\<close>)
  next
    case True
    define t where "t = raw_take (n - done) (raw_pos v)"
    note r = raw_round [OF less.prems(3-5) True less.prems(7), folded t_def]
    have lba: "unat (raw_pos v div 512) < cap" using r(3,5) by simp
    obtain b1 h1 where l: "raw_load blk (raw_pos v div 512) (v, h) = (0, v\<lparr>vfs_sector := b1\<rparr>, h1)"
      "\<forall>i<512. b1 i = contents h (unat (raw_pos v div 512)) i" "inv h1" "contents h1 = contents h"
      by (rule raw_load_eq [OF less.prems(2) lba])
    let ?v = "raw_advance t (v\<lparr>vfs_sector := b1\<rparr>)"
    have cp: "copy_bytes d (unat t) (\<lambda>i. b1 (p mod 512 + i)) out = copy_bytes d (unat t) (\<lambda>i. stream (contents h) (p + i)) out"
    proof (rule copy_bytes_cong)
      fix i assume "i < unat t"
      then have "p mod 512 + i < 512" using r(8) by simp
      then show "b1 (p mod 512 + i) = stream (contents h) (p + i)"
        using l(2) r(3) by (simp add: stream_def add_in_block)
    qed
    let ?out = "copy_bytes d (unat t) (\<lambda>i. stream (contents h) (p + i)) out"
    have step: "raw_read blk n (out, done, v, h) = raw_read blk n (?out, done + t, ?v, h1)"
      using l(1) r(2,4) cp less.prems(4) by (subst raw_read.simps) (simp add: Let_def t_def [symmetric])
    note u = raw_round_next [OF less.prems(3-5) True less.prems(7,8), folded t_def]
    have sub: "N - (d + unat t) < N - d" "unat (raw_pos ?v) = p + unat t" "p + unat t + (N - (d + unat t)) \<le> cap * 512"
      "p + unat t + (N - (d + unat t)) < 2 ^ 32"
      using r(6,7) u True less.prems(7,8) by simp_all
    obtain b h' where f: "raw_read blk n (?out, done + t, ?v, h1) = (sint n,
        copy_bytes (d + unat t) (N - (d + unat t)) (\<lambda>i. stream (contents h1) (p + unat t + i)) ?out,
        (raw_advance (n - (done + t)) ?v)\<lparr>vfs_sector := b\<rparr>, h')" "inv h'" "contents h' = contents h1"
      by (rule less.hyps [OF sub(1) _ l(3) sub(2) u(2) less.prems(5) r(7) sub(3,4)])
    have "copy_bytes (d + unat t) (N - (d + unat t)) (\<lambda>i. stream (contents h) (p + unat t + i)) ?out =
        copy_bytes d (N - d) (\<lambda>i. stream (contents h) (p + i)) out"
      using copy_bytes_append [of d "unat t" "N - (d + unat t)" "\<lambda>i. stream (contents h) (p + i)" out] r(7) by (simp add: add.assoc)
    then show ?thesis
      by (intro less.prems(1) [of b h']) (use f l(4) step in \<open>simp_all add: raw_advance_add\<close>)
  qed
qed

text \<open>One sector of a write: the bytes of the sector from the position on are replaced.\<close>

lemma stream_put:
  assumes "m' = m(p div 512 := \<lambda>i. if i < 512 then b i else m (p div 512) i)" "p mod 512 + t \<le> 512"
    "\<forall>i<512. b i = (if p mod 512 \<le> i \<and> i < p mod 512 + t then src (i - p mod 512) else m (p div 512) i)"
  shows "stream m' k = (if p \<le> k \<and> k < p + t then src (k - p) else stream m k)"
proof (cases "k div 512 = p div 512")
  case True
  then have k: "k = k mod 512 + 512 * (p div 512)" and p: "p = p mod 512 + 512 * (p div 512)"
    by (metis mod_mult_div_eq)+
  have "p \<le> k \<longleftrightarrow> p mod 512 \<le> k mod 512" "k < p + t \<longleftrightarrow> k mod 512 < p mod 512 + t" "k - p = k mod 512 - p mod 512"
    using k p by linarith+
  then show ?thesis using True assms(1,3) by (simp add: stream_def)
next
  case False
  have "\<not> (p \<le> k \<and> k < p + t)"
  proof
    assume "p \<le> k \<and> k < p + t"
    then have "k = p + (k - p)" "p mod 512 + (k - p) < 512" using assms(2) by linarith+
    then show False using False add_in_block(1) [of p 512 "k - p"] by simp
  qed
  then show ?thesis using False assms(1) by (auto simp: stream_def)
qed

lemma raw_write_eq:
  assumes "inv h" "unat (raw_pos v) = p" "unat done = d" "unat n = N" "d \<le> N" "p + (N - d) \<le> cap * 512" "p + (N - d) < 2 ^ 32"
  obtains b h' where "raw_write blk n src (done, v, h) = (sint n, (raw_advance (n - done) v)\<lparr>vfs_sector := b\<rparr>, h')" "inv h'"
    "\<forall>k. stream (contents h') k = (if p \<le> k \<and> k < p + (N - d) then src (d + (k - p)) else stream (contents h) k)"
  using assms
proof (induction "N - d" arbitrary: p d "done" v h thesis rule: less_induct)
  case less
  show ?case
  proof (cases "d < N")
    case False
    then have "done = n" "d = N" using less.prems(4-6) by (simp_all add: word_unat_eq_iff)
    then show ?thesis
      by (intro less.prems(1) [of "vfs_sector v" h]) (use less.prems(2) in \<open>auto simp: raw_write.simps\<close>)
  next
    case True
    define t where "t = raw_take (n - done) (raw_pos v)"
    note r = raw_round [OF less.prems(3-5) True less.prems(7), folded t_def]
    note u = raw_round_next [OF less.prems(3-5) True less.prems(7,8), folded t_def]
    have lba: "unat (raw_pos v div 512) < cap" using r(3,5) by simp
    let ?part = "raw_pos v mod 512 \<noteq> 0 \<or> t < 512"
    have "\<exists>b1 h1. (if ?part then raw_load blk (raw_pos v div 512) (v, h) else (0, v, h)) = (0, v\<lparr>vfs_sector := b1\<rparr>, h1) \<and>
        (?part \<longrightarrow> (\<forall>i<512. b1 i = contents h (p div 512) i)) \<and> inv h1 \<and> contents h1 = contents h"
    proof (cases ?part)
      case True
      show ?thesis by (rule raw_load_eq [OF less.prems(2) lba, of v]) (use True r(3) in auto)
    next
      case False
      then show ?thesis using less.prems(2) by (intro exI [of _ "vfs_sector v"] exI [of _ h]) simp
    qed
    then obtain b1 h1 where l: "(if ?part then raw_load blk (raw_pos v div 512) (v, h) else (0, v, h)) = (0, v\<lparr>vfs_sector := b1\<rparr>, h1)"
      "?part \<longrightarrow> (\<forall>i<512. b1 i = contents h (p div 512) i)" "inv h1" "contents h1 = contents h"
      by (elim exE conjE)
    let ?b = "copy_bytes (p mod 512) (unat t) (\<lambda>i. src (d + i)) b1"
    obtain h2 where w: "block_write_sector blk (raw_pos v div 512) (Some ?b) h1 = (0, h2)" "inv h2"
      "contents h2 = (contents h1)(unat (raw_pos v div 512) := \<lambda>i. if i < 512 then ?b i else contents h1 (unat (raw_pos v div 512)) i)"
      by (rule write_eq [OF l(3) lba])
    have "\<forall>i<512. ?b i = (if p mod 512 \<le> i \<and> i < p mod 512 + unat t then src (d + (i - p mod 512)) else contents h (p div 512) i)"
      using l(2) r(4) by (auto simp: copy_bytes_def word_less_nat_alt word_unat_eq_iff)
    note s1 = stream_put [OF w(3) [unfolded r(3) l(4)] r(8), of "\<lambda>i. src (d + i)", OF this]
    let ?v = "raw_advance t (v\<lparr>vfs_sector := ?b\<rparr>)"
    have step: "raw_write blk n src (done, v, h) = raw_write blk n src (done + t, ?v, h2)"
      using l(1) w(1) r(2,4) less.prems(4)
      by (subst raw_write.simps) (simp add: Let_def t_def [symmetric])
    have sub: "N - (d + unat t) < N - d" "unat (raw_pos ?v) = p + unat t" "p + unat t + (N - (d + unat t)) \<le> cap * 512"
      "p + unat t + (N - (d + unat t)) < 2 ^ 32"
      using r(6,7) u True less.prems(7,8) by simp_all
    obtain b h' where f: "raw_write blk n src (done + t, ?v, h2) = (sint n, (raw_advance (n - (done + t)) ?v)\<lparr>vfs_sector := b\<rparr>, h')"
      "inv h'" "\<forall>k. stream (contents h') k = (if p + unat t \<le> k \<and> k < p + unat t + (N - (d + unat t))
         then src (d + unat t + (k - (p + unat t))) else stream (contents h2) k)"
      by (rule less.hyps [OF sub(1) _ w(2) sub(2) u(2) less.prems(5) r(7) sub(3,4)])
    have "stream (contents h') k = (if p \<le> k \<and> k < p + (N - d) then src (d + (k - p)) else stream (contents h) k)" for k
    proof -
      have "p + unat t + (N - (d + unat t)) = p + (N - d)" using r(7) by simp
      moreover have "d + unat t + (k - (p + unat t)) = d + (k - p)" if "p + unat t \<le> k" using that by simp
      ultimately show ?thesis using f(3) s1 [of k] r(7) by auto
    qed
    then show ?thesis
      by (intro less.prems(1) [of b h']) (use f step in \<open>simp_all add: raw_advance_add\<close>)
  qed
qed

end

section \<open>A process keeps to its own table\<close>

text \<open>\<open>own_change v v'\<close>: only the table of the active process and the sector buffer differ.\<close>

definition own_change :: "vfs \<Rightarrow> vfs \<Rightarrow> bool" where
  "own_change v v' \<longleftrightarrow> active_pid v' = active_pid v \<and> (\<forall>q. q \<noteq> slot_for_pid (active_pid v) \<longrightarrow> files v' q = files v q)"

lemma own_change_refl [simp]: "own_change v v"
  by (simp add: own_change_def)

lemma own_change_trans: "own_change u v \<Longrightarrow> own_change v w \<Longrightarrow> own_change u w"
  by (simp add: own_change_def)

lemma own_change_sector [simp]: "own_change u (v\<lparr>vfs_sector := b\<rparr>) = own_change u v"
  by (simp add: own_change_def)

lemma own_change_fd [simp]: "own_change u v \<Longrightarrow> own_change u (upd_fd i f v)"
  by (simp add: own_change_def)

lemma own_change_advance [simp]: "own_change u v \<Longrightarrow> own_change u (raw_advance n v)"
  by (simp add: raw_advance_def)

lemma raw_load_own: "raw_load blk lba (v, h) = (r, v', h') \<Longrightarrow> own_change v v'"
  by (auto simp: raw_load_def split: prod.splits option.splits)

lemma raw_read_own: "raw_read blk n (out, done, v, h) = (r, out', v', h') \<Longrightarrow> own_change v v'"
proof (induction blk n "(out, done, v, h)" arbitrary: out "done" v h rule: raw_read.induct)
  case (1 blk n out "done" v h)
  obtain x v1 h1 where l: "raw_load blk (raw_pos v div 512) (v, h) = (x, v1, h1)" by (metis prod_cases3)
  note run = "1.prems" [unfolded raw_read.simps [of blk n out], unfolded Let_def l prod.case]
  note own = raw_load_own [OF l]
  show ?case
  proof (cases "done < n \<and> x = 0")
    case True
    then have "own_change (raw_advance (raw_take (n - done) (raw_pos v)) v1) v'"
      by (intro "1.hyps" [OF _ refl refl l [symmetric] refl]) (use run in simp_all)
    then show ?thesis by (rule own_change_trans [rotated]) (simp add: own)
  next
    case False
    then show ?thesis using run own by (auto split: if_splits)
  qed
qed

lemma raw_write_own: "raw_write blk n src (done, v, h) = (r, v', h') \<Longrightarrow> own_change v v'"
proof (induction blk n src "(done, v, h)" arbitrary: "done" v h rule: raw_write.induct)
  case (1 blk n src "done" v h)
  let ?pos = "raw_pos v" and ?t = "raw_take (n - done) (raw_pos v)"
  obtain x v1 h1 where l: "(if ?pos mod 512 \<noteq> 0 \<or> ?t < 512 then raw_load blk (?pos div 512) (v, h) else (0, v, h)) = (x, v1, h1)"
    by (metis prod_cases3)
  then have own: "own_change v v1" using raw_load_own [of blk _ v h x v1 h1] by (auto split: if_splits)
  define v2 where "v2 = v1\<lparr>vfs_sector := copy_bytes (unat (?pos mod 512)) (unat ?t) (\<lambda>i. src (unat done + i)) (vfs_sector v1)\<rparr>"
  have own2: "own_change v v2" using own by (simp add: v2_def)
  obtain y h2 where w: "block_write_sector blk (?pos div 512) (Some (vfs_sector v2)) h1 = (y, h2)" by fastforce
  note run = "1.prems" [unfolded raw_write.simps [of blk n src "done"], unfolded Let_def l prod.case, folded v2_def, unfolded w prod.case]
  show ?case
  proof (cases "done < n \<and> x = 0 \<and> y = 0")
    case True
    then have "own_change (raw_advance ?t v2) v'"
      by (intro "1.hyps" [OF _ refl refl l [symmetric] refl _ v2_def w [symmetric]]) (use run in simp_all)
    then show ?thesis by (rule own_change_trans [rotated]) (simp add: own2)
  next
    case False
    then show ?thesis using run own own2 by (simp split: if_splits)
  qed
qed

section \<open>Example\<close>

definition vfs_example :: vfs where
  "vfs_example = \<lparr>files = (\<lambda>_ _. \<lparr>vf_name = Some [0x68, 0x64, 0x61], vf_flags = 0, vf_position = 700, vf_kind = 1,
     vf_fat = \<lparr>first_cluster = 0, file_size = 0, file_position = 0, directory = 0\<rparr>\<rparr>), vfs_sector = (\<lambda>_. 0), active_pid = 0x103\<rparr>"

definition idle_ports :: "'w ports" where
  "idle_ports = \<lparr>inb = (\<lambda>p w. (0, w)), outb = (\<lambda>p v w. w), inw = (\<lambda>p w. (0, w)), outw = (\<lambda>p v w. w),
     inl = (\<lambda>p w. (0, w)), outl = (\<lambda>p v w. w)\<rparr>"

definition fat_none :: fat32 where
  "fat_none = \<lparr>fat_sector = (\<lambda>_. 0), partition_lba = 0, fat_lba = 0, data_lba = 0, sectors_per_cluster = 0,
     bytes_per_sector = 0, fat_size = 0, root_cluster = 0, mounted = False\<rparr>"

section \<open>Properties\<close>

text \<open>C33: On a device that stores sectors, the raw descriptor is a byte stream: a read of any length from any
  position, within the disk, returns the bytes of the disk at that position and changes nothing on it; a write
  replaces exactly the bytes it covers; both advance the position of the descriptor by the length.\<close>

theorem vfs_raw_stream:
  assumes "sector_store blk ok contents cap" "ok h" "vf_name (vfs_table v 3) \<noteq> None" "p = unat (vf_position (vfs_table v 3))"
    and "p + unat n \<le> cap * 512" "p + unat n < 2 ^ 32"
  shows "(\<exists>b h'. ok h' \<and> contents h' = contents h \<and> vfs_read P blk 3 (Some out) n (v, fs, h) =
      Some (sint n, Some (copy_bytes 0 (unat n) (\<lambda>i. stream (contents h) (p + i)) out), (raw_advance n v)\<lparr>vfs_sector := b\<rparr>, fs, h')) \<and>
    (\<exists>b h'. ok h' \<and> vfs_write P blk 3 (Some src) n (v, g, h) = Some (sint n, (raw_advance n v)\<lparr>vfs_sector := b\<rparr>, g, h') \<and>
      (\<forall>k. stream (contents h') k = (if p \<le> k \<and> k < p + unat n then src (k - p) else stream (contents h) k)))"
proof
  have pos: "unat (raw_pos v) = p" by (simp add: raw_pos_def assms(4) VFS_FD_RAW_HDA_def)
  have len: "p + (unat n - 0) \<le> cap * 512" "p + (unat n - 0) < 2 ^ 32" using assms(5,6) by simp_all
  note io = assms(1,2) pos unat_0 refl le0 len
  obtain b h' where "raw_read blk n (out, 0, v, h) = (sint n, copy_bytes 0 (unat n - 0) (\<lambda>i. stream (contents h) (p + i)) out,
      (raw_advance (n - 0) v)\<lparr>vfs_sector := b\<rparr>, h')" "ok h'" "contents h' = contents h"
    by (rule sector_store.raw_read_eq [OF io])
  then show "\<exists>b h'. ok h' \<and> contents h' = contents h \<and> vfs_read P blk 3 (Some out) n (v, fs, h) =
      Some (sint n, Some (copy_bytes 0 (unat n) (\<lambda>i. stream (contents h) (p + i)) out), (raw_advance n v)\<lparr>vfs_sector := b\<rparr>, fs, h')"
    using assms(3) by (intro exI [of _ b] exI [of _ h']) (simp add: vfs_read_def vfs_fds)
  obtain b h' where "raw_write blk n src (0, v, h) = (sint n, (raw_advance (n - 0) v)\<lparr>vfs_sector := b\<rparr>, h')" "ok h'"
    "\<forall>k. stream (contents h') k = (if p \<le> k \<and> k < p + (unat n - 0) then src (0 + (k - p)) else stream (contents h) k)"
    by (rule sector_store.raw_write_eq [OF io])
  then show "\<exists>b h'. ok h' \<and> vfs_write P blk 3 (Some src) n (v, g, h) = Some (sint n, (raw_advance n v)\<lparr>vfs_sector := b\<rparr>, g, h') \<and>
      (\<forall>k. stream (contents h') k = (if p \<le> k \<and> k < p + unat n then src (k - p) else stream (contents h) k))"
    using assms(3) by (intro exI [of _ b] exI [of _ h']) (simp add: vfs_write_def vfs_fds)
qed

theorem vfs_raw_stream_witness:
  "\<exists>b h'. vfs_write idle_ports (ata_blocks early_ignored) 3 (Some (\<lambda>i. of_nat i)) 1000
      (vfs_example, \<lparr>video = (\<lambda>_. 0), row = 0, col = 0, color = 7\<rparr>, True, drive_example (\<lambda>_ _. 0)) =
      Some (1000, (raw_advance 1000 vfs_example)\<lparr>vfs_sector := b\<rparr>, \<lparr>video = (\<lambda>_. 0), row = 0, col = 0, color = 7\<rparr>, h') \<and>
    stream (ata_contents (\<lambda>d. d) h') 710 = 10 \<and> stream (ata_contents (\<lambda>d. d) h') 1700 = 0"
proof -
  have pre: "ata_ready early_ignored (drive_ports early_ignored) (\<lambda>d. d) 2048 (True, drive_example (\<lambda>_ _. 0))"
    by (rule drive_example_ready)
  have pos: "vf_name (vfs_table vfs_example 3) \<noteq> None" "700 = unat (vf_position (vfs_table vfs_example 3))"
    by (simp_all add: vfs_example_def vfs_table_def)
  have zero: "stream (ata_contents (\<lambda>d. d) (True, drive_example (\<lambda>_ _. 0))) k = 0" for k
    by (simp add: stream_def ata_contents_def drive_example_def)
  have len: "700 + unat (1000 :: u32) \<le> 2048 * 512" "700 + unat (1000 :: u32) < 2 ^ 32" by simp_all
  obtain b h' where w: "vfs_write idle_ports (ata_blocks early_ignored) 3 (Some (\<lambda>i. of_nat i)) 1000
        (vfs_example, \<lparr>video = (\<lambda>_. 0), row = 0, col = 0, color = 7\<rparr>, True, drive_example (\<lambda>_ _. 0)) =
        Some (sint (1000 :: u32), (raw_advance 1000 vfs_example)\<lparr>vfs_sector := b\<rparr>, \<lparr>video = (\<lambda>_. 0), row = 0, col = 0, color = 7\<rparr>, h')"
    "\<forall>k. stream (ata_contents (\<lambda>d. d) h') k =
      (if 700 \<le> k \<and> k < 700 + unat (1000 :: u32) then of_nat (k - 700)
       else stream (ata_contents (\<lambda>d. d) (True, drive_example (\<lambda>_ _. 0))) k)"
    using conjunct2 [OF vfs_raw_stream [OF ata_disk.sector_store_axioms pre pos len, of idle_ports "\<lambda>_. 0" fat_none
          "\<lambda>i. of_nat i" "\<lparr>video = (\<lambda>_. 0), row = 0, col = 0, color = 7\<rparr>"]] by blast
  then show ?thesis by (intro exI [of _ b] exI [of _ h']) (simp add: zero)
qed

text \<open>C34: Whatever the device does, opening, closing, reading and writing change the descriptors of the active
  process only; the descriptors of all other processes stay as they are.\<close>

theorem vfs_tables_isolated:
  "(vfs_open blk name f (v, fs, h) = Some (r, v', fs', h') \<longrightarrow> own_change v v') \<and>
   (vfs_close fd v = (r, v') \<longrightarrow> own_change v v') \<and>
   (vfs_read P blk fd buf n (v, fs, h) = Some (r, buf', v', fs', h') \<longrightarrow> own_change v v') \<and>
   (vfs_write P blk fd buf n (v, g, h) = Some (r, v', g', h') \<longrightarrow> own_change v v')"
proof (intro conjI impI)
  show "own_change v v'" if "vfs_open blk name f (v, fs, h) = Some (r, v', fs', h')"
    using that by (auto simp: vfs_open_def vfs_open_plain_def Let_def split: option.splits prod.splits if_splits)
  show "own_change v v'" if "vfs_close fd v = (r, v')"
    using that by (auto simp: vfs_close_def split: if_splits)
  show "own_change v v'" if "vfs_read P blk fd buf n (v, fs, h) = Some (r, buf', v', fs', h')"
    using that raw_read_own [of blk n _ 0 v h]
    by (auto simp: vfs_read_def split: option.splits prod.splits if_splits)
  show "own_change v v'" if "vfs_write P blk fd buf n (v, g, h) = Some (r, v', g', h')"
    using that raw_write_own [of blk n _ 0 v h]
    by (auto simp: vfs_write_def split: option.splits prod.splits if_splits)
qed

theorem vfs_tables_isolated_witness:
  "\<exists>v'. vfs_close 5 vfs_example = (0, v') \<and> vf_name (files v' 2 5) = None \<and> files v' 3 = files vfs_example 3"
proof -
  have c: "vfs_close 5 vfs_example = (0, upd_fd 5 (\<lambda>x. x\<lparr>vf_name := None, vf_kind := 0\<rparr>) vfs_example)"
    by (simp add: vfs_close_def vfs_fds vfs_example_def vfs_table_def)
  then have "own_change vfs_example (upd_fd 5 (\<lambda>x. x\<lparr>vf_name := None, vf_kind := 0\<rparr>) vfs_example)"
    using vfs_tables_isolated [of "ata_blocks early_ignored" None 0 vfs_example fat_none "(True, drive_example (\<lambda>_ _. 0))" 0
        "upd_fd 5 (\<lambda>x. x\<lparr>vf_name := None, vf_kind := 0\<rparr>) vfs_example" fat_none "(True, drive_example (\<lambda>_ _. 0))" 5]
    by blast
  then show ?thesis unfolding c
    by (simp add: own_change_def vfs_example_def slot_for_pid_def VFS_MAX_PROCESSES_def upd_fd_def upd_file_def)
qed

end
