(* ===== verification/Process.thy ===== *)
theory Process
  imports Sched
begin

text \<open>
  Processes (\<open>kernel/process.c\<close>): creation, exit and wait, signals, futexes and fork, over the kernel
  state of the scheduler theory. The address of an interrupt frame stands for the frame. An operation that does
  not return, by a panic or because the ready queue has become cyclic, has the outcome \<open>Panic\<close>
  with a message that says which.
\<close>

section \<open>Kernel access to user memory\<close>

text \<open>
  A supervisor access to a page that is not present enters the page-fault handler, which maps a
  demand page or panics; then the access is repeated.
\<close>

definition fault_in :: "u32 \<Rightarrow> u32 \<Rightarrow> mm \<Rightarrow> mm outcome" where
  "fault_in err va m = (if translate (vm m) va = None then vmm_page_fault va err 0 m else Ret m)"

definition kstore8 :: "u32 \<Rightarrow> u8 \<Rightarrow> mm \<Rightarrow> mm outcome" where
  "kstore8 va b m = bind_outcome (fault_in 2 va m) (\<lambda>m. or_fault (vstore va b m))"

definition kload8 :: "u32 \<Rightarrow> mm \<Rightarrow> (u8 \<times> mm) outcome" where
  "kload8 va m = bind_outcome (fault_in 0 va m) (\<lambda>m. check_load va (\<lambda>b m. Ret (b, m)) m)"

definition kstore32 :: "u32 \<Rightarrow> u32 \<Rightarrow> mm \<Rightarrow> mm outcome" where
  "kstore32 va w m =
     bind_outcome (kstore8 va (byte_of w 0) m) (\<lambda>m. bind_outcome (kstore8 (va + 1) (byte_of w 1) m) (\<lambda>m.
     bind_outcome (kstore8 (va + 2) (byte_of w 2) m) (\<lambda>m. kstore8 (va + 3) (byte_of w 3) m)))"

definition kload32 :: "u32 \<Rightarrow> mm \<Rightarrow> (u32 \<times> mm) outcome" where
  "kload32 va m =
     bind_outcome (kload8 va m) (\<lambda>(a, m). bind_outcome (kload8 (va + 1) m) (\<lambda>(b, m).
     bind_outcome (kload8 (va + 2) m) (\<lambda>(c, m). bind_outcome (kload8 (va + 3) m) (\<lambda>(d, m).
       Ret (ucast a OR push_bit 8 (ucast b) OR push_bit 16 (ucast c) OR push_bit 24 (ucast d), m)))))"

text \<open>Validated addresses are not null, so the handler never looks at the faulting-address register.\<close>

definition check_ptr :: "space_ptr \<Rightarrow> u32 \<Rightarrow> u32 \<Rightarrow> bool \<Rightarrow> mm \<Rightarrow> (int \<times> mm) outcome" where
  "check_ptr sp a n w m = vmm_validate_user_ptr 0 sp a n w m"

definition or_hang :: "'a option \<Rightarrow> 'a outcome" where
  "or_hang x = (case x of Some y \<Rightarrow> Ret y | None \<Rightarrow> Panic ''endless loop'')"

definition on_mem :: "(mm \<Rightarrow> mm outcome) \<Rightarrow> kern \<Rightarrow> kern outcome" where
  "on_mem f k = bind_outcome (f (mem k)) (\<lambda>m. Ret (k\<lparr>mem := m\<rparr>))"

section \<open>Creation\<close>

definition USER_STACK_TOP :: u32 where "USER_STACK_TOP = 0x00bff000"

definition zero_frame :: registers where
  "zero_frame = \<lparr>edi = 0, esi = 0, ebp = 0, esp = 0, ebx = 0, edx = 0, ecx = 0, eax = 0, int_no = 0, err_code = 0,
     eip = 0, cs = 0, eflags = 0, useresp = 0, ss = 0\<rparr>"

definition frame_for :: "nat \<Rightarrow> u32 \<Rightarrow> u32 \<Rightarrow> bool \<Rightarrow> kern \<Rightarrow> kern" where
  "frame_for p entry stack user k =
     (let f = (if user then frame_at k p else stack_top k p - 60);
          k = k\<lparr>frames := (frames k)(f := zero_frame\<lparr>eip := entry, cs := if user then 0x1b else 0x08, eflags := 0x202,
                useresp := stack, ss := if user then 0x23 else 0x10\<rparr>)\<rparr>
      in upd_pcb p (\<lambda>x. x\<lparr>interrupt_frame := 0\<rparr>) k)"

text \<open>The two groups of assignments of \<open>new_pcb\<close>, before and after the address space is created.\<close>

definition next_generation :: "u32 \<Rightarrow> u32" where
  "next_generation g = (let g = (g + 1) AND 0x00ffffff in if g = 0 then 1 else g)"

definition fresh_pcb :: "string \<Rightarrow> nat \<Rightarrow> pcb \<Rightarrow> pcb" where
  "fresh_pcb name i x =
     (let g = next_generation (generation x) in
      x\<lparr>generation := g, pid := push_bit 8 g OR (of_nat i + 1), allocated := True, state := PROCESS_READY, ticks := 0,
        pcb_name := name, next_pcb := None, entry_point := 0, user_stack := 0, user_mode := False\<rparr>)"

definition reset_pcb :: "pcb \<Rightarrow> pcb" where
  "reset_pcb x =
     x\<lparr>parent_pid := 0, exit_code := 0, wait_for_pid := 0, wait_status_ptr := 0, wait_status := 0,
       credentials := \<lparr>uid = 0, gid = 0, euid = 0, egid = 0, capabilities = CAP_KILL OR CAP_SYS_ADMIN\<rparr>,
       pending_signals := 0, signal_mask := 0, futex_key := 0, futex_expected := 0, started := False, interrupt_frame := 0,
       signal_active := False, futex_deadline := 0,
       signal_handlers := (\<lambda>i. if i < 32 then 0 else signal_handlers x i), signal_saved_frame := zero_frame\<rparr>"

definition new_pcb :: "string \<Rightarrow> kern \<Rightarrow> nat option \<times> kern" where
  "new_pcb name k =
     (case find (\<lambda>i. \<not> allocated (procs k i)) [0..<MAX_PROCESSES] of
        None \<Rightarrow> (None, k)
      | Some i \<Rightarrow>
         let grew = (i = process_count k);
             k = (if grew then k\<lparr>process_count := process_count k + 1\<rparr> else k);
             k = upd_pcb i (fresh_pcb name i) k
         in (case vmm_create_address_space (vm (mem k)) of
               (sp, v) \<Rightarrow>
                 let k = upd_pcb i (\<lambda>x. x\<lparr>address_space := sp\<rparr>) (k\<lparr>mem := (mem k)\<lparr>vm := v\<rparr>\<rparr>) in
                 if sp = None
                 then (let k = upd_pcb i (\<lambda>x. x\<lparr>allocated := False\<rparr>) k
                       in (None, if grew then k\<lparr>process_count := process_count k - 1\<rparr> else k))
                 else (Some i, upd_pcb i reset_pcb k)))"

text \<open>An entry of 0 is the null function pointer. The word that the code stores at \<open>top\<close>, the return address of the assembly
  routine \<open>context_switch\<close>, is not part of a frame and left out: nothing else reads it.\<close>

definition process_create_entry :: "string \<Rightarrow> u32 \<Rightarrow> kern \<Rightarrow> nat option \<times> kern" where
  "process_create_entry name entry k =
     (case new_pcb name k of
        (None, k) \<Rightarrow> (None, k)
      | (Some p, k) \<Rightarrow>
         let k = upd_pcb p (\<lambda>x. x\<lparr>entry_point := entry, cpu_state := (cpu_state x)\<lparr>c_eip := entry, c_eflags := 0x202\<rparr>\<rparr>) k in
         if entry \<noteq> 0
         then (let top = stack_top k p - 64;
                   k = upd_pcb p (\<lambda>x. x\<lparr>cpu_state := (cpu_state x)\<lparr>c_esp := top\<rparr>\<rparr>) k
               in (Some p, frame_for p entry top False k))
         else (Some p, k))"

definition process_create :: "string \<Rightarrow> kern \<Rightarrow> nat option \<times> kern" where
  "process_create name k = process_create_entry name 0 k"

definition process_create_thread :: "scheduler \<Rightarrow> string \<Rightarrow> u32 \<Rightarrow> kern \<Rightarrow> nat option \<times> kern" where
  "process_create_thread sched name entry k =
     (case scheduler_current sched k of
        None \<Rightarrow> (None, k)
      | Some owner \<Rightarrow>
         if address_space (procs k owner) = None \<or> user_mode (procs k owner) \<or> entry = 0 then (None, k)
         else (case process_create_entry name entry k of
                 (None, k) \<Rightarrow> (None, k)
               | (Some p, k) \<Rightarrow>
                  let k = (if address_space (procs k p) \<noteq> None
                           then k\<lparr>mem := vmm_destroy_address_space (address_space (procs k p)) (mem k)\<rparr> else k);
                      k = upd_pcb p (\<lambda>x. x\<lparr>address_space := address_space (procs k owner)\<rparr>) k;
                      k = k\<lparr>mem := on_vm (vmm_retain_address_space (address_space (procs k p))) (mem k)\<rparr>
                  in (Some p, upd_pcb p (\<lambda>x. x\<lparr>parent_pid := pid (procs k owner)\<rparr>) k)))"

definition process_create_user :: "string \<Rightarrow> u32 \<Rightarrow> kern \<Rightarrow> nat option \<times> kern" where
  "process_create_user name entry k =
     (case new_pcb name k of
        (None, k) \<Rightarrow> (None, k)
      | (Some p, k) \<Rightarrow>
         if address_space (procs k p) = None then (None, k)
         else (case pmm_alloc_page (pm (mem k)) of
           (page, a) \<Rightarrow>
             let k = k\<lparr>mem := (mem k)\<lparr>pm := a\<rparr>\<rparr> in
             if page = 0 then (None, k)
             else (case vmm_map_user (address_space (procs k p)) (USER_STACK_TOP - PAGE_SIZE) page PAGE_WRITE (vm (mem k)) of
               (r, v) \<Rightarrow>
                 let k = k\<lparr>mem := (mem k)\<lparr>vm := v\<rparr>\<rparr> in
                 if r \<noteq> 0 then (None, k\<lparr>mem := (mem k)\<lparr>pm := pmm_free_page page (pm (mem k))\<rparr>\<rparr>)
                 else (let k = upd_pcb p (\<lambda>x. x\<lparr>entry_point := entry, user_stack := USER_STACK_TOP, user_mode := True,
                                 cpu_state := (cpu_state x)\<lparr>c_eip := entry, c_esp := USER_STACK_TOP, c_eflags := 0x202\<rparr>\<rparr>) k
                       in (Some p, frame_for p entry USER_STACK_TOP True k)))))"

text \<open>What the state is when the assembly routine \<open>enter_user_mode\<close> takes over.\<close>

definition process_enter_user :: "nat option \<Rightarrow> kern \<Rightarrow> kern" where
  "process_enter_user ptr k =
     (case ptr of None \<Rightarrow> k
      | Some p \<Rightarrow>
         if \<not> user_mode (procs k p) \<or> address_space (procs k p) = None then k
         else (let k = scheduler_set_current (Some p) k;
                   k = k\<lparr>mem := on_vm (vmm_switch_address_space (address_space (procs k p))) (mem k)\<rparr>;
                   k = k\<lparr>tss_esp0 := stack_top k p\<rparr>
               in upd_pcb p (\<lambda>x. x\<lparr>state := PROCESS_RUNNING\<rparr>) k))"

section \<open>Exit and wait\<close>

definition find_process :: "(pcb \<Rightarrow> bool) \<Rightarrow> kern \<Rightarrow> nat option" where
  "find_process P k = find (\<lambda>i. allocated (procs k i) \<and> P (procs k i)) [0..<process_count k]"

definition process_get_credentials :: "pid_t \<Rightarrow> credentials option \<Rightarrow> kern \<Rightarrow> int \<times> credentials option" where
  "process_get_credentials q out k =
     (case find_process (\<lambda>x. pid x = q) k of
        Some i \<Rightarrow> (0, map_option (\<lambda>_. credentials (procs k i)) out)
      | None \<Rightarrow> (-1, out))"

text \<open>The two loops of \<open>process_exit_with_status\<close> over the other processes.\<close>

definition orphan_zombies :: "pid_t \<Rightarrow> kern \<Rightarrow> kern" where
  "orphan_zombies q k =
     fold (\<lambda>j k. if allocated (procs k j) \<and> parent_pid (procs k j) = q \<and> state (procs k j) = PROCESS_ZOMBIE
                then upd_pcb j (\<lambda>x. x\<lparr>parent_pid := 0\<rparr>) k else k) [0..<process_count k] k"

fun wake_waiters :: "pid_t \<Rightarrow> nat \<Rightarrow> nat list \<Rightarrow> kern \<Rightarrow> kern outcome" where
  "wake_waiters q i [] k = Ret k"
| "wake_waiters q i (j # js) k =
     (if allocated (procs k j) \<and> parent_pid (procs k j) = q \<and> state (procs k j) = PROCESS_BLOCKED \<and> wait_for_pid (procs k j) = q
      then
        (let k = upd_pcb j (\<lambda>x. x\<lparr>state := PROCESS_READY, wait_for_pid := 0\<rparr>) k;
             k = upd_pcb j (\<lambda>x. x\<lparr>wait_status := exit_code (procs k i)\<rparr>) k
         in bind_outcome
              (if wait_status_ptr (procs k j) \<noteq> 0
               then on_mem (kstore32 (wait_status_ptr (procs k j)) (exit_code (procs k i))) k else Ret k) (\<lambda>k.
            bind_outcome (or_hang (scheduler_add (Some j) (set_frame_eax (interrupt_frame (procs k j)) q k))) (\<lambda>(r, k).
              wake_waiters q i js k)))
      else wake_waiters q i js k)"

definition process_exit_with_status :: "pid_t \<Rightarrow> u32 \<Rightarrow> kern \<Rightarrow> (int \<times> kern) outcome" where
  "process_exit_with_status q status k =
     (case find_process (\<lambda>x. pid x = q) k of
        None \<Rightarrow> Ret (-1, k)
      | Some i \<Rightarrow>
         (let k = upd_pcb i (\<lambda>x. x\<lparr>state := PROCESS_ZOMBIE, exit_code := status\<rparr>) k;
              k = k\<lparr>fds := vfs_release_process q (fds k)\<rparr>;
              k = orphan_zombies q k
          in bind_outcome (wake_waiters q i [0..<process_count k] k) (\<lambda>k. Ret (0, k))))"

definition process_exit :: "pid_t \<Rightarrow> kern \<Rightarrow> (int \<times> kern) outcome" where
  "process_exit q k = process_exit_with_status q 0 k"

text \<open>A status pointer of 0 is null.\<close>

definition reap :: "pid_t \<Rightarrow> nat \<Rightarrow> kern \<Rightarrow> kern" where
  "reap child i k =
     (let k = (if address_space (procs k i) \<noteq> None
               then upd_pcb i (\<lambda>x. x\<lparr>address_space := None\<rparr>)
                      (k\<lparr>mem := vmm_destroy_address_space (address_space (procs k i)) (mem k)\<rparr>)
               else k);
          k = k\<lparr>fds := vfs_release_process child (fds k)\<rparr>
      in upd_pcb i (\<lambda>x. x\<lparr>parent_pid := 0, state := PROCESS_READY, next_pcb := None, interrupt_frame := 0, allocated := False\<rparr>) k)"

definition process_wait :: "scheduler \<Rightarrow> pid_t \<Rightarrow> u32 \<Rightarrow> kern \<Rightarrow> (int \<times> kern) outcome" where
  "process_wait sched child status k =
     (case scheduler_current sched k of
        None \<Rightarrow> Ret (-1, k)
      | Some parent \<Rightarrow>
         (case find_process (\<lambda>x. pid x = child \<and> parent_pid x = pid (procs k parent)) k of
            None \<Rightarrow> Ret (-1, k)
          | Some i \<Rightarrow>
             if state (procs k i) = PROCESS_ZOMBIE then
               bind_outcome (if status \<noteq> 0 then on_mem (kstore32 status (exit_code (procs k i))) k else Ret k) (\<lambda>k.
                 Ret (sint child, reap child i k))
             else
               Ret (0, upd_pcb parent (\<lambda>x. x\<lparr>wait_for_pid := child, wait_status_ptr := status, state := PROCESS_BLOCKED\<rparr>) k)))"

section \<open>Signals\<close>

definition process_send_signal :: "pid_t \<Rightarrow> u32 \<Rightarrow> kern \<Rightarrow> (int \<times> kern) outcome" where
  "process_send_signal q signal k =
     (if signal = 0 \<or> 31 < signal then Ret (-1, k)
      else if signal = 9 then
        bind_outcome (process_exit_with_status q (128 + 9) k) (\<lambda>(r, k). Ret (if r \<noteq> 0 then -1 else 0, k))
      else (case find_process (\<lambda>x. pid x = q \<and> state x \<noteq> PROCESS_ZOMBIE) k of
              None \<Rightarrow> Ret (-1, k)
            | Some i \<Rightarrow>
               (let k = upd_pcb i (\<lambda>x. x\<lparr>pending_signals := pending_signals x OR push_bit (unat signal) 1\<rparr>) k in
                if state (procs k i) = PROCESS_BLOCKED then
                  bind_outcome (or_hang (scheduler_add (Some i)
                    (upd_pcb i (\<lambda>x. x\<lparr>state := PROCESS_READY, futex_key := 0, futex_deadline := 0\<rparr>) k))) (\<lambda>(r, k). Ret (0, k))
                else Ret (0, k))))"

definition process_signal_action :: "pid_t \<Rightarrow> u32 \<Rightarrow> u32 \<Rightarrow> kern \<Rightarrow> (int \<times> kern) outcome" where
  "process_signal_action q signal handler k =
     (if signal = 0 \<or> 31 < signal \<or> signal = 9 then Ret (-1, k)
      else (case find_process (\<lambda>x. pid x = q) k of
              None \<Rightarrow> Ret (-1, k)
            | Some i \<Rightarrow>
               bind_outcome
                 (if handler = 0 then Ret (0, k)
                  else if handler < 0x400000 \<or> 0xc0000000 \<le> handler \<or> address_space (procs k i) = None then Ret (-1, k)
                  else bind_outcome (check_ptr (address_space (procs k i)) handler 1 False (mem k)) (\<lambda>(r, m). Ret (r, k\<lparr>mem := m\<rparr>)))
                 (\<lambda>(r, k).
                   if r \<noteq> 0 then Ret (-1, k)
                   else Ret (0, upd_pcb i (\<lambda>x. x\<lparr>signal_handlers := (signal_handlers x)(unat signal := handler)\<rparr>) k))))"

definition process_signal_set_mask :: "pid_t \<Rightarrow> u32 \<Rightarrow> kern \<Rightarrow> int \<times> kern" where
  "process_signal_set_mask q m k =
     (case find_process (\<lambda>x. pid x = q) k of
        None \<Rightarrow> (-1, k)
      | Some i \<Rightarrow> (0, upd_pcb i (\<lambda>x. x\<lparr>signal_mask := m AND NOT (push_bit 9 1)\<rparr>) k))"

text \<open>
  The loop over the signals. \<open>enter_handler\<close> builds the frame of the handler; a signal without a handler, or
  with no room on the user stack, is dropped.
\<close>

definition enter_handler :: "nat \<Rightarrow> nat \<Rightarrow> u32 \<Rightarrow> kern \<Rightarrow> kern outcome" where
  "enter_handler p signal r k =
     (let k = upd_pcb p (\<lambda>x. x\<lparr>signal_saved_frame := frames k r\<rparr>) k; new_stack = useresp (frames k r) - 8 in
      bind_outcome (on_mem (kstore32 new_stack 0) k) (\<lambda>k.
      bind_outcome (on_mem (kstore32 (new_stack + 4) (of_nat signal)) k) (\<lambda>k.
        Ret (upd_pcb p (\<lambda>x. x\<lparr>signal_active := True\<rparr>)
          (k\<lparr>frames := (frames k)(r := (frames k r)\<lparr>useresp := new_stack, eip := signal_handlers (procs k p) signal,
                                                eax := of_nat signal\<rparr>)\<rparr>)))))"

fun deliver :: "nat \<Rightarrow> u32 \<Rightarrow> u32 \<Rightarrow> nat list \<Rightarrow> kern \<Rightarrow> kern outcome" where
  "deliver p pending r [] k = Ret k"
| "deliver p pending r (s # sigs) k =
     (if bit pending s then
        (let k = upd_pcb p (\<lambda>x. x\<lparr>pending_signals := pending_signals x AND NOT (push_bit s 1)\<rparr>) k in
         if signal_handlers (procs k p) s = 0 \<or> useresp (frames k r) < 0x400008 then deliver p pending r sigs k
         else bind_outcome (check_ptr (address_space (procs k p)) (useresp (frames k r) - 8) 8 True (mem k)) (\<lambda>(e, m).
           let k = k\<lparr>mem := m\<rparr> in
           if e \<noteq> 0 then deliver p pending r sigs k else enter_handler p s r k))
      else deliver p pending r sigs k)"

definition process_deliver_signal :: "scheduler \<Rightarrow> u32 \<Rightarrow> kern \<Rightarrow> kern outcome" where
  "process_deliver_signal sched r k =
     (case scheduler_current sched k of
        None \<Rightarrow> Ret k
      | Some p \<Rightarrow>
         if r = 0 \<or> \<not> user_mode (procs k p) \<or> signal_active (procs k p) then Ret k
         else deliver p (pending_signals (procs k p) AND NOT (signal_mask (procs k p)) AND 0xfffffffe) r [1..<32] k)"

definition process_signal_return :: "scheduler \<Rightarrow> u32 \<Rightarrow> kern \<Rightarrow> kern" where
  "process_signal_return sched r k =
     (case scheduler_current sched k of
        None \<Rightarrow> k
      | Some p \<Rightarrow>
         if r = 0 \<or> \<not> signal_active (procs k p) then k
         else upd_pcb p (\<lambda>x. x\<lparr>signal_active := False\<rparr>)
                (k\<lparr>frames := (frames k)(r := signal_saved_frame (procs k p))\<rparr>))"

text \<open>The boot-time test of the signal frames; \<open>r\<close> is the address of its local frame.\<close>

definition process_signal_selftest :: "scheduler \<Rightarrow> u32 \<Rightarrow> kern \<Rightarrow> (int \<times> kern) outcome" where
  "process_signal_selftest sched r k =
     (case scheduler_current sched k of
        None \<Rightarrow> Ret (-1, k)
      | Some p \<Rightarrow>
         if \<not> user_mode (procs k p) \<or> address_space (procs k p) = None \<or> entry_point (procs k p) = 0 then Ret (-1, k)
         else bind_outcome (process_signal_action (pid (procs k p)) 1 (entry_point (procs k p)) k) (\<lambda>(e, k).
           if e \<noteq> 0 then Ret (-1, k)
           else
             (let entry = entry_point (procs k p);
                  k = upd_pcb p (\<lambda>x. x\<lparr>pending_signals := pending_signals x OR push_bit 1 1\<rparr>) k;
                  k = k\<lparr>frames := (frames k)(r := zero_frame\<lparr>eip := entry + 4, cs := 0x1b, eflags := 0x202,
                        useresp := USER_STACK_TOP, ss := 0x23\<rparr>)\<rparr>;
                  old_space = vmm_current_address_space (vm (mem k));
                  k = k\<lparr>mem := on_vm (vmm_switch_address_space (address_space (procs k p))) (mem k)\<rparr>
              in bind_outcome (process_deliver_signal sched r k) (\<lambda>k.
                   let ok = (signal_active (procs k p) \<and> eip (frames k r) = entry_point (procs k p) \<and> eax (frames k r) = 1 \<and>
                             useresp (frames k r) = USER_STACK_TOP - 8);
                       k = process_signal_return sched r k;
                       ok = (ok \<and> \<not> signal_active (procs k p) \<and> eip (frames k r) = entry + 4 \<and> useresp (frames k r) = USER_STACK_TOP);
                       k = k\<lparr>mem := on_vm (vmm_switch_address_space old_space) (mem k)\<rparr>;
                       k = upd_pcb p (\<lambda>x. x\<lparr>pending_signals := pending_signals x AND NOT (push_bit 1 1),
                                            signal_handlers := (signal_handlers x)(1 := 0)\<rparr>) k
                   in Ret (if ok then 0 else -1, k)))))"

section \<open>Futexes\<close>

definition process_futex_wait :: "scheduler \<Rightarrow> u32 \<Rightarrow> u32 \<Rightarrow> u32 \<Rightarrow> kern \<Rightarrow> (int \<times> kern) outcome" where
  "process_futex_wait sched key expected timeout_ms k =
     (case scheduler_current sched k of
        None \<Rightarrow> Ret (-11, k)
      | Some p \<Rightarrow>
         if key = 0 then Ret (-11, k)
         else bind_outcome (check_ptr (address_space (procs k p)) key 4 True (mem k)) (\<lambda>(e, m).
           if e \<noteq> 0 then Ret (-11, k\<lparr>mem := m\<rparr>)
           else bind_outcome (kload32 key m) (\<lambda>(word, m).
             if word \<noteq> expected then Ret (-11, k\<lparr>mem := m\<rparr>)
             else bind_outcome (kload32 key m) (\<lambda>(word, m).
               if word \<noteq> expected then Ret (-11, k\<lparr>mem := m\<rparr>)
               else Ret (0, upd_pcb p (\<lambda>x. x\<lparr>futex_key := key, futex_expected := expected,
                      futex_deadline := if timeout_ms \<noteq> 0 then timer_uptime_ms (timer k) + timeout_ms else 0,
                      state := PROCESS_BLOCKED\<rparr>) (k\<lparr>mem := m\<rparr>))))))"

fun futex_wake :: "u32 \<Rightarrow> u32 \<Rightarrow> nat list \<Rightarrow> u32 \<Rightarrow> kern \<Rightarrow> (u32 \<times> kern) option" where
  "futex_wake key count [] woken k = Some (woken, k)"
| "futex_wake key count (i # is) woken k =
     (if count = 0 \<or> woken < count then
        (if state (procs k i) = PROCESS_BLOCKED \<and> futex_key (procs k i) = key then
           (let k = upd_pcb i (\<lambda>x. x\<lparr>futex_key := 0, futex_deadline := 0, state := PROCESS_READY\<rparr>) k in
            (case scheduler_add (Some i) (set_frame_eax (interrupt_frame (procs k i)) 0 k) of
               None \<Rightarrow> None
             | Some (r, k) \<Rightarrow> futex_wake key count is (woken + 1) k))
         else futex_wake key count is woken k)
      else Some (woken, k))"

definition process_futex_wake :: "u32 \<Rightarrow> u32 \<Rightarrow> kern \<Rightarrow> (int \<times> kern) option" where
  "process_futex_wake key count k =
     (if key = 0 then Some (-1, k)
      else map_option (\<lambda>(woken, k). (sint woken, k)) (futex_wake key count [0..<process_count k] 0 k))"

definition process_futex_selftest :: "scheduler \<Rightarrow> kern \<Rightarrow> (int \<times> kern) outcome" where
  "process_futex_selftest sched k =
     (case scheduler_current sched k of
        None \<Rightarrow> Ret (-1, k)
      | Some p \<Rightarrow>
         if address_space (procs k p) = None then Ret (-1, k)
         else
           (let key = 0x00408000;
                sp = address_space (procs k p);
                old = vmm_current_address_space (vm (mem k));
                k = k\<lparr>mem := on_vm (vmm_switch_address_space sp) (mem k)\<rparr>
            in if vmm_get_user_physical sp key (vm (mem k)) \<noteq> 0 then Ret (-1, k)
               else (case pmm_alloc_page (pm (mem k)) of
                 (page, a) \<Rightarrow>
                   (case (if page = 0 then (-1, vm (mem k)) else vmm_map_user sp key page PAGE_WRITE (vm (mem k))) of
                      (e, v) \<Rightarrow>
                        let k = k\<lparr>mem := (mem k)\<lparr>pm := a, vm := v\<rparr>\<rparr> in
                        if e \<noteq> 0 then
                          (let k = (if page \<noteq> 0 then k\<lparr>mem := (mem k)\<lparr>pm := pmm_free_page page (pm (mem k))\<rparr>\<rparr> else k)
                           in Ret (-1, k\<lparr>mem := on_vm (vmm_switch_address_space old) (mem k)\<rparr>))
                        else
                          bind_outcome (on_mem (kstore32 key 0) k) (\<lambda>k.
                          bind_outcome (process_futex_wait sched key 1 0 k) (\<lambda>(mismatch, k).
                          bind_outcome (process_futex_wait sched key 0 1 k) (\<lambda>(same, k).
                          bind_outcome (or_hang (process_poll_timeouts sched
                            (upd_pcb p (\<lambda>x. x\<lparr>futex_deadline := timer_uptime_ms (timer k) - 1\<rparr>) k))) (\<lambda>k.
                            let ok = (mismatch = -11 \<and> same = 0 \<and> state (procs k p) = PROCESS_RUNNING \<and> futex_key (procs k p) = 0 \<and>
                                      futex_expected (procs k p) = 0 \<and> futex_deadline (procs k p) = 0);
                                k = upd_pcb p (\<lambda>x. x\<lparr>state := PROCESS_RUNNING, futex_key := 0, futex_expected := 0, futex_deadline := 0\<rparr>) k;
                                k = k\<lparr>mem := snd (vmm_unmap_user sp key (mem k))\<rparr>;
                                k = k\<lparr>mem := on_vm (vmm_switch_address_space old) (mem k)\<rparr>
                            in Ret (if ok then 0 else -1, k)))))))))"

text \<open>The test that a process id is not given out again.\<close>

definition pid_round :: "scheduler \<Rightarrow> nat \<Rightarrow> string \<Rightarrow> pid_t option \<Rightarrow> kern \<Rightarrow> (pid_t option \<times> kern) outcome" where
  "pid_round sched p name old k =
     (case process_create_entry name 0 k of
        (None, k) \<Rightarrow> Ret (None, k)
      | (Some c, k) \<Rightarrow>
         (let k = upd_pcb c (\<lambda>x. x\<lparr>parent_pid := pid (procs k p)\<rparr>) k; q = pid (procs k c) in
          if old = Some q then Ret (None, k)
          else bind_outcome (process_exit_with_status q 0 k) (\<lambda>(e, k).
            if e \<noteq> 0 then Ret (None, k)
            else bind_outcome (process_wait sched q 0 k) (\<lambda>(w, k). Ret (if w \<noteq> sint q then None else Some q, k)))))"

definition process_pid_selftest :: "scheduler \<Rightarrow> kern \<Rightarrow> (int \<times> kern) outcome" where
  "process_pid_selftest sched k =
     (case scheduler_current sched k of
        None \<Rightarrow> Ret (-1, k)
      | Some p \<Rightarrow>
         if \<not> allocated (procs k p) then Ret (-1, k)
         else bind_outcome (pid_round sched p ''pid-test'' None k) (\<lambda>(first, k).
           if first = None then Ret (-1, k)
           else bind_outcome (pid_round sched p ''pid-test-reuse'' first k) (\<lambda>(second, k).
             Ret (if second = None then -1 else 0, k))))"

section \<open>Fork\<close>

definition fork_parent :: "scheduler \<Rightarrow> kern \<Rightarrow> nat option \<times> kern" where
  "fork_parent sched k =
     (case scheduler_current sched k of
        Some p \<Rightarrow> (Some p, k)
      | None \<Rightarrow> if process_count k \<noteq> 0 then (Some 0, k) else process_create ''init'' k)"

definition process_fork :: "scheduler \<Rightarrow> kern \<Rightarrow> (int \<times> kern) outcome" where
  "process_fork sched k =
     (case fork_parent sched k of (parent, k) \<Rightarrow>
      (case new_pcb ''fork-child'' k of (child, k) \<Rightarrow>
       (case (child, parent) of
          (Some c, Some p) \<Rightarrow>
            (let x = procs k p;
                 k = upd_pcb c (\<lambda>y. y\<lparr>cpu_state := (cpu_state x)\<lparr>c_eax := 0\<rparr>, entry_point := entry_point x, user_mode := user_mode x,
                       credentials := credentials x, user_stack := user_stack x, parent_pid := pid x\<rparr>) k;
                 k = k\<lparr>fds := vfs_inherit_process (pid x) (pid (procs k c)) (fds k)\<rparr>;
                 fin = (\<lambda>k. Ret (sint (pid (procs k c)),
                         if user_mode (procs k p) then frame_for c (entry_point (procs k c)) (user_stack (procs k c)) True k
                         else if entry_point (procs k c) \<noteq> 0
                         then frame_for c (entry_point (procs k c)) (c_esp (cpu_state (procs k c))) False k else k))
             in if address_space (procs k p) \<noteq> None then
                  (case vmm_clone_address_space_cow (address_space (procs k p)) (mem k) of
                     (clone, m) \<Rightarrow>
                       let k = k\<lparr>mem := m\<rparr> in
                       if clone = None
                       then bind_outcome (process_exit (pid (procs k c)) k) (\<lambda>(r, k). Ret (-1, k))
                       else fin (upd_pcb c (\<lambda>y. y\<lparr>address_space := clone\<rparr>)
                                  (k\<lparr>mem := vmm_destroy_address_space (address_space (procs k c)) (mem k)\<rparr>)))
                else fin k)
        | _ \<Rightarrow> Ret (-1, k))))"

end
