(* ===== verification/Process_Props.thy ===== *)
theory Process_Props
  imports Process Sched_Props
begin

text \<open>
  The process table over all operations of \<open>kernel/process.c\<close> and the scheduler: which entries are in
  use, under which process ids; and the life cycle of a process, a signal and a futex.
\<close>

section \<open>Identities\<close>

definition ids :: "kern \<Rightarrow> nat \<times> (nat \<Rightarrow> bool \<times> pid_t \<times> u32)" where
  "ids k = (process_count k, \<lambda>i. (allocated (procs k i), pid (procs k i), generation (procs k i)))"

lemma ids_upd: "(\<And>x. allocated (f x) = allocated x \<and> pid (f x) = pid x \<and> generation (f x) = generation x) \<Longrightarrow>
    ids (upd_pcb p f k) = ids k"
  by (simp add: ids_def upd_pcb_def fun_eq_iff)

lemma ids_fields [simp]:
  "ids (k\<lparr>mem := m\<rparr>) = ids k" "ids (k\<lparr>fds := v\<rparr>) = ids k" "ids (k\<lparr>current := c\<rparr>) = ids k" "ids (k\<lparr>ready_head := q\<rparr>) = ids k"
  "ids (k\<lparr>frames := f\<rparr>) = ids k" "ids (k\<lparr>tss_esp0 := e\<rparr>) = ids k" "ids (k\<lparr>boot_cpu := b\<rparr>) = ids k" "ids (k\<lparr>quantum_ticks := n\<rparr>) = ids k"
  by (simp_all add: ids_def)

lemma ids_set_frame [simp]: "ids (set_frame_eax f v k) = ids k"
  by (simp add: set_frame_eax_def)

lemma ids_percpu [simp]: "ids (percpu_set_current c k) = ids k"
  by (simp add: percpu_set_current_def)

lemma ids_enqueue: "enqueue p k = Some k' \<Longrightarrow> ids k' = ids k"
  by (auto simp: enqueue_def Let_def ids_upd split: option.splits if_splits)

lemma ids_add: "scheduler_add p k = Some (r, k') \<Longrightarrow> ids k' = ids k"
  by (auto simp: scheduler_add_def dest: ids_enqueue split: option.splits if_splits)

lemma ids_dequeue: "dequeue_ready n k = Some (p, k') \<Longrightarrow> ids k' = ids k"
proof (induction n arbitrary: k)
  case (Suc n)
  then show ?case by (fastforce simp: Let_def ids_upd split: option.splits if_splits)
qed simp

lemma ids_poll: "poll_timeouts now run js k = Some k' \<Longrightarrow> ids k' = ids k"
proof (induction js arbitrary: k run)
  case (Cons j js)
  show ?case using Cons.prems
    by (auto simp: Let_def ids_upd split: option.splits if_splits dest!: Cons.IH ids_add)
qed simp

lemma ids_activate [simp]: "ids (activate p k) = ids k"
  by (simp add: activate_def Let_def ids_upd)

lemma ids_charge: "charge_tick p k = (b, k') \<Longrightarrow> ids k' = ids k"
  by (auto simp: charge_tick_def Let_def ids_upd split: if_splits)

lemma ids_requeue: "requeue_running p k = Some k' \<Longrightarrow> ids k' = ids k"
  by (auto simp: requeue_running_def ids_upd dest!: ids_enqueue split: if_splits)

lemmas ids_sched = ids_upd ids_charge ids_requeue ids_dequeue ids_poll

lemma ids_timer_tick: "scheduler_timer_tick s r k = Some (r', k') \<Longrightarrow> ids k' = ids k"
  by (auto simp: scheduler_timer_tick_def process_poll_timeouts_def next_ready_def switch_to_def Let_def ids_upd
      dest!: ids_charge ids_requeue ids_dequeue ids_poll split: option.splits prod.splits if_splits bool.splits)

lemma ids_block: "scheduler_block_current r k = Some (r', k') \<Longrightarrow> ids k' = ids k"
  by (auto simp: scheduler_block_current_def switch_from_current_def next_ready_def switch_to_def Let_def ids_upd
      dest!: ids_dequeue split: option.splits prod.splits if_splits)

lemma ids_on_mem: "on_mem f k = Ret k' \<Longrightarrow> ids k' = ids k"
  by (auto simp: on_mem_def bind_outcome_def split: outcome.splits)

lemma bind_Ret: "bind_outcome x f = Ret y \<longleftrightarrow> (\<exists>z. x = Ret z \<and> f z = Ret y)"
  by (auto simp: bind_outcome_def split: outcome.splits)

lemma or_hang_Ret: "or_hang x = Ret y \<longleftrightarrow> x = Some y"
  by (auto simp: or_hang_def split: option.splits)

lemma ids_orphan [simp]: "ids (orphan_zombies q k) = ids k"
proof -
  have "ids (fold (\<lambda>j k. if allocated (procs k j) \<and> parent_pid (procs k j) = q \<and> state (procs k j) = PROCESS_ZOMBIE
      then upd_pcb j (\<lambda>x. x\<lparr>parent_pid := 0\<rparr>) k else k) js k) = ids k" for js
    by (induction js arbitrary: k) (simp_all add: ids_upd)
  then show ?thesis by (simp add: orphan_zombies_def)
qed

lemma ids_wake: "wake_waiters q i js k = Ret k' \<Longrightarrow> ids k' = ids k"
proof (induction js arbitrary: k q i)
  case (Cons j js)
  show ?case using Cons.prems
    by (auto simp: Let_def ids_upd bind_Ret or_hang_Ret split: if_splits dest!: Cons.IH ids_add ids_on_mem)
qed simp

lemma ids_exit: "process_exit_with_status q s k = Ret (r, k') \<Longrightarrow> ids k' = ids k"
  by (auto simp: process_exit_with_status_def Let_def ids_upd bind_Ret split: option.splits dest!: ids_wake)

lemma ids_send: "process_send_signal q s k = Ret (r, k') \<Longrightarrow> ids k' = ids k"
proof -
  assume run: "process_send_signal q s k = Ret (r, k')"
  have add: "ids k2 = ids k" if "scheduler_add (Some i) (upd_pcb i f (upd_pcb i g k)) = Some (e, k2)"
    "\<And>x. allocated (f x) = allocated x \<and> pid (f x) = pid x \<and> generation (f x) = generation x"
    "\<And>x. allocated (g x) = allocated x \<and> pid (g x) = pid x \<and> generation (g x) = generation x" for i f g e k2
    using ids_add [OF that(1)] that(2,3) by (simp add: ids_upd)
  show ?thesis
  proof (cases "s = 9")
    case True
    then show ?thesis using run by (auto simp: process_send_signal_def bind_Ret dest: ids_exit)
  next
    case False
    show ?thesis
      using run unfolding process_send_signal_def Let_def
      by (simp add: False ids_upd bind_Ret or_hang_Ret split: option.split_asm if_split_asm) (auto simp: ids_upd dest: add)
  qed
qed

lemma ids_checked:
  "bind_outcome (check_ptr sp a n w (mem k)) (\<lambda>(r, m). Ret (r, k\<lparr>mem := m\<rparr>)) = Ret (r, k') \<Longrightarrow> ids k' = ids k"
  by (auto simp: bind_Ret)

lemma ids_action:
  assumes "process_signal_action q s h k = Ret (r, k')"
  shows "ids k' = ids k"
proof (cases "find_process (\<lambda>x. pid x = q) k")
  case None
  then show ?thesis using assms by (simp add: process_signal_action_def split: if_split_asm)
next
  case (Some i)
  show ?thesis
  proof (cases "s = 0 \<or> 31 < s \<or> s = 9")
    case True
    then show ?thesis using assms by (simp add: process_signal_action_def)
  next
    case False
    note run = assms [unfolded process_signal_action_def if_not_P [OF False] Some option.case bind_Ret]
    then show ?thesis
      by (elim exE conjE) (auto dest!: ids_checked simp: ids_upd split: if_split_asm)
  qed
qed

lemma ids_set_mask: "process_signal_set_mask q m k = (r, k') \<Longrightarrow> ids k' = ids k"
  by (auto simp: process_signal_set_mask_def ids_upd split: option.splits)

lemma ids_enter_handler: "enter_handler p s r k = Ret k' \<Longrightarrow> ids k' = ids k"
  by (auto simp: enter_handler_def Let_def ids_upd bind_Ret dest!: ids_on_mem)

lemma ids_deliver: "deliver p pending r sigs k = Ret k' \<Longrightarrow> ids k' = ids k"
proof (induction sigs arbitrary: k)
  case (Cons s sigs)
  show ?case using Cons.prems
    by (auto simp: Let_def ids_upd bind_Ret split: if_splits prod.splits dest!: Cons.IH ids_enter_handler)
qed simp

lemma ids_deliver_signal: "process_deliver_signal sched r k = Ret k' \<Longrightarrow> ids k' = ids k"
  by (auto simp: process_deliver_signal_def split: option.splits if_splits dest!: ids_deliver)

lemma ids_signal_return [simp]: "ids (process_signal_return sched r k) = ids k"
  by (simp add: process_signal_return_def ids_upd split: option.splits)

lemma ids_futex_wait: "process_futex_wait sched key e t k = Ret (r, k') \<Longrightarrow> ids k' = ids k"
  by (auto simp: process_futex_wait_def ids_upd bind_Ret split: option.splits if_splits prod.splits)

lemma ids_futex_wake_loop: "futex_wake key c js w k = Some (w', k') \<Longrightarrow> ids k' = ids k"
proof (induction js arbitrary: k w key c)
  case (Cons j js)
  show ?case using Cons.prems
    by (auto simp: Let_def ids_upd split: option.splits if_splits prod.splits dest!: Cons.IH ids_add)
qed simp

lemma ids_futex_wake: "process_futex_wake key c k = Some (r, k') \<Longrightarrow> ids k' = ids k"
  by (auto simp: process_futex_wake_def split: if_splits dest!: ids_futex_wake_loop)

lemma ids_frame_for [simp]: "ids (frame_for p e s u k) = ids k"
  by (simp add: frame_for_def Let_def ids_upd)

section \<open>The process table\<close>

text \<open>
  Entries in use lie below \<open>process_count\<close>, and the id of a process consists of the generation of its
  entry and the index of the entry.
\<close>

definition table_ok :: "nat \<times> (nat \<Rightarrow> bool \<times> pid_t \<times> u32) \<Rightarrow> bool" where
  "table_ok t \<longleftrightarrow> fst t \<le> 32 \<and> (\<forall>i<32. fst (snd t i) \<longrightarrow> i < fst t \<and>
     fst (snd (snd t i)) = push_bit 8 (snd (snd (snd t i))) OR (of_nat i + 1) \<and>
     snd (snd (snd t i)) \<noteq> 0 \<and> snd (snd (snd t i)) \<le> 0xffffff)"

definition table_inv :: "kern \<Rightarrow> bool" where
  "table_inv k \<longleftrightarrow> table_ok (ids k)"

lemma table_inv_ids: "ids k' = ids k \<Longrightarrow> table_inv k \<Longrightarrow> table_inv k'"
  by (simp add: table_inv_def)

lemma next_generation_ok: "next_generation g \<noteq> 0" "next_generation g \<le> 0xffffff"
  using word_and_le1 [of "g + 1" "0xffffff"] by (simp_all add: next_generation_def Let_def)

lemma find_upt_Some: "find P [0..<n] = Some i \<longleftrightarrow> i < n \<and> P i \<and> (\<forall>j<i. \<not> P j)"
  by (auto simp: find_Some_iff)

definition pid_of :: "u32 \<Rightarrow> nat \<Rightarrow> pid_t" where
  "pid_of g i = push_bit 8 g OR (of_nat i + 1)"

text \<open>The effect of \<open>new_pcb\<close> on the identities.\<close>

lemma new_pcb_ids:
  assumes "new_pcb name k = (r, k')"
  obtains (full) "r = None" "k' = k"
  | (new) i g n where "i < 32" "\<not> allocated (procs k i)" "\<And>j. j < i \<Longrightarrow> allocated (procs k j)" "g = next_generation (generation (procs k i))"
      "ids k' = (n, (snd (ids k))(i := (r = Some i, pid_of g i, g)))" "r = None \<or> r = Some i"
      "n = (if r = Some i \<and> i = process_count k then process_count k + 1 else process_count k)"
      "r = Some i \<Longrightarrow> address_space (procs k' i) \<noteq> None"
proof (cases "find (\<lambda>i. \<not> allocated (procs k i)) [0..<MAX_PROCESSES]")
  case None
  then show ?thesis using assms full by (simp add: new_pcb_def)
next
  case (Some i)
  then have i: "i < 32" "\<not> allocated (procs k i)" "\<And>j. j < i \<Longrightarrow> allocated (procs k j)"
    unfolding find_upt_Some MAX_PROCESSES_def by blast+
  let ?g = "next_generation (generation (procs k i))"
  let ?k = "upd_pcb i (fresh_pcb name i) (if i = process_count k then k\<lparr>process_count := process_count k + 1\<rparr> else k)"
  obtain sp v where v: "vmm_create_address_space (vm (mem ?k)) = (sp, v)" by fastforce
  note run = assms [unfolded new_pcb_def Some option.case Let_def v prod.case]
  show ?thesis
  proof (cases sp)
    case None
    then show ?thesis
      by (intro new [OF i refl, where n = "process_count k"])
        (use run in \<open>auto simp: ids_def fresh_pcb_def pid_of_def Let_def fun_eq_iff split: if_splits\<close>)
  next
    case (Some a)
    then show ?thesis
      by (intro new [OF i refl, where n = "if i = process_count k then process_count k + 1 else process_count k"])
        (use run in \<open>auto simp: ids_def fresh_pcb_def reset_pcb_def pid_of_def Let_def fun_eq_iff split: if_splits\<close>)
  qed
qed

lemma table_ok_upd:
  assumes "table_ok (m, t)" "m \<le> n" "n \<le> 32" "a \<Longrightarrow> i < n \<and> p = pid_of g i \<and> g \<noteq> 0 \<and> g \<le> 0xffffff"
  shows "table_ok (n, t(i := (a, p, g)))"
  using assms by (auto simp: table_ok_def pid_of_def)

lemma new_pcb_table:
  assumes "table_inv k" "new_pcb name k = (r, k')"
  shows "table_inv k'"
  using assms(2)
proof (cases rule: new_pcb_ids)
  case full
  then show ?thesis using assms(1) by simp
next
  case (new i g n)
  have pc: "process_count k \<le> 32" "\<And>j. j < 32 \<Longrightarrow> allocated (procs k j) \<Longrightarrow> j < process_count k"
    using assms(1) by (simp_all add: table_inv_def table_ok_def ids_def)
  have "i \<le> process_count k" using new(1,3) pc(2) [of "process_count k"] pc(1) by (metis less_irrefl less_le_trans not_le order_less_trans)
  moreover have "table_ok (process_count k, snd (ids k))" using assms(1) by (simp add: table_inv_def ids_def)
  ultimately show ?thesis unfolding table_inv_def new(5)
    using new(1,4,7) pc(1) next_generation_ok [of "generation (procs k i)"]
    by (intro table_ok_upd [of "process_count k"]) (auto split: if_splits)
qed

lemma create_entry_table:
  "table_inv k \<Longrightarrow> process_create_entry name e k = (r, k') \<Longrightarrow> table_inv k'"
  by (auto simp: process_create_entry_def Let_def split: option.splits prod.splits if_splits
      dest!: new_pcb_table [unfolded table_inv_def, rotated] simp: table_inv_def ids_upd)

lemma create_thread_table:
  "table_inv k \<Longrightarrow> process_create_thread s name e k = (r, k') \<Longrightarrow> table_inv k'"
  by (auto simp: process_create_thread_def Let_def split: option.splits prod.splits if_splits
      dest!: create_entry_table [unfolded table_inv_def, rotated] simp: table_inv_def ids_upd)

lemma create_user_table:
  "table_inv k \<Longrightarrow> process_create_user name e k = (r, k') \<Longrightarrow> table_inv k'"
  by (auto simp: process_create_user_def Let_def split: option.splits prod.splits if_splits
      dest!: new_pcb_table [unfolded table_inv_def, rotated] simp: table_inv_def ids_upd)

lemma enter_user_ids: "ids (process_enter_user p k) = ids k"
  by (simp add: process_enter_user_def scheduler_set_current_def Let_def ids_upd split: option.splits)

lemma reap_table: "table_inv k \<Longrightarrow> table_inv (reap q i k)"
proof -
  assume "table_inv k"
  then have "table_ok (process_count k, (snd (ids k))(i := (False, pid (procs k i), generation (procs k i))))"
    by (intro table_ok_upd [of "process_count k"]) (simp_all add: table_inv_def ids_def table_ok_def)
  moreover have "ids (reap q i k) = (process_count k, (snd (ids k))(i := (False, pid (procs k i), generation (procs k i))))"
    by (simp add: reap_def Let_def ids_def fun_eq_iff)
  ultimately show ?thesis by (simp add: table_inv_def)
qed

lemma wait_table: "table_inv k \<Longrightarrow> process_wait s q st k = Ret (r, k') \<Longrightarrow> table_inv k'"
  by (auto simp: process_wait_def bind_Ret split: option.splits if_splits dest!: ids_on_mem
      intro!: reap_table [unfolded table_inv_def] simp: table_inv_def ids_upd)

lemma fork_parent_table: "table_inv k \<Longrightarrow> fork_parent s k = (r, k') \<Longrightarrow> table_inv k'"
  by (auto simp: fork_parent_def process_create_def split: option.splits if_splits dest!: create_entry_table [rotated])

lemma fork_table:
  assumes "table_inv k" "process_fork s k = Ret (r, k')"
  shows "table_inv k'"
proof -
  obtain parent k1 where p: "fork_parent s k = (parent, k1)" by fastforce
  obtain child k2 where c: "new_pcb ''fork-child'' k1 = (child, k2)" by fastforce
  have inv: "table_inv k2" by (rule new_pcb_table [OF fork_parent_table [OF assms(1) p] c])
  note run = assms(2) [unfolded process_fork_def p c prod.case]
  show ?thesis
  proof (cases "child = None \<or> parent = None")
    case True
    then show ?thesis using run inv by (auto split: option.split_asm)
  next
    case False
    then obtain c q where "child = Some c" "parent = Some q" by auto
    then show ?thesis using run inv
      by (auto simp: Let_def table_inv_def ids_upd bind_Ret process_exit_def split: if_split_asm prod.split_asm dest!: ids_exit)
  qed
qed

section \<open>All operations\<close>

inductive process_step :: "scheduler \<Rightarrow> kern \<Rightarrow> kern \<Rightarrow> bool" for sched where
  create: "process_create_entry name e k = (r, k') \<Longrightarrow> process_step sched k k'"
| thread: "process_create_thread sched name e k = (r, k') \<Longrightarrow> process_step sched k k'"
| user: "process_create_user name e k = (r, k') \<Longrightarrow> process_step sched k k'"
| fork: "process_fork sched k = Ret (r, k') \<Longrightarrow> process_step sched k k'"
| enter: "process_step sched k (process_enter_user p k)"
| exit: "process_exit_with_status q status k = Ret (r, k') \<Longrightarrow> process_step sched k k'"
| wait: "process_wait sched q ptr k = Ret (r, k') \<Longrightarrow> process_step sched k k'"
| kill: "process_send_signal q s k = Ret (r, k') \<Longrightarrow> process_step sched k k'"
| action: "process_signal_action q s h k = Ret (r, k') \<Longrightarrow> process_step sched k k'"
| set_mask: "process_signal_set_mask q m k = (r, k') \<Longrightarrow> process_step sched k k'"
| deliver: "process_deliver_signal sched f k = Ret k' \<Longrightarrow> process_step sched k k'"
| return: "process_step sched k (process_signal_return sched f k)"
| futex_wait: "process_futex_wait sched key e t k = Ret (r, k') \<Longrightarrow> process_step sched k k'"
| futex_wake: "process_futex_wake key n k = Some (r, k') \<Longrightarrow> process_step sched k k'"
| add: "scheduler_add p k = Some (r, k') \<Longrightarrow> process_step sched k k'"
| tick: "scheduler_timer_tick sched f k = Some (f', k') \<Longrightarrow> process_step sched k k'"
| block: "scheduler_block_current f k = Some (f', k') \<Longrightarrow> process_step sched k k'"

lemma process_step_table: "process_step sched k k' \<Longrightarrow> table_inv k \<Longrightarrow> table_inv k'"
proof (induction rule: process_step.induct)
  case create then show ?case by (metis create_entry_table)
next
  case thread then show ?case by (metis create_thread_table)
next
  case user then show ?case by (metis create_user_table)
next
  case fork then show ?case by (metis fork_table)
next
  case wait then show ?case by (metis wait_table)
qed (metis table_inv_ids ids_exit ids_send ids_action ids_set_mask ids_deliver_signal ids_signal_return ids_futex_wait
    ids_futex_wake ids_add ids_timer_tick ids_block enter_user_ids)+

lemma process_steps_table: "(process_step sched)\<^sup>*\<^sup>* k k' \<Longrightarrow> table_inv k \<Longrightarrow> table_inv k'"
  by (induction rule: rtranclp_induct) (auto dest: process_step_table)

text \<open>The id of a process determines its entry.\<close>

lemma pid_of_low: "i < 32 \<Longrightarrow> pid_of g i AND 0xff = of_nat i + 1"
proof -
  assume i: "i < 32"
  have u: "unat (of_nat i + 1 :: u32) = Suc i" using i by (simp add: unat_word_ariths unat_of_nat)
  then have "of_nat i + 1 AND mask 8 = (of_nat i + 1 :: u32)"
    using i by (intro less_mask_eq) (simp add: word_less_nat_alt)
  moreover have "push_bit 8 g AND mask 8 = 0" by (rule bit_word_eqI) (simp add: bit_simps)
  ultimately have "pid_of g i AND mask 8 = of_nat i + 1"
    by (simp add: pid_of_def bit.conj_disj_distrib2)
  then show ?thesis by (simp add: mask_eq_exp_minus_1)
qed

lemma pid_of_slot: "i < 32 \<Longrightarrow> slot_for_pid (pid_of g i) = i" "i < 32 \<Longrightarrow> pid_of g i \<noteq> 0"
proof -
  assume i: "i < 32"
  have "unat (of_nat i + 1 :: u32) = Suc i" using i by (simp add: unat_word_ariths unat_of_nat)
  then have nz: "of_nat i + 1 \<noteq> (0 :: u32)" by auto
  show "pid_of g i \<noteq> 0" using pid_of_low [OF i, of g] nz by auto
  show "slot_for_pid (pid_of g i) = i"
    using i nz by (simp add: slot_for_pid_def pid_of_low VFS_MAX_PROCESSES_def unat_of_nat word_less_nat_alt)
qed

section \<open>Exit and wait\<close>

text \<open>What the life cycle of the process in entry \<open>i\<close> depends on.\<close>

definition life :: "nat \<Rightarrow> kern \<Rightarrow> bool \<times> pid_t \<times> pid_t \<times> u32 \<times> u32" where
  "life i k = (allocated (procs k i), pid (procs k i), parent_pid (procs k i), exit_code (procs k i), state (procs k i))"

lemma life_fields [simp]:
  "life i (k\<lparr>mem := m\<rparr>) = life i k" "life i (k\<lparr>fds := v\<rparr>) = life i k" "life i (k\<lparr>ready_head := q\<rparr>) = life i k"
  "life i (set_frame_eax a w k) = life i k" "j \<noteq> i \<Longrightarrow> life i (upd_pcb j g k) = life i k"
  by (simp_all add: life_def set_frame_eax_def)

lemma life_link [simp]: "life i (upd_pcb j (\<lambda>x. x\<lparr>next_pcb := n\<rparr>) k) = life i k"
  by (simp add: life_def)

lemma life_enqueue: "enqueue p k = Some k' \<Longrightarrow> life i k' = life i k"
  by (auto simp: enqueue_def Let_def split: option.splits if_splits)

lemma life_add: "scheduler_add p k = Some (r, k') \<Longrightarrow> life i k' = life i k"
  by (auto simp: scheduler_add_def dest: life_enqueue split: option.splits if_splits)

lemma life_on_mem: "on_mem f k = Ret k' \<Longrightarrow> life i k' = life i k"
  by (auto simp: on_mem_def bind_Ret)

lemma life_state: "life i k' = life i k \<Longrightarrow> state (procs k' i) = state (procs k i) \<and> parent_pid (procs k' i) = parent_pid (procs k i)"
  by (simp add: life_def)

text \<open>Waking the waiters leaves every process alone that does not have \<open>q\<close> as its parent or is not blocked.\<close>

lemma life_wake:
  "wake_waiters q i js k = Ret k' \<Longrightarrow> parent_pid (procs k p) \<noteq> q \<or> state (procs k p) \<noteq> PROCESS_BLOCKED \<Longrightarrow> life p k' = life p k"
proof (induction js arbitrary: k)
  case (Cons j js)
  show ?case
  proof (cases "allocated (procs k j) \<and> parent_pid (procs k j) = q \<and> state (procs k j) = PROCESS_BLOCKED \<and> wait_for_pid (procs k j) = q")
    case False
    then show ?thesis using Cons by auto
  next
    case True
    then have "j \<noteq> p" using Cons.prems(2) by auto
    let ?k = "upd_pcb j (\<lambda>x. x\<lparr>wait_status := exit_code (procs (upd_pcb j (\<lambda>x. x\<lparr>state := PROCESS_READY, wait_for_pid := 0\<rparr>) k) i)\<rparr>)
        (upd_pcb j (\<lambda>x. x\<lparr>state := PROCESS_READY, wait_for_pid := 0\<rparr>) k)"
    obtain k1 r k2 where s: "(if wait_status_ptr (procs ?k j) \<noteq> 0 then on_mem (kstore32 (wait_status_ptr (procs ?k j)) (exit_code (procs ?k i))) ?k
         else Ret ?k) = Ret k1" "scheduler_add (Some j) (set_frame_eax (interrupt_frame (procs k1 j)) q k1) = Some (r, k2)"
      "wake_waiters q i js k2 = Ret k'"
      using Cons.prems(1) True unfolding wake_waiters.simps Let_def
      by (simp only: simp_thms if_True bind_Ret or_hang_Ret split_paired_Ex prod.case) blast
    have "life p k1 = life p k" using s(1) \<open>j \<noteq> p\<close> by (auto split: if_split_asm dest!: life_on_mem [where i = p])
    then have l2: "life p k2 = life p k" using life_add [OF s(2), of p] by simp
    then show ?thesis using Cons.IH [OF s(3)] Cons.prems(2) life_state [OF l2] by auto
  qed
qed simp

lemma life_orphan: "parent_pid (procs k p) \<noteq> q \<Longrightarrow> life p (orphan_zombies q k) = life p k"
proof -
  assume "parent_pid (procs k p) \<noteq> q"
  then have "life p (fold (\<lambda>j k. if allocated (procs k j) \<and> parent_pid (procs k j) = q \<and> state (procs k j) = PROCESS_ZOMBIE
      then upd_pcb j (\<lambda>x. x\<lparr>parent_pid := 0\<rparr>) k else k) js k) = life p k" for js
  proof (induction js arbitrary: k)
    case (Cons j js)
    show ?case
    proof (cases "j = p")
      case True
      then show ?thesis using Cons by simp
    next
      case False
      then show ?thesis using Cons by (auto simp: life_def)
    qed
  qed simp
  then show ?thesis by (simp add: orphan_zombies_def)
qed

lemma exit_life:
  assumes "process_exit_with_status q s k = Ret (r, k')" "find_process (\<lambda>x. pid x = q) k = Some i"
  shows "parent_pid (procs k i) \<noteq> q \<Longrightarrow> life i k' = (True, q, parent_pid (procs k i), s, PROCESS_ZOMBIE)" "r = 0"
    "p \<noteq> i \<Longrightarrow> parent_pid (procs k p) \<noteq> q \<Longrightarrow> life p k' = life p k"
proof -
  let ?k = "orphan_zombies q ((upd_pcb i (\<lambda>x. x\<lparr>state := PROCESS_ZOMBIE, exit_code := s\<rparr>) k)
      \<lparr>fds := vfs_release_process q (fds (upd_pcb i (\<lambda>x. x\<lparr>state := PROCESS_ZOMBIE, exit_code := s\<rparr>) k))\<rparr>)"
  have w: "wake_waiters q i [0..<process_count ?k] ?k = Ret k'" "r = 0"
    using assms unfolding process_exit_with_status_def Let_def by (simp_all add: bind_Ret)
  then show "r = 0" by simp
  have f: "allocated (procs k i)" "pid (procs k i) = q"
    using assms(2) unfolding find_process_def find_upt_Some by blast+
  show "life i k' = (True, q, parent_pid (procs k i), s, PROCESS_ZOMBIE)" if "parent_pid (procs k i) \<noteq> q"
  proof -
    have "life i ?k = (True, q, parent_pid (procs k i), s, PROCESS_ZOMBIE)"
      using that f by (subst life_orphan) (simp_all add: life_def)
    then show ?thesis using life_wake [OF w(1), of i] by (simp add: life_def PROCESS_ZOMBIE_def PROCESS_BLOCKED_def)
  qed
  show "life p k' = life p k" if "p \<noteq> i" "parent_pid (procs k p) \<noteq> q"
  proof -
    have "life p ?k = life p k" using that by (subst life_orphan) simp_all
    then show ?thesis using life_wake [OF w(1), of p] life_state [of p ?k k] that by simp
  qed
qed

lemma find_process_unique:
  assumes "table_inv k" "i < process_count k" "allocated (procs k i)" "P (procs k i)" "\<And>x. P x \<Longrightarrow> pid x = pid (procs k i)"
  shows "find_process P k = Some i"
proof -
  have t: "process_count k \<le> 32" "\<And>j. j < 32 \<Longrightarrow> allocated (procs k j) \<Longrightarrow> pid (procs k j) = pid_of (generation (procs k j)) j"
    using assms(1) by (simp_all add: table_inv_def table_ok_def ids_def pid_of_def)
  have "j = i" if "j < process_count k" "allocated (procs k j)" "P (procs k j)" for j
    using that t assms(2,3,5) pid_of_slot(1) [of j "generation (procs k j)"] pid_of_slot(1) [of i "generation (procs k i)"]
    by (metis less_le_trans)
  then have "\<not> (allocated (procs k j) \<and> P (procs k j))" if "j < i" for j
    using that assms(2) by (metis less_irrefl order_less_trans)
  then show ?thesis unfolding find_process_def find_upt_Some using assms(2-4) by blast
qed

section \<open>Signals\<close>

lemma rr_scheduler_current [simp]: "scheduler_current (rr switch) k = current k"
  by (simp add: scheduler_current_def rr_def rr_current_def)

lemma on_mem_same: "on_mem f k = Ret k' \<Longrightarrow> \<exists>m. k' = k\<lparr>mem := m\<rparr>"
  by (auto simp: on_mem_def bind_Ret)

lemma enter_handler_frame:
  assumes "enter_handler p s r k = Ret k'"
  shows "frames k' r = (frames k r)\<lparr>useresp := useresp (frames k r) - 8, eip := signal_handlers (procs k p) s, eax := of_nat s\<rparr>"
    "signal_saved_frame (procs k' p) = frames k r" "signal_active (procs k' p)" "current k' = current k"
    "pending_signals (procs k' p) = pending_signals (procs k p)" "user_mode (procs k' p) = user_mode (procs k p)"
  using assms by (auto simp: enter_handler_def Let_def bind_Ret dest!: on_mem_same)

text \<open>Delivery either enters the handler of one pending signal or leaves the frame alone.\<close>

lemma deliver_frame:
  "deliver p pending r sigs k = Ret k' \<Longrightarrow> \<not> signal_active (procs k p) \<Longrightarrow>
     (frames k' = frames k \<and> \<not> signal_active (procs k' p)) \<or>
     (\<exists>s\<in>set sigs. bit pending s \<and> signal_handlers (procs k p) s \<noteq> 0 \<and>
        frames k' r = (frames k r)\<lparr>useresp := useresp (frames k r) - 8, eip := signal_handlers (procs k p) s, eax := of_nat s\<rparr> \<and>
        signal_saved_frame (procs k' p) = frames k r \<and> signal_active (procs k' p) \<and> current k' = current k)"
proof (induction sigs arbitrary: k)
  case (Cons s sigs)
  define k1 where "k1 = upd_pcb p (\<lambda>x. x\<lparr>pending_signals := pending_signals x AND NOT (push_bit s 1)\<rparr>) k"
  have same: "frames (k1\<lparr>mem := m\<rparr>) = frames k" "signal_active (procs (k1\<lparr>mem := m\<rparr>) p) = signal_active (procs k p)"
    "signal_handlers (procs (k1\<lparr>mem := m\<rparr>) p) = signal_handlers (procs k p)" "current (k1\<lparr>mem := m\<rparr>) = current k" for m
    by (simp_all add: k1_def)
  have s1: "signal_handlers (procs k1 p) = signal_handlers (procs k p)" "frames k1 = frames k" by (simp_all add: k1_def)
  note run = Cons.prems(1) [unfolded deliver.simps Let_def, folded k1_def, unfolded s1]
  consider (off) "deliver p pending r sigs k = Ret k'"
    | (drop) m where "deliver p pending r sigs (k1\<lparr>mem := m\<rparr>) = Ret k'"
    | (enter) m where "bit pending s" "signal_handlers (procs k p) s \<noteq> 0" "enter_handler p s r (k1\<lparr>mem := m\<rparr>) = Ret k'"
  proof (cases "bit pending s \<and> \<not> (signal_handlers (procs k p) s = 0 \<or> useresp (frames k r) < 0x400008)")
    case False
    have "k1\<lparr>mem := mem k1\<rparr> = k1" by simp
    then show ?thesis using False run off drop [of "mem k1"] by (auto split: if_split_asm)
  next
    case True
    then obtain e :: int and m where "(if e \<noteq> 0 then deliver p pending r sigs (k1\<lparr>mem := m\<rparr>) else enter_handler p s r (k1\<lparr>mem := m\<rparr>)) = Ret k'"
      using run by (auto simp: bind_Ret)
    then show ?thesis using True drop [of m] enter [of m] by (auto split: if_split_asm)
  qed
  then show ?case
  proof cases
    case off
    then show ?thesis using Cons.IH [OF off Cons.prems(2)] by auto
  next
    case (drop m)
    then show ?thesis using Cons.IH [OF drop] Cons.prems(2) unfolding same by auto
  next
    case (enter m)
    then show ?thesis using enter_handler_frame [OF enter(3)] unfolding same by (intro disjI2 bexI [of _ s]) simp_all
  qed
qed simp

section \<open>Examples\<close>

definition proc_example :: "nat \<Rightarrow> pcb" where
  "proc_example i = pcb_example\<lparr>allocated := True, generation := 1, pid := pid_of 1 i\<rparr>"

definition kern_empty :: kern where
  "kern_empty = kern_example\<lparr>procs := \<lambda>_. pcb_example\<lparr>allocated := False\<rparr>, process_count := 0, current := Some 32, ready_head := None,
     mem := \<lparr>pm = pmm_example, vm = vmm_blank, phys = (\<lambda>_. 0)\<rparr>\<rparr>"

text \<open>Process 0 runs, process 1 is its child.\<close>

definition kern_two :: kern where
  "kern_two = kern_empty\<lparr>procs := (procs kern_empty)(0 := (proc_example 0)\<lparr>state := PROCESS_RUNNING\<rparr>,
     1 := (proc_example 1)\<lparr>parent_pid := 0x101\<rparr>), process_count := 2, current := Some 0\<rparr>"

lemma kern_two_simps:
  "table_inv kern_two" "process_count kern_two = 2" "current kern_two = Some 0" "allocated (procs kern_two (Suc 0))"
  "pid (procs kern_two (Suc 0)) = 0x102" "pid (procs kern_two 0) = 0x101" "parent_pid (procs kern_two (Suc 0)) = 0x101"
  "parent_pid (procs kern_two 0) = 0" "state (procs kern_two 0) = PROCESS_RUNNING"
  by (simp_all add: table_inv_def table_ok_def ids_def kern_two_def kern_empty_def proc_example_def pid_of_def pcb_example_def)

lemma kern_two_find: "find_process (\<lambda>x. pid x = 0x102) kern_two = Some (Suc 0)"
  by (simp add: find_process_def kern_two_simps upt_rec)

text \<open>Process 0 runs in user mode with one page of stack, signal 2 is pending and has a handler.\<close>

definition mem_user :: mm where
  "mem_user = \<lparr>pm = pmm_example, vm = vmm_blank\<lparr>spaces := (spaces vmm_blank)(0 := (spaces vmm_blank 0)
     \<lparr>page_directory := (\<lambda>_. PdeNone)(2 := PdeUser 1 7), user_tables := \<lambda>t j. if t = 1 \<and> j = 1022 then 0x300007 else 0,
      table_used := \<lambda>t. t = 1\<rparr>), space_used := \<lambda>i. i = 0, current_space := Some 0, cr3 := Some 0\<rparr>, phys = (\<lambda>_. 0)\<rparr>"

definition kern_user :: kern where
  "kern_user = kern_two\<lparr>procs := (procs kern_two)(0 := (procs kern_two 0)\<lparr>user_mode := True, address_space := Some 0,
      pending_signals := 4, signal_handlers := (\<lambda>_. 0)(2 := 0x400000)\<rparr>),
     frames := (\<lambda>_. zero_frame\<lparr>eip := 0x400010, useresp := 0xbff000\<rparr>), mem := mem_user\<rparr>"

lemma kstore8_ok: "translate (vm m) va = Some a \<Longrightarrow> kstore8 va b m = Ret (m\<lparr>phys := (phys m)(a := b)\<rparr>)"
  by (simp add: kstore8_def fault_in_def bind_outcome_def or_fault_def vstore_def)

lemma kstore32_ok:
  assumes "\<And>i. i < 4 \<Longrightarrow> translate (vm m) (va + of_nat i) \<noteq> None"
  shows "\<exists>p. kstore32 va w m = Ret (m\<lparr>phys := p\<rparr>)"
proof -
  obtain a b c d where "translate (vm m) va = Some a" "translate (vm m) (va + 1) = Some b"
    "translate (vm m) (va + 2) = Some c" "translate (vm m) (va + 3) = Some d"
    using assms [of 0] assms [of 1] assms [of 2] assms [of 3] by auto
  then show ?thesis by (auto simp: kstore32_def kstore8_ok bind_outcome_def)
qed

lemma mem_user_stack:
  "i < 8 \<Longrightarrow> translate (vm mem_user) (0xbfeff8 + of_nat i) \<noteq> None" "check_ptr (Some 0) 0xbfeff8 8 True mem_user = Ret (0, mem_user)"
proof -
  have "i = 0 \<or> i = 1 \<or> i = 2 \<or> i = 3 \<or> i = 4 \<or> i = 5 \<or> i = 6 \<or> i = 7" if "i < 8" using that by auto
  then show "i < 8 \<Longrightarrow> translate (vm mem_user) (0xbfeff8 + of_nat i) \<noteq> None"
    by (auto simp: translate_def hw_pte_def mem_user_def vmm_blank_def dir_index_def table_index_def Let_def)
  show "check_ptr (Some 0) 0xbfeff8 8 True mem_user = Ret (0, mem_user)"
    by (simp add: check_ptr_def vmm_validate_user_ptr_def user_range_def user_pages_def validate_page_def vmm_get_user_physical_def
        mem_user_def vmm_blank_def dir_index_def table_index_def frame_of_def bind_outcome_def Let_def)
qed

section \<open>Properties\<close>

text \<open>C35: From a kernel with an empty process table, whatever sequence of process and scheduler operations
  runs, the table stays well-formed: the entries in use lie below \<open>process_count\<close>, at most 32; every process
  in use has a non-zero id that names its own entry, and so its own descriptor table of the file system; no two
  processes have the same id.\<close>

theorem process_table_well_formed:
  assumes "(process_step sched)\<^sup>*\<^sup>* k k'" "process_count k = 0" "\<forall>i<32. \<not> allocated (procs k i)"
  shows "process_count k' \<le> 32 \<and>
    (\<forall>i<32. allocated (procs k' i) \<longrightarrow> i < process_count k' \<and> pid (procs k' i) \<noteq> 0 \<and> slot_for_pid (pid (procs k' i)) = i) \<and>
    inj_on (\<lambda>i. pid (procs k' i)) {i. i < 32 \<and> allocated (procs k' i)}"
proof -
  have "table_inv k" using assms(2,3) by (simp add: table_inv_def table_ok_def ids_def)
  then have "table_inv k'" by (rule process_steps_table [OF assms(1)])
  then have t: "process_count k' \<le> 32" "\<And>i. i < 32 \<Longrightarrow> allocated (procs k' i) \<Longrightarrow>
      i < process_count k' \<and> pid (procs k' i) = pid_of (generation (procs k' i)) i"
    by (simp_all add: table_inv_def table_ok_def ids_def pid_of_def)
  then show ?thesis by (auto simp: pid_of_slot inj_on_def) (metis pid_of_slot(1))
qed

theorem process_table_well_formed_witness:
  "\<exists>k'. (process_step (rr (\<lambda>_ _ k. k)))\<^sup>*\<^sup>* kern_empty k' \<and> allocated (procs k' 0) \<and> slot_for_pid (pid (procs k' 0)) = 0"
proof -
  obtain r k' where run: "process_create_entry ''a'' 0 kern_empty = (r, k')" by fastforce
  then have step: "(process_step (rr (\<lambda>_ _ k. k)))\<^sup>*\<^sup>* kern_empty k'" by (blast intro: process_step.create)
  have pre: "process_count kern_empty = 0" "\<forall>i<32. \<not> allocated (procs kern_empty i)"
    by (simp_all add: kern_empty_def)
  have "allocated (procs k' 0)"
    using run by (auto simp: process_create_entry_def new_pcb_def kern_empty_def kern_example_def vmm_blank_def
        vmm_create_address_space_def MAX_PROCESSES_def MAX_SPACES_def Let_def fresh_pcb_def reset_pcb_def upt_rec)
  then show ?thesis using step process_table_well_formed [OF step pre] by (intro exI [of _ k']) simp
qed

text \<open>C36: When a process other than the caller's own exits, its entry keeps the status, and a following wait of
  its parent returns its id, stores exactly that status where a pointer was given, and frees the entry and its
  address space.\<close>

theorem process_exit_then_wait:
  assumes "table_inv k" "i < process_count k" "allocated (procs k i)" "pid (procs k i) = q"
    and "parent_pid (procs k i) = pid (procs k p)" "pid (procs k p) \<noteq> q" "p \<noteq> i"
    and "process_exit_with_status q status k = Ret (r, k1)" "current k1 = Some p"
    and "(if ptr \<noteq> 0 then on_mem (kstore32 ptr status) k1 else Ret k1) = Ret k2"
  shows "r = 0 \<and> process_wait (rr switch) q ptr k1 = Ret (sint q, reap q i k2) \<and> \<not> allocated (procs (reap q i k2) i) \<and>
    address_space (procs (reap q i k2) i) = None"
proof -
  have f: "find_process (\<lambda>x. pid x = q) k = Some i"
    by (rule find_process_unique [OF assms(1-3)]) (use assms(4) in simp_all)
  have l: "r = 0" "life i k1 = (True, q, pid (procs k p), status, PROCESS_ZOMBIE)"
    using exit_life(1,2) [OF assms(8) f] assms(5,6) by simp_all
  note ids = ids_exit [OF assms(8)]
  have k1: "table_inv k1" "i < process_count k1" "pid (procs k1 p) = pid (procs k p)"
    using assms(1,2) ids table_inv_ids [OF ids] by (simp_all add: ids_def fun_eq_iff)
  have i1: "allocated (procs k1 i)" "pid (procs k1 i) = q" "parent_pid (procs k1 i) = pid (procs k1 p)" "exit_code (procs k1 i) = status"
    "state (procs k1 i) = PROCESS_ZOMBIE"
    using l(2) k1(3) by (simp_all add: life_def)
  have "find_process (\<lambda>x. pid x = q \<and> parent_pid x = pid (procs k1 p)) k1 = Some i"
    by (rule find_process_unique [OF k1(1,2) i1(1)]) (use i1 in simp_all)
  then have "process_wait (rr switch) q ptr k1 = Ret (sint q, reap q i k2)"
    using assms(9,10) i1(4,5) by (cases "ptr = 0") (simp_all add: process_wait_def bind_outcome_def)
  then show ?thesis using l(1) by (simp add: reap_def Let_def)
qed

theorem process_exit_then_wait_witness:
  "\<exists>k1 k2. process_exit_with_status 0x102 7 kern_two = Ret (0, k1) \<and>
     process_wait (rr (\<lambda>_ _ k. k)) 0x102 0 k1 = Ret (0x102, k2) \<and> \<not> allocated (procs k2 1)"
proof -
  have "\<exists>k1. process_exit_with_status 0x102 7 kern_two = Ret (0, k1) \<and> current k1 = Some 0"
    by (simp add: process_exit_with_status_def kern_two_find orphan_zombies_def kern_two_simps upt_rec bind_outcome_def Let_def)
  then obtain k1 where k1: "process_exit_with_status 0x102 7 kern_two = Ret (0, k1)" "current k1 = Some 0" by blast
  show ?thesis
    using process_exit_then_wait [OF kern_two_simps(1), of "Suc 0" "0x102" 0 7 0 k1 0 k1 "\<lambda>_ _ k. k"] k1 kern_two_simps by auto
qed

text \<open>C38: A parent that is already blocked in a wait for a child is not woken when that child exits: it stays
  blocked, since the code looks for a waiter whose own parent is the exiting process.\<close>

theorem process_exit_misses_waiter:
  assumes "find_process (\<lambda>x. pid x = q) k = Some i" "p \<noteq> i" "state (procs k p) = PROCESS_BLOCKED"
    and "wait_for_pid (procs k p) = q" "parent_pid (procs k i) = pid (procs k p)" "parent_pid (procs k p) \<noteq> q"
    and "process_exit_with_status q status k = Ret (r, k')"
  shows "state (procs k' p) = PROCESS_BLOCKED"
  using exit_life(3) [OF assms(7,1,2,6)] assms(3) by (simp add: life_def)

theorem process_exit_misses_waiter_witness:
  "\<exists>k1. process_exit_with_status 0x102 7 (upd_pcb 0 (\<lambda>x. x\<lparr>state := PROCESS_BLOCKED, wait_for_pid := 0x102\<rparr>) kern_two) = Ret (0, k1) \<and>
     state (procs k1 0) = PROCESS_BLOCKED"
proof -
  let ?k = "upd_pcb 0 (\<lambda>x. x\<lparr>state := PROCESS_BLOCKED, wait_for_pid := 0x102\<rparr>) kern_two"
  have f: "find_process (\<lambda>x. pid x = 0x102) ?k = Some (Suc 0)"
    by (simp add: find_process_def kern_two_simps upt_rec)
  have "\<exists>k1. process_exit_with_status 0x102 7 ?k = Ret (0, k1)"
    by (simp add: process_exit_with_status_def f orphan_zombies_def kern_two_simps upt_rec bind_outcome_def Let_def)
  then obtain k1 where k1: "process_exit_with_status 0x102 7 ?k = Ret (0, k1)" by blast
  show ?thesis
    using process_exit_misses_waiter [OF f, of 0 7 0 k1] k1 kern_two_simps by auto
qed

text \<open>C37: Delivering signals and returning from the handler: when a delivery enters a handler, it is the handler
  registered for a pending signal that is not masked, with its number in \<open>eax\<close> and eight bytes of the user
  stack taken; the return then restores the interrupted frame exactly. Otherwise the frame is left alone.\<close>

theorem process_signal_roundtrip:
  assumes "current k = Some p" "\<not> signal_active (procs k p)" "r \<noteq> 0" "process_deliver_signal (rr switch) r k = Ret k'"
  shows "(frames k' = frames k \<and> \<not> signal_active (procs k' p)) \<or>
    (\<exists>s. 0 < s \<and> s < 32 \<and> bit (pending_signals (procs k p)) s \<and> \<not> bit (signal_mask (procs k p)) s \<and>
       eip (frames k' r) = signal_handlers (procs k p) s \<and> signal_handlers (procs k p) s \<noteq> 0 \<and> eax (frames k' r) = of_nat s \<and>
       useresp (frames k' r) = useresp (frames k r) - 8 \<and> signal_active (procs k' p) \<and>
       frames (process_signal_return (rr switch) r k') r = frames k r)"
proof (cases "user_mode (procs k p)")
  case False
  then show ?thesis using assms by (simp add: process_deliver_signal_def)
next
  case True
  let ?pending = "pending_signals (procs k p) AND NOT (signal_mask (procs k p)) AND 0xfffffffe"
  have "deliver p ?pending r [1..<32] k = Ret k'" using assms True by (simp add: process_deliver_signal_def del: upt_rec_numeral)
  from deliver_frame [OF this assms(2)] show ?thesis
  proof
    assume "\<exists>s\<in>set [1..<32]. bit ?pending s \<and> signal_handlers (procs k p) s \<noteq> 0 \<and>
        frames k' r = (frames k r)\<lparr>useresp := useresp (frames k r) - 8, eip := signal_handlers (procs k p) s, eax := of_nat s\<rparr> \<and>
        signal_saved_frame (procs k' p) = frames k r \<and> signal_active (procs k' p) \<and> current k' = current k"
    then obtain s where mem: "s \<in> set [1..<32]" and s: "bit ?pending s" "signal_handlers (procs k p) s \<noteq> 0"
      "frames k' r = (frames k r)\<lparr>useresp := useresp (frames k r) - 8, eip := signal_handlers (procs k p) s, eax := of_nat s\<rparr>"
      "signal_saved_frame (procs k' p) = frames k r" "signal_active (procs k' p)" "current k' = current k"
      by blast
    have lt: "0 < s" "s < 32" using mem unfolding set_upt by simp_all
    have b: "bit (pending_signals (procs k p)) s" "\<not> bit (signal_mask (procs k p)) s" using s(1) by (simp_all add: bit_simps)
    have "frames (process_signal_return (rr switch) r k') r = frames k r"
      using s(4-6) assms(1,3) by (simp add: process_signal_return_def)
    then show ?thesis using s lt b by (intro disjI2 exI [of _ s]) simp
  qed simp
qed

theorem process_signal_roundtrip_witness:
  "\<exists>k'. process_deliver_signal (rr (\<lambda>_ _ k. k)) 0x9000 kern_user = Ret k' \<and> eip (frames k' 0x9000) = 0x400000 \<and>
     eax (frames k' 0x9000) = 2 \<and> frames (process_signal_return (rr (\<lambda>_ _ k. k)) 0x9000 k') 0x9000 = frames kern_user 0x9000"
proof -
  have tr: "translate (vm (mem_user\<lparr>phys := p\<rparr>)) (0xbfeff8 + of_nat i) \<noteq> None" if "i < 8" for p i
    using mem_user_stack(1) [OF that] by simp
  obtain p1 where p1: "kstore32 0xbfeff8 0 mem_user = Ret (mem_user\<lparr>phys := p1\<rparr>)"
    using kstore32_ok [of mem_user "0xbfeff8" 0] mem_user_stack(1) by fastforce
  have "translate (vm (mem_user\<lparr>phys := p1\<rparr>)) (0xbfeffc + of_nat i) \<noteq> None" if "i < 4" for i
    using tr [of "4 + i" p1] that by simp
  then obtain p2 where p2: "kstore32 0xbfeffc 2 (mem_user\<lparr>phys := p1\<rparr>) = Ret (mem_user\<lparr>phys := p1\<rparr>\<lparr>phys := p2\<rparr>)"
    using kstore32_ok [of "mem_user\<lparr>phys := p1\<rparr>" "0xbfeffc" 2] by blast
  have "\<exists>k'. deliver 0 4 0x9000 [1..<32] kern_user = Ret k' \<and> signal_active (procs k' 0)"
    using p1 p2 mem_user_stack(2)
    by (simp add: upt_rec kern_user_def bind_outcome_def enter_handler_def on_mem_def Let_def zero_frame_def bit_numeral_rec)
  moreover have "process_deliver_signal (rr (\<lambda>_ _ k. k)) 0x9000 kern_user = deliver 0 4 0x9000 [1..<32] kern_user"
    by (simp add: process_deliver_signal_def kern_user_def kern_two_def kern_empty_def proc_example_def pcb_example_def del: upt_rec_numeral)
  ultimately obtain k' where k': "process_deliver_signal (rr (\<lambda>_ _ k. k)) 0x9000 kern_user = Ret k'" "signal_active (procs k' 0)" by auto
  have cur: "current kern_user = Some 0" "\<not> signal_active (procs kern_user 0)" "pending_signals (procs kern_user 0) = 4"
    "signal_handlers (procs kern_user 0) = (\<lambda>_. 0)(2 := 0x400000)"
    by (simp_all add: kern_user_def kern_two_def kern_empty_def proc_example_def pcb_example_def)
  show ?thesis
    using process_signal_roundtrip [OF cur(1,2) _ k'(1)] k' cur(3,4) by (auto split: if_split_asm)
qed

end
