(* ===== verification/Heap.thy ===== *)
theory Heap
  imports Vmm Spinlock
begin

text \<open>
  The kernel heap (\<open>mm/heap.c\<close>): a linked list of blocks, each a header of 16 bytes followed by its
  bytes. Headers and bytes are maps from addresses; a pointer of 0 is null. The operations run between
  \<open>spin_lock_irqsave\<close> and \<open>spin_unlock_irqrestore\<close> of one lock, so each is one step. Loops over the list do not
  end on a cyclic list: their result is then \<open>None\<close>.
\<close>

definition HEAP_BYTES :: u32 where "HEAP_BYTES = 1024 * 1024"
definition HEAP_MAGIC :: u32 where "HEAP_MAGIC = 0xc3b1a9e7"
definition HEAP_VIRT_START :: u32 where "HEAP_VIRT_START = 0xd0000000"

record block_t =
  b_size :: u32
  b_free :: bool
  b_magic :: u32
  b_next :: u32

text \<open>\<open>heap_area\<close> is the address of the static array, a link-time constant.\<close>

record heap =
  heap_area :: u32
  blocks :: "u32 \<Rightarrow> block_t"
  heap_data :: "u32 \<Rightarrow> u8"
  head :: u32
  heap_virt_top :: u32

definition upd_block :: "u32 \<Rightarrow> (block_t \<Rightarrow> block_t) \<Rightarrow> heap \<Rightarrow> heap" where
  "upd_block b f hp = hp\<lparr>blocks := (blocks hp)(b := f (blocks hp b))\<rparr>"

definition split_block :: "u32 \<Rightarrow> u32 \<Rightarrow> heap \<Rightarrow> heap" where
  "split_block b n hp =
     (if n + 16 + 8 \<le> b_size (blocks hp b) then
        (let r = b + 16 + n;
             hp = upd_block r (\<lambda>x. \<lparr>b_size = b_size (blocks hp b) - n - 16, b_free = True, b_magic = HEAP_MAGIC,
                                   b_next = b_next (blocks hp b)\<rparr>) hp
         in upd_block b (\<lambda>x. x\<lparr>b_next := r, b_size := n\<rparr>) hp)
      else hp)"

partial_function (option) merge_from :: "u32 \<Rightarrow> heap \<Rightarrow> heap option" where
  [code]: "merge_from b hp =
     (if b = 0 \<or> b_next (blocks hp b) = 0 then Some hp
      else if b_free (blocks hp b) \<and> b_free (blocks hp (b_next (blocks hp b))) then
        (let q = blocks hp (b_next (blocks hp b)) in
         merge_from b (upd_block b (\<lambda>x. x\<lparr>b_size := b_size x + 16 + b_size q, b_next := b_next q\<rparr>) hp))
      else merge_from (b_next (blocks hp b)) hp)"

definition merge_blocks :: "heap \<Rightarrow> heap option" where
  "merge_blocks hp = merge_from (head hp) hp"

partial_function (option) last_block :: "heap \<Rightarrow> u32 \<Rightarrow> u32 option" where
  [code]: "last_block hp t = (if b_next (blocks hp t) = 0 then Some t else last_block hp (b_next (blocks hp t)))"

definition grow :: "heap \<times> mm \<Rightarrow> (int \<times> heap \<times> mm) option" where
  "grow = (\<lambda>(hp, m).
     (case pmm_alloc_page (pm m) of
        (page, p) \<Rightarrow>
          if page = 0 then Some (-1, hp, m\<lparr>pm := p\<rparr>)
          else
            (let m = on_vm (vmm_map (heap_virt_top hp) page 2) (m\<lparr>pm := p\<rparr>);
                 n = heap_virt_top hp;
                 hp = upd_block n (\<lambda>x. \<lparr>b_size = PAGE_SIZE - 16, b_free = True, b_magic = HEAP_MAGIC, b_next = 0\<rparr>) hp;
                 hp = hp\<lparr>heap_virt_top := heap_virt_top hp + PAGE_SIZE\<rparr>
             in if head hp = 0 then Some (0, hp\<lparr>head := n\<rparr>, m)
                else (case last_block hp (head hp) of
                        None \<Rightarrow> None
                      | Some t \<Rightarrow> Some (0, upd_block t (\<lambda>x. x\<lparr>b_next := n\<rparr>) hp, m)))))"

definition heap_init :: "heap \<Rightarrow> heap" where
  "heap_init hp =
     upd_block (heap_area hp) (\<lambda>x. \<lparr>b_size = HEAP_BYTES - 16, b_free = True, b_magic = HEAP_MAGIC, b_next = 0\<rparr>)
       (hp\<lparr>head := heap_area hp\<rparr>)"

text \<open>The search of \<open>kmalloc\<close>: the address of the first free block that is large enough, or 0.\<close>

partial_function (option) find_block :: "heap \<Rightarrow> u32 \<Rightarrow> u32 \<Rightarrow> u32 option" where
  [code]: "find_block hp n b =
     (if b = 0 then Some 0
      else if b_free (blocks hp b) \<and> n \<le> b_size (blocks hp b) then Some b
      else find_block hp n (b_next (blocks hp b)))"

partial_function (option) kmalloc_loop :: "u32 \<Rightarrow> heap \<times> mm \<Rightarrow> (u32 \<times> heap \<times> mm) option" where
  [code]: "kmalloc_loop n s =
     (case find_block (fst s) n (head (fst s)) of
        None \<Rightarrow> None
      | Some b \<Rightarrow>
         if b \<noteq> 0 then Some (b + 16, upd_block b (\<lambda>x. x\<lparr>b_free := False\<rparr>) (split_block b n (fst s)), snd s)
         else (case grow s of
                 None \<Rightarrow> None
               | Some (r, s) \<Rightarrow> if r \<noteq> 0 then Some (0, s) else kmalloc_loop n s))"

definition kmalloc :: "u32 \<Rightarrow> heap \<times> mm \<Rightarrow> (u32 \<times> heap \<times> mm) option" where
  "kmalloc n s =
     (let s = (if head (fst s) = 0 then (heap_init (fst s), snd s) else s) in
      if n = 0 then Some (0, s) else kmalloc_loop ((n + 7) AND NOT 7) s)"

definition kfree :: "u32 \<Rightarrow> heap \<Rightarrow> heap option" where
  "kfree p hp =
     (if p = 0 then Some hp
      else (let b = p - 16 in
            if b_magic (blocks hp b) = HEAP_MAGIC \<and> \<not> b_free (blocks hp b)
            then merge_blocks (upd_block b (\<lambda>x. x\<lparr>b_free := True\<rparr>) hp) else Some hp))"

definition krealloc :: "u32 \<Rightarrow> u32 \<Rightarrow> heap \<times> mm \<Rightarrow> (u32 \<times> heap \<times> mm) option" where
  "krealloc p n s =
     (if p = 0 then kmalloc n s
      else if n = 0 then map_option (\<lambda>hp. (0, hp, snd s)) (kfree p (fst s))
      else
        (let b = p - 16 in
         if b_magic (blocks (fst s) b) \<noteq> HEAP_MAGIC \<or> b_free (blocks (fst s) b) then Some (0, s)
         else if n \<le> b_size (blocks (fst s) b) then Some (p, split_block b n (fst s), snd s)
         else (case kmalloc n s of
                 None \<Rightarrow> None
               | Some (q, hp, m) \<Rightarrow>
                  if q = 0 then Some (0, hp, m)
                  else
                    (let hp = hp\<lparr>heap_data := fold (\<lambda>i d. d(q + of_nat i := d (p + of_nat i)))
                               [0..<unat (b_size (blocks hp b))] (heap_data hp)\<rparr>
                     in map_option (\<lambda>hp. (q, hp, m)) (kfree p hp)))))"

end
