(* ===== verification/Heap_Props.thy ===== *)
theory Heap_Props
  imports Heap Vmm_Props
begin

text \<open>
  The blocks of the heap. As long as the heap has not grown beyond its static area, the blocks of the list tile
  it: each begins where the one before ends. Allocation and release keep this, so allocated blocks never overlap.
\<close>

section \<open>Tilings\<close>

definition link :: "u32 list \<Rightarrow> u32" where
  "link xs = (case xs of [] \<Rightarrow> 0 | x # _ \<Rightarrow> x)"

lemma link_simps [simp]: "link [] = 0" "link (x # xs) = x" "xs \<noteq> [] \<Longrightarrow> link (xs @ ys) = link xs"
  by (auto simp: link_def split: list.split)

primrec tiles :: "(u32 \<Rightarrow> block_t) \<Rightarrow> nat \<Rightarrow> u32 list \<Rightarrow> nat \<Rightarrow> bool" where
  "tiles bl a [] lim \<longleftrightarrow> a = lim"
| "tiles bl a (b # bs) lim \<longleftrightarrow> unat b = a \<and> 16 \<le> a \<and> b_magic (bl b) = HEAP_MAGIC \<and> b_next (bl b) = link bs \<and>
     tiles bl (a + 16 + unat (b_size (bl b))) bs lim"

definition live_blocks :: "(u32 \<Rightarrow> block_t) \<Rightarrow> u32 list \<Rightarrow> (u32 \<times> u32) set" where
  "live_blocks bl xs = {(b, b_size (bl b)) | b. b \<in> set xs \<and> \<not> b_free (bl b)}"

text \<open>The heap holds the allocated blocks \<open>B\<close>, each with its address and size.\<close>

definition heap_holds :: "heap \<Rightarrow> (u32 \<times> u32) set \<Rightarrow> bool" where
  "heap_holds hp B \<longleftrightarrow> unat (heap_area hp) + unat HEAP_BYTES < 2 ^ 32 \<and>
     (\<exists>xs. xs \<noteq> [] \<and> head hp = link xs \<and> tiles (blocks hp) (unat (heap_area hp)) xs (unat (heap_area hp) + unat HEAP_BYTES) \<and>
        B = live_blocks (blocks hp) xs)"

lemma live_blocks_simps [simp]:
  "live_blocks bl [] = {}"
  "live_blocks bl (b # bs) = (if b_free (bl b) then live_blocks bl bs else insert (b, b_size (bl b)) (live_blocks bl bs))"
  by (auto simp: live_blocks_def)

lemma live_blocks_append: "live_blocks bl (xs @ ys) = live_blocks bl xs \<union> live_blocks bl ys"
  by (auto simp: live_blocks_def)

lemma tiles_bounds: "tiles bl a xs lim \<Longrightarrow> a \<le> lim \<and> (\<forall>b \<in> set xs. a \<le> unat b \<and> unat b + 16 + unat (b_size (bl b)) \<le> lim)"
proof (induction xs arbitrary: a)
  case (Cons x xs)
  then have "tiles bl (a + 16 + unat (b_size (bl x))) xs lim" by simp
  from Cons.IH [OF this] Cons.prems show ?case by fastforce
qed simp

lemma tiles_after: "tiles bl a (x # xs) lim \<Longrightarrow> b \<in> set xs \<Longrightarrow> unat x + 16 + unat (b_size (bl x)) \<le> unat b"
  using tiles_bounds [of bl "a + 16 + unat (b_size (bl x))" xs lim] by auto

lemma tiles_distinct: "tiles bl a xs lim \<Longrightarrow> distinct xs"
proof (induction xs arbitrary: a)
  case (Cons x xs)
  then show ?case using tiles_after [OF Cons.prems] by fastforce
qed simp

lemma tiles_cong: "(\<And>b. b \<in> set xs \<Longrightarrow> bl b = bl' b) \<Longrightarrow> tiles bl a xs lim = tiles bl' a xs lim"
  by (induction xs arbitrary: a) auto

lemma live_blocks_cong: "(\<And>b. b \<in> set xs \<Longrightarrow> bl b = bl' b) \<Longrightarrow> live_blocks bl xs = live_blocks bl' xs"
  by (auto simp: live_blocks_def)

text \<open>Blocks of a tiling are disjoint.\<close>

lemma tiles_disjoint:
  assumes "tiles bl a xs lim" "b \<in> set xs" "c \<in> set xs" "b \<noteq> c"
  shows "unat b + 16 + unat (b_size (bl b)) \<le> unat c \<or> unat c + 16 + unat (b_size (bl c)) \<le> unat b"
  using assms
proof (induction xs arbitrary: a)
  case (Cons x xs)
  then show ?case using tiles_after [OF Cons.prems(1)] by auto
qed simp

text \<open>A tiling up to one of its blocks and the rest of it.\<close>

lemma tiles_at:
  "tiles bl a (ys @ b # zs) lim \<Longrightarrow> tiles bl (unat b) (b # zs) lim"
  by (induction ys arbitrary: a) auto

lemma tiles_below: "tiles bl a (ys @ b # zs) lim \<Longrightarrow> y \<in> set ys \<Longrightarrow> unat y < unat b"
proof (induction ys arbitrary: a)
  case (Cons x ys)
  then show ?case using tiles_after [of bl a x "ys @ b # zs" lim b] by fastforce
qed simp

lemma tiles_replace:
  assumes "tiles bl a (ys @ b # zs) lim" "tiles bl' (unat b) (b # zs') lim" "\<And>y. y \<in> set ys \<Longrightarrow> bl' y = bl y"
  shows "tiles bl' a (ys @ b # zs') lim"
  using assms
proof (induction ys arbitrary: a)
  case (Cons y ys)
  have "link (ys @ b # zs') = link (ys @ b # zs)" by (cases ys) simp_all
  then show ?case using Cons by simp
qed simp

lemma blocks_upd [simp]: "blocks (upd_block b f hp) = (blocks hp)(b := f (blocks hp b))"
  by (simp add: upd_block_def)

lemma upd_block_simps [simp]:
  "head (upd_block b f hp) = head hp" "heap_area (upd_block b f hp) = heap_area hp" "heap_virt_top (upd_block b f hp) = heap_virt_top hp"
  "heap_data (upd_block b f hp) = heap_data hp"
  by (simp_all add: upd_block_def)

section \<open>The loops\<close>

declare find_block.simps [simp del] merge_from.simps [simp del] kmalloc_loop.simps [simp del]

lemma unat_pos: "16 \<le> unat b \<Longrightarrow> b \<noteq> 0"
  by auto

lemma find_block_tiles:
  assumes "tiles (blocks hp) a xs lim"
  shows "find_block hp n (link xs) =
    Some (case find (\<lambda>b. b_free (blocks hp b) \<and> n \<le> b_size (blocks hp b)) xs of None \<Rightarrow> 0 | Some b \<Rightarrow> b)"
  using assms
proof (induction xs arbitrary: a)
  case Nil
  then show ?case by (simp add: find_block.simps)
next
  case (Cons x xs)
  then have "x \<noteq> 0" "b_next (blocks hp x) = link xs" by (auto intro: unat_pos)
  then show ?case using Cons.IH Cons.prems by (subst link_simps(2), subst find_block.simps) auto
qed

text \<open>
  Merging from a block on: the list stays a tiling that begins with the same block, and the allocated blocks stay.
\<close>

definition merged :: "heap \<Rightarrow> heap \<Rightarrow> nat \<Rightarrow> u32 \<Rightarrow> u32 list \<Rightarrow> nat \<Rightarrow> bool" where
  "merged hp hp' a b zs lim \<longleftrightarrow> (\<exists>zs'. tiles (blocks hp') a (b # zs') lim \<and> live_blocks (blocks hp') (b # zs') = live_blocks (blocks hp) (b # zs)) \<and>
     (\<forall>x. x \<notin> set (b # zs) \<longrightarrow> blocks hp' x = blocks hp x) \<and>
     head hp' = head hp \<and> heap_area hp' = heap_area hp \<and> heap_virt_top hp' = heap_virt_top hp \<and> heap_data hp' = heap_data hp"

lemma merge_from_tiles:
  assumes "tiles (blocks hp) a (b # zs) lim" "lim < 2 ^ 32"
  shows "\<exists>hp'. merge_from b hp = Some hp' \<and> merged hp hp' a b zs lim"
  using assms
proof (induction "length zs" arbitrary: hp a b zs)
  case 0
  then have "merge_from b hp = Some hp" by (subst merge_from.simps) simp
  moreover have "merged hp hp a b zs lim" using 0(2) unfolding merged_def by blast
  ultimately show ?case by blast
next
  case (Suc n)
  then obtain c cs where zs: "zs = c # cs" by (cases zs) auto
  let ?B = "blocks hp b" let ?C = "blocks hp c"
  have t: "unat b = a" "16 \<le> a" "b_next ?B = c" "tiles (blocks hp) (a + 16 + unat (b_size ?B)) (c # cs) lim" "b_magic ?B = HEAP_MAGIC"
    using Suc.prems by (auto simp: zs)
  then have nz: "b \<noteq> 0" "c \<noteq> 0" by (auto intro: unat_pos)
  have dist: "b \<noteq> c" "b \<notin> set cs" using tiles_distinct [OF Suc.prems(1)] by (auto simp: zs)
  show ?case
  proof (cases "b_free ?B \<and> b_free ?C")
    case True
    let ?h = "upd_block b (\<lambda>x. x\<lparr>b_size := b_size x + 16 + b_size ?C, b_next := b_next ?C\<rparr>) hp"
    have step: "merge_from b hp = merge_from b ?h" using True nz t(3) by (subst merge_from.simps) (simp add: Let_def)
    have "a + 16 + unat (b_size ?B) + 16 + unat (b_size ?C) \<le> lim"
      using tiles_bounds [OF t(4)] t(4) by simp
    then have "unat (b_size ?B) + 16 + unat (b_size ?C) < 2 ^ 32" using Suc.prems(2) by linarith
    then have size: "unat (b_size ?B + 16 + b_size ?C) = unat (b_size ?B) + 16 + unat (b_size ?C)"
      by (simp add: unat_word_ariths)
    have "tiles (blocks hp) (a + 16 + (unat (b_size ?B) + 16 + unat (b_size ?C))) cs lim"
      using t(4) by (simp add: add.assoc)
    then have "tiles (blocks ?h) (a + 16 + (unat (b_size ?B) + 16 + unat (b_size ?C))) cs lim"
      using dist by (subst tiles_cong [where bl' = "blocks hp"]) auto
    then have tl: "tiles (blocks ?h) a (b # cs) lim" using t size by simp
    from Suc.hyps(1) [OF _ tl Suc.prems(2)] Suc.hyps(2) obtain hp' where
      hp': "merge_from b ?h = Some hp'" "merged ?h hp' a b cs lim" by (auto simp: zs)
    have "live_blocks (blocks ?h) (b # cs) = live_blocks (blocks hp) (b # zs)"
      using True dist by (simp add: zs) (rule live_blocks_cong, auto)
    then have "merged hp hp' a b zs lim" using hp'(2) dist unfolding merged_def zs by auto
    then show ?thesis using step hp'(1) by auto
  next
    case False
    have step: "merge_from b hp = merge_from c hp" using False nz t(3) by (subst merge_from.simps) auto
    from Suc.hyps(1) [OF _ t(4) Suc.prems(2)] Suc.hyps(2) obtain hp' where
      hp': "merge_from c hp = Some hp'" "merged hp hp' (a + 16 + unat (b_size ?B)) c cs lim" by (auto simp: zs)
    then obtain zs' where z: "tiles (blocks hp') (a + 16 + unat (b_size ?B)) (c # zs') lim"
      "live_blocks (blocks hp') (c # zs') = live_blocks (blocks hp) (c # cs)" by (auto simp: merged_def)
    have keep: "blocks hp' b = ?B" using hp'(2) dist by (simp add: merged_def)
    have "tiles (blocks hp') a (b # c # zs') lim" using z(1) t keep by simp
    moreover have "live_blocks (blocks hp') (b # c # zs') = live_blocks (blocks hp) (b # zs)"
      using z(2) keep by (simp only: live_blocks_simps(2) [of _ b] zs)
    ultimately have "\<exists>ws. tiles (blocks hp') a (b # ws) lim \<and> live_blocks (blocks hp') (b # ws) = live_blocks (blocks hp) (b # zs)"
      by blast
    then have "merged hp hp' a b zs lim" using hp'(2) unfolding merged_def by (simp add: zs del: tiles.simps live_blocks_simps)
    then show ?thesis using step hp'(1) by auto
  qed
qed

section \<open>Allocation and release\<close>

lemma live_replace:
  assumes "\<And>y. y \<in> set ys \<Longrightarrow> bl' y = bl y"
  shows "live_blocks bl' (ys @ zs) = live_blocks bl ys \<union> live_blocks bl' zs"
  using assms live_blocks_cong [of ys bl' bl] by (simp add: live_blocks_append)

lemma split_tiles:
  assumes t: "tiles (blocks hp) (unat b) (b # zs) lim" and lim: "lim < 2 ^ 32" and n: "unat n \<le> unat (b_size (blocks hp b))"
  obtains zs' sz where "tiles (blocks (split_block b n hp)) (unat b) (b # zs') lim" "n \<le> sz" "b_size (blocks (split_block b n hp) b) = sz"
    "b_free (blocks (split_block b n hp) b) = b_free (blocks hp b)"
    "live_blocks (blocks (split_block b n hp)) zs' = live_blocks (blocks hp) zs" "\<And>y. unat y < unat b \<Longrightarrow> blocks (split_block b n hp) y = blocks hp y"
proof (cases "n + 16 + 8 \<le> b_size (blocks hp b)")
  case False
  then have "split_block b n hp = hp" by (simp add: split_block_def)
  then show thesis using that [of zs "b_size (blocks hp b)"] t n by (simp add: word_le_nat_alt)
next
  case True
  let ?B = "blocks hp b" let ?r = "b + 16 + n"
  have bound: "unat b + 16 + unat (b_size ?B) \<le> lim" using tiles_bounds [OF t] by simp
  show thesis
  proof (cases "unat n + 24 < 2 ^ 32")
    case fits: True
    then have "unat (n + 16 + 8) = unat n + 24" by (simp add: unat_word_ariths)
    then have "unat n + 24 \<le> unat (b_size ?B)" using True by (simp add: word_le_nat_alt)
    then have r: "unat ?r = unat b + 16 + unat n" using bound lim by (simp add: unat_word_ariths)
    have rest: "unat (b_size ?B - n - 16) = unat (b_size ?B) - unat n - 16"
      using \<open>unat n + 24 \<le> unat (b_size ?B)\<close> by (simp add: unat_sub_if_size word_le_nat_alt size_word.rep_eq)
    have new: "?r \<noteq> b" "?r \<notin> set zs"
      using r tiles_after [OF t] \<open>unat n + 24 \<le> unat (b_size ?B)\<close> by fastforce+
    have "tiles (blocks hp) (unat b + 16 + unat (b_size ?B)) zs lim" using t by simp
    then have z: "tiles (blocks (split_block b n hp)) (unat b + 16 + unat (b_size ?B)) zs lim"
      using new tiles_distinct [OF t] True
      by (subst tiles_cong [where bl' = "blocks hp"]) (auto simp: split_block_def Let_def)
    have "unat b + 16 + unat (b_size ?B) = unat b + 16 + unat n + 16 + unat (b_size ?B - n - 16)"
      using rest \<open>unat n + 24 \<le> unat (b_size ?B)\<close> by simp
    with z have z': "tiles (blocks (split_block b n hp)) (unat b + 16 + unat n + 16 + unat (b_size ?B - n - 16)) zs lim"
      by (simp only:)
    have "tiles (blocks (split_block b n hp)) (unat b) (b # ?r # zs) lim"
      using True t z' new r by (simp add: split_block_def Let_def)
    moreover have "live_blocks (blocks (split_block b n hp)) (?r # zs) = live_blocks (blocks hp) zs"
      using True new tiles_distinct [OF t] by (simp add: split_block_def Let_def) (rule live_blocks_cong, auto)
    moreover have "blocks (split_block b n hp) y = blocks hp y" if "unat y < unat b" for y
      using that r by (auto simp: split_block_def Let_def)
    ultimately show thesis using that [of "?r # zs" n] True new by (simp add: split_block_def Let_def)
  next
    case wraps: False
    then have False using n bound lim t by simp
    then show thesis ..
  qed
qed

lemma split_block_rest [simp]:
  "head (split_block b n hp) = head hp" "heap_area (split_block b n hp) = heap_area hp"
  "heap_virt_top (split_block b n hp) = heap_virt_top hp"
  by (simp_all add: split_block_def Let_def)

lemma find_block_split:
  assumes "find P xs = Some b"
  obtains ys zs where "xs = ys @ b # zs" "P b"
proof -
  from assms obtain i where "i < length xs" "P (xs ! i)" "b = xs ! i" by (auto simp: List.find_Some_iff)
  then show thesis using that [of "take i xs" "drop (Suc i) xs"] id_take_nth_drop by blast
qed

text \<open>A request that a free block can hold is served from the first such block, in front of the grown region.\<close>

lemma take_block:
  assumes h: "heap_holds hp B" and f: "find_block hp n (head hp) \<noteq> Some 0"
  obtains b sz hp' where "find_block hp n (head hp) = Some b" "b \<noteq> 0"
    "hp' = upd_block b (\<lambda>x. x\<lparr>b_free := False\<rparr>) (split_block b n hp)" "n \<le> sz" "\<forall>s. (b, s) \<notin> B" "heap_holds hp' (insert (b, sz) B)"
proof -
  let ?lim = "unat (heap_area hp) + unat HEAP_BYTES"
  obtain xs where lim: "?lim < 2 ^ 32" and xs: "xs \<noteq> []" "head hp = link xs" "tiles (blocks hp) (unat (heap_area hp)) xs ?lim"
    "B = live_blocks (blocks hp) xs" using h by (auto simp: heap_holds_def)
  obtain b where b: "find_block hp n (head hp) = Some b" "b \<noteq> 0"
    using f find_block_tiles [OF xs(3), of n] by (auto simp: xs(2))
  then have "find (\<lambda>b. b_free (blocks hp b) \<and> n \<le> b_size (blocks hp b)) xs = Some b"
    using find_block_tiles [OF xs(3), of n] by (auto simp: xs(2) split: option.split_asm)
  then obtain ys zs where yz: "xs = ys @ b # zs" and fits: "b_free (blocks hp b)" "n \<le> b_size (blocks hp b)"
    by (rule find_block_split) blast
  have at: "tiles (blocks hp) (unat b) (b # zs) ?lim" using tiles_at xs(3) yz by blast
  have n: "unat n \<le> unat (b_size (blocks hp b))" using fits(2) by (simp add: word_le_nat_alt)
  obtain zs' sz where s: "tiles (blocks (split_block b n hp)) (unat b) (b # zs') ?lim" "n \<le> sz" "b_size (blocks (split_block b n hp) b) = sz"
    "b_free (blocks (split_block b n hp) b) = b_free (blocks hp b)"
    "live_blocks (blocks (split_block b n hp)) zs' = live_blocks (blocks hp) zs"
    "\<And>y. unat y < unat b \<Longrightarrow> blocks (split_block b n hp) y = blocks hp y"
    by (rule split_tiles [OF at lim n]) blast
  define hp' where "hp' = upd_block b (\<lambda>x. x\<lparr>b_free := False\<rparr>) (split_block b n hp)"
  have area: "heap_area hp' = heap_area hp" "head hp' = head hp" and at_b: "\<not> b_free (blocks hp' b)" "b_size (blocks hp' b) = sz"
    and other: "y \<noteq> b \<Longrightarrow> blocks hp' y = blocks (split_block b n hp) y" for y
    using s(3) by (simp_all add: hp'_def)
  have nb: "b \<notin> set zs'" using tiles_distinct [OF s(1)] by simp
  have "tiles (blocks (split_block b n hp)) (unat b + 16 + unat sz) zs' ?lim" using s(1,3) by simp
  then have "tiles (blocks hp') (unat b + 16 + unat sz) zs' ?lim"
    using nb by (subst tiles_cong [where bl' = "blocks (split_block b n hp)"]) (auto simp: hp'_def)
  then have rest: "tiles (blocks hp') (unat b) (b # zs') ?lim" using s(1,3) by (simp add: hp'_def)
  have below: "unat y < unat b" if "y \<in> set ys" for y
    using tiles_below xs(3) that unfolding yz by blast
  then have keep: "blocks hp' y = blocks hp y" if "y \<in> set ys" for y
    using that s(6) by (auto simp: hp'_def)
  have "tiles (blocks hp') (unat (heap_area hp')) (ys @ b # zs') ?lim"
    using tiles_replace [OF xs(3) [unfolded yz] rest keep] by (simp only: area)
  moreover have "live_blocks (blocks hp') (ys @ b # zs') = insert (b, sz) B"
  proof -
    have "live_blocks (blocks hp') zs' = live_blocks (blocks (split_block b n hp)) zs'"
      using nb by (intro live_blocks_cong) (auto intro: other)
    then show ?thesis
      using live_replace [of ys "blocks hp'" "blocks hp" "b # zs'", OF keep] fits(1) s(5) at_b
      by (simp add: xs(4) yz live_blocks_append)
  qed
  moreover have "head hp' = link (ys @ b # zs')" using xs(2) by (cases ys) (simp_all add: area yz)
  ultimately have "heap_holds hp' (insert (b, sz) B)"
    using lim unfolding heap_holds_def area by (intro conjI exI [of _ "ys @ b # zs'"]) simp_all
  moreover have "\<forall>s. (b, s) \<notin> B" using fits(1) by (auto simp: xs(4) live_blocks_def)
  ultimately show thesis using that [of b hp' sz] b s(2) hp'_def by blast
qed

lemma heap_holds_head: "heap_holds hp B \<Longrightarrow> head hp \<noteq> 0"
  by (auto simp: heap_holds_def neq_Nil_conv intro: unat_pos)

lemma kmalloc_fits:
  assumes h: "heap_holds hp B" and n: "n \<noteq> 0" "unat n < 2 ^ 32 - 8" and f: "find_block hp ((n + 7) AND NOT 7) (head hp) \<noteq> Some 0"
  obtains b sz hp' where "kmalloc n (hp, m) = Some (b + 16, hp', m)" "n \<le> sz" "\<forall>s. (b, s) \<notin> B" "heap_holds hp' (insert (b, sz) B)"
proof -
  obtain b sz hp' where b: "find_block hp ((n + 7) AND NOT 7) (head hp) = Some b" "b \<noteq> 0"
    "hp' = upd_block b (\<lambda>x. x\<lparr>b_free := False\<rparr>) (split_block b ((n + 7) AND NOT 7) hp)" "(n + 7) AND NOT 7 \<le> sz" "\<forall>s. (b, s) \<notin> B"
    "heap_holds hp' (insert (b, sz) B)" by (rule take_block [OF h f])
  have "unat n \<le> unat ((n + 7) AND NOT 7)" unfolding unat_align8 [OF n(2)] by simp
  then have "n \<le> sz" using b(4) by (simp add: word_le_nat_alt)
  moreover have "kmalloc n (hp, m) = Some (b + 16, hp', m)"
    using b(1-3) n(1) heap_holds_head [OF h] by (simp add: kmalloc_def kmalloc_loop.simps)
  ultimately show thesis using that b(5,6) by blast
qed

lemma kfree_releases:
  assumes h: "heap_holds hp B" and b: "(b, sz) \<in> B"
  obtains hp' where "kfree (b + 16) hp = Some hp'" "heap_holds hp' (B - {(b, sz)})"
proof -
  let ?lim = "unat (heap_area hp) + unat HEAP_BYTES"
  obtain xs where lim: "?lim < 2 ^ 32" and xs: "xs \<noteq> []" "head hp = link xs" "tiles (blocks hp) (unat (heap_area hp)) xs ?lim"
    "B = live_blocks (blocks hp) xs" using h by (auto simp: heap_holds_def)
  define hp1 where "hp1 = upd_block b (\<lambda>x. x\<lparr>b_free := True\<rparr>) hp"
  have mem: "b \<in> set xs" "\<not> b_free (blocks hp b)" "b_size (blocks hp b) = sz" using b by (auto simp: xs(4) live_blocks_def)
  obtain ys zs where "xs = ys @ b # zs" using split_list [OF mem(1)] by blast
  then have at: "tiles (blocks hp) (unat b) (b # zs) ?lim" using tiles_at xs(3) by blast
  then have magic: "b_magic (blocks hp b) = HEAP_MAGIC" by simp
  have "unat b + 16 < 2 ^ 32" using tiles_bounds [OF at] lim by simp
  then have "unat (b + 16) = unat b + 16" by (simp add: unat_word_ariths)
  then have nz: "b + 16 \<noteq> 0" by auto
  have run: "kfree (b + 16) hp = merge_from (link xs) hp1"
    using nz mem(2) magic by (simp add: kfree_def merge_blocks_def hp1_def xs(2))
  have same: "tiles (blocks hp1) a ys l = tiles (blocks hp) a ys l" for a ys l
    by (induction ys arbitrary: a) (simp_all add: hp1_def)
  have live: "live_blocks (blocks hp1) xs = B - {(b, sz)}"
    using mem(3) by (auto simp: xs(4) live_blocks_def hp1_def)
  obtain x rest where x: "xs = x # rest" using xs(1) by (cases xs) auto
  have "tiles (blocks hp1) (unat (heap_area hp)) (x # rest) ?lim" using xs(3) unfolding same x .
  from merge_from_tiles [OF this lim] obtain hp' where
    hp': "merge_from x hp1 = Some hp'" "merged hp1 hp' (unat (heap_area hp)) x rest ?lim" by blast
  then obtain ws where "tiles (blocks hp') (unat (heap_area hp)) (x # ws) ?lim" "live_blocks (blocks hp') (x # ws) = B - {(b, sz)}"
    using live unfolding merged_def x by blast
  then have "heap_holds hp' (B - {(b, sz)})"
    using hp'(2) lim xs(2) unfolding heap_holds_def merged_def
    by (intro conjI exI [of _ "x # ws"]) (simp_all add: hp1_def x del: tiles.simps live_blocks_simps)
  then show thesis using that run hp'(1) by (simp add: x)
qed

text \<open>What the tiling says about the allocated blocks.\<close>

lemma heap_holds_range:
  assumes "heap_holds hp B" "(b, s) \<in> B"
  shows "unat (heap_area hp) \<le> unat b \<and> unat b + 16 + unat s \<le> unat (heap_area hp) + unat HEAP_BYTES"
  using assms tiles_bounds unfolding heap_holds_def live_blocks_def by fastforce

lemma heap_holds_disjoint:
  assumes "heap_holds hp B" "(b, s) \<in> B" "(c, r) \<in> B" "b \<noteq> c"
  shows "unat b + 16 + unat s \<le> unat c \<or> unat c + 16 + unat r \<le> unat b"
  using assms tiles_disjoint unfolding heap_holds_def live_blocks_def by fastforce

lemma heap_init_holds:
  assumes "16 \<le> unat (heap_area hp)" "unat (heap_area hp) + unat HEAP_BYTES < 2 ^ 32"
  shows "heap_holds (heap_init hp) {}"
  using assms unfolding heap_holds_def heap_init_def by (intro conjI exI [of _ "[heap_area hp]"]) (simp_all add: HEAP_BYTES_def)

section \<open>Properties\<close>

text \<open>C11: While the heap lies in its static area and has not grown, an allocation of \<open>n\<close> bytes, \<open>0 < n < 2^32 - 8\<close>, that finds a free block returns a block
  that is large enough, inside the area and apart from every block allocated before, which all stay allocated with
  their sizes. Releasing it gives back exactly the blocks allocated before.\<close>

theorem heap_alloc_free_correct:
  assumes "heap_holds hp B" "n \<noteq> 0" "unat n < 2 ^ 32 - 8" "find_block hp ((n + 7) AND NOT 7) (head hp) \<noteq> Some 0"
  shows "\<exists>b sz hp'. kmalloc n (hp, m) = Some (b + 16, hp', m) \<and> n \<le> sz \<and> heap_holds hp' (insert (b, sz) B) \<and>
    unat (heap_area hp') \<le> unat b \<and> unat b + 16 + unat sz \<le> unat (heap_area hp') + unat HEAP_BYTES \<and>
    (\<forall>(c, r) \<in> B. unat b + 16 + unat sz \<le> unat c \<or> unat c + 16 + unat r \<le> unat b) \<and>
    (\<exists>hp''. kfree (b + 16) hp' = Some hp'' \<and> heap_holds hp'' B)"
proof -
  obtain b sz hp' where b: "kmalloc n (hp, m) = Some (b + 16, hp', m)" "n \<le> sz" "\<forall>s. (b, s) \<notin> B" "heap_holds hp' (insert (b, sz) B)"
    by (rule kmalloc_fits [OF assms])
  have apart: "\<forall>(c, r) \<in> B. unat b + 16 + unat sz \<le> unat c \<or> unat c + 16 + unat r \<le> unat b"
    using heap_holds_disjoint [OF b(4), of b sz] b(3) by fastforce
  obtain hp'' where "kfree (b + 16) hp' = Some hp''" "heap_holds hp'' (insert (b, sz) B - {(b, sz)})"
    by (rule kfree_releases [OF b(4), of b sz]) auto
  moreover have "insert (b, sz) B - {(b, sz)} = B" using b(3) by auto
  ultimately show ?thesis using b apart heap_holds_range [OF b(4), of b sz] by auto
qed

definition heap_example :: heap where
  "heap_example = heap_init \<lparr>heap_area = 0x200000, blocks = (\<lambda>_. \<lparr>b_size = 0, b_free = False, b_magic = 0, b_next = 0\<rparr>), heap_data = (\<lambda>_. 0),
     head = 0, heap_virt_top = HEAP_VIRT_START\<rparr>"

theorem heap_alloc_free_correct_witness:
  "\<exists>b sz hp'. kmalloc 100 (heap_example, mm_booted) = Some (b + 16, hp', mm_booted) \<and> 100 \<le> sz \<and> heap_holds hp' {(b, sz)}"
proof -
  have h: "heap_holds heap_example {}" unfolding heap_example_def by (rule heap_init_holds) (simp_all add: HEAP_BYTES_def)
  have "find_block heap_example ((100 + 7) AND NOT 7) (head heap_example) \<noteq> Some 0"
    by (simp add: find_block.simps heap_example_def heap_init_def HEAP_BYTES_def)
  then show ?thesis using heap_alloc_free_correct [OF h, of 100 mm_booted] by auto
qed

end
