(* ===== verification/Elf.thy ===== *)
theory Elf
  imports Process
begin

text \<open>
  The ELF loader (\<open>kernel/elf.c\<close>). An image is the bytes from its first one on; the packed structures of
  \<open>include/elf.h\<close> are read at their offsets. Segments are written through the tables of the address space
  being filled.
\<close>

definition PT_LOAD :: u32 where "PT_LOAD = 1"
definition ELFCLASS32 :: u8 where "ELFCLASS32 = 1"
definition EM_386 :: u16 where "EM_386 = 3"

record elf32_header =
  e_ident :: "u8 list"
  e_type :: u16
  e_machine :: u16
  e_version :: u32
  e_entry :: u32
  e_phoff :: u32
  e_shoff :: u32
  e_flags :: u32
  e_ehsize :: u16
  e_phentsize :: u16
  e_phnum :: u16
  e_shentsize :: u16
  e_shnum :: u16
  e_shstrndx :: u16

record elf32_program =
  p_type :: u32
  p_offset :: u32
  p_vaddr :: u32
  p_paddr :: u32
  p_filesz :: u32
  p_memsz :: u32
  p_flags :: u32
  p_align :: u32

definition elf_header :: "bytes \<Rightarrow> elf32_header" where
  "elf_header b = \<lparr>e_ident = map b [0..<16], e_type = le16 b 16, e_machine = le16 b 18, e_version = le32 b 20,
     e_entry = le32 b 24, e_phoff = le32 b 28, e_shoff = le32 b 32, e_flags = le32 b 36, e_ehsize = le16 b 40,
     e_phentsize = le16 b 42, e_phnum = le16 b 44, e_shentsize = le16 b 46, e_shnum = le16 b 48, e_shstrndx = le16 b 50\<rparr>"

definition elf_program :: "bytes \<Rightarrow> nat \<Rightarrow> elf32_program" where
  "elf_program b k = \<lparr>p_type = le32 b k, p_offset = le32 b (k + 4), p_vaddr = le32 b (k + 8), p_paddr = le32 b (k + 12),
     p_filesz = le32 b (k + 16), p_memsz = le32 b (k + 20), p_flags = le32 b (k + 24), p_align = le32 b (k + 28)\<rparr>"

definition down :: "u32 \<Rightarrow> u32" where "down x = x AND NOT (PAGE_SIZE - 1)"
definition up :: "u32 \<Rightarrow> u32" where "up x = (x + PAGE_SIZE - 1) AND NOT (PAGE_SIZE - 1)"

text \<open>\<open>zero\<close> and \<open>copy\<close>, with the bytes they store in the order they store them.\<close>

fun store_bytes :: "u32 \<Rightarrow> u8 list \<Rightarrow> mm \<Rightarrow> mm outcome" where
  "store_bytes va [] m = Ret m"
| "store_bytes va (b # bs) m = bind_outcome (kstore8 va b m) (store_bytes (va + 1) bs)"

definition elf_zero :: "u32 \<Rightarrow> u32 \<Rightarrow> mm \<Rightarrow> mm outcome" where
  "elf_zero d n m = store_bytes d (replicate (unat n) 0) m"

definition elf_copy :: "u32 \<Rightarrow> bytes \<Rightarrow> nat \<Rightarrow> u32 \<Rightarrow> mm \<Rightarrow> mm outcome" where
  "elf_copy d b s n m = store_bytes d (map (\<lambda>i. b (s + i)) [0..<unat n]) m"

text \<open>The checks of a segment, in the order of the code; \<open>load_pages\<close> is the loop over its pages.\<close>

definition segment_ok :: "u32 \<Rightarrow> elf32_program \<Rightarrow> bool" where
  "segment_ok n p \<longleftrightarrow> p_flags p AND 6 \<noteq> 6 \<and>
     \<not> (p_memsz p < p_filesz p \<or> n < p_offset p \<or> n - p_offset p < p_filesz p \<or> p_vaddr p < 0x400000 \<or>
        p_vaddr p + p_memsz p < p_vaddr p \<or> 0xc0000000 \<le> p_vaddr p + p_memsz p)"

definition segment_pages :: "elf32_program \<Rightarrow> u32 list" where
  "segment_pages p =
     (let first = down (p_vaddr p); last = up (p_vaddr p + p_memsz p)
      in map (\<lambda>i. first + of_nat i * PAGE_SIZE) [0..<(unat last - unat first) div 4096])"

fun load_pages :: "space_ptr \<Rightarrow> u32 \<Rightarrow> u32 list \<Rightarrow> mm \<Rightarrow> (int \<times> mm) outcome" where
  "load_pages sp flags [] m = Ret (0, m)"
| "load_pages sp flags (va # vas) m =
     (if vmm_get_physical va (vm m) = 0 then
        (case pmm_alloc_page (pm m) of
           (page, a) \<Rightarrow>
             if page = 0 then Ret (-1, m\<lparr>pm := a\<rparr>)
             else (case vmm_map_user sp va page flags (vm m) of
                     (r, v) \<Rightarrow>
                       if r \<noteq> 0 then Ret (-1, m\<lparr>pm := pmm_free_page page a, vm := v\<rparr>)
                       else bind_outcome (elf_zero va PAGE_SIZE (m\<lparr>pm := a, vm := v\<rparr>)) (load_pages sp flags vas)))
      else load_pages sp flags vas m)"

definition load_segment :: "bytes \<Rightarrow> u32 \<Rightarrow> space_ptr \<Rightarrow> elf32_program \<Rightarrow> mm \<Rightarrow> (int \<times> mm) outcome" where
  "load_segment b n sp p m =
     (if p_type p \<noteq> PT_LOAD then Ret (0, m)
      else if \<not> segment_ok n p then Ret (-1, m)
      else bind_outcome (load_pages sp (if p_flags p AND 2 \<noteq> 0 then PAGE_WRITE else 0) (segment_pages p) m) (\<lambda>(r, m).
        if r \<noteq> 0 then Ret (-1, m)
        else bind_outcome (elf_copy (p_vaddr p) b (unat (p_offset p)) (p_filesz p) m) (\<lambda>m.
             bind_outcome (elf_zero (p_vaddr p + p_filesz p) (p_memsz p - p_filesz p) m) (\<lambda>m. Ret (0, m)))))"

fun load_segments :: "bytes \<Rightarrow> u32 \<Rightarrow> space_ptr \<Rightarrow> elf32_program list \<Rightarrow> mm \<Rightarrow> (int \<times> mm) outcome" where
  "load_segments b n sp [] m = Ret (0, m)"
| "load_segments b n sp (p # ps) m =
     bind_outcome (load_segment b n sp p m) (\<lambda>(r, m). if r \<noteq> 0 then Ret (r, m) else load_segments b n sp ps m)"

definition header_ok :: "u32 \<Rightarrow> elf32_header \<Rightarrow> bool" where
  "header_ok n h \<longleftrightarrow> take 5 (e_ident h) = [0x7f, 0x45, 0x4c, 0x46, ELFCLASS32] \<and> e_machine h = EM_386 \<and> e_phentsize h = 32 \<and>
     \<not> (n < e_phoff h \<or> (n - e_phoff h) div 32 < ucast (e_phnum h))"

definition elf_programs :: "bytes \<Rightarrow> elf32_program list" where
  "elf_programs b = map (\<lambda>i. elf_program b (unat (e_phoff (elf_header b)) + 32 * i)) [0..<unat (e_phnum (elf_header b))]"

text \<open>A failing segment and the end of the loop both go back to the kernel's directory.\<close>

definition elf32_load :: "bytes option \<Rightarrow> u32 \<Rightarrow> space_ptr \<Rightarrow> u32 option \<Rightarrow> mm \<Rightarrow> (int \<times> u32 option \<times> mm) outcome" where
  "elf32_load img n sp entry m =
     (case img of
        None \<Rightarrow> Ret (-1, entry, m)
      | Some b \<Rightarrow>
         if sp = None \<or> entry = None \<or> n < 52 \<or> \<not> header_ok n (elf_header b) then Ret (-1, entry, m)
         else bind_outcome (load_segments b n sp (elf_programs b) (on_vm (vmm_switch_address_space sp) m)) (\<lambda>(r, m).
           Ret (r, if r = 0 then Some (e_entry (elf_header b)) else entry, on_vm (vmm_switch_address_space None) m)))"

section \<open>The embedded program\<close>

text \<open>The image of the first user program (\<open>userspace/user_image.c\<close>).\<close>

definition user_image :: "u8 list" where
  "user_image =
    [0x7f, 0x45, 0x4c, 0x46, 0x01, 0x01, 0x01, 0x00, 0x00, 0x00, 0x00, 0x00,
     0x00, 0x00, 0x00, 0x00, 0x02, 0x00, 0x03, 0x00, 0x01, 0x00, 0x00, 0x00,
     0x00, 0x00, 0x40, 0x00, 0x34, 0x00, 0x00, 0x00, 0x00, 0x00, 0x00, 0x00,
     0x00, 0x00, 0x00, 0x00, 0x34, 0x00, 0x20, 0x00, 0x01, 0x00, 0x00, 0x00,
     0x00, 0x00, 0x00, 0x00, 0x01, 0x00, 0x00, 0x00, 0x54, 0x00, 0x00, 0x00,
     0x00, 0x00, 0x40, 0x00, 0x00, 0x00, 0x40, 0x00, 0x24, 0x00, 0x00, 0x00,
     0x24, 0x00, 0x00, 0x00, 0x05, 0x00, 0x00, 0x00, 0x00, 0x10, 0x00, 0x00,
     0xb8, 0x01, 0x00, 0x00, 0x00, 0xbb, 0x02, 0x00, 0x00, 0x00, 0xb9, 0x18,
     0x00, 0x40, 0x00, 0xba, 0x0c, 0x00, 0x00, 0x00, 0xcd, 0x80, 0xeb, 0xfe,
     0x75, 0x73, 0x65, 0x72, 0x3a, 0x20, 0x68, 0x65, 0x6c, 0x6c, 0x6f, 0x0a]"

definition user_image_size :: u32 where
  "user_image_size = of_nat (length user_image)"

end
