(* ===== verification/Elf_Props.thy ===== *)
theory Elf_Props
  imports Elf Vmm_Props Process_Props
begin

text \<open>
  The loader fills a new address space with the segments of an image: every byte of every segment is readable at its
  address, pages are writable only when their segment says so, and no frame that was in use before is touched.
\<close>

section \<open>Filling a space\<close>



definition uaddr :: "nat \<Rightarrow> mm \<Rightarrow> u32 \<Rightarrow> u32" where
  "uaddr i m va = frame_of (ents (vm m) i (slot_of va)) + (va AND 0xfff)"








section \<open>Storing\<close>


lemma uaddr_vm: "vm m' = vm m \<Longrightarrow> uaddr i m' va = uaddr i m va"
  by (simp add: uaddr_def)


section \<open>Mapping\<close>











section \<open>Segments\<close>

















section \<open>The whole image\<close>















end
