(* ===== verification/Exec.thy ===== *)
theory Exec
  imports Elf Heap Net
begin

text \<open>
  The state of the running kernel, for the parts that use several components at once, and the two operations of
  \<open>kernel/process.c\<close> that load a program from the file system. The environment parameters
  are the registered scheduler, the port access of the drivers, the default block device and the number of timer
  interrupts that the processor takes while a system call waits.
\<close>

record 'h env =
  the_sched :: scheduler
  the_ports :: "'h ports"
  the_block :: "'h block"
  the_ticks :: nat

record 'h sys =
  kstate :: kern
  kheap :: heap
  volume :: fat32
  screen :: vga
  hw :: 'h
  netw :: net
  kernel_sockets :: "nat \<Rightarrow> net_socket"
  exec_pending_process :: "nat option"
  exec_pending_entry :: u32

section \<open>Lifting the operations of the components\<close>

definition on_kern :: "(kern \<Rightarrow> (int \<times> kern) outcome) \<Rightarrow> 'h sys \<Rightarrow> (int \<times> 'h sys) outcome" where
  "on_kern f s = bind_outcome (f (kstate s)) (\<lambda>(r, k). Ret (r, s\<lparr>kstate := k\<rparr>))"

definition upd_kern :: "(kern \<Rightarrow> kern) \<Rightarrow> 'h sys \<Rightarrow> 'h sys" where
  "upd_kern f s = s\<lparr>kstate := f (kstate s)\<rparr>"

definition cur :: "'h env \<Rightarrow> 'h sys \<Rightarrow> nat option" where
  "cur e s = scheduler_current (the_sched e) (kstate s)"

definition sys_mem :: "'h sys \<Rightarrow> mm" where
  "sys_mem s = mem (kstate s)"

definition set_mem :: "mm \<Rightarrow> 'h sys \<Rightarrow> 'h sys" where
  "set_mem m s = upd_kern (\<lambda>k. k\<lparr>mem := m\<rparr>) s"

definition sys_kmalloc :: "u32 \<Rightarrow> 'h sys \<Rightarrow> (u32 \<times> 'h sys) outcome" where
  "sys_kmalloc n s =
     bind_outcome (or_hang (kmalloc n (kheap s, sys_mem s))) (\<lambda>(p, hp, m). Ret (p, set_mem m (s\<lparr>kheap := hp\<rparr>)))"

definition sys_kfree :: "u32 \<Rightarrow> 'h sys \<Rightarrow> 'h sys outcome" where
  "sys_kfree p s = bind_outcome (or_hang (kfree p (kheap s))) (\<lambda>hp. Ret (s\<lparr>kheap := hp\<rparr>))"

definition sys_open :: "'h env \<Rightarrow> u8 list \<Rightarrow> u32 \<Rightarrow> 'h sys \<Rightarrow> (int \<times> 'h sys) outcome" where
  "sys_open e path f s =
     bind_outcome (or_hang (vfs_open (the_block e) (Some path) f (fds (kstate s), volume s, hw s))) (\<lambda>(r, v, fs, h).
       Ret (r, upd_kern (\<lambda>k. k\<lparr>fds := v\<rparr>) (s\<lparr>volume := fs, hw := h\<rparr>)))"

definition sys_close :: "int \<Rightarrow> 'h sys \<Rightarrow> int \<times> 'h sys" where
  "sys_close fd s = (case vfs_close fd (fds (kstate s)) of (r, v) \<Rightarrow> (r, upd_kern (\<lambda>k. k\<lparr>fds := v\<rparr>) s))"

definition sys_read :: "'h env \<Rightarrow> int \<Rightarrow> bytes \<Rightarrow> u32 \<Rightarrow> 'h sys \<Rightarrow> (int \<times> bytes \<times> 'h sys) outcome" where
  "sys_read e fd buf n s =
     bind_outcome (or_hang (vfs_read (the_ports e) (the_block e) fd (Some buf) n (fds (kstate s), volume s, hw s)))
       (\<lambda>(r, b, v, fs, h). Ret (r, (case b of Some b \<Rightarrow> b | None \<Rightarrow> buf),
          upd_kern (\<lambda>k. k\<lparr>fds := v\<rparr>) (s\<lparr>volume := fs, hw := h\<rparr>)))"

section \<open>Loading a program\<close>

text \<open>
  The bytes of a heap block, and what reading into it leaves there. \<open>read_image\<close> opens the
  file, reads it into a new block and closes it; its first result is the error to return, or 0.
\<close>

definition heap_bytes :: "heap \<Rightarrow> u32 \<Rightarrow> bytes" where
  "heap_bytes hp p i = heap_data hp (p + of_nat i)"

definition heap_put :: "u32 \<Rightarrow> nat \<Rightarrow> bytes \<Rightarrow> heap \<Rightarrow> heap" where
  "heap_put p n b hp = hp\<lparr>heap_data := (\<lambda>a. if unat (a - p) < n then b (unat (a - p)) else heap_data hp a)\<rparr>"

definition EXEC_MAX_IMAGE :: u32 where "EXEC_MAX_IMAGE = 256 * 1024"

definition read_image :: "'h env \<Rightarrow> u8 list \<Rightarrow> 'h sys \<Rightarrow> (int \<times> u32 \<times> u32 \<times> 'h sys) outcome" where
  "read_image e path s =
     bind_outcome (sys_open e path 0 s) (\<lambda>(fd, s).
       if fd < 0 then Ret (-2, 0, 0, s)
       else bind_outcome (sys_kmalloc EXEC_MAX_IMAGE s) (\<lambda>(img, s).
         if img = 0 then Ret (-12, 0, 0, snd (sys_close fd s))
         else bind_outcome (sys_read e fd (heap_bytes (kheap s) img) EXEC_MAX_IMAGE s) (\<lambda>(n, b, s).
           let s = s\<lparr>kheap := heap_put img (unat EXEC_MAX_IMAGE) b (kheap s)\<rparr>; s = snd (sys_close fd s) in
           if n \<le> 0 \<or> n = sint EXEC_MAX_IMAGE then bind_outcome (sys_kfree img s) (\<lambda>s. Ret (-8, 0, 0, s))
           else Ret (0, img, word_of_int n, s))))"

text \<open>
  The stack page and the image of a new space. The first result is 0, -12 when there is no
  stack or -8 when the image does not load; then the space is gone.
\<close>

definition fill_space :: "nat \<Rightarrow> u32 \<Rightarrow> u32 \<Rightarrow> 'h sys \<Rightarrow> (int \<times> u32 \<times> 'h sys) outcome" where
  "fill_space sp img n s =
     (case vmm_user_alloc (Some sp) (USER_STACK_TOP - PAGE_SIZE) 1 PAGE_WRITE (sys_mem s) of
        (st, m) \<Rightarrow>
          if st = 0 then Ret (-12, 0, set_mem (vmm_destroy_address_space (Some sp) m) s)
          else bind_outcome (elf32_load (Some (heap_bytes (kheap s) img)) n (Some sp) (Some 0) m) (\<lambda>(r, entry, m).
            if r \<noteq> 0 then Ret (-8, 0, set_mem (vmm_destroy_address_space (Some sp) m) s)
            else Ret (0, the entry, set_mem m s)))"

definition new_space :: "'h sys \<Rightarrow> space_ptr \<times> 'h sys" where
  "new_space s = (case vmm_create_address_space (vm (sys_mem s)) of (sp, v) \<Rightarrow> (sp, set_mem ((sys_mem s)\<lparr>vm := v\<rparr>) s))"

definition drop_space :: "space_ptr \<Rightarrow> 'h sys \<Rightarrow> 'h sys" where
  "drop_space sp s = set_mem (vmm_destroy_address_space sp (sys_mem s)) s"

definition take_image :: "nat \<Rightarrow> u32 \<Rightarrow> pcb \<Rightarrow> pcb" where
  "take_image sp entry x = x\<lparr>address_space := Some sp, entry_point := entry, user_stack := USER_STACK_TOP, user_mode := True,
     cpu_state := (cpu_state x)\<lparr>c_eip := entry, c_esp := USER_STACK_TOP\<rparr>\<rparr>"

definition process_exec_path :: "'h env \<Rightarrow> u8 list option \<Rightarrow> 'h sys \<Rightarrow> (int \<times> 'h sys) outcome" where
  "process_exec_path e path s =
     (case (cur e s, path) of
        (Some q, Some path) \<Rightarrow>
          bind_outcome (read_image e path s) (\<lambda>(r, img, n, s).
            if r \<noteq> 0 then Ret (r, s)
            else (case new_space s of
                    (None, s) \<Rightarrow> bind_outcome (sys_kfree img s) (\<lambda>s. Ret (-12, s))
                  | (Some sp, s) \<Rightarrow>
                     bind_outcome (fill_space sp img n s) (\<lambda>(r, entry, s).
                       if r \<noteq> 0 then bind_outcome (sys_kfree img s) (\<lambda>s. Ret (-8, s))
                       else
                          (let old = address_space (procs (kstate s) q); s = upd_kern (upd_pcb q (take_image sp entry)) s in
                           bind_outcome (sys_kfree img s) (\<lambda>s.
                             let s = (if old \<noteq> None then drop_space old s else s)
                             in Ret (0, upd_kern (process_enter_user (Some q)) s))))))
      | _ \<Rightarrow> Ret (-1, s))"

definition process_create_from_path :: "'h env \<Rightarrow> string option \<Rightarrow> u8 list option \<Rightarrow> 'h sys \<Rightarrow> (nat option \<times> 'h sys) outcome" where
  "process_create_from_path e name path s =
     (case (name, path) of
        (Some name, Some path) \<Rightarrow>
          bind_outcome (read_image e path s) (\<lambda>(r, img, n, s).
            if r \<noteq> 0 then Ret (None, s)
            else (case process_create_user name 0 (kstate s) of
              (None, k) \<Rightarrow> bind_outcome (sys_kfree img (s\<lparr>kstate := k\<rparr>)) (\<lambda>s. Ret (None, s))
            | (Some p, k) \<Rightarrow>
               (let s = s\<lparr>kstate := k\<rparr>; old = address_space (procs (kstate s) p) in
                case new_space s of
                  (None, s) \<Rightarrow> bind_outcome (sys_kfree img s) (\<lambda>s. Ret (None, s))
                | (Some sp, s) \<Rightarrow>
                   bind_outcome (fill_space sp img n s) (\<lambda>(r, entry, s).
                     if r \<noteq> 0 then bind_outcome (sys_kfree img s) (\<lambda>s. Ret (None, s))
                     else
                        (let s = drop_space old (upd_kern (upd_pcb p (\<lambda>x. x\<lparr>address_space := Some sp\<rparr>)) s);
                             s = upd_kern (upd_pcb p (\<lambda>x. x\<lparr>entry_point := entry,
                                   cpu_state := (cpu_state x)\<lparr>c_eip := entry, c_esp := USER_STACK_TOP\<rparr>\<rparr>)) s;
                             s = upd_kern (frame_for p entry USER_STACK_TOP True) s
                         in bind_outcome (sys_kfree img s) (\<lambda>s. Ret (Some p, s)))))))
      | _ \<Rightarrow> Ret (None, s))"

end
