(* ===== verification/Syscall.thy ===== *)
theory Syscall
  imports Exec
begin

text \<open>
  The system calls (\<open>kernel/syscall.c\<close>): the checks of user pointers, one handler per call, the
  table and the entry from the interrupt. The handlers of the source have two-letter names; here they carry the suffix
  \<open>_sys\<close> that its later ones have. A handler returns the value for \<open>eax\<close> and the state.
\<close>

type_synonym 'h handler = "u32 \<Rightarrow> u32 \<Rightarrow> u32 \<Rightarrow> 'h sys \<Rightarrow> (int \<times> 'h sys) outcome"

text \<open>The enumeration of \<open>include/syscall.h\<close>.\<close>

datatype sys_call = SYS_READ | SYS_WRITE | SYS_OPEN | SYS_CLOSE | SYS_FORK | SYS_EXIT
  | SYS_GETPID | SYS_YIELD | SYS_SLEEP | SYS_WAIT | SYS_EXEC | SYS_MMAP
  | SYS_UNAME | SYS_MUNMAP | SYS_KILL | SYS_FUTEX_WAIT | SYS_FUTEX_WAKE | SYS_SIGACTION
  | SYS_SIGRETURN | SYS_GETCRED | SYS_SOCKET | SYS_CONNECT | SYS_SEND | SYS_CLOSE_SOCKET

primrec sys_number :: "sys_call \<Rightarrow> u32" where
  "sys_number SYS_READ = 0"
| "sys_number SYS_WRITE = 1"
| "sys_number SYS_OPEN = 2"
| "sys_number SYS_CLOSE = 3"
| "sys_number SYS_FORK = 4"
| "sys_number SYS_EXIT = 5"
| "sys_number SYS_GETPID = 6"
| "sys_number SYS_YIELD = 7"
| "sys_number SYS_SLEEP = 8"
| "sys_number SYS_WAIT = 9"
| "sys_number SYS_EXEC = 10"
| "sys_number SYS_MMAP = 11"
| "sys_number SYS_UNAME = 12"
| "sys_number SYS_MUNMAP = 13"
| "sys_number SYS_KILL = 14"
| "sys_number SYS_FUTEX_WAIT = 15"
| "sys_number SYS_FUTEX_WAKE = 16"
| "sys_number SYS_SIGACTION = 17"
| "sys_number SYS_SIGRETURN = 18"
| "sys_number SYS_GETCRED = 19"
| "sys_number SYS_SOCKET = 20"
| "sys_number SYS_CONNECT = 21"
| "sys_number SYS_SEND = 22"
| "sys_number SYS_CLOSE_SOCKET = 23"

definition SYS_COUNT :: u32 where "SYS_COUNT = 24"

definition ERR_ENOENT :: int where "ERR_ENOENT = 2"
definition ERR_ENOEXEC :: int where "ERR_ENOEXEC = 8"
definition ERR_ENOMEM :: int where "ERR_ENOMEM = 12"

section \<open>User memory\<close>

definition validate :: "nat \<Rightarrow> u32 \<Rightarrow> u32 \<Rightarrow> bool \<Rightarrow> 'h sys \<Rightarrow> (bool \<times> 'h sys) outcome" where
  "validate q p n w s =
     bind_outcome (check_ptr (address_space (procs (kstate s) q)) p n w (sys_mem s)) (\<lambda>(r, m). Ret (r = 0, set_mem m s))"

definition user_buf :: "'h env \<Rightarrow> u32 \<Rightarrow> u32 \<Rightarrow> bool \<Rightarrow> 'h sys \<Rightarrow> (bool \<times> 'h sys) outcome" where
  "user_buf e p n w s =
     (if n = 0 then Ret (0x400000 \<le> p \<and> p < 0xc0000000, s)
      else (case cur e s of None \<Rightarrow> Ret (False, s) | Some q \<Rightarrow> validate q p n w s))"

text \<open>
  \<open>user_string\<close> checks one byte at a time and reads it, up to a zero byte among the first 256. Its result here is the
  string it has seen, which the callers read again, or \<open>None\<close> for the error.
\<close>

primrec string_from :: "nat \<Rightarrow> nat \<Rightarrow> u32 \<Rightarrow> 'h sys \<Rightarrow> (u8 list option \<times> 'h sys) outcome" where
  "string_from 0 q a s = Ret (None, s)"
| "string_from (Suc n) q a s =
     (if a < 0xc0000000 then
        bind_outcome (validate q a 1 False s) (\<lambda>(ok, s).
          if \<not> ok then Ret (None, s)
          else bind_outcome (kload8 a (sys_mem s)) (\<lambda>(b, m).
            let s = set_mem m s in
            if b = 0 then Ret (Some [], s)
            else bind_outcome (string_from n q (a + 1) s) (\<lambda>(r, s). Ret (map_option (Cons b) r, s))))
      else Ret (None, s))"

definition user_string :: "'h env \<Rightarrow> u32 \<Rightarrow> 'h sys \<Rightarrow> (u8 list option \<times> 'h sys) outcome" where
  "user_string e p s =
     (case cur e s of
        None \<Rightarrow> Ret (None, s)
      | Some q \<Rightarrow> if p < 0x400000 \<or> 0xc0000000 \<le> p then Ret (None, s) else string_from 256 q p s)"

text \<open>
  The bytes of a validated buffer, as the component that gets the pointer reads them, and the store of what it has
  written there.
\<close>

primrec load_user :: "nat \<Rightarrow> u32 \<Rightarrow> mm \<Rightarrow> (u8 list \<times> mm) outcome" where
  "load_user 0 a m = Ret ([], m)"
| "load_user (Suc n) a m =
     bind_outcome (kload8 a m) (\<lambda>(b, m). bind_outcome (load_user n (a + 1) m) (\<lambda>(bs, m). Ret (b # bs, m)))"

definition bytes_of :: "u8 list \<Rightarrow> bytes" where
  "bytes_of bs i = (if i < length bs then bs ! i else 0)"

definition with_buffer :: "u32 \<Rightarrow> u32 \<Rightarrow> (bytes \<Rightarrow> 'h sys \<Rightarrow> 'a outcome) \<Rightarrow> 'h sys \<Rightarrow> 'a outcome" where
  "with_buffer p n f s = bind_outcome (load_user (unat n) p (sys_mem s)) (\<lambda>(bs, m). f (bytes_of bs) (set_mem m s))"

definition put_user :: "u32 \<Rightarrow> u8 list \<Rightarrow> 'h sys \<Rightarrow> 'h sys outcome" where
  "put_user p bs s = bind_outcome (store_bytes p bs (sys_mem s)) (\<lambda>m. Ret (set_mem m s))"

section \<open>Files and processes\<close>

definition rd_sys :: "'h env \<Rightarrow> 'h handler" where
  "rd_sys e a b c s =
     bind_outcome (user_buf e b c True s) (\<lambda>(ok, s).
       if \<not> ok then Ret (-1, s)
       else with_buffer b c (\<lambda>buf s.
         bind_outcome (sys_read e (sint a) buf c s) (\<lambda>(r, buf, s).
           bind_outcome (put_user b (map buf [0..<unat c]) s) (\<lambda>s. Ret (r, s)))) s)"

definition wr_sys :: "'h env \<Rightarrow> 'h handler" where
  "wr_sys e a b c s =
     bind_outcome (user_buf e b c False s) (\<lambda>(ok, s).
       if \<not> ok then Ret (-1, s)
       else with_buffer b c (\<lambda>buf s.
         bind_outcome (or_hang (vfs_write (the_ports e) (the_block e) (sint a) (Some buf) c
             (fds (kstate s), screen s, hw s))) (\<lambda>(r, v, g, h).
           Ret (r, upd_kern (\<lambda>k. k\<lparr>fds := v\<rparr>) (s\<lparr>screen := g, hw := h\<rparr>)))) s)"

definition op_sys :: "'h env \<Rightarrow> 'h handler" where
  "op_sys e a b c s =
     bind_outcome (user_string e a s) (\<lambda>(path, s).
       case path of None \<Rightarrow> Ret (-1, s) | Some path \<Rightarrow> sys_open e path b s)"

definition cl_sys :: "'h env \<Rightarrow> 'h handler" where
  "cl_sys e a b c s = Ret (sys_close (sint a) s)"

definition fk_sys :: "'h env \<Rightarrow> 'h handler" where
  "fk_sys e a b c s = on_kern (process_fork (the_sched e)) s"

definition ex_sys :: "'h env \<Rightarrow> 'h handler" where
  "ex_sys e a b c s =
     (case cur e s of
        None \<Rightarrow> Ret (-1, s)
      | Some p \<Rightarrow> on_kern (process_exit_with_status (pid (procs (kstate s) p)) a) s)"

definition gp_sys :: "'h env \<Rightarrow> 'h handler" where
  "gp_sys e a b c s = Ret (case cur e s of None \<Rightarrow> -1 | Some p \<Rightarrow> sint (pid (procs (kstate s) p)), s)"

definition yl_sys :: "'h env \<Rightarrow> 'h handler" where
  "yl_sys e a b c s =
     on_kern (\<lambda>k. bind_outcome (or_hang (scheduler_yield (the_sched e) k)) (\<lambda>k. Ret (0, k))) s"

text \<open>\<open>ksleep_ms\<close> halts until the tick count is reached: each timer interrupt that is taken meanwhile advances it.\<close>

definition sl_sys :: "'h env \<Rightarrow> 'h handler" where
  "sl_sys e a b c s =
     on_kern (\<lambda>k. bind_outcome (or_hang (ksleep_ms (the_ticks e) a (timer k))) (\<lambda>t. Ret (0, k\<lparr>timer := t\<rparr>))) s"

definition wt_sys :: "'h env \<Rightarrow> 'h handler" where
  "wt_sys e a b c s =
     bind_outcome (if b = 0 then Ret (True, s) else user_buf e b 4 True s) (\<lambda>(ok, s).
       if ok then on_kern (process_wait (the_sched e) a b) s else Ret (-1, s))"

definition ee_sys :: "'h env \<Rightarrow> 'h handler" where
  "ee_sys e a b c s =
     (case cur e s of
        None \<Rightarrow> Ret (-ERR_ENOENT, s)
      | Some q \<Rightarrow>
         bind_outcome (user_string e a s) (\<lambda>(path, s).
           case path of
             None \<Rightarrow> Ret (-ERR_ENOENT, s)
           | Some path \<Rightarrow>
              bind_outcome (read_image e path s) (\<lambda>(r, img, n, s).
                if r \<noteq> 0 then Ret (r, s)
                else (case new_space s of
                  (None, s) \<Rightarrow> bind_outcome (sys_kfree img s) (\<lambda>s. Ret (-ERR_ENOMEM, s))
                | (Some sp, s) \<Rightarrow>
                   bind_outcome (fill_space sp img n s) (\<lambda>(r, entry, s).
                     if r \<noteq> 0 then bind_outcome (sys_kfree img s) (\<lambda>s. Ret (r, s))
                     else
                       (let old = address_space (procs (kstate s) q);
                            s = upd_kern (upd_pcb q (take_image sp entry)) s;
                            s = upd_kern (\<lambda>k. k\<lparr>mem := on_vm (vmm_switch_address_space (Some sp)) (mem k), tss_esp0 := stack_top k q\<rparr>) s;
                            s = (if old \<noteq> None then drop_space old s else s);
                            s = s\<lparr>exec_pending_process := Some q, exec_pending_entry := entry\<rparr>
                        in bind_outcome (sys_kfree img s) (\<lambda>s. Ret (0, s))))))))"

definition mm_sys :: "'h env \<Rightarrow> 'h handler" where
  "mm_sys e a b c s =
     (case cur e s of
        None \<Rightarrow> Ret (-1, s)
      | Some q \<Rightarrow>
         let pages = (b + PAGE_SIZE - 1) div PAGE_SIZE in
         if b = 0 \<or> a \<noteq> 0 \<and> a AND 0xfff \<noteq> 0 \<or> pages = 0 \<or> 0x80000 < pages then Ret (-1, s)
         else (case vmm_map_lazy_range (address_space (procs (kstate s) q)) a pages (c OR PAGE_WRITE) (vm (sys_mem s)) of
                 (r, v) \<Rightarrow> Ret (r, set_mem ((sys_mem s)\<lparr>vm := v\<rparr>) s)))"

definition mu_sys :: "'h env \<Rightarrow> 'h handler" where
  "mu_sys e a b c s =
     (case cur e s of
        None \<Rightarrow> Ret (-1, s)
      | Some q \<Rightarrow>
         let pages = (b + PAGE_SIZE - 1) div PAGE_SIZE in
         if b = 0 \<or> a AND 0xfff \<noteq> 0 \<or> a < 0x400000 \<or> 0xc0000000 \<le> a \<or> pages = 0 \<or> 0x80000 < pages then Ret (-1, s)
         else (case vmm_unmap_range (address_space (procs (kstate s) q)) a pages (sys_mem s) of
                 (r, m) \<Rightarrow> Ret (r, set_mem m s)))"

definition uname_text :: "u8 list" where
  "uname_text = map (of_char :: char \<Rightarrow> u8) ''ceblar-20 0.6.0 x86''"

definition un_sys :: "'h env \<Rightarrow> 'h handler" where
  "un_sys e a b c s =
     bind_outcome (user_buf e a (of_nat (length uname_text) + 1) True s) (\<lambda>(ok, s).
       if \<not> ok then Ret (-1, s)
       else bind_outcome (put_user a (uname_text @ [0]) s) (\<lambda>s. Ret (0, s)))"

section \<open>Sockets, signals and futexes\<close>

definition set_socket :: "u32 \<Rightarrow> net_socket \<Rightarrow> 'h sys \<Rightarrow> 'h sys" where
  "set_socket a x s = s\<lparr>kernel_sockets := (kernel_sockets s)(unat a := x)\<rparr>"

fun open_socket :: "u16 \<Rightarrow> nat list \<Rightarrow> 'h sys \<Rightarrow> int \<times> 'h sys" where
  "open_socket port [] s = (-1, s)"
| "open_socket port (i # is) s =
     (if sock_used (kernel_sockets s i) then open_socket port is s
      else (case net_socket_open (kernel_sockets s i) port (netw s) of
              (r, x) \<Rightarrow> let s = set_socket (of_nat i) x s in if r = 0 then (int i, s) else open_socket port is s))"

definition socket_sys :: "'h env \<Rightarrow> 'h handler" where
  "socket_sys e a b c s = Ret (open_socket (ucast a) [0..<8] s)"

definition connect_sys :: "'h env \<Rightarrow> 'h handler" where
  "connect_sys e a b c s =
     (if 8 \<le> a then Ret (-1, s)
      else (case net_socket_connect (kernel_sockets s (unat a)) (ucast b) of (r, x) \<Rightarrow> Ret (r, set_socket a x s)))"

definition send_sys :: "'h env \<Rightarrow> 'h handler" where
  "send_sys e a b c s =
     (if 8 \<le> a then Ret (-1, s)
      else bind_outcome (user_buf e b c False s) (\<lambda>(ok, s).
        if \<not> ok then Ret (-1, s)
        else with_buffer b c (\<lambda>buf s.
          (case net_socket_send (kernel_sockets s (unat a)) (Some buf) c (netw s) of
             (r, x, n) \<Rightarrow> Ret (r, set_socket a x (s\<lparr>netw := n\<rparr>)))) s))"

definition close_socket_sys :: "'h env \<Rightarrow> 'h handler" where
  "close_socket_sys e a b c s =
     (if 8 \<le> a then Ret (-1, s)
      else (case net_socket_close (kernel_sockets s (unat a)) of (r, x) \<Rightarrow> Ret (r, set_socket a x s)))"

definition kill_sys :: "'h env \<Rightarrow> 'h handler" where
  "kill_sys e a b c s = (if b = 0 \<or> 31 < b then Ret (-1, s) else on_kern (process_send_signal a b) s)"

definition cred_bytes :: "credentials \<Rightarrow> u8 list" where
  "cred_bytes x = concat (map (\<lambda>w. map (byte_of w) [0..<4]) [uid x, gid x, euid x, egid x, capabilities x])"

definition getcred_sys :: "'h env \<Rightarrow> 'h handler" where
  "getcred_sys e a b c s =
     (case cur e s of
        None \<Rightarrow> Ret (-1, s)
      | Some q \<Rightarrow>
         bind_outcome (user_buf e a 20 True s) (\<lambda>(ok, s).
           if \<not> ok then Ret (-1, s)
           else (case process_get_credentials (pid (procs (kstate s) q)) (Some \<lparr>uid = 0, gid = 0, euid = 0, egid = 0, capabilities = 0\<rparr>)
                        (kstate s) of
                   (r, x) \<Rightarrow> if r \<noteq> 0 then Ret (r, s)
                     else bind_outcome (put_user a (cred_bytes (the x)) s) (\<lambda>s. Ret (r, s)))))"

definition sigaction_sys :: "'h env \<Rightarrow> 'h handler" where
  "sigaction_sys e a b c s =
     (case cur e s of
        None \<Rightarrow> Ret (-1, s)
      | Some q \<Rightarrow>
         on_kern (\<lambda>k. bind_outcome (process_signal_action (pid (procs k q)) a b k) (\<lambda>(r, k).
           if r \<noteq> 0 then Ret (-1, k)
           else (case process_signal_set_mask (pid (procs k q)) c k of (r, k) \<Rightarrow> Ret (if r = 0 then 0 else -1, k)))) s)"

definition sigreturn_sys :: "'h env \<Rightarrow> 'h handler" where
  "sigreturn_sys e a b c s = Ret (0, s)"

definition futex_check :: "'h env \<Rightarrow> u32 \<Rightarrow> 'h sys \<Rightarrow> (bool \<times> 'h sys) outcome" where
  "futex_check e a s =
     (case cur e s of
        None \<Rightarrow> Ret (False, s)
      | Some q \<Rightarrow> if a < 0x400000 \<or> 0xc0000000 \<le> a then Ret (False, s) else validate q a 4 True s)"

definition futex_wait_sys :: "'h env \<Rightarrow> 'h handler" where
  "futex_wait_sys e a b c s =
     bind_outcome (futex_check e a s) (\<lambda>(ok, s).
       if ok then on_kern (process_futex_wait (the_sched e) a b c) s else Ret (-1, s))"

definition futex_wake_sys :: "'h env \<Rightarrow> 'h handler" where
  "futex_wake_sys e a b c s =
     bind_outcome (futex_check e a s) (\<lambda>(ok, s).
       if ok then on_kern (\<lambda>k. or_hang (process_futex_wake a b k)) s else Ret (-1, s))"

section \<open>Dispatch\<close>

definition syscall_init :: "'h env \<Rightarrow> (u32 \<rightharpoonup> 'h handler) \<Rightarrow> (u32 \<rightharpoonup> 'h handler)" where
  "syscall_init e table = table(0 \<mapsto> rd_sys e, 1 \<mapsto> wr_sys e, 2 \<mapsto> op_sys e, 3 \<mapsto> cl_sys e, 4 \<mapsto> fk_sys e, 5 \<mapsto> ex_sys e,
     6 \<mapsto> gp_sys e, 7 \<mapsto> yl_sys e, 8 \<mapsto> sl_sys e, 9 \<mapsto> wt_sys e, 10 \<mapsto> ee_sys e, 11 \<mapsto> mm_sys e, 12 \<mapsto> un_sys e,
     13 \<mapsto> mu_sys e, 14 \<mapsto> kill_sys e, 15 \<mapsto> futex_wait_sys e, 16 \<mapsto> futex_wake_sys e, 17 \<mapsto> sigaction_sys e,
     18 \<mapsto> sigreturn_sys e, 19 \<mapsto> getcred_sys e, 20 \<mapsto> socket_sys e, 21 \<mapsto> connect_sys e, 22 \<mapsto> send_sys e,
     23 \<mapsto> close_socket_sys e)"

definition syscall_dispatch :: "(u32 \<rightharpoonup> 'h handler) \<Rightarrow> u32 \<Rightarrow> 'h handler" where
  "syscall_dispatch table n a b c s =
     (if n < SYS_COUNT then (case table n of None \<Rightarrow> Ret (-1, s) | Some f \<Rightarrow> f a b c s) else Ret (-1, s))"

text \<open>\<open>run_call\<close> is the part under the first condition, \<open>enter_image\<close> the part under the second one.\<close>

definition run_call :: "'h env \<Rightarrow> (u32 \<rightharpoonup> 'h handler) \<Rightarrow> u32 \<Rightarrow> 'h sys \<Rightarrow> 'h sys outcome" where
  "run_call e table r s =
     (let f = frames (kstate s) r in
      bind_outcome (syscall_dispatch table (eax f) (ebx f) (ecx f) (edx f) s) (\<lambda>(v, s).
        let k = kstate s; k = k\<lparr>frames := (frames k)(r := (frames k r)\<lparr>eax := word_of_int v\<rparr>)\<rparr> in
        bind_outcome (if eax f = sys_number SYS_SIGRETURN then Ret (process_signal_return (the_sched e) r k)
                      else process_deliver_signal (the_sched e) r k) (\<lambda>k. Ret (s\<lparr>kstate := k\<rparr>))))"

definition enter_image :: "u32 \<Rightarrow> 'h sys \<Rightarrow> 'h sys" where
  "enter_image r s =
     (upd_kern (\<lambda>k. k\<lparr>frames := (frames k)(r := (frames k r)\<lparr>eip := exec_pending_entry s, cs := 0x1b, eflags := 0x202,
        useresp := USER_STACK_TOP, ss := 0x23\<rparr>)\<rparr>) s)\<lparr>exec_pending_process := None\<rparr>"

definition syscall_from_interrupt :: "'h env \<Rightarrow> (u32 \<rightharpoonup> 'h handler) \<Rightarrow> u32 \<Rightarrow> 'h sys \<Rightarrow> (u32 \<times> 'h sys) outcome" where
  "syscall_from_interrupt e table r s =
     (let q = cur e s in
      bind_outcome (if r \<noteq> 0 then run_call e table r s else Ret s) (\<lambda>s.
        let s = (if r \<noteq> 0 \<and> q = exec_pending_process s then enter_image r s else s) in
        case q of
          None \<Rightarrow> Ret (r, s)
        | Some p \<Rightarrow>
           if state (procs (kstate s) p) = PROCESS_BLOCKED \<or> state (procs (kstate s) p) = PROCESS_ZOMBIE
           then bind_outcome (or_hang (scheduler_block_current r (kstate s))) (\<lambda>(r, k). Ret (r, s\<lparr>kstate := k\<rparr>))
           else Ret (r, s)))"

end
