(* ===== verification/Acpi.thy ===== *)
theory Acpi
  imports Ceblar_Prelude
begin

text \<open>
  The ACPI tables (\<open>drivers/acpi/acpi.c\<close>): finding the root pointer and the interrupt table, and what is kept
  of them. The firmware's memory is a parameter, a function from physical addresses to bytes, which the code only
  reads. The packed structures are read at their offsets.
\<close>

section \<open>State and reads\<close>

definition ACPI_MAX_CPUS :: u32 where "ACPI_MAX_CPUS = 16"
definition ACPI_MAX_IRQ_OVERRIDES :: u32 where "ACPI_MAX_IRQ_OVERRIDES = 16"

record irq_override =
  ov_source :: u8
  ov_gsi :: u32
  ov_flags :: u16

record acpi =
  lapic_base :: u32
  ioapic_base :: u32
  ioapic_gsi_base :: u32
  cpu_count :: u32
  override_count :: u32
  cpu_apic_ids :: "nat \<Rightarrow> u8"
  overrides :: "nat \<Rightarrow> irq_override"
  madt_found :: bool

definition rd16 :: "(u32 \<Rightarrow> u8) \<Rightarrow> u32 \<Rightarrow> u16" where
  "rd16 fw a = ucast (fw a) OR push_bit 8 (ucast (fw (a + 1)))"

text \<open>The fields of \<open>rsdp_v1_t\<close> and \<open>sdt_header_t\<close> that the code reads.\<close>

record rsdp_v1 =
  rsdp_revision :: u8
  rsdp_rsdt :: u32

record sdt_header =
  sdt_signature :: "u8 list"
  sdt_length :: u32

definition rsdp_at :: "(u32 \<Rightarrow> u8) \<Rightarrow> u32 \<Rightarrow> rsdp_v1" where
  "rsdp_at fw p = \<lparr>rsdp_revision = fw (p + 15), rsdp_rsdt = rd32 fw (p + 16)\<rparr>"

definition sdt_at :: "(u32 \<Rightarrow> u8) \<Rightarrow> u32 \<Rightarrow> sdt_header" where
  "sdt_at fw p = \<lparr>sdt_signature = map (\<lambda>i. fw (p + of_nat i)) [0..<4], sdt_length = rd32 fw (p + 4)\<rparr>"

section \<open>Finding the tables\<close>

definition byte_sum :: "(u32 \<Rightarrow> u8) \<Rightarrow> u32 \<Rightarrow> nat \<Rightarrow> u8" where
  "byte_sum fw p n = foldl (\<lambda>sum i. sum + fw (p + of_nat i)) 0 [0..<n]"

definition rsdp_signature :: "(u32 \<Rightarrow> u8) \<Rightarrow> u32 \<Rightarrow> bool" where
  "rsdp_signature fw p \<longleftrightarrow> map (\<lambda>i. fw (p + of_nat i)) [0..<8] = [0x52, 0x53, 0x44, 0x20, 0x50, 0x54, 0x52, 0x20]"

definition valid_rsdp :: "(u32 \<Rightarrow> u8) \<Rightarrow> u32 \<Rightarrow> bool" where
  "valid_rsdp fw p \<longleftrightarrow> byte_sum fw p 20 = 0"

text \<open>The candidates of the scan, while 20 bytes fit below the end; the ranges scanned do not reach the end of memory.\<close>

definition scan_rsdp :: "(u32 \<Rightarrow> u8) \<Rightarrow> u32 \<Rightarrow> u32 \<Rightarrow> u32 option" where
  "scan_rsdp fw first limit =
     find (\<lambda>p. rsdp_signature fw p \<and> valid_rsdp fw p)
       (takeWhile (\<lambda>p. p + 20 \<le> limit) (map (\<lambda>i. first + 16 * of_nat i) [0..<Suc (unat (limit - first) div 16)]))"

definition valid_sdt :: "(u32 \<Rightarrow> u8) \<Rightarrow> u32 \<Rightarrow> bool" where
  "valid_sdt fw h \<longleftrightarrow> h \<noteq> 0 \<and> 36 \<le> sdt_length (sdt_at fw h) \<and> sdt_length (sdt_at fw h) \<le> 0x10000 \<and>
     byte_sum fw h (unat (sdt_length (sdt_at fw h))) = 0"

definition has_sig :: "u8 list \<Rightarrow> u8 list \<Rightarrow> bool" where
  "has_sig a b \<longleftrightarrow> take 4 a = take 4 b"

section \<open>The interrupt table\<close>

text \<open>
  One entry, and the loop over the entries. A valid table has at most 0x10000 bytes, so positions never wrap.
\<close>

definition madt_entry :: "(u32 \<Rightarrow> u8) \<Rightarrow> u32 \<Rightarrow> nat \<Rightarrow> acpi \<Rightarrow> acpi" where
  "madt_entry fw h pos s =
     (let a = h + of_nat pos; ty = fw a; len = fw (a + 1) in
      if ty = 0 \<and> 8 \<le> len then
        (if rd32 fw (a + 4) AND 1 \<noteq> 0 \<and> cpu_count s < ACPI_MAX_CPUS
         then s\<lparr>cpu_apic_ids := (cpu_apic_ids s)(unat (cpu_count s) := fw (a + 3)), cpu_count := cpu_count s + 1\<rparr> else s)
      else if ty = 1 \<and> 12 \<le> len \<and> ioapic_base s = 0xfec00000 then
        s\<lparr>ioapic_base := rd32 fw (a + 4), ioapic_gsi_base := rd32 fw (a + 8)\<rparr>
      else if ty = 2 \<and> 10 \<le> len \<and> override_count s < ACPI_MAX_IRQ_OVERRIDES then
        s\<lparr>overrides := (overrides s)(unat (override_count s) :=
             \<lparr>ov_source = fw (a + 3), ov_gsi = rd32 fw (a + 4), ov_flags = rd16 fw (a + 8)\<rparr>),
          override_count := override_count s + 1\<rparr>
      else s)"

function madt_entries :: "(u32 \<Rightarrow> u8) \<Rightarrow> u32 \<Rightarrow> nat \<Rightarrow> nat \<Rightarrow> acpi \<Rightarrow> acpi" where
  "madt_entries fw h n pos s =
     (if pos + 2 \<le> n then
        (let len = unat (fw (h + of_nat (pos + 1))) in
         if len < 2 \<or> n < pos + len then s else madt_entries fw h n (pos + len) (madt_entry fw h pos s))
      else s)"
  by pat_completeness auto
termination
  by (relation "measure (\<lambda>(fw, h, n, pos, s). n - pos)") auto

declare madt_entries.simps [simp del]

definition parse_madt :: "(u32 \<Rightarrow> u8) \<Rightarrow> u32 \<Rightarrow> acpi \<Rightarrow> acpi" where
  "parse_madt fw h s =
     (if sdt_length (sdt_at fw h) < 44 then s
      else
        (let s = s\<lparr>madt_found := True, lapic_base := rd32 fw (h + 36), cpu_count := 0, override_count := 0, ioapic_gsi_base := 0\<rparr>;
             s = madt_entries fw h (unat (sdt_length (sdt_at fw h))) 44 s
         in if cpu_count s = 0 then s\<lparr>cpu_count := 1\<rparr> else s))"

definition acpi_init :: "(u32 \<Rightarrow> u8) \<Rightarrow> acpi \<Rightarrow> acpi" where
  "acpi_init fw s =
     (let ebda = ucast (rd16 fw 0x40e) :: u32;
          s = s\<lparr>madt_found := False, lapic_base := 0xfee00000, ioapic_base := 0xfec00000, ioapic_gsi_base := 0, cpu_count := 1,
                override_count := 0\<rparr>;
          r = (if ebda \<noteq> 0 then scan_rsdp fw (ebda * 16) (ebda * 16 + 1024) else None);
          r = (if r = None then scan_rsdp fw 0xe0000 0x100000 else r)
      in case r of
           None \<Rightarrow> s
         | Some p \<Rightarrow>
            (let rsdt = rsdp_rsdt (rsdp_at fw p) in
             if \<not> valid_sdt fw rsdt \<or> \<not> has_sig (sdt_signature (sdt_at fw rsdt)) [0x52, 0x53, 0x44, 0x54] then s
             else
               (let entries = (sdt_length (sdt_at fw rsdt) - 36) div 4; entries = (if 64 < entries then 64 else entries);
                    tables = map (\<lambda>i. rd32 fw (rsdt + 36 + of_nat i * 4)) [0..<unat entries]
                in case find (\<lambda>h. valid_sdt fw h \<and> has_sig (sdt_signature (sdt_at fw h)) [0x41, 0x50, 0x49, 0x43]) tables of
                     None \<Rightarrow> s | Some h \<Rightarrow> parse_madt fw h s)))"

section \<open>Queries\<close>

definition acpi_madt_present :: "acpi \<Rightarrow> bool" where "acpi_madt_present s = madt_found s"
definition acpi_lapic_base :: "acpi \<Rightarrow> u32" where "acpi_lapic_base s = lapic_base s"
definition acpi_ioapic_base :: "acpi \<Rightarrow> u32" where "acpi_ioapic_base s = ioapic_base s"
definition acpi_ioapic_gsi_base :: "acpi \<Rightarrow> u32" where "acpi_ioapic_gsi_base s = ioapic_gsi_base s"
definition acpi_cpu_count :: "acpi \<Rightarrow> u32" where "acpi_cpu_count s = cpu_count s"

definition acpi_cpu_apic_id :: "u32 \<Rightarrow> acpi \<Rightarrow> u8" where
  "acpi_cpu_apic_id i s = (if i < cpu_count s then cpu_apic_ids s (unat i) else 0)"

text \<open>The result and what is stored through the two pointers, which no caller passes as null.\<close>

definition acpi_irq_to_gsi :: "u8 \<Rightarrow> acpi \<Rightarrow> int \<times> u32 \<times> u16" where
  "acpi_irq_to_gsi irq s =
     (case find (\<lambda>i. ov_source (overrides s i) = irq) [0..<unat (override_count s)] of
        None \<Rightarrow> (0, ucast irq, 0)
      | Some i \<Rightarrow> (1, ov_gsi (overrides s i), ov_flags (overrides s i)))"

end
