(* ===== verification/Apic.thy ===== *)
theory Apic
  imports Acpi
begin

text \<open>
  Processor detection (\<open>arch/x86/smp.c\<close>), the local interrupt controller (\<open>arch/x86/apic.c\<close>) and the
  I/O one (\<open>arch/x86/ioapic.c\<close>). The identification instruction, the base-address register of the processor
  and the device registers behind memory addresses are parameters.
\<close>

record 'w mmio =
  mmio_read :: "u32 \<Rightarrow> 'w \<Rightarrow> u32 \<times> 'w"
  mmio_write :: "u32 \<Rightarrow> u32 \<Rightarrow> 'w \<Rightarrow> 'w"

section \<open>Processor detection\<close>

record smp =
  smp_cpus :: u32
  smp_apic :: bool

text \<open>\<open>cpuid leaf\<close> gives the four registers.\<close>

definition smp_init :: "(u32 \<Rightarrow> u32 \<times> u32 \<times> u32 \<times> u32) \<Rightarrow> acpi \<Rightarrow> smp \<Rightarrow> smp" where
  "smp_init cpuid ac s =
     (case cpuid 0 of (a, b, c, d) \<Rightarrow>
        let s = (if 1 \<le> a then (case cpuid 1 of (a, b, c, d) \<Rightarrow> s\<lparr>smp_apic := drop_bit 9 d AND 1 \<noteq> 0\<rparr>) else s);
            s = s\<lparr>smp_cpus := acpi_cpu_count ac\<rparr>
        in if smp_cpus s = 0 then s\<lparr>smp_cpus := 1\<rparr> else s)"

definition smp_cpu_count :: "smp \<Rightarrow> u32" where "smp_cpu_count s = smp_cpus s"
definition smp_apic_available :: "smp \<Rightarrow> bool" where "smp_apic_available s = smp_apic s"

section \<open>The local controller\<close>

definition LAPIC_DEFAULT_BASE :: u32 where "LAPIC_DEFAULT_BASE = 0xfee00000"
definition LAPIC_ID :: u32 where "LAPIC_ID = 0x20"
definition LAPIC_SVR :: u32 where "LAPIC_SVR = 0xf0"
definition LAPIC_EOI :: u32 where "LAPIC_EOI = 0xb0"
definition LAPIC_ENABLE :: u32 where "LAPIC_ENABLE = 0x100"

record lapic =
  lapic_at :: u32
  lapic_enabled :: bool

definition read_apic_base :: "u32 \<Rightarrow> u32" where
  "read_apic_base msr_low = msr_low AND 0xfffff000"

definition write_lapic :: "'w mmio \<Rightarrow> u32 \<Rightarrow> u32 \<Rightarrow> lapic \<Rightarrow> 'w \<Rightarrow> 'w" where
  "write_lapic M reg v l w = mmio_write M (lapic_at l + reg div 4 * 4) v w"

definition apic_init :: "'w mmio \<Rightarrow> u32 \<Rightarrow> smp \<Rightarrow> acpi \<Rightarrow> lapic \<times> 'w \<Rightarrow> lapic \<times> 'w" where
  "apic_init M msr_low s ac = (\<lambda>(l, w).
     (if \<not> smp_apic_available s then (l, w)
      else
        (let b = acpi_lapic_base ac in
         if b \<noteq> LAPIC_DEFAULT_BASE \<or> read_apic_base msr_low \<noteq> b then (l, w)
         else
           (let l = l\<lparr>lapic_at := b\<rparr> in
            case mmio_read M (lapic_at l + LAPIC_SVR div 4 * 4) w of
              (v, w) \<Rightarrow> (l\<lparr>lapic_enabled := True\<rparr>, write_lapic M LAPIC_SVR (v OR LAPIC_ENABLE) l w)))))"

definition apic_id :: "'w mmio \<Rightarrow> lapic \<Rightarrow> 'w \<Rightarrow> u32 \<times> 'w" where
  "apic_id M l w =
     (if lapic_enabled l then (case mmio_read M (lapic_at l + LAPIC_ID div 4 * 4) w of (v, w) \<Rightarrow> (drop_bit 24 v, w)) else (0, w))"

definition apic_eoi :: "'w mmio \<Rightarrow> lapic \<Rightarrow> 'w \<Rightarrow> 'w" where
  "apic_eoi M l w = (if lapic_enabled l then write_lapic M LAPIC_EOI 0 l w else w)"

section \<open>The I/O controller\<close>

definition IOAPIC_DEFAULT_BASE :: u32 where "IOAPIC_DEFAULT_BASE = 0xfec00000"
definition IOAPIC_MASK :: u32 where "IOAPIC_MASK = 0x00010000"
definition IOAPIC_TRIGGER_LEVEL :: u32 where "IOAPIC_TRIGGER_LEVEL = 0x00008000"
definition IOAPIC_POLARITY_LOW :: u32 where "IOAPIC_POLARITY_LOW = 0x00002000"

record ioapic =
  ioapic_at :: u32
  ioapic_on :: bool
  gsi_base :: u32
  max_redirection :: u32

definition raw_ioapic_read :: "'w mmio \<Rightarrow> u8 \<Rightarrow> ioapic \<Rightarrow> 'w \<Rightarrow> u32 \<times> 'w" where
  "raw_ioapic_read M reg i w = mmio_read M (ioapic_at i + 16) (mmio_write M (ioapic_at i) (ucast reg) w)"

definition ioapic_read :: "'w mmio \<Rightarrow> u8 \<Rightarrow> ioapic \<Rightarrow> 'w \<Rightarrow> u32 \<times> 'w" where
  "ioapic_read M reg i w = (if \<not> ioapic_on i then (0xffffffff, w) else raw_ioapic_read M reg i w)"

definition ioapic_write :: "'w mmio \<Rightarrow> u8 \<Rightarrow> u32 \<Rightarrow> ioapic \<Rightarrow> 'w \<Rightarrow> 'w" where
  "ioapic_write M reg v i w =
     (if \<not> ioapic_on i then w else mmio_write M (ioapic_at i + 16) v (mmio_write M (ioapic_at i) (ucast reg) w))"

definition ioapic_available :: "ioapic \<Rightarrow> bool" where "ioapic_available i = ioapic_on i"

text \<open>The value written to the low word of a redirection entry.\<close>

definition redirection :: "u8 \<Rightarrow> bool \<Rightarrow> u16 \<Rightarrow> u32" where
  "redirection vector masked flags =
     (let v = (if masked then IOAPIC_MASK else 0) OR ucast vector;
          v = (if flags AND 3 = 3 then v OR IOAPIC_POLARITY_LOW else v)
      in if flags AND 12 = 12 then v OR IOAPIC_TRIGGER_LEVEL else v)"

definition ioapic_route_irq :: "'w mmio \<Rightarrow> acpi \<Rightarrow> u8 \<Rightarrow> u8 \<Rightarrow> u8 \<Rightarrow> bool \<Rightarrow> ioapic \<Rightarrow> 'w \<Rightarrow> 'w" where
  "ioapic_route_irq M ac irq vector destination masked i w =
     (case acpi_irq_to_gsi irq ac of
        (r, gsi, flags) \<Rightarrow>
          if \<not> ioapic_on i \<or> r < 0 \<or> gsi < gsi_base i then w
          else
            (let pin = gsi - gsi_base i in
             if max_redirection i < pin then w
             else
               (let low = ucast (0x10 + pin * 2) :: u8; high = low + 1;
                    w = ioapic_write M high (push_bit 24 (ucast destination)) i w
                in ioapic_write M low (redirection vector masked flags) i w)))"

definition ioapic_enable_irq :: "'w mmio \<Rightarrow> acpi \<Rightarrow> u8 \<Rightarrow> ioapic \<Rightarrow> 'w \<Rightarrow> 'w" where
  "ioapic_enable_irq M ac irq i w = ioapic_route_irq M ac irq (32 + irq) 0 False i w"

definition ioapic_disable_irq :: "'w mmio \<Rightarrow> acpi \<Rightarrow> u8 \<Rightarrow> ioapic \<Rightarrow> 'w \<Rightarrow> 'w" where
  "ioapic_disable_irq M ac irq i w = ioapic_route_irq M ac irq (32 + irq) 0 True i w"

definition ioapic_init :: "'w mmio \<Rightarrow> smp \<Rightarrow> acpi \<Rightarrow> ioapic \<times> 'w \<Rightarrow> ioapic \<times> 'w" where
  "ioapic_init M s ac = (\<lambda>(i, w).
     (if \<not> smp_apic_available s then (i, w)
      else
        (let b = acpi_ioapic_base ac in
         if b = 0 \<or> b \<noteq> IOAPIC_DEFAULT_BASE then (i, w)
         else
           (let i = i\<lparr>ioapic_at := b\<rparr> in
            case raw_ioapic_read M 1 i w of
              (version, w) \<Rightarrow>
                if version = 0xffffffff \<or> version = 0 then (i, w)
                else
                  (let i = i\<lparr>ioapic_on := True, gsi_base := acpi_ioapic_gsi_base ac, max_redirection := drop_bit 16 version AND 0xff\<rparr>
                   in (i, ioapic_route_irq M ac 1 33 0 True i (ioapic_route_irq M ac 0 32 0 True i w)))))))"

end
