(* ===== verification/Isr.thy ===== *)
theory Isr
  imports Syscall Apic
begin

text \<open>
  Interrupts (\<open>arch/x86/isr.c\<close>): the gates, the interrupt controller, and the dispatch of exceptions, device interrupts
  and system calls. The addresses of the assembly stubs are parameters.
\<close>

section \<open>Gates\<close>

record idt_entry =
  base_low :: u16
  selector :: u16
  gate_zero :: u8
  gate_flags :: u8
  base_high :: u16

record idt_ptr =
  idt_limit :: u16
  idt_base :: u32

definition set_gate :: "u8 \<Rightarrow> u32 \<Rightarrow> u8 \<Rightarrow> (nat \<Rightarrow> idt_entry) \<Rightarrow> (nat \<Rightarrow> idt_entry)" where
  "set_gate n base flags idt =
     idt(unat n := \<lparr>base_low = ucast base, selector = 0x08, gate_zero = 0, gate_flags = flags, base_high = ucast (drop_bit 16 base)\<rparr>)"

definition pic_remap :: "'w ports \<Rightarrow> 'w \<Rightarrow> 'w" where
  "pic_remap P w =
     (let w = outb P 0x20 0x11 w; w = outb P 0xa0 0x11 w; w = outb P 0x21 0x20 w; w = outb P 0xa1 0x28 w; w = outb P 0x21 4 w;
          w = outb P 0xa1 2 w; w = outb P 0x21 1 w; w = outb P 0xa1 1 w; w = outb P 0x21 0xff w
      in outb P 0xa1 0xff w)"

text \<open>\<open>isrs\<close> and \<open>irqs\<close> are the addresses of the stubs, \<open>isr128\<close> that of the system call, \<open>idt_at\<close> that of the table.\<close>

definition idt_init :: "'w ports \<Rightarrow> (nat \<Rightarrow> u32) \<Rightarrow> (nat \<Rightarrow> u32) \<Rightarrow> u32 \<Rightarrow> u32 \<Rightarrow> (nat \<Rightarrow> idt_entry) \<Rightarrow> 'w \<Rightarrow>
    idt_ptr \<times> (nat \<Rightarrow> idt_entry) \<times> 'w" where
  "idt_init P isrs irqs isr128 idt_at idt w =
     (let idt = (\<lambda>i. if i < 256 then \<lparr>base_low = 0, selector = 0, gate_zero = 0, gate_flags = 0, base_high = 0\<rparr> else idt i);
          idt = fold (\<lambda>i. set_gate (of_nat i) (isrs i) 0x8e) [0..<32] idt;
          idt = fold (\<lambda>i. set_gate (of_nat (32 + i)) (irqs i) 0x8e) [0..<16] idt;
          idt = set_gate 128 isr128 0xee idt;
          w = pic_remap P w
      in (\<lparr>idt_limit = 256 * 8 - 1, idt_base = idt_at\<rparr>, idt, w))"

text \<open>
  What the processor does with the \<open>n\<close> timer interrupts that are raised while a handler runs: entry through an interrupt
  gate (type \<open>0xe\<close>) disables interrupts until the handler returns or enables them, so none is taken; entry
  through a trap gate (type \<open>0xf\<close>) leaves them enabled. No system call enables them.
\<close>

definition ticks_taken :: "idt_entry \<Rightarrow> nat \<Rightarrow> nat" where
  "ticks_taken g n = (if gate_flags g AND 0x0f = 0x0e then 0 else n)"

section \<open>Device interrupts\<close>

definition register_irq_handler :: "u8 \<Rightarrow> 'f option \<Rightarrow> (nat \<Rightarrow> 'f option) \<Rightarrow> (nat \<Rightarrow> 'f option)" where
  "register_irq_handler irq f hs = (if irq < 16 then hs(unat irq := f) else hs)"

text \<open>The call of \<open>pic_unmask\<close> on itself is for line 2, which is below 8.\<close>

definition unmask_line :: "'w ports \<Rightarrow> u16 \<Rightarrow> nat \<Rightarrow> 'w \<Rightarrow> 'w" where
  "unmask_line P port n w = (case inb P port w of (m, w) \<Rightarrow> outb P port (m AND NOT (push_bit n 1)) w)"

definition pic_unmask :: "'w ports \<Rightarrow> u8 \<Rightarrow> 'w \<Rightarrow> 'w" where
  "pic_unmask P irq w =
     (if irq < 8 then unmask_line P 0x21 (unat irq) w
      else unmask_line P 0x21 2 (unmask_line P 0xa1 (unat (irq - 8)) w))"

section \<open>Dispatch\<close>

text \<open>
  The parameters of the dispatch: the environment of the system calls, their table, the memory-mapped registers and the state of
  the local controller, the value of the fault-address register, and the table of the interrupt handlers, which get
  the address of the frame.
\<close>

record 'h irq_env =
  sys_env :: "'h env"
  sys_table :: "u32 \<rightharpoonup> 'h handler"
  apic_regs :: "'h mmio"
  apic_state :: lapic
  irq_handlers :: "nat \<Rightarrow> (u32 \<Rightarrow> 'h sys \<Rightarrow> 'h sys) option"

definition isr_handler :: "u32 \<Rightarrow> u32 \<Rightarrow> 'h sys \<Rightarrow> 'h sys outcome" where
  "isr_handler cr2 r s =
     (let f = frames (kstate s) r in
      if int_no f < 32 then
        (if int_no f = 14 then bind_outcome (vmm_page_fault cr2 (err_code f) 0 (sys_mem s)) (\<lambda>m. Ret (set_mem m s))
         else Panic ''CPU exception'')
      else Ret s)"

definition irq_handler :: "'h irq_env \<Rightarrow> u32 \<Rightarrow> 'h sys \<Rightarrow> 'h sys" where
  "irq_handler e r s =
     (let irq = ucast (int_no (frames (kstate s) r) - 32) :: u8; P = the_ports (sys_env e);
          s = (if irq < 16 then (case irq_handlers e (unat irq) of None \<Rightarrow> s | Some f \<Rightarrow> f r s) else s);
          s = (if 8 \<le> irq then s\<lparr>hw := outb P 0xa0 0x20 (hw s)\<rparr> else s);
          s = s\<lparr>hw := outb P 0x20 0x20 (hw s)\<rparr>
      in s\<lparr>hw := apic_eoi (apic_regs e) (apic_state e) (hw s)\<rparr>)"

definition interrupt_dispatch :: "'h irq_env \<Rightarrow> u32 \<Rightarrow> u32 \<Rightarrow> 'h sys \<Rightarrow> (u32 \<times> 'h sys) outcome" where
  "interrupt_dispatch e cr2 r s =
     (let n = int_no (frames (kstate s) r) in
      if n < 32 then bind_outcome (isr_handler cr2 r s) (\<lambda>s. Ret (r, s))
      else if n = 32 then
        (let s = irq_handler e r s in
         bind_outcome (or_hang (scheduler_timer_tick (the_sched (sys_env e)) r (kstate s))) (\<lambda>(r, k). Ret (r, s\<lparr>kstate := k\<rparr>)))
      else if n < 48 then Ret (r, irq_handler e r s)
      else if n = 128 then syscall_from_interrupt (sys_env e) (sys_table e) r s
      else Ret (r, s))"

text \<open>The handler of the timer line, as \<open>kmain\<close> registers it.\<close>

definition timer_handler :: "u32 \<Rightarrow> 'h sys \<Rightarrow> 'h sys" where
  "timer_handler r s = upd_kern (\<lambda>k. k\<lparr>timer := timer_irq (timer k)\<rparr>) s"

end
