(* ===== verification/Userlib.thy ===== *)
theory Userlib
  imports Isr
begin

text \<open>
  The system-call library of user programs (\<open>userspace/libc/syscalls.c\<close>), run against the kernel: \<open>call3\<close> is the trap
  instruction. The processor and the assembly stub push a frame at the address \<open>frame_addr\<close>, with the registers of the
  caller; the kernel handles the interrupt and returns to the frame whose address it gives back. The
  result is \<open>Some\<close> of the caller's \<open>eax\<close>, or \<open>None\<close> when the kernel went on with another frame.
\<close>

record 'h user =
  irq_env :: "'h irq_env"
  frame_addr :: u32
  user_regs :: registers

definition push_frame :: "u32 \<Rightarrow> registers \<Rightarrow> 'h sys \<Rightarrow> 'h sys" where
  "push_frame r f s = upd_kern (\<lambda>k. k\<lparr>frames := (frames k)(r := f)\<rparr>) s"

definition call3 :: "'h user \<Rightarrow> u32 \<Rightarrow> u32 \<Rightarrow> u32 \<Rightarrow> u32 \<Rightarrow> 'h sys \<Rightarrow> (int option \<times> 'h sys) outcome" where
  "call3 u number a b c s =
     bind_outcome (interrupt_dispatch (irq_env u) 0 (frame_addr u)
         (push_frame (frame_addr u) ((user_regs u)\<lparr>eax := number, ebx := a, ecx := b, edx := c, int_no := 128\<rparr>) s)) (\<lambda>(r, s).
       Ret (if r = frame_addr u then Some (sint (eax (frames (kstate s) r))) else None, s))"

text \<open>Arguments are the words passed in the registers. \<open>u_exit\<close> stops after the call.\<close>

definition u_read :: "'h user \<Rightarrow> u32 \<Rightarrow> u32 \<Rightarrow> u32 \<Rightarrow> 'h sys \<Rightarrow> (int option \<times> 'h sys) outcome" where
  "u_read u fd buffer len s = call3 u (sys_number SYS_READ) fd buffer len s"

definition u_write :: "'h user \<Rightarrow> u32 \<Rightarrow> u32 \<Rightarrow> u32 \<Rightarrow> 'h sys \<Rightarrow> (int option \<times> 'h sys) outcome" where
  "u_write u fd buffer len s = call3 u (sys_number SYS_WRITE) fd buffer len s"

definition u_open :: "'h user \<Rightarrow> u32 \<Rightarrow> u32 \<Rightarrow> 'h sys \<Rightarrow> (int option \<times> 'h sys) outcome" where
  "u_open u path flags s = call3 u (sys_number SYS_OPEN) path flags 0 s"

definition u_close :: "'h user \<Rightarrow> u32 \<Rightarrow> 'h sys \<Rightarrow> (int option \<times> 'h sys) outcome" where
  "u_close u fd s = call3 u (sys_number SYS_CLOSE) fd 0 0 s"

definition u_fork :: "'h user \<Rightarrow> 'h sys \<Rightarrow> (int option \<times> 'h sys) outcome" where
  "u_fork u s = call3 u (sys_number SYS_FORK) 0 0 0 s"

definition u_exit :: "'h user \<Rightarrow> u32 \<Rightarrow> 'h sys \<Rightarrow> (int option \<times> 'h sys) outcome" where
  "u_exit u status s = call3 u (sys_number SYS_EXIT) status 0 0 s"

definition u_getpid :: "'h user \<Rightarrow> 'h sys \<Rightarrow> (int option \<times> 'h sys) outcome" where
  "u_getpid u s = call3 u (sys_number SYS_GETPID) 0 0 0 s"

definition u_yield :: "'h user \<Rightarrow> 'h sys \<Rightarrow> (int option \<times> 'h sys) outcome" where
  "u_yield u s = call3 u (sys_number SYS_YIELD) 0 0 0 s"

definition u_sleep :: "'h user \<Rightarrow> u32 \<Rightarrow> 'h sys \<Rightarrow> (int option \<times> 'h sys) outcome" where
  "u_sleep u ms s = call3 u (sys_number SYS_SLEEP) ms 0 0 s"

definition u_wait :: "'h user \<Rightarrow> u32 \<Rightarrow> u32 \<Rightarrow> 'h sys \<Rightarrow> (int option \<times> 'h sys) outcome" where
  "u_wait u p status s = call3 u (sys_number SYS_WAIT) p status 0 s"

definition u_exec :: "'h user \<Rightarrow> u32 \<Rightarrow> 'h sys \<Rightarrow> (int option \<times> 'h sys) outcome" where
  "u_exec u path s = call3 u (sys_number SYS_EXEC) path 0 0 s"

definition u_mmap :: "'h user \<Rightarrow> u32 \<Rightarrow> u32 \<Rightarrow> u32 \<Rightarrow> 'h sys \<Rightarrow> (int option \<times> 'h sys) outcome" where
  "u_mmap u addr len flags s = call3 u (sys_number SYS_MMAP) addr len flags s"

definition u_uname :: "'h user \<Rightarrow> u32 \<Rightarrow> 'h sys \<Rightarrow> (int option \<times> 'h sys) outcome" where
  "u_uname u buffer s = call3 u (sys_number SYS_UNAME) buffer 0 0 s"

definition u_munmap :: "'h user \<Rightarrow> u32 \<Rightarrow> u32 \<Rightarrow> 'h sys \<Rightarrow> (int option \<times> 'h sys) outcome" where
  "u_munmap u addr len s = call3 u (sys_number SYS_MUNMAP) addr len 0 s"

definition u_getcred :: "'h user \<Rightarrow> u32 \<Rightarrow> 'h sys \<Rightarrow> (int option \<times> 'h sys) outcome" where
  "u_getcred u cred s = call3 u (sys_number SYS_GETCRED) cred 0 0 s"

definition u_socket :: "'h user \<Rightarrow> u16 \<Rightarrow> 'h sys \<Rightarrow> (int option \<times> 'h sys) outcome" where
  "u_socket u port s = call3 u (sys_number SYS_SOCKET) (ucast port) 0 0 s"

definition u_connect :: "'h user \<Rightarrow> u32 \<Rightarrow> u16 \<Rightarrow> 'h sys \<Rightarrow> (int option \<times> 'h sys) outcome" where
  "u_connect u sock port s = call3 u (sys_number SYS_CONNECT) sock (ucast port) 0 s"

definition u_send :: "'h user \<Rightarrow> u32 \<Rightarrow> u32 \<Rightarrow> u32 \<Rightarrow> 'h sys \<Rightarrow> (int option \<times> 'h sys) outcome" where
  "u_send u sock data len s = call3 u (sys_number SYS_SEND) sock data len s"

definition u_socket_close :: "'h user \<Rightarrow> u32 \<Rightarrow> 'h sys \<Rightarrow> (int option \<times> 'h sys) outcome" where
  "u_socket_close u sock s = call3 u (sys_number SYS_CLOSE_SOCKET) sock 0 0 s"

definition u_kill :: "'h user \<Rightarrow> u32 \<Rightarrow> u32 \<Rightarrow> 'h sys \<Rightarrow> (int option \<times> 'h sys) outcome" where
  "u_kill u p signal s = call3 u (sys_number SYS_KILL) p signal 0 s"

definition u_sigaction :: "'h user \<Rightarrow> u32 \<Rightarrow> u32 \<Rightarrow> u32 \<Rightarrow> 'h sys \<Rightarrow> (int option \<times> 'h sys) outcome" where
  "u_sigaction u signal handler msk s = call3 u (sys_number SYS_SIGACTION) signal handler msk s"

definition u_sigreturn :: "'h user \<Rightarrow> 'h sys \<Rightarrow> (int option \<times> 'h sys) outcome" where
  "u_sigreturn u s = call3 u (sys_number SYS_SIGRETURN) 0 0 0 s"

definition u_futex_wait :: "'h user \<Rightarrow> u32 \<Rightarrow> u32 \<Rightarrow> 'h sys \<Rightarrow> (int option \<times> 'h sys) outcome" where
  "u_futex_wait u word expected s = call3 u (sys_number SYS_FUTEX_WAIT) word expected 0 s"

definition u_futex_wait_timeout :: "'h user \<Rightarrow> u32 \<Rightarrow> u32 \<Rightarrow> u32 \<Rightarrow> 'h sys \<Rightarrow> (int option \<times> 'h sys) outcome" where
  "u_futex_wait_timeout u word expected timeout s = call3 u (sys_number SYS_FUTEX_WAIT) word expected timeout s"

definition u_futex_wake :: "'h user \<Rightarrow> u32 \<Rightarrow> u32 \<Rightarrow> 'h sys \<Rightarrow> (int option \<times> 'h sys) outcome" where
  "u_futex_wake u word count s = call3 u (sys_number SYS_FUTEX_WAKE) word count 0 s"

end
