(* ===== verification/Syscall_Props.thy ===== *)
theory Syscall_Props
  imports Userlib Process_Props Vfs_Props
begin

text \<open>
  System calls from the side of a user program: which pointers the kernel refuses, what a call returns, the sockets from the
  library down to the packet queue, and the sleep that never ends.
\<close>

section \<open>Pointers the kernel refuses\<close>

text \<open>A buffer of \<open>n\<close> bytes is outside when it does not lie in the range of user addresses.\<close>

definition outside :: "u32 \<Rightarrow> u32 \<Rightarrow> bool" where
  "outside p n \<longleftrightarrow> p < 0x400000 \<or> 0xc0000000 \<le> p \<or> 0xc0000000 - p < n"

lemma set_sys_mem [simp]: "set_mem (sys_mem s) s = s"
  by (simp add: set_mem_def sys_mem_def upd_kern_def)

lemma check_ptr_outside: "outside p n \<Longrightarrow> check_ptr sp p n w m = Ret (-1, m)"
  by (auto simp: outside_def check_ptr_def vmm_validate_user_ptr_def user_range_def split: option.split)

lemma validate_outside: "outside p n \<Longrightarrow> validate q p n w s = Ret (False, s)"
  by (simp add: validate_def check_ptr_outside bind_outcome_def)

lemma user_buf_outside: "outside p n \<Longrightarrow> user_buf e p n w s = Ret (False, s)"
  by (auto simp: user_buf_def validate_outside split: option.split) (auto simp: outside_def)

lemma user_string_outside: "p < 0x400000 \<or> 0xc0000000 \<le> p \<Longrightarrow> user_string e p s = Ret (None, s)"
  by (auto simp: user_string_def split: option.split)

lemma futex_check_outside: "outside a 4 \<Longrightarrow> futex_check e a s = Ret (False, s)"
  by (auto simp: futex_check_def validate_outside split: option.split)

lemma syscall_dispatch_init:
  "n < SYS_COUNT \<Longrightarrow> syscall_init e Map.empty n = Some f \<Longrightarrow> syscall_dispatch (syscall_init e Map.empty) n a b c s = f a b c s"
  by (simp add: syscall_dispatch_def)

section \<open>Calls that leave the scheduling alone\<close>

text \<open>
  The kernel is set up: the table is filled and the round-robin scheduler is registered. The calling process is quiet: it
  runs, no signal is to be delivered to it and no exec is under way.
\<close>

definition attached :: "'h user \<Rightarrow> bool" where
  "attached u \<longleftrightarrow> sys_table (irq_env u) = syscall_init (sys_env (irq_env u)) Map.empty \<and>
     (\<exists>switch. the_sched (sys_env (irq_env u)) = rr switch) \<and> frame_addr u \<noteq> 0"

definition quiet :: "nat \<Rightarrow> 'h sys \<Rightarrow> bool" where
  "quiet p s \<longleftrightarrow> current (kstate s) = Some p \<and> exec_pending_process s \<noteq> Some p \<and>
     state (procs (kstate s) p) \<noteq> PROCESS_BLOCKED \<and> state (procs (kstate s) p) \<noteq> PROCESS_ZOMBIE \<and>
     pending_signals (procs (kstate s) p) AND NOT (signal_mask (procs (kstate s) p)) AND 0xfffffffe = 0"

definition answer :: "'h user \<Rightarrow> u32 \<Rightarrow> 'h sys \<Rightarrow> 'h sys" where
  "answer u v s = upd_kern (\<lambda>k. k\<lparr>frames := (frames k)(frame_addr u := (frames k (frame_addr u))\<lparr>eax := v\<rparr>)\<rparr>) s"

definition enter :: "'h user \<Rightarrow> u32 \<Rightarrow> u32 \<Rightarrow> u32 \<Rightarrow> u32 \<Rightarrow> 'h sys \<Rightarrow> 'h sys" where
  "enter u n a b c s = push_frame (frame_addr u) ((user_regs u)\<lparr>eax := n, ebx := a, ecx := b, edx := c, int_no := 128\<rparr>) s"

lemma deliver_none: "deliver p 0 r sigs k = Ret k"
  by (induction sigs) simp_all

lemma enter_simps [simp]:
  "current (kstate (enter u n a b c s)) = current (kstate s)" "procs (kstate (enter u n a b c s)) = procs (kstate s)"
  "mem (kstate (enter u n a b c s)) = mem (kstate s)" "timer (kstate (enter u n a b c s)) = timer (kstate s)"
  "kernel_sockets (enter u n a b c s) = kernel_sockets s" "netw (enter u n a b c s) = netw s"
  "exec_pending_process (enter u n a b c s) = exec_pending_process s" "sys_mem (enter u n a b c s) = sys_mem s"
  "frames (kstate (enter u n a b c s)) (frame_addr u) = (user_regs u)\<lparr>eax := n, ebx := a, ecx := b, edx := c, int_no := 128\<rparr>"
  by (simp_all add: enter_def push_frame_def upd_kern_def sys_mem_def)

lemma answer_simps [simp]:
  "current (kstate (answer u v s)) = current (kstate s)" "procs (kstate (answer u v s)) = procs (kstate s)"
  "mem (kstate (answer u v s)) = mem (kstate s)" "kernel_sockets (answer u v s) = kernel_sockets s" "netw (answer u v s) = netw s"
  "exec_pending_process (answer u v s) = exec_pending_process s" "sys_mem (answer u v s) = sys_mem s"
  by (simp_all add: answer_def upd_kern_def sys_mem_def)

lemma cur_attached: "attached u \<Longrightarrow> cur (sys_env (irq_env u)) s = current (kstate s)"
  by (auto simp: attached_def cur_def scheduler_current_def rr_def rr_current_def)

lemma call3_enter:
  "attached u \<Longrightarrow> call3 u n a b c s =
     bind_outcome (syscall_from_interrupt (sys_env (irq_env u)) (sys_table (irq_env u)) (frame_addr u) (enter u n a b c s)) (\<lambda>(r, s).
       Ret (if r = frame_addr u then Some (sint (eax (frames (kstate s) r))) else None, s))"
  unfolding call3_def enter_def [symmetric] interrupt_dispatch_def by simp

text \<open>A call that keeps the processes and the current one returns its value to the caller.\<close>

lemma call3_returns:
  assumes u: "attached u" and q: "quiet p s" and n: "n \<noteq> 18"
    and d: "syscall_dispatch (sys_table (irq_env u)) n a b c (enter u n a b c s) = Ret (v, s1)"
    and k: "current (kstate s1) = current (kstate s)" "procs (kstate s1) = procs (kstate s)" and x: "exec_pending_process s1 = exec_pending_process s"
  shows "call3 u n a b c s = Ret (Some (sint (word_of_int v :: u32)), answer u (word_of_int v) s1)"
proof -
  obtain switch where sched: "the_sched (sys_env (irq_env u)) = rr switch" and r: "frame_addr u \<noteq> 0"
    using u by (auto simp: attached_def)
  have del: "process_deliver_signal (rr switch) (frame_addr u) (kstate (answer u (word_of_int v) s1)) =
      Ret (kstate (answer u (word_of_int v) s1))"
    using q by (simp add: process_deliver_signal_def scheduler_current_def rr_def rr_current_def k quiet_def deliver_none)
  have run: "run_call (sys_env (irq_env u)) (sys_table (irq_env u)) (frame_addr u) (enter u n a b c s) = Ret (answer u (word_of_int v) s1)"
    using del n by (simp add: run_call_def d bind_outcome_def sched answer_def upd_kern_def Let_def)
  have ne: "\<not> Some p = exec_pending_process s1" using q x by (auto simp: quiet_def)
  show ?thesis
    using q
    by (simp add: call3_enter [OF u] syscall_from_interrupt_def cur_attached [OF u] run r bind_outcome_def quiet_def k ne Let_def)
      (simp add: answer_def upd_kern_def)
qed

lemma quiet_after:
  assumes "quiet p s" "kstate s1 = kstate (enter u n a b c s)" "exec_pending_process s1 = exec_pending_process s"
  shows "quiet p (answer u v s1)"
  using assms by (simp add: quiet_def)

section \<open>Sockets\<close>

lemma open_socket_first:
  assumes "\<forall>j \<in> set js. sock_used (kernel_sockets s j)" "\<not> sock_used (kernel_sockets s i)" "i < 8" "port \<noteq> 0" "net_ready (netw s)"
  shows "open_socket port (js @ i # is) s = (int i, set_socket (of_nat i) (snd (net_socket_open (kernel_sockets s i) port (netw s))) s)"
  using assms by (induction js) (simp_all add: net_socket_open_def)

lemma set_socket_simps [simp]:
  "kstate (set_socket i x s) = kstate s" "netw (set_socket i x s) = netw s"
  "exec_pending_process (set_socket i x s) = exec_pending_process s"
  "kernel_sockets (set_socket i x s) = (kernel_sockets s)(unat i := x)" "sys_mem (set_socket i x s) = sys_mem s"
  by (simp_all add: set_socket_def sys_mem_def)

lemma ucast_port [simp]: "ucast (ucast port :: u32) = (port :: u16)"
  by (intro bit_word_eqI) (simp add: bit_simps)

lemma sint_small: "n < 2 ^ 31 \<Longrightarrow> sint (of_nat n :: u32) = int n"
  by (simp add: signed_of_nat signed_take_bit_int_eq_self)

lemma upt_first: "i < n \<Longrightarrow> [0..<n] = [0..<i] @ i # [Suc i..<n]"
  using upt_add_eq_append [of 0 i "n - i"] upt_conv_Cons [of i n] by simp

lemma u_socket_opens:
  assumes u: "attached u" and q: "quiet p s" and i: "\<forall>j<i. sock_used (kernel_sockets s j)" "\<not> sock_used (kernel_sockets s i)" "i < 8"
    and n: "port \<noteq> 0" "net_ready (netw s)"
  obtains s1 where "u_socket u port s = Ret (Some (int i), s1)" "quiet p s1" "netw s1 = netw s" "mem (kstate s1) = mem (kstate s)"
    "procs (kstate s1) = procs (kstate s)"
    "sock_used (kernel_sockets s1 i)" "sock_state (kernel_sockets s1 i) = NET_SOCKET_CLOSED"
proof -
  let ?e = "enter u 20 (ucast port) 0 0 s"
  let ?s = "set_socket (of_nat i) (snd (net_socket_open (kernel_sockets s i) port (netw s))) ?e"
  have "[0..<8] = [0..<i] @ i # [Suc i..<8]" by (rule upt_first [OF i(3)])
  then have o: "open_socket port [0..<8] ?e = (int i, ?s)"
    using open_socket_first [of "[0..<i]" ?e i port "[Suc i..<8]"] i n by simp
  have d: "syscall_dispatch (sys_table (irq_env u)) 20 (ucast port) 0 0 ?e = Ret (int i, ?s)"
    using u o by (simp add: attached_def syscall_dispatch_def SYS_COUNT_def syscall_init_def socket_sys_def)
  have "u_socket u port s = Ret (Some (sint (word_of_int (int i) :: u32)), answer u (word_of_int (int i)) ?s)"
    unfolding u_socket_def using call3_returns [OF u q _ d] by simp
  moreover have "sint (word_of_int (int i) :: u32) = int i"
    using i(3) by (simp add: sint_small)
  moreover have "quiet p (answer u (word_of_int (int i)) ?s)" by (rule quiet_after [OF q]) simp_all
  moreover have "unat (of_nat i :: u32) = i" using i(3) by (simp add: unat_of_nat)
  ultimately show thesis using n by (intro that [of "answer u (word_of_int (int i)) ?s"]) (simp_all add: net_socket_open_def)
qed

lemma u_connect_connects:
  assumes u: "attached u" and q: "quiet p s" and i: "i < 8" and n: "port \<noteq> 0"
    and o: "sock_used (kernel_sockets s i)" "sock_state (kernel_sockets s i) = NET_SOCKET_CLOSED"
  obtains s1 where "u_connect u (of_nat i) port s = Ret (Some 0, s1)" "quiet p s1" "netw s1 = netw s" "mem (kstate s1) = mem (kstate s)"
    "procs (kstate s1) = procs (kstate s)"
    "sock_used (kernel_sockets s1 i)" "sock_state (kernel_sockets s1 i) = NET_SOCKET_ESTABLISHED"
proof -
  let ?e = "enter u 21 (of_nat i) (ucast port) 0 s"
  let ?s = "set_socket (of_nat i) (snd (net_socket_connect (kernel_sockets s i) port)) ?e"
  have w: "unat (of_nat i :: u32) = i" using i by (simp add: unat_of_nat)
  then have l: "\<not> 8 \<le> (of_nat i :: u32)" using i by (simp add: word_le_nat_alt)
  have d: "syscall_dispatch (sys_table (irq_env u)) 21 (of_nat i) (ucast port) 0 ?e = Ret (0, ?s)"
    using u o n l w
    by (simp add: attached_def syscall_dispatch_def SYS_COUNT_def syscall_init_def connect_sys_def net_socket_connect_def Let_def)
  have "u_connect u (of_nat i) port s = Ret (Some 0, answer u 0 ?s)"
    unfolding u_connect_def using call3_returns [OF u q _ d] by simp
  moreover have "quiet p (answer u 0 ?s)" by (rule quiet_after [OF q]) simp_all
  ultimately show thesis using n o w by (intro that [of "answer u 0 ?s"]) (simp_all add: net_socket_connect_def Let_def)
qed

text \<open>The buffer of a send, as the kernel finds it: valid, with the bytes \<open>bs\<close>.\<close>

definition readable :: "nat \<Rightarrow> u32 \<Rightarrow> u8 list \<Rightarrow> 'h sys \<Rightarrow> bool" where
  "readable p buf bs s \<longleftrightarrow> length bs < 2 ^ 32 \<and>
     check_ptr (address_space (procs (kstate s) p)) buf (of_nat (length bs)) False (mem (kstate s)) = Ret (0, mem (kstate s)) \<and>
     load_user (length bs) buf (mem (kstate s)) = Ret (bs, mem (kstate s))"

lemma set_mem_same [simp]: "m = sys_mem s \<Longrightarrow> set_mem m s = s"
  by simp

lemma u_send_sends:
  assumes u: "attached u" and q: "quiet p s" and i: "i < 8" and b: "readable p buf bs s" "bs \<noteq> []" "length bs \<le> 1536"
    and o: "sock_used (kernel_sockets s i)" "sock_state (kernel_sockets s i) = NET_SOCKET_ESTABLISHED"
    and n: "net_up (netw s)" "queue_count (netw s) < 4"
  obtains s1 where "u_send u (of_nat i) buf (of_nat (length bs)) s = Ret (Some (int (length bs)), s1)"
    "netw s1 = snd (net_loopback_send (Some (bytes_of bs)) (of_nat (length bs)) (netw s))" "mem (kstate s1) = mem (kstate s)"
proof -
  let ?n = "of_nat (length bs) :: u32"
  let ?e = "enter u 22 (of_nat i) buf ?n s"
  have w: "unat (of_nat i :: u32) = i" using i by (simp add: unat_of_nat)
  then have l: "\<not> 8 \<le> (of_nat i :: u32)" using i by (simp add: word_le_nat_alt)
  have len: "unat ?n = length bs" using b(3) by (simp add: unat_of_nat)
  then have nz: "?n \<noteq> 0" using b(2) by (metis length_0_conv unat_0)
  have small: "\<not> NET_PACKET_SIZE < ?n" using b(3) len by (simp add: NET_PACKET_SIZE_def word_less_nat_alt)
  have fit: "\<not> NET_QUEUE_SIZE \<le> queue_count (netw s)" using n(2) by (simp add: NET_QUEUE_SIZE_def not_le)
  have buf: "user_buf (sys_env (irq_env u)) buf ?n False ?e = Ret (True, ?e)"
    using q b(1) nz by (simp add: user_buf_def cur_attached [OF u] quiet_def readable_def validate_def bind_outcome_def sys_mem_def)
  have load: "load_user (unat ?n) buf (sys_mem s) = Ret (bs, sys_mem s)"
    using b(1) by (simp add: len readable_def sys_mem_def)
  obtain n' where send: "net_loopback_send (Some (bytes_of bs)) ?n (netw s) = (0, n')"
    using n(1) nz small fit by (simp add: net_loopback_send_def net_up_def Let_def)
  let ?x = "(kernel_sockets s i)\<lparr>sequence := sequence (kernel_sockets s i) + ?n\<rparr>"
  let ?s = "set_socket (of_nat i) ?x (?e\<lparr>netw := n'\<rparr>)"
  have d: "syscall_dispatch (sys_table (irq_env u)) 22 (of_nat i) buf ?n ?e = Ret (sint ?n, ?s)"
    using u o nz l w
    by (simp add: attached_def syscall_dispatch_def SYS_COUNT_def syscall_init_def send_sys_def buf with_buffer_def load
        bind_outcome_def net_socket_send_def send)
  have "u_send u (of_nat i) buf ?n s = Ret (Some (sint ?n), answer u ?n ?s)"
    unfolding u_send_def using call3_returns [OF u q _ d] by simp
  moreover have "sint ?n = int (length bs)"
    using b(3) by (simp add: sint_small)
  ultimately show thesis using send by (intro that [of "answer u ?n ?s"]) simp_all
qed

section \<open>Sleeping\<close>

lemma sleep_call:
  assumes "attached u"
  shows "syscall_dispatch (sys_table (irq_env u)) 8 ms 0 0 (enter u 8 ms 0 0 s) =
    bind_outcome (or_hang (ksleep_ms (the_ticks (sys_env (irq_env u))) ms (timer (kstate s)))) (\<lambda>t.
      Ret (0, (enter u 8 ms 0 0 s)\<lparr>kstate := (kstate (enter u 8 ms 0 0 s))\<lparr>timer := t\<rparr>\<rparr>))"
proof -
  have "sys_table (irq_env u) = syscall_init (sys_env (irq_env u)) Map.empty" using assms by (simp add: attached_def)
  then show ?thesis
    by (simp add: syscall_dispatch_def SYS_COUNT_def syscall_init_def sl_sys_def on_kern_def or_hang_def bind_outcome_def
        split: option.split)
qed

section \<open>Examples\<close>

definition idt_example :: "nat \<Rightarrow> idt_entry" where
  "idt_example = fst (snd (idt_init idle_ports (\<lambda>i. 0x101000) (\<lambda>i. 0x102000) 0x103000 0x104000
     (\<lambda>_. \<lparr>base_low = 0, selector = 0, gate_zero = 0, gate_flags = 0, base_high = 0\<rparr>) ()))"

definition env_example :: "unit env" where
  "env_example = \<lparr>the_sched = rr (\<lambda>_ _ k. k), the_ports = idle_ports, the_block = \<lparr>devices = (\<lambda>_. None), device_count = 0\<rparr>,
     the_ticks = ticks_taken (idt_example 128) 50\<rparr>"

definition user_example :: "unit user" where
  "user_example = \<lparr>irq_env = \<lparr>sys_env = env_example, sys_table = syscall_init env_example Map.empty,
     apic_regs = \<lparr>mmio_read = (\<lambda>_ w. (0, w)), mmio_write = (\<lambda>_ _ w. w)\<rparr>, apic_state = \<lparr>lapic_at = 0, lapic_enabled = False\<rparr>,
     irq_handlers = (\<lambda>_. None)\<rparr>, frame_addr = 0x9000, user_regs = zero_frame\<rparr>"

definition sys_example :: "unit sys" where
  "sys_example = \<lparr>kstate = kern_user\<lparr>procs := (procs kern_user)(0 := (procs kern_user 0)\<lparr>pending_signals := 0\<rparr>)\<rparr>,
     kheap = \<lparr>heap_area = 0x200000, blocks = (\<lambda>_. \<lparr>b_size = 0, b_free = False, b_magic = 0, b_next = 0\<rparr>), heap_data = (\<lambda>_. 0), head = 0,
       heap_virt_top = HEAP_VIRT_START\<rparr>,
     volume = fat_none, screen = \<lparr>video = (\<lambda>_. 0), row = 0, col = 0, color = 7\<rparr>, hw = (), netw = net0,
     kernel_sockets = (\<lambda>_. \<lparr>local_port = 0, remote_port = 0, sequence = 0, acknowledgement = 0, sock_state = NET_SOCKET_CLOSED, sock_used = False\<rparr>),
     exec_pending_process = None, exec_pending_entry = 0\<rparr>"

lemma user_example_attached: "attached user_example"
  by (auto simp: attached_def user_example_def env_example_def)

lemma sys_example_quiet: "quiet 0 sys_example"
  by (simp add: quiet_def sys_example_def kern_user_def kern_two_def proc_example_def pcb_example_def
      PROCESS_RUNNING_def PROCESS_BLOCKED_def PROCESS_ZOMBIE_def)

lemma kload8_ok: "translate (vm m) va = Some a \<Longrightarrow> kload8 va m = Ret (phys m a, m)"
  by (simp add: kload8_def fault_in_def bind_outcome_def check_load_def vload_def)

lemma sys_example_readable: "readable 0 0xbfeff8 [0, 0] sys_example"
proof -
  have "translate (vm mem_user) 0xbfeff8 = Some 0x300ff8" "translate (vm mem_user) 0xbfeff9 = Some 0x300ff9"
    by (simp_all add: translate_def hw_pte_def mem_user_def vmm_blank_def dir_index_def table_index_def frame_of_def Let_def)
  moreover have "check_ptr (Some 0) 0xbfeff8 2 False mem_user = Ret (0, mem_user)"
    by (simp add: check_ptr_def vmm_validate_user_ptr_def user_range_def user_pages_def validate_page_def vmm_get_user_physical_def
        mem_user_def vmm_blank_def dir_index_def table_index_def frame_of_def bind_outcome_def Let_def)
  moreover have "phys mem_user = (\<lambda>_. 0)" by (simp add: mem_user_def)
  ultimately show ?thesis
    by (simp add: readable_def sys_example_def kern_user_def kload8_ok bind_outcome_def)
qed

section \<open>Properties\<close>

text \<open>C12: The kernel refuses every system call whose pointer argument lies outside the user addresses, or whose buffer reaches
  beyond them, with an error and without changing anything: reads, writes, sends, opens, exec, wait, uname, credentials and
  futexes. A call number outside the table is refused the same way. The handler address of a signal action is not
  covered.\<close>

theorem syscall_bad_pointer:
  assumes "outside p n"
  shows "syscall_dispatch (syscall_init e Map.empty) (sys_number SYS_READ) a p n s = Ret (-1, s) \<and>
    syscall_dispatch (syscall_init e Map.empty) (sys_number SYS_WRITE) a p n s = Ret (-1, s) \<and>
    syscall_dispatch (syscall_init e Map.empty) (sys_number SYS_SEND) a p n s = Ret (-1, s) \<and>
    (n \<le> 1 \<longrightarrow> syscall_dispatch (syscall_init e Map.empty) (sys_number SYS_OPEN) p b c s = Ret (-1, s) \<and>
      syscall_dispatch (syscall_init e Map.empty) (sys_number SYS_EXEC) p b c s = Ret (-ERR_ENOENT, s)) \<and>
    (n \<le> 4 \<longrightarrow> p \<noteq> 0 \<longrightarrow> syscall_dispatch (syscall_init e Map.empty) (sys_number SYS_WAIT) a p c s = Ret (-1, s)) \<and>
    (n \<le> 4 \<longrightarrow> syscall_dispatch (syscall_init e Map.empty) (sys_number SYS_FUTEX_WAIT) p b c s = Ret (-1, s) \<and>
      syscall_dispatch (syscall_init e Map.empty) (sys_number SYS_FUTEX_WAKE) p b c s = Ret (-1, s)) \<and>
    (n \<le> 20 \<longrightarrow> syscall_dispatch (syscall_init e Map.empty) (sys_number SYS_UNAME) p b c s = Ret (-1, s) \<and>
      syscall_dispatch (syscall_init e Map.empty) (sys_number SYS_GETCRED) p b c s = Ret (-1, s)) \<and>
    (SYS_COUNT \<le> n \<longrightarrow> syscall_dispatch (syscall_init e Map.empty) n a b c s = Ret (-1, s))"
proof (intro conjI impI)
  have more: "outside p n'" if "n \<le> n'" for n'
    using assms that by (auto simp: outside_def)
  have low: "p < 0x400000 \<or> 0xc0000000 \<le> p" if "n \<le> 1"
  proof (rule ccontr)
    assume c: "\<not> (p < 0x400000 \<or> 0xc0000000 \<le> p)"
    then have "0xc0000000 - p < n" using assms by (auto simp: outside_def)
    then have "0xc0000000 - p < 1" using that by (rule less_le_trans)
    then have "0xc0000000 - p = 0" by (metis word_le_0_iff word_less_1)
    then show False using c by simp
  qed
  note table = syscall_dispatch_def SYS_COUNT_def syscall_init_def bind_outcome_def
  show "syscall_dispatch (syscall_init e Map.empty) (sys_number SYS_READ) a p n s = Ret (-1, s)"
    by (simp add: table rd_sys_def user_buf_outside [OF assms])
  show "syscall_dispatch (syscall_init e Map.empty) (sys_number SYS_WRITE) a p n s = Ret (-1, s)"
    by (simp add: table wr_sys_def user_buf_outside [OF assms])
  show "syscall_dispatch (syscall_init e Map.empty) (sys_number SYS_SEND) a p n s = Ret (-1, s)"
    by (simp add: table send_sys_def user_buf_outside [OF assms])
  show "syscall_dispatch (syscall_init e Map.empty) (sys_number SYS_OPEN) p b c s = Ret (-1, s)" if "n \<le> 1"
    by (simp add: table op_sys_def user_string_outside [OF low [OF that]])
  show "syscall_dispatch (syscall_init e Map.empty) (sys_number SYS_EXEC) p b c s = Ret (-ERR_ENOENT, s)" if "n \<le> 1"
    by (simp add: table ee_sys_def user_string_outside [OF low [OF that]] split: option.split)
  show "syscall_dispatch (syscall_init e Map.empty) (sys_number SYS_WAIT) a p c s = Ret (-1, s)" if "n \<le> 4" "p \<noteq> 0"
    using that(2) by (simp add: table wt_sys_def user_buf_outside [OF more [OF that(1)]])
  show "syscall_dispatch (syscall_init e Map.empty) (sys_number SYS_FUTEX_WAIT) p b c s = Ret (-1, s)" if "n \<le> 4"
    by (simp add: table futex_wait_sys_def futex_check_outside [OF more [OF that]])
  show "syscall_dispatch (syscall_init e Map.empty) (sys_number SYS_FUTEX_WAKE) p b c s = Ret (-1, s)" if "n \<le> 4"
    by (simp add: table futex_wake_sys_def futex_check_outside [OF more [OF that]])
  show "syscall_dispatch (syscall_init e Map.empty) (sys_number SYS_UNAME) p b c s = Ret (-1, s)" if "n \<le> 20"
    using user_buf_outside [OF more [OF that], of e True s] by (simp add: table un_sys_def uname_text_def)
  show "syscall_dispatch (syscall_init e Map.empty) (sys_number SYS_GETCRED) p b c s = Ret (-1, s)" if "n \<le> 20"
    by (simp add: table getcred_sys_def user_buf_outside [OF more [OF that]] split: option.split)
  show "syscall_dispatch (syscall_init e Map.empty) n a b c s = Ret (-1, s)" if "SYS_COUNT \<le> n"
    using that by (simp add: syscall_dispatch_def not_le [symmetric])
qed

theorem syscall_bad_pointer_witness:
  "outside 0xbfffffff 2 \<and>
   syscall_dispatch (syscall_init env_example Map.empty) (sys_number SYS_READ) 3 0xbfffffff 2 sys_example = Ret (-1, sys_example)"
proof -
  have "outside 0xbfffffff 2" by (simp add: outside_def)
  then show ?thesis using syscall_bad_pointer [where p = "0xbfffffff" and n = 2 and e = env_example and a = 3 and s = sys_example] by blast
qed

text \<open>C14: A process that opens a socket with a port, connects it and sends a buffer through the system-call library gets the number of
  the first unused socket, 0 and the number of bytes; the bytes of its buffer are then the last packet of the loopback
  queue, after the packets that were there, and its memory is unchanged.\<close>

theorem user_packet_sent:
  assumes u: "attached u" and q: "quiet p s" and i: "\<forall>j<i. sock_used (kernel_sockets s j)" "\<not> sock_used (kernel_sockets s i)" "i < 8"
    and port: "port \<noteq> 0" "port' \<noteq> 0" and n: "net_up (netw s)" "queue_count (netw s) < 4"
    and b: "readable p buf bs s" "bs \<noteq> []" "length bs \<le> 1536"
  shows "\<exists>s1 s2 s3. u_socket u port s = Ret (Some (int i), s1) \<and> u_connect u (of_nat i) port' s1 = Ret (Some 0, s2) \<and>
    u_send u (of_nat i) buf (of_nat (length bs)) s2 = Ret (Some (int (length bs)), s3) \<and>
    lengths (netw s3) = lengths (netw s) @ [of_nat (length bs)] \<and>
    map (queue (netw s3) (unat (queue_tail (netw s)))) [0..<length bs] = bs \<and> mem (kstate s3) = mem (kstate s)"
proof -
  have up: "net_ready (netw s)" using n(1) by (simp add: net_up_def)
  obtain s1 where s1: "u_socket u port s = Ret (Some (int i), s1)" "quiet p s1" "netw s1 = netw s" "mem (kstate s1) = mem (kstate s)"
    "procs (kstate s1) = procs (kstate s)" "sock_used (kernel_sockets s1 i)" "sock_state (kernel_sockets s1 i) = NET_SOCKET_CLOSED"
    by (rule u_socket_opens [OF u q i port(1) up])
  obtain s2 where s2: "u_connect u (of_nat i) port' s1 = Ret (Some 0, s2)" "quiet p s2" "netw s2 = netw s1" "mem (kstate s2) = mem (kstate s1)"
    "procs (kstate s2) = procs (kstate s1)" "sock_used (kernel_sockets s2 i)" "sock_state (kernel_sockets s2 i) = NET_SOCKET_ESTABLISHED"
    by (rule u_connect_connects [OF u s1(2) i(3) port(2) s1(6,7)])
  have r: "readable p buf bs s2" using b(1) by (simp add: readable_def s1 s2)
  have n2: "net_up (netw s2)" "queue_count (netw s2) < 4" using n by (simp_all add: s1 s2)
  obtain s3 where s3: "u_send u (of_nat i) buf (of_nat (length bs)) s2 = Ret (Some (int (length bs)), s3)"
    "netw s3 = snd (net_loopback_send (Some (bytes_of bs)) (of_nat (length bs)) (netw s2))" "mem (kstate s3) = mem (kstate s2)"
    by (rule u_send_sends [OF u s2(2) i(3) r b(2,3) s2(6,7) n2])
  let ?n = "of_nat (length bs) :: u32"
  have len: "unat ?n = length bs" using b(3) by (simp add: unat_of_nat)
  then have nz: "?n \<noteq> 0" using b(2) by (metis length_0_conv unat_0)
  have ok: "\<not> NET_PACKET_SIZE < ?n" "\<not> NET_QUEUE_SIZE \<le> queue_count (netw s)"
    using b(3) len n(2) by (simp_all add: NET_PACKET_SIZE_def NET_QUEUE_SIZE_def word_less_nat_alt word_le_nat_alt not_le)
  have send: "net_loopback_send (Some (bytes_of bs)) ?n (netw s) = (0, netw s3)"
    using s3(2) nz ok up by (simp add: s1 s2 net_loopback_send_def Let_def)
  have "lengths (netw s3) = lengths (netw s) @ [?n]" using net_send_some [OF _ send] n(1) by (simp add: net_up_def)
  moreover have "map (queue (netw s3) (unat (queue_tail (netw s)))) [0..<length bs] = bs"
    using nz ok up by (auto simp: s1 s2 s3(2) net_loopback_send_def Let_def len bytes_of_def intro!: nth_equalityI)
  ultimately show ?thesis using s1(1,4) s2(1,4) s3(1,3) by auto
qed

theorem user_packet_sent_witness:
  "\<exists>s1 s2 s3. u_socket user_example 80 sys_example = Ret (Some 0, s1) \<and> u_connect user_example 0 81 s1 = Ret (Some 0, s2) \<and>
    u_send user_example 0 0xbfeff8 2 s2 = Ret (Some 2, s3) \<and> lengths (netw s3) = [2]"
proof -
  have n: "net_up (netw sys_example)" "queue_count (netw sys_example) < 4" "lengths (netw sys_example) = []"
    using net0_up by (simp_all add: sys_example_def net0_def net_init_def)
  have f: "\<not> sock_used (kernel_sockets sys_example 0)" by (simp add: sys_example_def)
  show ?thesis
    using user_packet_sent [OF user_example_attached sys_example_quiet _ f _ _ _ n(1,2) sys_example_readable, of 80 81] n(3)
    by (simp add: numeral_2_eq_2 [symmetric]) blast
qed

text \<open>C39: A sleep of a user program never ends. Let the interrupt table be the one that \<open>idt_init\<close> builds and let the sleep target not be
  reached yet when the program makes the call. Entering the kernel through the gate of vector 128 disables interrupts, so however many
  timer interrupts are raised, the tick count that the call waits for does not advance. It is the gate that does it: were it a trap
  gate, the same call would return 0 after as many timer interrupts as the target is away.\<close>

theorem user_sleep_hangs:
  assumes "attached u" and "idt_init P isrs irqs isr128 idt_at idt0 w = (ptr, idt, w')"
    and "uptime_ticks (timer (kstate s)) < sleep_target (timer (kstate s)) ms"
  shows "(the_ticks (sys_env (irq_env u)) = ticks_taken (idt 128) n \<longrightarrow> u_sleep u ms s = Panic ''endless loop'') \<and>
    (the_ticks (sys_env (irq_env u)) = ticks_taken (set_gate 128 isr128 0xef idt 128) n \<and> quiet p s \<and>
       n = unat (sleep_target (timer (kstate s)) ms) - unat (uptime_ticks (timer (kstate s))) \<longrightarrow>
     (\<exists>s'. u_sleep u ms s = Ret (Some 0, s') \<and> uptime_ticks (timer (kstate s')) = sleep_target (timer (kstate s)) ms))"
proof (intro conjI impI)
  assume "the_ticks (sys_env (irq_env u)) = ticks_taken (idt 128) n"
  moreover have "gate_flags (idt 128) = 0xee"
    using assms(2) by (auto simp: idt_init_def set_gate_def Let_def)
  ultimately have ticks: "the_ticks (sys_env (irq_env u)) = 0" by (simp add: ticks_taken_def)
  have f: "frame_addr u \<noteq> 0" using assms(1) by (simp add: attached_def)
  have "syscall_dispatch (sys_table (irq_env u)) 8 ms 0 0 (enter u 8 ms 0 0 s) = Panic ''endless loop''"
    unfolding sleep_call [OF assms(1)] using assms(3) by (simp add: ticks ksleep_ms_def sleep_until.simps or_hang_def bind_outcome_def)
  then show "u_sleep u ms s = Panic ''endless loop''"
    unfolding u_sleep_def sys_number.simps call3_enter [OF assms(1)]
    by (simp add: syscall_from_interrupt_def run_call_def f bind_outcome_def)
next
  assume a: "the_ticks (sys_env (irq_env u)) = ticks_taken (set_gate 128 isr128 0xef idt 128) n \<and> quiet p s \<and>
       n = unat (sleep_target (timer (kstate s)) ms) - unat (uptime_ticks (timer (kstate s)))"
  let ?t = "timer (kstate s)" and ?e = "enter u 8 ms 0 0 s"
  let ?s = "?e\<lparr>kstate := (kstate ?e)\<lparr>timer := ?t\<lparr>uptime_ticks := sleep_target ?t ms\<rparr>\<rparr>\<rparr>"
  have "the_ticks (sys_env (irq_env u)) = n" using a by (simp add: ticks_taken_def set_gate_def)
  moreover have "ksleep_ms n ms ?t = Some (?t\<lparr>uptime_ticks := sleep_target ?t ms\<rparr>)"
    unfolding ksleep_ms_def using a assms(3) by (intro sleep_until_spec) (simp add: word_less_nat_alt)
  ultimately have d: "syscall_dispatch (sys_table (irq_env u)) 8 ms 0 0 ?e = Ret (0, ?s)"
    by (simp add: sleep_call [OF assms(1)] or_hang_def bind_outcome_def)
  have "u_sleep u ms s = Ret (Some 0, answer u 0 ?s)"
    unfolding u_sleep_def using call3_returns [OF assms(1) _ _ d, of p] a by simp
  moreover have "uptime_ticks (timer (kstate (answer u 0 ?s))) = sleep_target ?t ms"
    by (simp add: answer_def upd_kern_def)
  ultimately show "\<exists>s'. u_sleep u ms s = Ret (Some 0, s') \<and> uptime_ticks (timer (kstate s')) = sleep_target ?t ms" by blast
qed

theorem user_sleep_hangs_witness: "u_sleep user_example 10 sys_example = Panic ''endless loop''"
proof -
  let ?z = "\<lambda>_. \<lparr>base_low = 0, selector = 0, gate_zero = 0, gate_flags = 0, base_high = 0\<rparr>"
  obtain ptr idt w' where idt: "idt_init idle_ports (\<lambda>i. 0x101000) (\<lambda>i. 0x102000) 0x103000 0x104000 ?z () = (ptr, idt, w')"
    by (cases "idt_init idle_ports (\<lambda>i. 0x101000) (\<lambda>i. 0x102000) 0x103000 0x104000 ?z ()")
  have "the_ticks (sys_env (irq_env user_example)) = ticks_taken (idt 128) 50"
    by (simp add: user_example_def env_example_def idt_example_def idt)
  moreover have "uptime_ticks (timer (kstate sys_example)) < sleep_target (timer (kstate sys_example)) 10"
    by (simp add: sys_example_def kern_user_def kern_two_def kern_empty_def kern_example_def sleep_target_def)
  ultimately show ?thesis
    using conjunct1 [OF user_sleep_hangs [OF user_example_attached idt, where n = 50]] by blast
qed

end
