(* ===== verification/Gdt.thy ===== *)
theory Gdt
  imports Ceblar_Prelude
begin

text \<open>
  The segment descriptors and the task state (\<open>arch/x86/gdt.c\<close>). Loading the descriptor-table and task registers and
  reloading the segment registers is left to the processor; the addresses of the static objects are parameters.
\<close>

record gdtr =
  gdtr_limit :: u16
  gdtr_base :: u32

text \<open>The fields of the task state that the kernel sets; the others stay zero.\<close>

record tss =
  esp0 :: u32
  ss0 :: u32
  io_base :: u16

record descriptors =
  gdt :: "nat \<Rightarrow> u64"
  kernel_tss :: tss

definition make_tss_desc :: "u32 \<Rightarrow> u32 \<Rightarrow> u64" where
  "make_tss_desc base limit =
     (let d = 0;
          d = d OR ucast (limit AND 0xffff);
          d = d OR push_bit 16 (ucast (base AND 0xffffff));
          d = d OR push_bit 40 0x89;
          d = d OR push_bit 48 (ucast (drop_bit 16 limit AND 0xf))
      in d OR push_bit 56 (ucast (drop_bit 24 base AND 0xff)))"

definition tss_set_kernel_stack :: "u32 \<Rightarrow> descriptors \<Rightarrow> descriptors" where
  "tss_set_kernel_stack sp d = d\<lparr>kernel_tss := (kernel_tss d)\<lparr>esp0 := sp\<rparr>\<rparr>"

text \<open>\<open>sp\<close> is the stack pointer read by the code, \<open>tss_at\<close> the address of the task state of 104 bytes.\<close>

definition tss_init :: "u32 \<Rightarrow> u32 \<Rightarrow> u32 \<Rightarrow> descriptors \<Rightarrow> descriptors" where
  "tss_init tss_at sp stk d =
     (let d = d\<lparr>kernel_tss := (kernel_tss d)\<lparr>esp0 := if stk \<noteq> 0 then stk else sp, ss0 := 0x10, io_base := 104\<rparr>\<rparr>
      in d\<lparr>gdt := (gdt d)(5 := make_tss_desc tss_at (104 - 1))\<rparr>)"

text \<open>The descriptors, and the operand of the load instruction.\<close>

definition gdt_init :: "u32 \<Rightarrow> descriptors \<Rightarrow> gdtr \<times> descriptors" where
  "gdt_init gdt_at d =
     (\<lparr>gdtr_limit = 6 * 8 - 1, gdtr_base = gdt_at\<rparr>,
      d\<lparr>gdt := (gdt d)(0 := 0, 1 := 0x00cf9a000000ffff, 2 := 0x00cf92000000ffff, 3 := 0x00cffa000000ffff,
           4 := 0x00cff2000000ffff, 5 := 0)\<rparr>)"

section \<open>What the processor reads\<close>

text \<open>The base, the limit and the privilege level of a descriptor, as the processor takes them out of it.\<close>

definition desc_base :: "u64 \<Rightarrow> u32" where
  "desc_base d = ucast (drop_bit 16 d AND 0xffffff) OR push_bit 24 (ucast (drop_bit 56 d AND 0xff))"

definition desc_limit :: "u64 \<Rightarrow> u32" where
  "desc_limit d = ucast (d AND 0xffff) OR push_bit 16 (ucast (drop_bit 48 d AND 0xf))"

definition desc_access :: "u64 \<Rightarrow> u8" where
  "desc_access d = ucast (drop_bit 40 d)"

definition desc_dpl :: "u64 \<Rightarrow> u8" where
  "desc_dpl d = drop_bit 5 (desc_access d) AND 3"

end
