(* ===== verification/Platform_Props.thy ===== *)
theory Platform_Props
  imports Apic Gdt Isr
begin

text \<open>
  The platform tables: what is kept of the firmware's interrupt table, whatever its bytes are, and which entries into the kernel
  the descriptor tables give to user programs.
\<close>

section \<open>The interrupt table\<close>

text \<open>The positions of the entries that the loop visits.\<close>

function madt_positions :: "(u32 \<Rightarrow> u8) \<Rightarrow> u32 \<Rightarrow> nat \<Rightarrow> nat \<Rightarrow> nat list" where
  "madt_positions fw h n pos =
     (if pos + 2 \<le> n then
        (let len = unat (fw (h + of_nat (pos + 1))) in
         if len < 2 \<or> n < pos + len then [] else pos # madt_positions fw h n (pos + len))
      else [])"
  by pat_completeness auto
termination
  by (relation "measure (\<lambda>(fw, h, n, pos). n - pos)") auto

declare madt_positions.simps [simp del]

lemma madt_entries_fold: "madt_entries fw h n pos s = fold (madt_entry fw h) (madt_positions fw h n pos) s"
proof (induction fw h n pos s rule: madt_entries.induct)
  case (1 fw h n pos s)
  then show ?case by (subst madt_entries.simps, subst madt_positions.simps) (simp add: Let_def)
qed

lemma madt_positions_inside:
  "p \<in> set (madt_positions fw h n pos) \<Longrightarrow> pos \<le> p \<and> p + unat (fw (h + of_nat (p + 1))) \<le> n \<and> 2 \<le> unat (fw (h + of_nat (p + 1)))"
proof (induction fw h n pos rule: madt_positions.induct)
  case (1 fw h n pos)
  show ?case
    using 1(2) 1(1) [OF _ refl] by (subst (asm) madt_positions.simps) (fastforce simp: Let_def split: if_split_asm)
qed

text \<open>An enabled processor, and an interrupt override.\<close>

definition madt_cpu :: "(u32 \<Rightarrow> u8) \<Rightarrow> u32 \<Rightarrow> nat \<Rightarrow> bool" where
  "madt_cpu fw h p \<longleftrightarrow> fw (h + of_nat p) = 0 \<and> 8 \<le> fw (h + of_nat p + 1) \<and> rd32 fw (h + of_nat p + 4) AND 1 \<noteq> 0"

definition madt_override :: "(u32 \<Rightarrow> u8) \<Rightarrow> u32 \<Rightarrow> nat \<Rightarrow> bool" where
  "madt_override fw h p \<longleftrightarrow> fw (h + of_nat p) = 2 \<and> 10 \<le> fw (h + of_nat p + 1)"

definition override_of :: "(u32 \<Rightarrow> u8) \<Rightarrow> u32 \<Rightarrow> nat \<Rightarrow> irq_override" where
  "override_of fw h p = \<lparr>ov_source = fw (h + of_nat p + 3), ov_gsi = rd32 fw (h + of_nat p + 4), ov_flags = rd16 fw (h + of_nat p + 8)\<rparr>"

definition acpi_cpus :: "acpi \<Rightarrow> u8 list" where
  "acpi_cpus s = map (cpu_apic_ids s) [0..<unat (cpu_count s)]"

definition acpi_overrides :: "acpi \<Rightarrow> irq_override list" where
  "acpi_overrides s = map (overrides s) [0..<unat (override_count s)]"

text \<open>Adding to an array of 16 entries with a counter.\<close>

lemma cell_push:
  assumes "unat (c :: u32) \<le> 16" "c < 16"
  shows "unat (c + 1) = Suc (unat c)" "map (f(unat c := x)) [0..<unat (c + 1)] = map f [0..<unat c] @ [x]"
proof -
  show s: "unat (c + 1) = Suc (unat c)" using assms(2) by (intro unat_inc [of _ 16]) (simp_all add: word_less_nat_alt)
  show "map (f(unat c := x)) [0..<unat (c + 1)] = map f [0..<unat c] @ [x]" by (simp add: s)
qed

definition madt_bounded :: "acpi \<Rightarrow> acpi \<Rightarrow> bool" where
  "madt_bounded s s' \<longleftrightarrow> unat (cpu_count s') \<le> 16 \<and> unat (override_count s') \<le> 16 \<and>
     (\<forall>i. cpu_apic_ids s' (16 + i) = cpu_apic_ids s (16 + i) \<and> overrides s' (16 + i) = overrides s (16 + i))"

lemma madt_entry_step:
  assumes "madt_bounded s0 s"
  shows "madt_bounded s0 (madt_entry fw h p s)"
    "acpi_cpus (madt_entry fw h p s) = take 16 (acpi_cpus s @ (if madt_cpu fw h p then [fw (h + of_nat p + 3)] else []))"
    "acpi_overrides (madt_entry fw h p s) = take 16 (acpi_overrides s @ (if madt_override fw h p then [override_of fw h p] else []))"
    "madt_found (madt_entry fw h p s) = madt_found s" "lapic_base (madt_entry fw h p s) = lapic_base s"
proof -
  have b: "unat (cpu_count s) \<le> 16" "unat (override_count s) \<le> 16" using assms by (simp_all add: madt_bounded_def)
  note D = madt_entry_def madt_cpu_def madt_override_def override_of_def Let_def ACPI_MAX_CPUS_def ACPI_MAX_IRQ_OVERRIDES_def
  let ?c = "madt_cpu fw h p \<and> cpu_count s < 16" and ?o = "madt_override fw h p \<and> override_count s < 16"
  have c: "cpu_count (madt_entry fw h p s) = (if ?c then cpu_count s + 1 else cpu_count s)"
    "cpu_apic_ids (madt_entry fw h p s) = (if ?c then (cpu_apic_ids s)(unat (cpu_count s) := fw (h + of_nat p + 3)) else cpu_apic_ids s)"
    by (simp_all add: D)
  have o: "override_count (madt_entry fw h p s) = (if ?o then override_count s + 1 else override_count s)"
    "overrides (madt_entry fw h p s) = (if ?o then (overrides s)(unat (override_count s) := override_of fw h p) else overrides s)"
    by (auto simp: D)
  have l: "n < 16 \<longleftrightarrow> unat n < 16" for n :: u32 by (simp add: word_less_nat_alt)
  show "madt_bounded s0 (madt_entry fw h p s)"
    using assms cell_push(1) [OF b(1)] cell_push(1) [OF b(2)] unfolding madt_bounded_def c o by (auto simp: l)
  show "acpi_cpus (madt_entry fw h p s) = take 16 (acpi_cpus s @ (if madt_cpu fw h p then [fw (h + of_nat p + 3)] else []))"
    using b cell_push(2) [OF b(1)] unfolding acpi_cpus_def c by (auto simp: l)
  show "acpi_overrides (madt_entry fw h p s) = take 16 (acpi_overrides s @ (if madt_override fw h p then [override_of fw h p] else []))"
    using b cell_push(2) [OF b(2)] unfolding acpi_overrides_def o by (auto simp: l)
  show "madt_found (madt_entry fw h p s) = madt_found s" "lapic_base (madt_entry fw h p s) = lapic_base s" by (simp_all add: D)
qed

lemma take_append_take: "take n (take n xs @ ys) = take n (xs @ ys)"
  by (cases "n \<le> length xs") simp_all

lemma madt_fold:
  assumes "madt_bounded s0 s"
  shows "madt_bounded s0 (fold (madt_entry fw h) ps s)"
    "acpi_cpus (fold (madt_entry fw h) ps s) = take 16 (acpi_cpus s @ map (\<lambda>p. fw (h + of_nat p + 3)) (filter (madt_cpu fw h) ps))"
    "acpi_overrides (fold (madt_entry fw h) ps s) = take 16 (acpi_overrides s @ map (override_of fw h) (filter (madt_override fw h) ps))"
    "madt_found (fold (madt_entry fw h) ps s) = madt_found s" "lapic_base (fold (madt_entry fw h) ps s) = lapic_base s"
proof (use assms in \<open>induction ps arbitrary: s\<close>)
  case Nil
  case 1 then show ?case by simp
  case 2 then show ?case by (simp add: acpi_cpus_def madt_bounded_def)
  case 3 then show ?case by (simp add: acpi_overrides_def madt_bounded_def)
  case 4 then show ?case by simp
  case 5 then show ?case by simp
next
  case (Cons p ps)
  note S = madt_entry_step [where fw = fw and h = h and p = p]
  { case 1 then show ?case using Cons(1) S(1) by simp }
  { case 2 then show ?case using Cons(2) [OF S(1)] S(2) by (auto simp: take_append_take simp del: take_append) }
  { case 3 then show ?case using Cons(3) [OF S(1)] S(3) by (auto simp: take_append_take simp del: take_append) }
  { case 4 then show ?case using Cons(4) [OF S(1)] S(4) by simp }
  { case 5 then show ?case using Cons(5) [OF S(1)] S(5) by simp }
qed

definition acpi_default :: "acpi \<Rightarrow> acpi" where
  "acpi_default s = s\<lparr>madt_found := False, lapic_base := 0xfee00000, ioapic_base := 0xfec00000, ioapic_gsi_base := 0, cpu_count := 1,
     override_count := 0\<rparr>"

text \<open>The processors and the overrides that a table at \<open>h\<close> lists, in its order.\<close>

definition madt_cpus :: "(u32 \<Rightarrow> u8) \<Rightarrow> u32 \<Rightarrow> u8 list" where
  "madt_cpus fw h = map (\<lambda>p. fw (h + of_nat p + 3)) (filter (madt_cpu fw h) (madt_positions fw h (unat (sdt_length (sdt_at fw h))) 44))"

definition madt_overrides :: "(u32 \<Rightarrow> u8) \<Rightarrow> u32 \<Rightarrow> irq_override list" where
  "madt_overrides fw h =
     map (override_of fw h) (filter (madt_override fw h) (madt_positions fw h (unat (sdt_length (sdt_at fw h))) 44))"

definition madt_parsed :: "(u32 \<Rightarrow> u8) \<Rightarrow> u32 \<Rightarrow> acpi \<Rightarrow> bool" where
  "madt_parsed fw h s \<longleftrightarrow> madt_found s \<and> lapic_base s = rd32 fw (h + 36) \<and> acpi_overrides s = take 16 (madt_overrides fw h) \<and>
     (if madt_cpus fw h = [] then cpu_count s = 1 else acpi_cpus s = take 16 (madt_cpus fw h)) \<and>
     list_all (\<lambda>p. 44 \<le> p \<and> p + unat (fw (h + of_nat (p + 1))) \<le> unat (sdt_length (sdt_at fw h)))
       (madt_positions fw h (unat (sdt_length (sdt_at fw h))) 44)"

lemma parse_madt_spec:
  assumes "44 \<le> unat (sdt_length (sdt_at fw h))" "unat (override_count s0) \<le> 16"
  shows "madt_bounded s0 (parse_madt fw h s0)" "cpu_count (parse_madt fw h s0) \<noteq> 0" "madt_parsed fw h (parse_madt fw h s0)"
proof -
  define s1 where "s1 = s0\<lparr>madt_found := True, lapic_base := rd32 fw (h + 36), cpu_count := 0, override_count := 0, ioapic_gsi_base := 0\<rparr>"
  define s2 where "s2 = fold (madt_entry fw h) (madt_positions fw h (unat (sdt_length (sdt_at fw h))) 44) s1"
  have b: "madt_bounded s0 s1" by (simp add: madt_bounded_def s1_def)
  have p: "parse_madt fw h s0 = (if cpu_count s2 = 0 then s2\<lparr>cpu_count := 1\<rparr> else s2)"
    using assms(1) by (simp add: parse_madt_def s1_def s2_def madt_entries_fold word_less_nat_alt not_less)
  note F = madt_fold [OF b, where fw = fw and h = h and ps = "madt_positions fw h (unat (sdt_length (sdt_at fw h))) 44", folded s2_def]
  have e: "acpi_cpus s1 = []" "acpi_overrides s1 = []" by (simp_all add: acpi_cpus_def acpi_overrides_def s1_def)
  have c: "acpi_cpus s2 = take 16 (madt_cpus fw h)" "acpi_overrides s2 = take 16 (madt_overrides fw h)"
    using F(2,3) e by (simp_all add: madt_cpus_def madt_overrides_def)
  have z: "cpu_count s2 = 0 \<longleftrightarrow> madt_cpus fw h = []"
    using arg_cong [OF c(1), of length] unat_eq_zero [of "cpu_count s2"] by (cases "madt_cpus fw h") (simp_all add: acpi_cpus_def)
  show "madt_bounded s0 (parse_madt fw h s0)" "cpu_count (parse_madt fw h s0) \<noteq> 0" using F(1) by (simp_all add: p madt_bounded_def)
  show "madt_parsed fw h (parse_madt fw h s0)"
    using F(4,5) c z by (auto simp: p madt_parsed_def s1_def acpi_overrides_def list_all_iff dest: madt_positions_inside)
qed

text \<open>C40: Whatever the firmware's memory contains, reading its tables ends and writes only inside the two arrays of 16 entries: between one
  and 16 processors and at most 16 overrides are counted and the memory behind the arrays is unchanged. Either nothing was
  found and the defaults stand, or there is a table with the right signature and checksum, whose entries are visited only as long
  as they lie inside it, and the processors and overrides kept are its first 16 enabled processors and its first 16
  overrides, in its order.
\<close>
theorem acpi_init_correct:
  "cpu_count (acpi_init fw s) \<noteq> 0 \<and> madt_bounded s (acpi_init fw s) \<and>
    (acpi_init fw s = acpi_default s \<or>
     (\<exists>h. valid_sdt fw h \<and> has_sig (sdt_signature (sdt_at fw h)) [0x41, 0x50, 0x49, 0x43] \<and> madt_parsed fw h (acpi_init fw s)))"
proof -
  let ?d = "acpi_default s"
  have cases: "acpi_init fw s = ?d \<or> (\<exists>h. valid_sdt fw h \<and> has_sig (sdt_signature (sdt_at fw h)) [0x41, 0x50, 0x49, 0x43] \<and>
      44 \<le> unat (sdt_length (sdt_at fw h)) \<and> acpi_init fw s = parse_madt fw h ?d)"
  proof (cases "acpi_init fw s = ?d")
    case False
    then obtain ts h where h: "find (\<lambda>h. valid_sdt fw h \<and> has_sig (sdt_signature (sdt_at fw h)) [0x41, 0x50, 0x49, 0x43]) ts = Some h"
      "acpi_init fw s = parse_madt fw h ?d"
      unfolding acpi_init_def Let_def acpi_default_def [symmetric] by (auto split: option.split_asm if_split_asm)
    from h(2) False have "44 \<le> unat (sdt_length (sdt_at fw h))"
      by (auto simp: parse_madt_def word_less_nat_alt not_less split: if_split_asm)
    then show ?thesis using h by (auto simp: List.find_Some_iff)
  qed simp
  have d: "madt_bounded s ?d" "cpu_count ?d \<noteq> 0" by (simp_all add: madt_bounded_def acpi_default_def)
  have k: "madt_bounded s x" if "madt_bounded ?d x" for x using that by (simp add: madt_bounded_def acpi_default_def)
  show ?thesis
    using cases
  proof (elim disjE exE conjE)
    fix h assume h: "valid_sdt fw h" "has_sig (sdt_signature (sdt_at fw h)) [0x41, 0x50, 0x49, 0x43]"
      "44 \<le> unat (sdt_length (sdt_at fw h))" "acpi_init fw s = parse_madt fw h ?d"
    have "unat (override_count ?d) \<le> 16" by (simp add: acpi_default_def)
    from parse_madt_spec [OF h(3) this] show ?thesis using h k by auto
  qed (use d in simp)
qed

section \<open>Entries into the kernel\<close>

text \<open>What the processor takes out of a gate: whether it is present, who may use it, and the handler.\<close>

definition gate_present :: "idt_entry \<Rightarrow> bool" where
  "gate_present g \<longleftrightarrow> bit (gate_flags g) 7"

definition gate_dpl :: "idt_entry \<Rightarrow> u8" where
  "gate_dpl g = drop_bit 5 (gate_flags g) AND 3"

definition gate_handler :: "idt_entry \<Rightarrow> u32" where
  "gate_handler g = ucast (base_low g) OR push_bit 16 (ucast (base_high g))"

lemma gate_handler_split: "ucast (ucast x :: u16) OR push_bit 16 (ucast (ucast (drop_bit 16 x) :: u16)) = (x :: u32)"
  by (rule bit_word_eqI) (auto simp: bit_simps)

lemma set_gates:
  assumes "n \<le> 256"
  shows "fold (\<lambda>i. set_gate (of_nat i) (f i) fl) [a..<n] idt v =
    (if a \<le> v \<and> v < n then set_gate (of_nat v) (f v) fl idt v else idt v)"
  using assms
proof (induction n)
  case (Suc n)
  have "unat (of_nat n :: u8) = n" using Suc.prems by (simp add: unat_of_nat)
  then show ?case using Suc by (auto simp: set_gate_def)
qed simp

lemma idt_init_gates:
  assumes "v < 256"
  shows "fst (snd (idt_init P isrs irqs isr128 at idt w)) v =
    (if v < 32 then \<lparr>base_low = ucast (isrs v), selector = 8, gate_zero = 0, gate_flags = 0x8e, base_high = ucast (drop_bit 16 (isrs v))\<rparr>
     else if v < 48 then
       \<lparr>base_low = ucast (irqs (v - 32)), selector = 8, gate_zero = 0, gate_flags = 0x8e, base_high = ucast (drop_bit 16 (irqs (v - 32)))\<rparr>
     else if v = 128 then \<lparr>base_low = ucast isr128, selector = 8, gate_zero = 0, gate_flags = 0xee, base_high = ucast (drop_bit 16 isr128)\<rparr>
     else \<lparr>base_low = 0, selector = 0, gate_zero = 0, gate_flags = 0, base_high = 0\<rparr>)"
proof -
  have m: "[32..<48] = map (\<lambda>i. 32 + i) [0..<16]" by (simp add: map_add_upt add.commute)
  have second: "fold (\<lambda>i. set_gate (of_nat (32 + i)) (irqs i) 0x8e) [0..<16] x = fold (\<lambda>i. set_gate (of_nat i) (irqs (i - 32)) 0x8e) [32..<48] x" for x
    unfolding m fold_map by (simp add: o_def del: of_nat_add)
  have u: "unat (of_nat v :: u8) = v" using assms by (simp add: unat_of_nat)
  show ?thesis unfolding idt_init_def Let_def second
    using assms by (simp add: set_gates set_gate_def u del: fold_simps upt_rec_numeral)
qed

text \<open>The masks of the code keep the low bits.\<close>

lemma low_bits:
  "x AND 0xffff = take_bit 16 x" "x AND 0xffffff = take_bit 24 x" "x AND 0xf = take_bit 4 x" "x AND 0xff = take_bit 8 x" for x :: "'a::len word"
  by (simp_all add: take_bit_eq_mask mask_eq_exp_minus_1)

lemma packed_fields:
  fixes b l :: u32 and a :: u8
  defines "d \<equiv> ucast (take_bit 16 l) OR push_bit 16 (ucast (take_bit 24 b)) OR push_bit 40 (ucast a) OR
    push_bit 48 (ucast (take_bit 4 (drop_bit 16 l))) OR push_bit 56 (ucast (take_bit 8 (drop_bit 24 b))) :: u64"
  shows "desc_base d = b" "desc_limit d = take_bit 20 l" "desc_access d = a"
proof -
  show "desc_base d = b"
  proof (rule bit_word_eqI)
    fix n assume "n < LENGTH(32)"
    then show "bit (desc_base d) n = bit b n"
      by (cases "n < 24") (auto simp: desc_base_def d_def low_bits bit_simps dest: bit_imp_le_length)
  qed
  show "desc_limit d = take_bit 20 l"
  proof (rule bit_word_eqI)
    fix n assume "n < LENGTH(32)"
    then show "bit (desc_limit d) n = bit (take_bit 20 l) n"
      by (cases "n < 16") (auto simp: desc_limit_def d_def low_bits bit_simps dest: bit_imp_le_length)
  qed
  show "desc_access d = a"
    by (rule bit_word_eqI) (auto simp: desc_access_def d_def bit_simps)
qed

lemma tss_desc_fields:
  "desc_base (make_tss_desc b l) = b" "desc_limit (make_tss_desc b l) = take_bit 20 l" "desc_access (make_tss_desc b l) = 0x89"
  using packed_fields [of l b "0x89"] by (simp_all add: make_tss_desc_def Let_def low_bits or.assoc)

text \<open>C13: After the tables are set up, the only gate a user program can go through is the one of vector 128, to the system-call stub; the
  exception and device vectors have their stubs for the kernel only and no other gate is present. All gates run in the
  kernel's code segment. The kernel's code and data segments are for the kernel, the user's for privilege level 3, all
  over the whole address space, and the task descriptor gives back the address and size of the task state, which holds the
  kernel stack to switch to.
\<close>
theorem kernel_entry_points:
  "let idt' = fst (snd (idt_init P isrs irqs isr128 idt_at idt w)); d' = tss_init tss_at sp stk (snd (gdt_init gdt_at d)) in
   list_all (\<lambda>v. gate_present (idt' v) = (v < 48 \<or> v = 128) \<and> gate_dpl (idt' v) = (if v = 128 then 3 else 0) \<and>
     gate_handler (idt' v) = (if v < 32 then isrs v else if v < 48 then irqs (v - 32) else if v = 128 then isr128 else 0) \<and>
     selector (idt' v) = (if v < 48 \<or> v = 128 then 8 else 0)) [0..<256] \<and>
   map (\<lambda>i. (desc_base (gdt d' i), desc_limit (gdt d' i), desc_dpl (gdt d' i))) [1, 2, 3, 4] =
     [(0, 0xfffff, 0), (0, 0xfffff, 0), (0, 0xfffff, 3), (0, 0xfffff, 3)] \<and>
   desc_base (gdt d' 5) = tss_at \<and> desc_limit (gdt d' 5) = 103 \<and> desc_dpl (gdt d' 5) = 0 \<and>
   esp0 (kernel_tss d') = (if stk \<noteq> 0 then stk else sp) \<and> ss0 (kernel_tss d') = 0x10"
proof -
  let ?idt = "fst (snd (idt_init P isrs irqs isr128 idt_at idt w))"
  have "gate_present (?idt v) = (v < 48 \<or> v = 128) \<and> gate_dpl (?idt v) = (if v = 128 then 3 else 0) \<and>
     gate_handler (?idt v) = (if v < 32 then isrs v else if v < 48 then irqs (v - 32) else if v = 128 then isr128 else 0) \<and>
     selector (?idt v) = (if v < 48 \<or> v = 128 then 8 else 0)" if "v < 256" for v
    by (simp add: idt_init_gates [OF that] gate_present_def gate_dpl_def gate_handler_def gate_handler_split bit_numeral_rec)
  moreover have "tss_init tss_at sp stk (snd (gdt_init gdt_at d)) =
      d\<lparr>kernel_tss := (kernel_tss d)\<lparr>esp0 := if stk \<noteq> 0 then stk else sp, ss0 := 0x10, io_base := 104\<rparr>,
        gdt := (gdt d)(0 := 0, 1 := 0x00cf9a000000ffff, 2 := 0x00cf92000000ffff, 3 := 0x00cffa000000ffff, 4 := 0x00cff2000000ffff,
          5 := make_tss_desc tss_at 103)\<rparr>"
    by (simp add: tss_init_def gdt_init_def Let_def)
  ultimately show ?thesis
    unfolding Let_def
    by (simp add: list_all_iff tss_desc_fields desc_dpl_def del: upt_rec_numeral)
      (simp add: desc_base_def desc_limit_def desc_access_def)
qed

end
