(* ===== verification/Module.thy ===== *)
theory Module
  imports Ceblar_Prelude
begin

text \<open>
  Kernel modules (\<open>modules/module.c\<close>). A module is an object of the program that registers its address; the registry is an
  array of 32 addresses into a store of modules. What a module's functions do to the rest of the
  kernel is a state \<open>'s\<close>. A null pointer is \<open>None\<close>.
\<close>

record 's kernel_module =
  m_name :: "u8 list option"
  m_version :: "u8 list option"
  m_author :: "u8 list option"
  m_license :: "u8 list option"
  m_init :: "('s \<Rightarrow> int \<times> 's) option"
  m_exit :: "('s \<Rightarrow> 's) option"
  m_depends :: "u8 list option list"
  m_refcount :: int
  m_loaded :: bool

record 's registry =
  modules :: "nat \<Rightarrow> 's kernel_module"
  mods :: "nat \<Rightarrow> nat"
  mod_count :: nat

definition MODULE_DEFINE :: "u8 list \<Rightarrow> u8 list \<Rightarrow> u8 list \<Rightarrow> u8 list \<Rightarrow> ('s \<Rightarrow> int \<times> 's) \<Rightarrow> ('s \<Rightarrow> 's) \<Rightarrow> 's kernel_module" where
  "MODULE_DEFINE n v a l i x = \<lparr>m_name = Some n, m_version = Some v, m_author = Some a, m_license = Some l, m_init = Some i,
     m_exit = Some x, m_depends = [None, None, None, None], m_refcount = 0, m_loaded = False\<rparr>"

definition nth_mod :: "'s registry \<Rightarrow> nat \<Rightarrow> 's kernel_module" where
  "nth_mod g i = modules g (mods g i)"

definition upd_module :: "nat \<Rightarrow> ('s kernel_module \<Rightarrow> 's kernel_module) \<Rightarrow> 's registry \<Rightarrow> 's registry" where
  "upd_module p f g = g\<lparr>modules := (modules g)(p := f (modules g p))\<rparr>"

definition module_register :: "nat option \<Rightarrow> 's registry \<Rightarrow> int \<times> 's registry" where
  "module_register ptr g =
     (case ptr of
        None \<Rightarrow> (-1, g)
      | Some p \<Rightarrow> if 32 \<le> mod_count g then (-1, g)
          else (0, g\<lparr>mods := (mods g)(mod_count g := p), mod_count := mod_count g + 1\<rparr>))"

text \<open>The first characters are compared; that of the empty string is its terminating zero.\<close>

definition first_char :: "u8 list \<Rightarrow> u8" where
  "first_char str = (case str of [] \<Rightarrow> 0 | c # _ \<Rightarrow> c)"

definition dep_loaded :: "u8 list option \<Rightarrow> 's registry \<Rightarrow> bool" where
  "dep_loaded n g \<longleftrightarrow> (\<exists>i \<in> set [0..<mod_count g]. m_loaded (nth_mod g i) \<and>
     (case (m_name (nth_mod g i), n) of (Some a, Some b) \<Rightarrow> first_char a = first_char b | _ \<Rightarrow> False))"

definition deps_of :: "'s kernel_module \<Rightarrow> u8 list option list" where
  "deps_of m = takeWhile (\<lambda>d. d \<noteq> None) (take 4 (m_depends m))"

fun load_from :: "nat list \<Rightarrow> 's registry \<times> 's \<Rightarrow> int \<times> 's registry \<times> 's" where
  "load_from [] gs = (0, gs)"
| "load_from (i # is) (g, s) =
     (let m = nth_mod g i in
      if \<not> list_all (\<lambda>d. dep_loaded d g) (deps_of m) then (-1, g, s)
      else (case (if \<not> m_loaded m then (case m_init m of None \<Rightarrow> (0, s) | Some f \<Rightarrow> f s) else (0, s)) of
              (r, s) \<Rightarrow>
                if r \<noteq> 0 then (-1, g, s)
                else load_from is (upd_module (mods g i) (\<lambda>x. x\<lparr>m_loaded := True\<rparr>) g, s)))"

definition module_load_all :: "'s registry \<times> 's \<Rightarrow> int \<times> 's registry \<times> 's" where
  "module_load_all gs = load_from [0..<mod_count (fst gs)] gs"

text \<open>The comparison of whole names, on lists without zero bytes.\<close>

definition module_unload :: "u8 list option \<Rightarrow> 's registry \<times> 's \<Rightarrow> int \<times> 's registry \<times> 's" where
  "module_unload n = (\<lambda>(g, s).
     (case find (\<lambda>i. n \<noteq> None \<and> m_name (nth_mod g i) = n) [0..<mod_count g] of
        None \<Rightarrow> (-1, g, s)
      | Some i \<Rightarrow>
         if 0 < m_refcount (nth_mod g i) then (-1, g, s)
         else (let s = (case m_exit (nth_mod g i) of None \<Rightarrow> s | Some f \<Rightarrow> f s)
               in (0, upd_module (mods g i) (\<lambda>x. x\<lparr>m_loaded := False\<rparr>) g, s))))"

definition module_list :: "u32 \<Rightarrow> 's registry \<Rightarrow> u8 list option" where
  "module_list i g = (if unat i < mod_count g then m_name (nth_mod g (unat i)) else None)"

definition module_count :: "'s registry \<Rightarrow> u32" where
  "module_count g = of_nat (mod_count g)"

end
