(* ===== verification/Libc.thy ===== *)
theory Libc
  imports Ceblar_Prelude
begin

text \<open>
  The C library of user programs (\<open>userspace/libc/libc.c\<close>). Memory is a function from addresses to bytes, a
  pointer is an address. A loop that looks for a zero byte does not end if there is none: \<open>None\<close>.
\<close>

type_synonym memory = "u32 \<Rightarrow> u8"

section \<open>Blocks of memory\<close>

primrec copy_up :: "nat \<Rightarrow> u32 \<Rightarrow> u32 \<Rightarrow> memory \<Rightarrow> memory" where
  "copy_up 0 a b m = m"
| "copy_up (Suc n) a b m = copy_up n (a + 1) (b + 1) (m(a := m b))"

primrec copy_down :: "nat \<Rightarrow> u32 \<Rightarrow> u32 \<Rightarrow> memory \<Rightarrow> memory" where
  "copy_down 0 a b m = m"
| "copy_down (Suc n) a b m = copy_down n (a - 1) (b - 1) (m(a - 1 := m (b - 1)))"

definition memcpy :: "u32 \<Rightarrow> u32 \<Rightarrow> u32 \<Rightarrow> memory \<Rightarrow> u32 \<times> memory" where
  "memcpy d s n m = (d, copy_up (unat n) d s m)"

primrec fill_up :: "nat \<Rightarrow> u32 \<Rightarrow> u8 \<Rightarrow> memory \<Rightarrow> memory" where
  "fill_up 0 a c m = m"
| "fill_up (Suc n) a c m = fill_up n (a + 1) c (m(a := c))"

definition memset :: "u32 \<Rightarrow> u32 \<Rightarrow> u32 \<Rightarrow> memory \<Rightarrow> u32 \<times> memory" where
  "memset d c n m = (d, fill_up (unat n) d (ucast c) m)"

definition memmove :: "u32 \<Rightarrow> u32 \<Rightarrow> u32 \<Rightarrow> memory \<Rightarrow> u32 \<times> memory" where
  "memmove d s n m = (d, if d < s then copy_up (unat n) d s m else copy_down (unat n) (d + n) (s + n) m)"

section \<open>Strings\<close>

partial_function (option) strlen_from :: "memory \<Rightarrow> u32 \<Rightarrow> u32 \<Rightarrow> u32 option" where
  [code]: "strlen_from m s n = (if m (s + n) \<noteq> 0 then strlen_from m s (n + 1) else Some n)"

definition strlen :: "memory \<Rightarrow> u32 \<Rightarrow> u32 option" where
  "strlen m s = strlen_from m s 0"

partial_function (option) strcmp :: "memory \<Rightarrow> u32 \<Rightarrow> u32 \<Rightarrow> int option" where
  [code]: "strcmp m a b = (if m a \<noteq> 0 \<and> m a = m b then strcmp m (a + 1) (b + 1) else Some (uint (m a) - uint (m b)))"

primrec strncmp_n :: "nat \<Rightarrow> memory \<Rightarrow> u32 \<Rightarrow> u32 \<Rightarrow> int" where
  "strncmp_n 0 m a b = 0"
| "strncmp_n (Suc n) m a b = (if m a \<noteq> 0 \<and> m a = m b then strncmp_n n m (a + 1) (b + 1) else uint (m a) - uint (m b))"

definition strncmp :: "memory \<Rightarrow> u32 \<Rightarrow> u32 \<Rightarrow> u32 \<Rightarrow> int" where
  "strncmp m a b n = strncmp_n (unat n) m a b"

partial_function (option) strcpy_from :: "u32 \<Rightarrow> u32 \<Rightarrow> memory \<Rightarrow> memory option" where
  [code]: "strcpy_from d s m = (let c = m s; m = m(d := c) in if c \<noteq> 0 then strcpy_from (d + 1) (s + 1) m else Some m)"

definition strcpy :: "u32 \<Rightarrow> u32 \<Rightarrow> memory \<Rightarrow> (u32 \<times> memory) option" where
  "strcpy d s m = map_option (Pair d) (strcpy_from d s m)"

text \<open>The first loop stops after it has stored the zero byte, without counting it; the second one stores the rest.\<close>

primrec strncpy_n :: "nat \<Rightarrow> u32 \<Rightarrow> u32 \<Rightarrow> memory \<Rightarrow> memory" where
  "strncpy_n 0 d s m = m"
| "strncpy_n (Suc n) d s m =
     (let c = m s; m = m(d := c) in if c \<noteq> 0 then strncpy_n n (d + 1) (s + 1) m else fill_up (Suc n) (d + 1) 0 m)"

definition strncpy :: "u32 \<Rightarrow> u32 \<Rightarrow> u32 \<Rightarrow> memory \<Rightarrow> u32 \<times> memory" where
  "strncpy d s n m = (d, strncpy_n (unat n) d s m)"

definition strcat :: "u32 \<Rightarrow> u32 \<Rightarrow> memory \<Rightarrow> (u32 \<times> memory) option" where
  "strcat d s m = (case strlen m d of None \<Rightarrow> None | Some n \<Rightarrow> map_option (Pair d) (strcpy_from (d + n) s m))"

partial_function (option) strchr :: "memory \<Rightarrow> u32 \<Rightarrow> u32 \<Rightarrow> u32 option" where
  [code]: "strchr m s c = (if m s \<noteq> 0 \<and> m s \<noteq> ucast c then strchr m (s + 1) c else Some (if m s \<noteq> 0 then s else 0))"

text \<open>The arithmetic of \<open>atoi\<close> is that of 32-bit words; a result out of range is undefined in C.\<close>

partial_function (option) atoi_from :: "memory \<Rightarrow> u32 \<Rightarrow> u32 \<Rightarrow> u32 option" where
  [code]: "atoi_from m s n = (if 0x30 \<le> m s \<and> m s \<le> 0x39 then atoi_from m (s + 1) (n * 10 + ucast (m s) - 0x30) else Some n)"

definition atoi :: "memory \<Rightarrow> u32 \<Rightarrow> int option" where
  "atoi m s =
     (if m s = 0x2d then map_option (\<lambda>n. sint (n * (- 1))) (atoi_from m (s + 1) 0)
      else map_option (\<lambda>n. sint (n * 1)) (atoi_from m s 0))"

end
