(* ===== verification/Kprintf.thy ===== *)
theory Kprintf
  imports Console
begin

text \<open>
  Formatted output (\<open>kernel/kprintf.c\<close>) and the end of the kernel (\<open>kernel/panic.c\<close>). Every character goes to the
  screen and to the serial port. The variable arguments are a list of 32-bit words and strings in the order in
  which the format takes them; the list is long enough and of the right kinds, or the code's behaviour
  is undefined (\<open>None\<close>, as for a serial port that never becomes ready).
\<close>

datatype arg = Num u32 | Str "u8 list"

definition both :: "'w ports \<Rightarrow> u8 list \<Rightarrow> vga \<times> 'w \<Rightarrow> (vga \<times> 'w) option" where
  "both P str sw =
     (case vga_write P str sw of (s, w) \<Rightarrow> (case serial_write P str w of None \<Rightarrow> None | Some w \<Rightarrow> Some (s, w)))"

fun each :: "'w ports \<Rightarrow> u8 list \<Rightarrow> vga \<times> 'w \<Rightarrow> (vga \<times> 'w) option" where
  "each P [] sw = Some sw"
| "each P (c # cs) sw = (case both P [c] sw of None \<Rightarrow> None | Some sw \<Rightarrow> each P cs sw)"

section \<open>Numbers\<close>

definition digit :: "u32 \<Rightarrow> u8" where
  "digit d = ucast (if d < 10 then 0x30 + d else 0x61 + d - 10)"

text \<open>The digits, least significant first. The loop ends because the base is at least 2.\<close>

function digits :: "u32 \<Rightarrow> u32 \<Rightarrow> u8 list" where
  "digits base n = (if base < 2 \<or> n div base = 0 then [digit (n mod base)] else digit (n mod base) # digits base (n div base))"
  by pat_completeness auto
termination
proof (relation "measure (\<lambda>(base, n). unat n)", goal_cases)
  case (2 base n)
  then have b: "2 \<le> unat base" and nz: "n div base \<noteq> 0" by (simp_all add: word_less_nat_alt)
  then have "n \<noteq> 0" by auto
  then have "0 < unat n" by (simp add: unat_gt_0)
  with b have "unat n div unat base < unat n" by (intro div_less_dividend) auto
  then show ?case by (simp add: unat_div)
qed simp

declare digits.simps [simp del]

text \<open>
  The buffer has 16 bytes: a width above 16 writes past it, which is undefined.
\<close>

definition padded :: "u32 \<Rightarrow> u32 \<Rightarrow> u32 \<Rightarrow> u8 list" where
  "padded n base width = (let ds = digits base n in rev (ds @ replicate (unat width - length ds) 0x30))"

definition out_u :: "'w ports \<Rightarrow> u32 \<Rightarrow> u32 \<Rightarrow> u32 \<Rightarrow> vga \<times> 'w \<Rightarrow> (vga \<times> 'w) option" where
  "out_u P n base width sw = (if 16 < width then None else each P (padded n base width) sw)"

section \<open>Formats\<close>

fun read_width :: "u8 list \<Rightarrow> u32 \<Rightarrow> u32 \<times> u8 list" where
  "read_width (c # fmt) width =
     (if 0x30 \<le> c \<and> c \<le> 0x39 then read_width fmt (width * 10 + (ucast c - 0x30)) else (width, c # fmt))"
| "read_width [] width = (width, [])"

lemma read_width_shorter: "read_width fmt width = (w, rest) \<Longrightarrow> length rest \<le> length fmt"
  by (induction fmt width rule: read_width.induct) (auto split: if_split_asm)

text \<open>
  One conversion: the width, the rest of the format from the conversion character on, and the arguments left. The
  result is the rest of the format after the conversion.
\<close>

definition signed_out :: "'w ports \<Rightarrow> u32 \<Rightarrow> u32 \<Rightarrow> vga \<times> 'w \<Rightarrow> (vga \<times> 'w) option" where
  "signed_out P n width sw =
     (if n <s 0 then (case both P [0x2d] sw of None \<Rightarrow> None | Some sw \<Rightarrow> out_u P (- n) 10 width sw) else out_u P n 10 width sw)"

fun convert :: "'w ports \<Rightarrow> u32 \<Rightarrow> u8 list \<Rightarrow> arg list \<Rightarrow> vga \<times> 'w \<Rightarrow> (u8 list \<times> arg list \<times> vga \<times> 'w) option" where
  "convert P width [] as sw = None"
| "convert P width (c # fmt) as sw =
     (if c = 0x25 then map_option (\<lambda>sw. (fmt, as, sw)) (both P [0x25] sw)
      else if c = 0x73 then (case as of Str str # as \<Rightarrow> map_option (\<lambda>sw. (fmt, as, sw)) (both P str sw) | _ \<Rightarrow> None)
      else if c = 0x63 then (case as of Num n # as \<Rightarrow> map_option (\<lambda>sw. (fmt, as, sw)) (both P [ucast n] sw) | _ \<Rightarrow> None)
      else if c = 0x64 \<or> c = 0x69 then (case as of Num n # as \<Rightarrow> map_option (\<lambda>sw. (fmt, as, sw)) (signed_out P n width sw) | _ \<Rightarrow> None)
      else if c = 0x75 then (case as of Num n # as \<Rightarrow> map_option (\<lambda>sw. (fmt, as, sw)) (out_u P n 10 width sw) | _ \<Rightarrow> None)
      else if c = 0x78 then (case as of Num n # as \<Rightarrow> map_option (\<lambda>sw. (fmt, as, sw)) (out_u P n 16 width sw) | _ \<Rightarrow> None)
      else if c = 0x70 then
        (case as of Num n # as \<Rightarrow>
           (case both P [0x30, 0x78] sw of None \<Rightarrow> None | Some sw \<Rightarrow> map_option (\<lambda>sw. (fmt, as, sw)) (out_u P n 16 8 sw))
         | _ \<Rightarrow> None)
      else if c = 0x6c then
        (case fmt of
           [] \<Rightarrow> None
         | d # fmt \<Rightarrow>
            if d = 0x75 \<or> d = 0x64 then
              (case as of Num n # as \<Rightarrow> map_option (\<lambda>sw. (fmt, as, sw)) (out_u P n 10 width sw) | _ \<Rightarrow> None)
            else Some (fmt, as, sw))
      else Some (fmt, as, sw))"

lemma convert_shorter: "convert P width fmt as sw = Some (fmt', r) \<Longrightarrow> length fmt' < length fmt"
  by (cases "(P, width, fmt, as, sw)" rule: convert.cases)
    (auto split: if_split_asm list.split_asm arg.split_asm option.split_asm)

function kprintf :: "'w ports \<Rightarrow> u8 list \<Rightarrow> arg list \<Rightarrow> vga \<times> 'w \<Rightarrow> (vga \<times> 'w) option" where
  "kprintf P [] as sw = Some sw"
| "kprintf P (c # fmt) as sw =
     (if c \<noteq> 0x25 then (case both P [c] sw of None \<Rightarrow> None | Some sw \<Rightarrow> kprintf P fmt as sw)
      else
        (case (case fmt of d # fmt' \<Rightarrow> if d = 0x30 then read_width fmt' 0 else (0, fmt) | [] \<Rightarrow> (0, [])) of
           (width, rest) \<Rightarrow>
             (case convert P width rest as sw of None \<Rightarrow> None | Some (rest, as, sw) \<Rightarrow> kprintf P rest as sw)))"
  by pat_completeness auto
termination
proof (relation "measure (\<lambda>(P, fmt, as, sw). length fmt)", goal_cases)
  case (3 P c fmt as sw width rest a)
  have "length rest \<le> length fmt"
    using 3(2) by (auto split: list.split_asm if_split_asm dest!: read_width_shorter [OF sym])
  then show ?case using 3 convert_shorter by fastforce
qed simp_all

section \<open>Ending\<close>

definition kputs :: "'w ports \<Rightarrow> u8 list \<Rightarrow> vga \<times> 'w \<Rightarrow> (vga \<times> 'w) option" where
  "kputs P str sw = both P str sw"

text \<open>What \<open>panic\<close> has written when it stops the processor.\<close>

definition panic_text :: "u8 list" where
  "panic_text = map (of_char :: char \<Rightarrow> u8) ''KERNEL PANIC: ''"

definition panic :: "'w ports \<Rightarrow> u8 list \<Rightarrow> vga \<times> 'w \<Rightarrow> (vga \<times> 'w) option" where
  "panic P message sw =
     (case vga_write P [0x0a] (vga_write P message (vga_write P panic_text sw)) of
        (s, w) \<Rightarrow>
          (case serial_write P panic_text w of
             None \<Rightarrow> None
           | Some w \<Rightarrow> map_option (Pair s) (serial_write P message w)))"

end
