(* ===== verification/Libc_Props.thy ===== *)
theory Libc_Props
  imports Libc Kprintf
begin

text \<open>
  The C library: block moves of overlapping memory, strings, and that the number parser reads back the numbers the kernel
  prints.
\<close>

section \<open>Blocks\<close>

text \<open>Memory with the \<open>n\<close> bytes from \<open>d\<close> on replaced by those of \<open>m\<close> from \<open>s\<close> on.\<close>

definition moved :: "u32 \<Rightarrow> u32 \<Rightarrow> nat \<Rightarrow> memory \<Rightarrow> memory" where
  "moved d s n m = (\<lambda>x. if unat (x - d) < n then m (s + (x - d)) else m x)"

lemma unat_step:
  assumes "x \<noteq> d"
  shows "unat (x - d) = Suc (unat (x - (d + 1)))"
proof -
  have "x - d \<noteq> 0" using assms by simp
  then show ?thesis using unat_minus_one [of "x - d"] unat_gt_0 [of "x - d"] by (simp add: diff_diff_eq)
qed

lemma unat_before: "unat (d - (d + 1) :: u32) = 2 ^ 32 - 1"
  by (simp add: unsigned_minus_1_eq_mask mask_eq_exp_minus_1)

text \<open>Going up is right unless the destination starts inside the source, going down unless the source starts inside the destination.\<close>

lemma copy_up_moved:
  assumes "n < 2 ^ 32" "\<not> (0 < unat (a - b) \<and> unat (a - b) < n)"
  shows "copy_up n a b m = moved a b n m"
  using assms
proof (induction n arbitrary: a b m)
  case (Suc n)
  have IH: "copy_up (Suc n) a b m = moved (a + 1) (b + 1) n (m(a := m b))"
    using Suc.IH [of "a + 1" "b + 1"] Suc.prems by auto
  have "moved (a + 1) (b + 1) n (m(a := m b)) x = moved a b (Suc n) m x" for x
  proof (cases "x = a")
    case True
    then show ?thesis using Suc.prems(1) unat_before [of a] by (simp add: moved_def)
  next
    case False
    have "b + (x - a) \<noteq> a" if "unat (x - a) < Suc n"
    proof
      assume "b + (x - a) = a"
      then have "x - a = a - b" by (simp add: algebra_simps)
      moreover have "0 < unat (x - a)" using False by (simp add: unat_gt_0)
      ultimately show False using Suc.prems(2) that by simp
    qed
    moreover have "b + 1 + (x - (a + 1)) = b + (x - a)" by simp
    ultimately show ?thesis using False unat_step [OF False] by (simp add: moved_def)
  qed
  then show ?case unfolding IH by (rule ext)
qed (simp add: moved_def)

lemma copy_down_moved:
  assumes "n < 2 ^ 32" "\<not> (0 < unat (b - a) \<and> unat (b - a) < n)"
  shows "copy_down n a b m = moved (a - of_nat n) (b - of_nat n) n m"
  using assms
proof (induction n arbitrary: a b m)
  case (Suc n)
  define d s where "d = a - of_nat (Suc n)" and "s = b - of_nat (Suc n)"
  have a: "a - 1 = d + of_nat n" "b - 1 = s + of_nat n" "a - 1 - of_nat n = d" "b - 1 - of_nat n = s" by (simp_all add: d_def s_def)
  have un: "unat (of_nat n :: u32) = n" using Suc.prems(1) by (simp add: unat_of_nat)
  have sd: "s - d = b - a" by (simp add: d_def s_def)
  have IH: "copy_down (Suc n) a b m = moved d s n (m(d + of_nat n := m (s + of_nat n)))"
    using Suc.IH [of "b - 1" "a - 1"] Suc.prems a sd by auto
  have "moved d s n (m(d + of_nat n := m (s + of_nat n))) x = moved d s (Suc n) m x" for x
  proof (cases "unat (x - d) < n")
    case True
    have "s + (x - d) \<noteq> d + of_nat n"
    proof
      assume "s + (x - d) = d + of_nat n"
      then have "s - d = of_nat n - (x - d)" by (simp add: algebra_simps)
      moreover have "x - d \<le> of_nat n" using True by (simp add: word_le_nat_alt un)
      ultimately have "unat (s - d) = n - unat (x - d)" using unat_sub [of "x - d" "of_nat n"] un by metis
      then show False using Suc.prems(2) True sd by simp
    qed
    then show ?thesis using True by (simp add: moved_def)
  next
    case False
    have "x = d + of_nat n \<longleftrightarrow> unat (x - d) = n"
      by (metis add_diff_cancel_left' diff_add_cancel add.commute un word_unat_eq_iff)
    then show ?thesis using False by (auto simp: moved_def)
  qed
  then show ?case unfolding IH d_def s_def by (rule ext)
qed (simp add: moved_def)

text \<open>
  Moving memory that does not reach past the last address gives the old bytes of the source at the destination, whether the
  blocks overlap or not, and leaves the rest alone.
\<close>
theorem memmove_correct:
  assumes "unat d + unat n \<le> 2 ^ 32" "unat s + unat n \<le> 2 ^ 32"
  shows "memmove d s n m = (d, moved d s (unat n) m)"
proof (cases "d < s")
  case True
  then have "unat (d - s) = 2 ^ 32 + unat d - unat s" using unat_sub_if' [of d s] by (simp add: word_less_nat_alt)
  then have "copy_up (unat n) d s m = moved d s (unat n) m"
    using assms by (intro copy_up_moved) (use unsigned_less [of n, where 'a = nat] in auto)
  then show ?thesis using True by (simp add: memmove_def)
next
  case False
  have "s = d \<or> unat (s - d) = 2 ^ 32 + unat s - unat d"
    using False unat_sub_if' [of s d] by (auto simp: word_less_nat_alt word_unat_eq_iff)
  moreover have "unat s \<le> unat d" using False by (simp add: word_less_nat_alt)
  ultimately have "copy_down (unat n) (d + n) (s + n) m = moved d s (unat n) m"
    using copy_down_moved [of "unat n" "s + n" "d + n" m] assms unsigned_less [of n, where 'a = nat] by force
  then show ?thesis using False by (simp add: memmove_def)
qed

section \<open>Numbers\<close>

definition is_digit :: "u8 \<Rightarrow> bool" where
  "is_digit c \<longleftrightarrow> 0x30 \<le> c \<and> c \<le> 0x39"

definition add_digit :: "u32 \<Rightarrow> u8 \<Rightarrow> u32" where
  "add_digit n c = n * 10 + ucast c - 0x30"

lemma atoi_from_digits:
  assumes "\<forall>k < length ds. m (s + of_nat k) = ds ! k" "list_all is_digit ds" "\<not> is_digit (m (s + of_nat (length ds)))"
  shows "atoi_from m s n = Some (foldl add_digit n ds)"
  using assms
proof (induction ds arbitrary: s n)
  case Nil
  then show ?case by (subst atoi_from.simps) (auto simp: is_digit_def)
next
  case (Cons c ds)
  have c: "m s = c" "is_digit c" using Cons.prems(1,2) by force+
  have "m (s + 1 + of_nat k) = ds ! k" if "k < length ds" for k
    using Cons.prems(1) [rule_format, of "Suc k"] that by (simp add: add.assoc)
  then have "atoi_from m (s + 1) (add_digit n c) = Some (foldl add_digit (add_digit n c) ds)"
    using Cons.prems(2,3) by (intro Cons.IH) (simp_all add: add.assoc)
  then show ?case using c by (subst atoi_from.simps) (simp add: is_digit_def add_digit_def)
qed

lemma decimal_digit: "n < 10 \<Longrightarrow> is_digit (digit n)" "n < 10 \<Longrightarrow> ucast (digit n) = 0x30 + n"
proof -
  assume n: "n < 10"
  then have u: "unat (0x30 + n) = 48 + unat n" by (simp add: word_less_nat_alt unat_word_ariths)
  then have d: "unat (digit n) = 48 + unat n"
    using n by (simp add: digit_def unsigned_ucast_eq take_bit_nat_eq_self word_less_nat_alt)
  then show "is_digit (digit n)" using n by (simp add: is_digit_def word_le_nat_alt word_less_nat_alt)
  have "unat (ucast (digit n) :: u32) = unat (0x30 + n)"
    using d u n by (simp add: unsigned_ucast_eq take_bit_nat_eq_self word_less_nat_alt)
  then show "ucast (digit n) = 0x30 + n" by (simp add: word_unat_eq_iff)
qed

lemma decimal_digits: "list_all is_digit (digits 10 n)" "foldl add_digit 0 (rev (digits 10 n)) = n"
proof (induction "10 :: u32" n rule: digits.induct)
  case (1 n)
  have lt: "n mod 10 < 10" by (simp add: word_mod_less_divisor)
  note d = decimal_digit [OF lt]
  have dm: "n div 10 * 10 + n mod 10 = n" by (rule div_mult_mod_eq)
  { case 1
    then show ?case using "1.hyps"(1) d(1) by (subst digits.simps) auto }
  { case 2
    then show ?case using "1.hyps"(2) d(2) dm by (subst digits.simps) (auto simp: add_digit_def) }
qed

lemma digits_length:
  assumes "2 \<le> unat base" "unat n < unat base ^ Suc k"
  shows "length (digits base n) \<le> Suc k"
  using assms
proof (induction k arbitrary: n)
  case 0
  then have "n div base = 0" by (simp add: unat_div div_less flip: unat_eq_zero)
  then show ?case by (subst digits.simps) simp
next
  case (Suc k)
  have "unat (n div base) < unat base ^ Suc k"
    using Suc.prems by (simp add: unat_div less_mult_imp_div_less mult.commute)
  then show ?case using Suc.IH [of "n div base"] Suc.prems(1) by (subst digits.simps) simp
qed

text \<open>The digits fit the buffer of 16 bytes in both bases, with the padding of a width of at most 16.\<close>

lemma digits_fit: "length (digits 10 n) \<le> 10" "length (digits 16 n) \<le> 8"
  using digits_length [of 10 n 9] digits_length [of 16 n 7] unsigned_less [of n, where 'a = nat] by simp_all

lemma padded_fits: "unat width \<le> 16 \<Longrightarrow> length (padded n 10 width) \<le> 16" "unat width \<le> 16 \<Longrightarrow> length (padded n 16 width) \<le> 16"
  using digits_fit [of n] by (auto simp: padded_def Let_def)

lemma padded_decimal: "list_all is_digit (padded n 10 width)" "foldl add_digit 0 (padded n 10 width) = n"
proof -
  have z: "foldl add_digit 0 (replicate k 0x30) = 0" for k by (induction k) (simp_all add: add_digit_def)
  show "list_all is_digit (padded n 10 width)"
    using decimal_digits(1) [of n] by (auto simp: padded_def Let_def list_all_iff is_digit_def)
  show "foldl add_digit 0 (padded n 10 width) = n" using decimal_digits(2) [of n] by (simp add: padded_def Let_def z)
qed

text \<open>
  The characters the kernel prints for a number, padded or not, followed by anything that is not a digit, are read back as that
  number.
\<close>
theorem printed_number_parses:
  assumes "\<forall>k < length (padded n 10 width). m (s + of_nat k) = padded n 10 width ! k" "\<not> is_digit (m (s + of_nat (length (padded n 10 width))))"
  shows "atoi m s = Some (sint n)"
proof -
  have "padded n 10 width \<noteq> []" by (simp add: padded_def Let_def) (metis digits.simps list.distinct(1))
  then have "m s = padded n 10 width ! 0" "is_digit (padded n 10 width ! 0)"
    using assms(1) padded_decimal(1) [of n width] by (force simp: list_all_iff)+
  then have "m s \<noteq> 0x2d" by (auto simp: is_digit_def)
  moreover have "atoi_from m s 0 = Some n"
    using atoi_from_digits [OF assms(1) padded_decimal(1) assms(2), of 0] by (simp add: padded_decimal(2))
  ultimately show ?thesis by (simp add: atoi_def)
qed

section \<open>Strings\<close>

text \<open>Memory holds the string \<open>cs\<close> at \<open>s\<close>, with its terminating zero.\<close>

definition cstring :: "memory \<Rightarrow> u32 \<Rightarrow> u8 list \<Rightarrow> bool" where
  "cstring m s cs \<longleftrightarrow> 0 \<notin> set cs \<and> (\<forall>k < length cs. m (s + of_nat k) = cs ! k) \<and> m (s + of_nat (length cs)) = 0"

lemma cstring_Cons: "cstring m s (c # cs) \<longleftrightarrow> c \<noteq> 0 \<and> m s = c \<and> cstring m (s + 1) cs"
proof -
  have "(\<forall>k < length (c # cs). m (s + of_nat k) = (c # cs) ! k) \<longleftrightarrow> m s = c \<and> (\<forall>k < length cs. m (s + 1 + of_nat k) = cs ! k)"
    by (auto simp: less_Suc_eq_0_disj add.assoc)
  then show ?thesis by (auto simp: cstring_def add.assoc)
qed

lemma cstring_Nil: "cstring m s [] \<longleftrightarrow> m s = 0"
  by (simp add: cstring_def)

lemma strlen_from_string: "cstring m (s + n) cs \<Longrightarrow> strlen_from m s n = Some (n + of_nat (length cs))"
  by (induction cs arbitrary: n; subst strlen_from.simps) (auto simp: cstring_Nil cstring_Cons add.assoc)

theorem strlen_correct: "cstring m s cs \<Longrightarrow> strlen m s = Some (of_nat (length cs))"
  using strlen_from_string [of m s 0 cs] by (simp add: strlen_def)

text \<open>Comparing ends at the first difference; its sign is that of the lexicographic order of the bytes.\<close>

fun lex_diff :: "u8 list \<Rightarrow> u8 list \<Rightarrow> int" where
  "lex_diff [] [] = 0"
| "lex_diff [] (d # ds) = - uint d"
| "lex_diff (c # cs) [] = uint c"
| "lex_diff (c # cs) (d # ds) = (if c = d then lex_diff cs ds else uint c - uint d)"

theorem strcmp_correct: "cstring m a cs \<Longrightarrow> cstring m b ds \<Longrightarrow> strcmp m a b = Some (lex_diff cs ds)"
  by (induction cs ds arbitrary: a b rule: lex_diff.induct; subst strcmp.simps) (auto simp: cstring_Nil cstring_Cons)

lemma lex_diff_zero: "0 \<notin> set cs \<Longrightarrow> 0 \<notin> set ds \<Longrightarrow> lex_diff cs ds = 0 \<longleftrightarrow> cs = ds"
  by (induction cs ds rule: lex_diff.induct) (auto simp: word_uint_eq_iff)

end
