(* ===== verification/Vmm_Selftest.thy ===== *)
theory Vmm_Selftest
  imports Vmm_Props
begin

text \<open>
  The self-tests of \<open>mm/vmm.c\<close> that the kernel runs at boot: both succeed on every memory that keeps the invariant and has two
  pages and two address spaces to spare, and give everything back.
\<close>

section \<open>Pages to spare\<close>

definition spare :: "pmm \<Rightarrow> nat set" where
  "spare s = {p. 0 < p \<and> p < unat (total_pages_count s) \<and> \<not> bit_test p s}"

lemma spare_alloc:
  assumes "pmm_inv s" "pmm_alloc_page s = (a, s')"
  shows "a \<noteq> 0 \<longleftrightarrow> spare s \<noteq> {}" "a \<noteq> 0 \<Longrightarrow> pfn a \<in> spare s \<and> spare s' = spare s - {pfn a}"
proof -
  show s: "pfn a \<in> spare s \<and> spare s' = spare s - {pfn a}" if "a \<noteq> 0"
    using pmm_alloc_some [OF assms that] by (auto simp: spare_def free_frames_def)
  have "spare s = {}" if "a = 0"
    using assms(2) that pmm_invD(1) [OF assms(1)]
    by (cases rule: pmm_alloc_cases [of s]) (auto simp: spare_def MAX_PHYS_PAGES_def word_unat_eq_iff unat_word_ariths unat_of_nat)
  with s show "a \<noteq> 0 \<longleftrightarrow> spare s \<noteq> {}" by blast
qed

lemma spare_retain:
  assumes "pmm_inv s" "refcount s (pfn a) \<noteq> 0"
  shows "spare (pmm_retain_page a s) = spare s"
proof -
  have "pfn a \<in> owned_frames s" by (rule refcount_owned [THEN iffD1, OF assms(2)])
  from pmm_retain_owned [OF assms(1) this] show ?thesis by (simp add: spare_def)
qed

lemma spare_free:
  assumes "pmm_inv s" "refcount s (pfn a) \<noteq> 0"
  shows "spare (pmm_free_page a s) = spare s \<union> (if refcount s (pfn a) = 1 then {pfn a} else {})"
proof -
  have o: "pfn a \<in> owned_frames s" by (rule refcount_owned [THEN iffD1, OF assms(2)])
  have "refcount s (pfn a) = unat (page_refs s (pfn a))" using o by (simp add: refcount_def owned_frames_def)
  then have c: "1 < page_refs s (pfn a) \<longleftrightarrow> refcount s (pfn a) \<noteq> 1" using assms(2) by (auto simp: word_less_nat_alt)
  have "0 < pfn a" "pfn a < unat (total_pages_count s)" using assms(1) o by (auto simp: pmm_inv_def)
  then show ?thesis
    using c unfolding pmm_free_owned [OF assms(1) o] by (auto simp: spare_def drop_frame_def)
qed

section \<open>A space with one page\<close>

text \<open>Space \<open>i\<close> of \<open>m\<close> has one owner and one page, in slot \<open>x\<close> with entry \<open>e\<close>.\<close>

definition one_page :: "nat \<Rightarrow> nat \<times> nat \<Rightarrow> u32 \<Rightarrow> mm \<Rightarrow> bool" where
  "one_page i x e m \<longleftrightarrow> live i m \<and> refs (spaces (vm m) i) = 1 \<and> ents (vm m) i = (\<lambda>y. if y = x then e else 0) \<and> bit e 0"

lemma one_pageD:
  assumes "one_page i x e m"
  shows "live i m" "refs (spaces (vm m) i) = 1" "ents (vm m) i x = e" "\<And>y. bit (ents (vm m) i y) 0 \<longleftrightarrow> y = x" "bit e 0"
  using assms by (auto simp: one_page_def)

lemma one_page_slots:
  assumes "one_page i x e m"
  shows "present_slots (spaces (vm m) i) = [x]"
proof -
  note L = liveD [OF one_pageD(1) [OF assms]]
  have "y \<in> set (present_slots (spaces (vm m) i)) \<longleftrightarrow> y = x" for y
    using one_pageD(4) [OF assms, of y] L(2,3) by (simp add: present_slots_set ents_def)
  then have "set (present_slots (spaces (vm m) i)) = {x}" by blast
  moreover have "ys = [x]" if "set ys = {x}" "distinct ys" for ys
    using that by (cases ys; cases "tl ys") auto
  ultimately show ?thesis using distinct_present_slots [of "spaces (vm m) i"] by blast
qed

lemma destroy_one:
  assumes o: "one_page i x e m"
  defines "m' \<equiv> vmm_destroy_address_space (Some i) m"
  shows "mem_inv m'" "pm m' = pmm_free_page (frame_of e) (pm m)" "phys m' = phys m" "space_used (vm m') = (space_used (vm m))(i := False)"
    "\<And>j. j \<noteq> i \<Longrightarrow> spaces (vm m') j = spaces (vm m) j" "\<And>j. j \<noteq> i \<Longrightarrow> ents (vm m') j = ents (vm m) j"
    "current_space (vm m') = (if current_space (vm m) = Some i then None else current_space (vm m))"
proof -
  note D = one_pageD [OF o] and L = liveD [OF one_pageD(1) [OF o]]
  have ut: "user_tables (spaces (vm m) i) (fst x) (snd x) = e"
    using present_slots_entry [of x "spaces (vm m) i"] one_page_slots [OF o] D(3) L(2,3) by (simp add: ents_def)
  show "mem_inv m'" unfolding m'_def by (rule destroy_inv [OF L])
  have eq: "m' = m\<lparr>pm := pmm_free_page (frame_of e) (pm m),
      vm := (let v1 = upd_space i (\<lambda>s. s\<lparr>refs := refs s - 1\<rparr>) (vm m);
                 v2 = (if current_space v1 = Some i then vmm_switch_address_space None v1 else v1)
             in v2\<lparr>space_used := (space_used v2)(i := False)\<rparr>)\<rparr>"
    using L(2,3) ut one_page_slots [OF o] by (simp add: m'_def vmm_destroy_address_space_def D(2) Let_def case_prod_unfold)
  show "pm m' = pmm_free_page (frame_of e) (pm m)" "phys m' = phys m" by (simp_all add: eq)
  show u: "space_used (vm m') = (space_used (vm m))(i := False)"
    "current_space (vm m') = (if current_space (vm m) = Some i then None else current_space (vm m))"
    by (simp_all add: eq Let_def vmm_switch_address_space_def)
  show s: "spaces (vm m') j = spaces (vm m) j" if "j \<noteq> i" for j
    using that by (simp add: eq Let_def vmm_switch_address_space_def)
  show "ents (vm m') j = ents (vm m) j" if "j \<noteq> i" for j
    using s [OF that] that by (auto simp: ents_def u fun_eq_iff)
qed

text \<open>The start of both tests: a new space with one writable page at \<open>va\<close>, which is current and holds \<open>b\<close> at \<open>va\<close>.\<close>

lemma test_page:
  fixes b :: u8
  assumes inv: "mem_inv m" and c: "vmm_create_address_space (vm m) = (Some a, v)"
    and al: "pmm_alloc_page (pm m) = (p, p1)" "p \<noteq> 0" and va: "mappable va" "frame_of va = va"
  defines "m1 \<equiv> on_vm (vmm_switch_address_space (Some a)) (m\<lparr>pm := p1, vm := upd_space a (put_pte va (new_pte p PAGE_WRITE)) v\<rparr>)"
  defines "m2 \<equiv> m1\<lparr>phys := (phys m1)(p := b)\<rparr>"
  shows "vstore va b m1 = Some m2" "one_page a (slot_of va) (new_pte p PAGE_WRITE) m2" "pm m2 = p1" "cr3 (vm m2) = Some a"
    "current_space (vm m2) = Some a" "space_used (vm m2) = (space_used (vm m))(a := True)" "\<not> space_used (vm m) a"
    "\<And>j. j \<noteq> a \<Longrightarrow> ents (vm m2) j = ents (vm m) j" "refcount (pm m2) = (refcount (pm m))(pfn p := 1)" "refcount (pm m) (pfn p) = 0"
    "phys m2 p = b" "frame_of p = p"
proof -
  let ?m = "m\<lparr>vm := v\<rparr>"
  have a: "a < MAX_SPACES" "\<not> space_used (vm m) a"
    "v = (vm m)\<lparr>space_used := (space_used (vm m))(a := True), spaces := (spaces (vm m))(a := fresh_space (vm m) (spaces (vm m) a))\<rparr>"
    using c by (auto elim: create_cases)
  have e: "ents v = ents (vm m)" by (rule create_ents [OF c])
  have "vmm_wf v" by (rule create_wf [OF mem_invD(2) [OF inv] c])
  then have l: "live a ?m" using mem_invD [OF inv] a e by (simp add: live_def mem_inv_def)
  have z: "ents (vm ?m) a y = 0" for y using e a(2) by (simp add: ents_def)
  have w: "frame_of PAGE_WRITE = (0 :: u32)" by (simp add: frame_of_def)
  have al': "pmm_alloc_page (pm ?m) = (p, p1)" using al(1) by simp
  note S = map_fresh_spec [OF l al' al(2) va(1) z w]
  define m0 where "m0 = m\<lparr>pm := p1, vm := upd_space a (put_pte va (new_pte p PAGE_WRITE)) v\<rparr>"
  have m1: "m1 = on_vm (vmm_switch_address_space (Some a)) m0" by (simp add: m1_def m0_def)
  have l0: "live a m0" "ents (vm m0) = set_entry a (slot_of va) (new_pte p PAGE_WRITE) (ents (vm m))" using S(1,4) e by (simp_all add: m0_def)
  have l1: "live a m1" unfolding m1 by (rule switch_live [OF l0(1)]) (use l0(1) in blast)
  have f1: "ents (vm m1) = ents (vm m0)" "pm m1 = p1" "cr3 (vm m1) = Some a" "current_space (vm m1) = Some a" "phys m1 = phys m"
    "space_used (vm m1) = (space_used (vm m))(a := True)" "refs (spaces (vm m1) a) = 1"
    using create_refs [OF c] by (simp_all add: m1 on_vm_def m0_def) (simp_all add: vmm_switch_address_space_def a(3) put_pte_def Let_def)
  show fp: "frame_of p = p" by (rule alloc_frame [OF mem_invD(1) [OF inv] al])
  have ent: "ents (vm m1) a = (\<lambda>y. if y = slot_of va then new_pte p PAGE_WRITE else 0)"
    using z e by (simp add: f1(1) l0(2) set_entry_def fun_eq_iff)
  have b0: "bit (new_pte p PAGE_WRITE) 0" by (simp add: new_pte_bits)
  have fe: "frame_of (new_pte p PAGE_WRITE) = p" using frame_new_pte [OF w, of p] fp by simp
  have low: "va AND 0xfff = 0" using va(2) frame_plus_low [of va] by (metis add_cancel_right_right)
  have "translate (vm m1) va = Some p"
    using translate_user [OF l1 f1(3) va(1)] ent b0 fe low by simp
  then show "vstore va b m1 = Some m2" by (simp add: vstore_def m2_def)
  show "one_page a (slot_of va) (new_pte p PAGE_WRITE) m2" using l1 f1(7) ent b0 by (simp add: one_page_def m2_def)
  show "pm m2 = p1" "cr3 (vm m2) = Some a" "current_space (vm m2) = Some a" "space_used (vm m2) = (space_used (vm m))(a := True)"
    "phys m2 p = b" by (simp_all add: m2_def f1)
  show "\<not> space_used (vm m) a" by (rule a(2))
  show "ents (vm m2) j = ents (vm m) j" if "j \<noteq> a" for j using that by (simp add: m2_def f1(1) l0(2) set_entry_def)
  show "refcount (pm m2) = (refcount (pm m))(pfn p := 1)" "refcount (pm m) (pfn p) = 0"
    using pa.alloc_refs [OF mem_invD(1) [OF inv] al] pa.alloc_fresh [OF mem_invD(1) [OF inv] al] by (simp_all add: m2_def f1(2))
qed

section \<open>Page accounts\<close>

text \<open>The pages of the two tests: what is taken and shared is given back.\<close>

lemma balance_free_last:
  assumes i: "pmm_inv s" and p: "pmm_alloc_page s = (p, p1)" "p \<noteq> 0" and s': "pmm_inv s'" "refcount s' = refcount p1" "spare s' = spare p1"
  shows "refcount (pmm_free_page p s') = refcount s" "spare (pmm_free_page p s') = spare s" "pmm_inv (pmm_free_page p s')"
proof -
  have r1: "refcount p1 = (refcount s)(pfn p := 1)" "refcount s (pfn p) = 0" by (rule pa.alloc_refs [OF i p], rule pa.alloc_fresh [OF i p])
  have nz: "refcount s' (pfn p) \<noteq> 0" by (simp add: s' r1)
  show "pmm_inv (pmm_free_page p s')" by (rule pa.free_inv [OF s'(1) nz])
  show "refcount (pmm_free_page p s') = refcount s" using pa.free_refs [OF s'(1) nz] r1 by (auto simp: s')
  have "pfn p \<in> spare s" "spare p1 = spare s - {pfn p}" using spare_alloc(2) [OF i p(1)] p(2) by auto
  then show "spare (pmm_free_page p s') = spare s" using spare_free [OF s'(1) nz] r1 by (auto simp: s')
qed

lemma balance_share:
  assumes i: "pmm_inv s" and p: "refcount s (pfn p) = 1" and q: "pmm_alloc_page (pmm_retain_page p s) = (q, p2)" "q \<noteq> 0"
  shows "refcount (pmm_free_page q (pmm_free_page p p2)) = refcount s" "spare (pmm_free_page q (pmm_free_page p p2)) = spare s"
    "pmm_inv (pmm_free_page q (pmm_free_page p p2))"
proof -
  let ?s = "pmm_retain_page p s"
  have nz: "refcount s (pfn p) \<noteq> 0" using p by simp
  have R: "refcount ?s = (refcount s)(pfn p := 2)" "pmm_inv ?s" "spare ?s = spare s"
    using pa.retain_refs [OF i nz] pa.retain_inv [OF i nz] spare_retain [OF i nz] p by (simp_all add: numeral_2_eq_2)
  have A: "refcount p2 = (refcount ?s)(pfn q := 1)" "refcount ?s (pfn q) = 0" "pmm_inv p2"
    by (rule pa.alloc_refs [OF R(2) q], rule pa.alloc_fresh [OF R(2) q], rule pa.alloc_inv [OF R(2) q(1)])
  have ne: "pfn q \<noteq> pfn p" using A(2) R(1) by auto
  have p2: "refcount p2 (pfn p) = 2" using A(1) R(1) ne by simp
  let ?t = "pmm_free_page p p2"
  have T: "refcount ?t = (refcount s)(pfn q := 1)" "pmm_inv ?t" "spare ?t = spare p2"
    using pa.free_refs [OF A(3)] pa.free_inv [OF A(3)] spare_free [OF A(3)] p2 A(1) R(1) ne p by (auto simp: fun_eq_iff)
  have q0: "refcount ?t (pfn q) = 1" by (simp add: T)
  show "pmm_inv (pmm_free_page q ?t)" using pa.free_inv [OF T(2)] q0 by simp
  show "refcount (pmm_free_page q ?t) = refcount s" using pa.free_refs [OF T(2)] q0 T(1) A(2) R(1) ne by (auto simp: fun_eq_iff)
  have "pfn q \<in> spare ?s" "spare p2 = spare ?s - {pfn q}" using spare_alloc(2) [OF R(2) q(1)] q(2) by auto
  then show "spare (pmm_free_page q ?t) = spare s" using spare_free [OF T(2)] q0 by (auto simp: T(3) R(3))
qed

text \<open>Everything is as before, and the kernel's directory is current.\<close>

definition restored :: "mm \<Rightarrow> mm \<Rightarrow> bool" where
  "restored m m' \<longleftrightarrow> mem_inv m' \<and> refcount (pm m') = refcount (pm m) \<and> spare (pm m') = spare (pm m) \<and>
     space_used (vm m') = space_used (vm m) \<and> ents (vm m') = ents (vm m) \<and> current_space (vm m') = None"

lemma one_page_switch:
  assumes "one_page i x e m" "live k m"
  shows "one_page i x e (on_vm (vmm_switch_address_space (Some k)) m)"
  using assms switch_live [of i m "Some k"] by (auto simp: one_page_def on_vm_def) (simp_all add: vmm_switch_address_space_def)

lemma one_page_load:
  assumes "one_page i (slot_of va) e m" "mappable va" "frame_of va = va"
  shows "vload va (on_vm (vmm_switch_address_space (Some i)) m) = Some (phys m (frame_of e))"
    "vstore va b (on_vm (vmm_switch_address_space (Some i)) m) =
      Some (on_vm (vmm_switch_address_space (Some i)) m\<lparr>phys := (phys m)(frame_of e := b)\<rparr>)"
proof -
  let ?m = "on_vm (vmm_switch_address_space (Some i)) m"
  have o: "one_page i (slot_of va) e ?m" by (rule one_page_switch [OF assms(1) one_pageD(1) [OF assms(1)]])
  have "va AND 0xfff = 0" using assms(3) frame_plus_low [of va] by (metis add_cancel_right_right)
  moreover have "cr3 (vm ?m) = Some i" by (simp add: on_vm_def vmm_switch_address_space_def)
  ultimately have "translate (vm ?m) va = Some (frame_of e)"
    using translate_user [OF one_pageD(1) [OF o] _ assms(2)] one_pageD(3,5) [OF o] by simp
  then show "vload va ?m = Some (phys m (frame_of e))" "vstore va b ?m = Some (?m\<lparr>phys := (phys m)(frame_of e := b)\<rparr>)"
    by (simp_all add: vload_def vstore_def) (simp_all add: on_vm_def)
qed

text \<open>The end of both tests: the spaces \<open>a\<close> and \<open>c\<close> were unused before and have one page each.\<close>

lemma test_end:
  assumes a: "one_page a x e m" and c: "one_page c x f m" and ac: "a \<noteq> c" and u: "\<not> space_used (vm m0) a" "\<not> space_used (vm m0) c"
    and s: "space_used (vm m) = (space_used (vm m0))(a := True, c := True)" "\<And>j. j \<noteq> a \<Longrightarrow> j \<noteq> c \<Longrightarrow> ents (vm m) j = ents (vm m0) j"
    and cur: "current_space (vm m) = Some a"
    and bal: "refcount (pmm_free_page (frame_of e) (pmm_free_page (frame_of f) (pm m))) = refcount (pm m0)"
      "spare (pmm_free_page (frame_of e) (pmm_free_page (frame_of f) (pm m))) = spare (pm m0)"
  shows "restored m0 (vmm_destroy_address_space (Some a) (vmm_destroy_address_space (Some c) m))"
proof -
  define m1 where "m1 = vmm_destroy_address_space (Some c) m"
  note C = destroy_one [OF c, folded m1_def]
  have o1: "one_page a x e m1"
    using one_pageD [OF a] C(1,4,5,6) ac a by (auto simp: one_page_def live_def)
  note A = destroy_one [OF o1]
  let ?m = "vmm_destroy_address_space (Some a) m1"
  have "space_used (vm ?m) = space_used (vm m0)" using A(4) C(4) s(1) u ac by (auto simp: fun_eq_iff)
  moreover have "ents (vm ?m) j = ents (vm m0) j" for j
  proof (cases "j = a \<or> j = c")
    case True
    then show ?thesis using u calculation by (auto simp: ents_def)
  next
    case False
    then show ?thesis using A(6) C(6) s(2) by auto
  qed
  ultimately show ?thesis using A(1,2,7) C(2,7) bal cur ac unfolding m1_def restored_def by auto
qed

section \<open>The clone test\<close>

lemma create_free:
  assumes "j < MAX_SPACES" "\<not> space_used v j"
  obtains c v' where "vmm_create_address_space v = (Some c, v')"
  using assms create_none [of v] by (cases "vmm_create_address_space v"; cases "fst (vmm_create_address_space v)") fastforce+

lemma clone_one:
  assumes a: "one_page a x e m" and c: "vmm_create_address_space (vm m) = (Some c, v)" and q: "pmm_alloc_page (pm m) = (q, p2)" "q \<noteq> 0"
  obtains m3 where "vmm_clone_address_space (Some a) m = Ret (Some c, m3)" "one_page a x e m3" "one_page c x (new_pte q (e AND 0xfff)) m3"
    "frame_of (new_pte q (e AND 0xfff)) = q" "pm m3 = p2" "space_used (vm m3) = (space_used (vm m))(c := True)"
    "\<And>j. j \<noteq> c \<Longrightarrow> ents (vm m3) j = ents (vm m) j" "\<And>b. pfn b \<noteq> pfn q \<Longrightarrow> phys m3 b = phys m b" "phys m3 q = phys m (frame_of e)"
    "c \<noteq> a" "\<not> space_used (vm m) c" "current_space (vm m3) = current_space (vm m)"
proof -
  note D = one_pageD [OF a] and L = liveD [OF one_pageD(1) [OF a]]
  define m0 where "m0 = m\<lparr>vm := copy_vmas a c v\<rparr>"
  note S = clone_start [OF L c, folded m0_def]
  obtain t j where x: "x = (t, j)" by (cases x)
  have b: "t < 8" "j < 1024" using D(3,5) by (auto simp: ents_def slot_pte_def x split: if_splits)
  have l0: "live a m0" "live c m0" using S(1,3,4,6) L(2,3) by (auto simp: live_def)
  have e0: "bit (ents (vm m0) a (t, j)) 0" "ents (vm m0) c (t, j) = 0" "ents (vm m0) a (t, j) = e"
    using D(3,5) S(2,5) x by (auto simp: ents_def)
  have q0: "pmm_alloc_page (pm m0) = (q, p2)" using q(1) by (simp add: m0_def)
  obtain m1 where r1: "clone_pages a c (current_space (vm m)) ((t, j) # []) m0 = clone_pages a c (current_space (vm m)) [] m1"
    "live a m1" "live c m1" "ents (vm m1) = set_entry c (t, j) (new_pte q (ents (vm m0) a (t, j) AND 0xfff)) (ents (vm m0))"
    "refcount (pm m0) (pfn q) = 0" "refcount (pm m1) = (refcount (pm m0))(pfn q := 1)"
    "frame_of (new_pte q (ents (vm m0) a (t, j) AND 0xfff)) = q"
    "phys m1 = (\<lambda>b. if pfn b = pfn q then phys m0 (frame_of (ents (vm m0) a (t, j)) + of_nat (unat b mod 4096)) else phys m0 b)"
    "space_used (vm m1) = space_used (vm m0)" "current_space (vm m1) = Some c"
    "\<And>i. vmas (spaces (vm m1) i) = vmas (spaces (vm m0) i) \<and> refs (spaces (vm m1) i) = refs (spaces (vm m0) i)"
    "\<And>i. i \<noteq> c \<Longrightarrow> spaces (vm m1) i = spaces (vm m0) i" "pm m1 = p2"
  proof (rule clone_round [OF l0 S(3) b e0(1,2) q0 q(2), of "current_space (vm m)" "[]"], goal_cases)
    case (1 m1)
    show ?case by (rule 1(1) [OF 1(2-)])
  qed
  note m1 = r1 [unfolded e0(3)]
  define m3 where "m3 = on_vm (vmm_switch_address_space (current_space (vm m))) m1"
  have f3: "ents (vm m3) = ents (vm m1)" "pm m3 = p2" "phys m3 = phys m1" "spaces (vm m3) = spaces (vm m1)" "space_used (vm m3) = space_used (vm m1)"
    "current_space (vm m3) = current_space (vm m)"
    using m1(13) by (simp_all add: m3_def on_vm_def) (simp_all add: vmm_switch_address_space_def)
  have cur: "live i m1" if "current_space (vm m) = Some i" for i
    using that mem_invD(2) [OF L(1)] m1(2,9) S(6) by (auto simp: live_def vmm_wf_def)
  have l3: "live a m3" "live c m3"
    unfolding m3_def using cur m1(2,3) by (cases "current_space (vm m)"; blast intro: switch_live)+
  have run: "vmm_clone_address_space (Some a) m = Ret (Some c, m3)"
    using c one_page_slots [OF a] S(8,9) m1(1) x by (simp add: vmm_clone_address_space_def m0_def [symmetric] m3_def)
  have r: "refs (spaces (vm m3) a) = 1" "refs (spaces (vm m3) c) = 1"
    using m1(11) f3(4) D(2) S(3,11) create_refs [OF c] by (simp_all add: m0_def copy_vmas_def)
  have zc: "ents (vm m0) c = (\<lambda>_. 0)" using S(2,5) by (simp add: ents_def fun_eq_iff)
  have E: "ents (vm m3) a = (\<lambda>y. if y = x then e else 0)" "ents (vm m3) c = (\<lambda>y. if y = x then new_pte q (e AND 0xfff) else 0)"
    using a S(3,5) zc by (auto simp: f3(1) m1(4) set_entry_def x one_page_def)
  show ?thesis
  proof (rule that [OF run])
    show "one_page a x e m3" "one_page c x (new_pte q (e AND 0xfff)) m3" using l3 r E D(5) by (simp_all add: one_page_def new_pte_bits)
    show "ents (vm m3) j = ents (vm m) j" if "j \<noteq> c" for j using that S(5) by (auto simp: f3(1) m1(4) set_entry_def)
    show "phys m3 q = phys m (frame_of e)"
    proof -
      have "frame_of q = q" by (rule alloc_frame [OF mem_invD(1) [OF L(1)] q])
      then have "unat q mod 4096 = 0" using unat_frame_of [of q] by (metis mod_mult_self2_is_0)
      then show ?thesis by (simp add: f3 m1(8) m0_def)
    qed
  qed (use m1(7,8,9) f3 S(2,3,6) in \<open>simp_all add: m0_def\<close>)
qed

text \<open>What the tests need: the invariant, two pages and two spaces.\<close>

definition roomy :: "mm \<Rightarrow> bool" where
  "roomy m \<longleftrightarrow> mem_inv m \<and> 2 \<le> card (spare (pm m)) \<and> 2 \<le> card {i. i < MAX_SPACES \<and> \<not> space_used (vm m) i}"

lemma two_of:
  assumes "2 \<le> card A"
  shows "A \<noteq> {}" "A - {x} \<noteq> {}"
proof -
  have f: "finite A" using assms card.infinite by fastforce
  show "A \<noteq> {}" using assms by auto
  show "A - {x} \<noteq> {}"
  proof
    assume "A - {x} = {}"
    then have "A \<subseteq> {x}" by blast
    then have "card A \<le> 1" using card_mono [of "{x}" A] by simp
    then show False using assms by simp
  qed
qed

text \<open>The first half of both tests, on a roomy memory.\<close>

definition started :: "mm \<Rightarrow> u32 \<Rightarrow> u8 \<Rightarrow> nat \<Rightarrow> vmm \<Rightarrow> u32 \<Rightarrow> pmm \<Rightarrow> mm \<Rightarrow> bool" where
  "started m va b a v p p1 m2 \<longleftrightarrow>
     vmm_create_address_space (vm m) = (Some a, v) \<and>
     pmm_alloc_page (pm m) = (p, p1) \<and>
     p \<noteq> 0 \<and>
     vmm_map_user (Some a) va p PAGE_WRITE v = (0, upd_space a (put_pte va (new_pte p PAGE_WRITE)) v) \<and>
     vstore va b (on_vm (vmm_switch_address_space (Some a)) (m\<lparr>pm := p1, vm := upd_space a (put_pte va (new_pte p PAGE_WRITE)) v\<rparr>)) = Some m2 \<and>
     one_page a (slot_of va) (new_pte p PAGE_WRITE) m2 \<and>
     pm m2 = p1 \<and>
     current_space (vm m2) = Some a \<and>
     cr3 (vm m2) = Some a \<and>
     space_used (vm m2) = (space_used (vm m))(a := True) \<and>
     \<not> space_used (vm m) a \<and>
     phys m2 p = b \<and>
     frame_of p = p \<and>
     frame_of (new_pte p PAGE_WRITE) = p \<and>
     spare p1 \<noteq> {} \<and>
     pmm_inv p1 \<and>
     refcount p1 (pfn p) = 1 \<and>
     (\<forall>j. j \<noteq> a \<longrightarrow> ents (vm m2) j = ents (vm m) j) \<and> (\<exists>j < MAX_SPACES. \<not> space_used (vm m2) j)"

lemma startedD:
  assumes "started m va b a v p p1 m2"
  shows "vmm_create_address_space (vm m) = (Some a, v)"
    "pmm_alloc_page (pm m) = (p, p1)"
    "p \<noteq> 0"
    "vmm_map_user (Some a) va p PAGE_WRITE v = (0, upd_space a (put_pte va (new_pte p PAGE_WRITE)) v)"
    "vstore va b (on_vm (vmm_switch_address_space (Some a)) (m\<lparr>pm := p1, vm := upd_space a (put_pte va (new_pte p PAGE_WRITE)) v\<rparr>)) = Some m2"
    "one_page a (slot_of va) (new_pte p PAGE_WRITE) m2"
    "pm m2 = p1"
    "current_space (vm m2) = Some a"
    "cr3 (vm m2) = Some a"
    "space_used (vm m2) = (space_used (vm m))(a := True)"
    "\<not> space_used (vm m) a"
    "phys m2 p = b"
    "frame_of p = p"
    "frame_of (new_pte p PAGE_WRITE) = p"
    "spare p1 \<noteq> {}"
    "pmm_inv p1"
    "refcount p1 (pfn p) = 1"
    "\<And>j. j \<noteq> a \<Longrightarrow> ents (vm m2) j = ents (vm m) j"
    "\<exists>j < MAX_SPACES. \<not> space_used (vm m2) j"
  using assms unfolding started_def by blast+

lemma test_start:
  assumes r: "roomy m" and va: "mappable va" "frame_of va = va"
  obtains a v p p1 m2 where "started m va b a v p p1 m2"
proof -
  have inv: "mem_inv m" using r by (simp add: roomy_def)
  let ?U = "{i. i < MAX_SPACES \<and> \<not> space_used (vm m) i}"
  have U: "?U \<noteq> {}" "\<And>a. ?U - {a} \<noteq> {}" "spare (pm m) \<noteq> {}" "\<And>x. spare (pm m) - {x} \<noteq> {}"
    using r two_of [of ?U] two_of [of "spare (pm m)"] unfolding roomy_def by blast+
  obtain j where "j < MAX_SPACES" "\<not> space_used (vm m) j" using U(1) by blast
  then obtain a v where c: "vmm_create_address_space (vm m) = (Some a, v)" by (rule create_free)
  obtain p p1 where al: "pmm_alloc_page (pm m) = (p, p1)" by fastforce
  note S = spare_alloc [OF mem_invD(1) [OF inv] al]
  have p: "p \<noteq> 0" using S(1) U(3) by simp
  note T = test_page(1,2,3,4,5,6,8,9,11) [where b = b, OF inv c al p va] and T' = test_page(7,12) [OF inv c al p va]
  have w: "frame_of PAGE_WRITE = (0 :: u32)" by (simp add: frame_of_def)
  have "frame_of (new_pte p PAGE_WRITE) = p" using frame_new_pte [OF w, of p] T'(2) by simp
  moreover have "spare p1 \<noteq> {}" using S(2) p U(4) by simp
  moreover have "refcount p1 (pfn p) = 1" using T(3,8) by simp
  moreover have "pmm_inv p1" by (rule pa.alloc_inv [OF mem_invD(1) [OF inv] al])
  moreover obtain j where "j < MAX_SPACES" "\<not> space_used (vm m) j" "j \<noteq> a" using U(2) [of a] by blast
  ultimately show ?thesis
    using T T' c al p va(1) by (intro that [of a v p p1]) (auto simp: started_def map_user_eq)
qed

theorem clone_selftest_passes:
  assumes r: "roomy m"
  shows "\<exists>m'. vmm_clone_selftest m = Ret (0, m') \<and> restored m m'"
proof -
  have va: "mappable 0x00401000" "frame_of 0x00401000 = 0x00401000" by (simp_all add: mappable_iff frame_of_def)
  obtain a v p p1 m2 where s: "started m 0x00401000 0x5a a v p p1 m2" by (rule test_start [OF r va])
  note A = startedD [OF s]
  obtain c v' where c: "vmm_create_address_space (vm m2) = (Some c, v')" using A(19) create_free by metis
  obtain q p2 where q: "pmm_alloc_page p1 = (q, p2)" by fastforce
  have q0: "q \<noteq> 0" using spare_alloc(1) [OF A(16) q] A(15) by simp
  obtain m3 where C: "vmm_clone_address_space (Some a) m2 = Ret (Some c, m3)" "one_page a (slot_of 0x00401000) (new_pte p PAGE_WRITE) m3"
    "one_page c (slot_of 0x00401000) (new_pte q (new_pte p PAGE_WRITE AND 0xfff)) m3"
    "frame_of (new_pte q (new_pte p PAGE_WRITE AND 0xfff)) = q" "pm m3 = p2" "space_used (vm m3) = (space_used (vm m2))(c := True)"
    "\<And>j. j \<noteq> c \<Longrightarrow> ents (vm m3) j = ents (vm m2) j" "\<And>b. pfn b \<noteq> pfn q \<Longrightarrow> phys m3 b = phys m2 b"
    "phys m3 q = phys m2 (frame_of (new_pte p PAGE_WRITE))" "c \<noteq> a" "\<not> space_used (vm m2) c" "current_space (vm m3) = current_space (vm m2)"
  proof (rule clone_one [OF A(6) c q [folded A(7)] q0], goal_cases)
    case (1 m3)
    show ?case by (rule 1(1) [OF 1(2-)])
  qed
  have ne: "pfn q \<noteq> pfn p" using pa.alloc_not_owned [OF A(16) q q0, of p] A(17) by simp
  define m5 where "m5 = on_vm (vmm_switch_address_space (Some c)) m3\<lparr>phys := (phys m3)(q := 0xa5)\<rparr>"
  define m6 where "m6 = on_vm (vmm_switch_address_space (Some a)) m5"
  have l: "live a m3" "live c m3" using one_pageD(1) C(2,3) by blast+
  have o5: "one_page a (slot_of 0x00401000) (new_pte p PAGE_WRITE) m5" "one_page c (slot_of 0x00401000) (new_pte q (new_pte p PAGE_WRITE AND 0xfff)) m5"
    using one_page_switch [OF C(2) l(2)] one_page_switch [OF C(3) l(2)] by (simp_all add: one_page_def m5_def)
  have o6: "one_page a (slot_of 0x00401000) (new_pte p PAGE_WRITE) m6" "one_page c (slot_of 0x00401000) (new_pte q (new_pte p PAGE_WRITE AND 0xfff)) m6"
    unfolding m6_def by (rule one_page_switch [OF o5(1) one_pageD(1) [OF o5(1)]], rule one_page_switch [OF o5(2) one_pageD(1) [OF o5(1)]])
  have x: "vload 0x00401000 (on_vm (vmm_switch_address_space (Some c)) m3) = Some 0x5a"
    using one_page_load(1) [OF C(3) va] C(4,9) A(12,14) by simp
  have st: "vstore 0x00401000 0xa5 (on_vm (vmm_switch_address_space (Some c)) m3) = Some m5"
    using one_page_load(2) [OF C(3) va, of "0xa5"] C(4) by (simp add: m5_def)
  have y: "vload 0x00401000 m6 = Some 0x5a"
    using one_page_load(1) [OF o5(1) va] C(8) [of p] ne A(12,14) by (auto simp: m6_def m5_def on_vm_def)
  have f6: "space_used (vm m6) = space_used (vm m3)" "ents (vm m6) = ents (vm m3)" "pm m6 = p2" "current_space (vm m6) = Some a"
    using C(5) by (simp_all add: m6_def m5_def on_vm_def) (simp_all add: vmm_switch_address_space_def)
  note B = balance_free_last [OF A(16) q q0 pa.alloc_inv [OF A(16) q] refl refl]
  note B = balance_free_last [OF mem_invD(1) A(2,3) B(3,1,2)]
  have inv: "mem_inv m" using r by (simp add: roomy_def)
  have "restored m (vmm_destroy_address_space (Some a) (vmm_destroy_address_space (Some c) m6))"
    by (rule test_end [OF o6 C(10) [symmetric] A(11)]) (use B [OF inv] f6 C(4,6,7,10,11) A(10,18,14) in auto)
  moreover have "vmm_clone_selftest m = Ret (0, vmm_destroy_address_space (Some a) (vmm_destroy_address_space (Some c) m6))"
    unfolding vmm_clone_selftest_def A(1,2) using A(3) by (simp add: A(4,5) C(1) x st y bind_outcome_def or_fault_def check_load_def Let_def m6_def [symmetric])
  ultimately show ?thesis by blast
qed

section \<open>The copy-on-write test\<close>

lemma cow_one:
  assumes a: "one_page a x e m" and c: "vmm_create_address_space (vm m) = (Some c, v)"
  obtains m3 where "vmm_clone_address_space_cow (Some a) m = (Some c, m3)" "one_page a x (cow_pte e) m3" "one_page c x (cow_copy_pte e) m3"
    "pm m3 = pmm_retain_page (frame_of e) (pm m)" "phys m3 = phys m" "space_used (vm m3) = (space_used (vm m))(c := True)"
    "\<And>j. j \<noteq> a \<Longrightarrow> j \<noteq> c \<Longrightarrow> ents (vm m3) j = ents (vm m) j" "c \<noteq> a" "\<not> space_used (vm m) c"
proof -
  note D = one_pageD [OF a] and L = liveD [OF one_pageD(1) [OF a]]
  note S = clone_start [OF L c]
  obtain r m3 where run: "vmm_clone_address_space_cow (Some a) m = (r, m3)" by fastforce
  obtain t j where x: "x = (t, j)" by (cases x)
  have b: "t < 8" "j < 1024" using D(3,5) by (auto simp: ents_def slot_pte_def x split: if_splits)
  have ut: "user_tables (spaces (vm m) a) t j = e"
    using present_slots_entry [of x "spaces (vm m) a"] one_page_slots [OF a] D(3) L(2,3) by (simp add: ents_def x)
  have ut': "user_tables (spaces (copy_vmas a c v) a) t j = e" using ut S(3) S(11) [of a] by simp
  have step: "r = Some c \<and> pm m3 = pmm_retain_page (frame_of e) (pm m) \<and> (\<forall>i. refs (spaces (vm m3) i) = refs (spaces (copy_vmas a c v) i))"
    using run c one_page_slots [OF a] S(8) ut' mappable_slot_va [OF b] unfolding vmm_clone_address_space_cow_def
    by (auto simp: x map_user_eq Let_def on_vm_def vmm_switch_address_space_def put_pte_def upd_space_def)
  have refs: "refs (spaces (vm m3) a) = 1" "refs (spaces (vm m3) c) = 1"
    using step D(2) S(3,11) create_refs [OF c] by (simp_all add: copy_vmas_def upd_space_def)
  have X: "{y. bit (ents (vm m) a y) 0} = {x}" using D(4) by auto
  from L run show ?thesis
  proof (cases rule: clone_cow_spec)
    case 1
    then show ?thesis using step by simp
  next
    case (2 c')
    have cc: "c' = c" using step 2 by simp
    note C = 2 [unfolded cc X]
    have z: "ents (vm m) c = (\<lambda>_. 0)" using S(2) by (simp add: ents_def fun_eq_iff)
    have "ents (vm m3) a = (\<lambda>y. if y = x then cow_pte e else 0)" "ents (vm m3) c = (\<lambda>y. if y = x then cow_copy_pte e else 0)"
      using a D(3) z S(3) by (auto simp: C(6) cow_entries_def one_page_def fun_eq_iff)
    moreover have "live a m3" "live c m3" using C(2,4,8) L(2,3) by (simp_all add: live_def)
    ultimately have "one_page a x (cow_pte e) m3" "one_page c x (cow_copy_pte e) m3" using refs D(5) by (simp_all add: one_page_def page_simps)
    then show ?thesis
      using run step C(3,5,8) S(3) by (intro that [of m3]) (auto simp: C(6) cow_entries_def fun_eq_iff)
  qed
qed

text \<open>The fault on the shared page of space \<open>c\<close>, which is current.\<close>

lemma fault_one:
  assumes c: "one_page c (slot_of va) f m" and cur: "current_space (vm m) = Some c" and va: "mappable va" "frame_of va = va"
    and f: "bit f 2" "bit f 9" and q: "pmm_alloc_page (pm m) = (q, p2)" "q \<noteq> 0"
  obtains m4 where "vmm_page_fault cr2 6 va m = Ret m4" "one_page c (slot_of va) (new_pte q PAGE_WRITE) m4"
    "\<And>a x e. a \<noteq> c \<Longrightarrow> one_page a x e m \<Longrightarrow> one_page a x e m4" "pm m4 = pmm_free_page (frame_of f) p2"
    "\<And>b. pfn b \<noteq> pfn q \<Longrightarrow> phys m4 b = phys m b" "space_used (vm m4) = space_used (vm m)" "current_space (vm m4) = Some c"
    "cr3 (vm m4) = cr3 (vm m)" "\<And>j. j \<noteq> c \<Longrightarrow> ents (vm m4) j = ents (vm m) j"
proof -
  note D = one_pageD [OF c] and L = liveD [OF one_pageD(1) [OF c]]
  have pte: "f = user_pte (spaces (vm m) c) va" using user_pte_ents [OF L(2,3), of va] va(1) D(3) by simp
  have err: "bit (6 :: u32) 1" "bit (6 :: u32) 2" by (simp_all add: bit_numeral_rec)
  have run: "vmm_page_fault cr2 6 va m = cow_fault c va f m"
    using page_fault_cow [OF L(1) cur pte D(5) f err] va(2) by simp
  obtain m4 where C: "cow_fault c va f m = Ret m4" "mem_inv m4" "ents (vm m4) = set_entry c (slot_of va) (new_pte q PAGE_WRITE) (ents (vm m))"
    "phys m4 = (\<lambda>b. if pfn b = pfn q then phys m (frame_of f + of_nat (unat b mod 4096)) else phys m b)"
    "current_space (vm m4) = current_space (vm m)" "space_used (vm m4) = space_used (vm m)" "cr3 (vm m4) = cr3 (vm m)"
    "\<And>j. spaces (vm m4) j = (if j = c then put_pte va (new_pte q PAGE_WRITE) (spaces (vm m) c) else spaces (vm m) j)"
    by (rule cow_fault_spec [OF L q pte D(5)]) (rule that)
  have "pm m4 = pmm_free_page (frame_of f) p2"
    using cow_fault_eq [OF mem_invD(2) [OF L(1)] q alloc_frame [OF mem_invD(1) [OF L(1)] q] pte D(5)] C(1) by auto
  moreover have r: "refs (spaces (vm m4) j) = refs (spaces (vm m) j)" for j by (simp add: C(8) put_pte_def Let_def)
  have "one_page c (slot_of va) (new_pte q PAGE_WRITE) m4"
    using c C(2,3,6) r by (auto simp: one_page_def live_def set_entry_def new_pte_bits)
  moreover have "one_page a x e m4" if "a \<noteq> c" "one_page a x e m" for a x e
    using that C(2,3,6) r by (simp add: one_page_def live_def set_entry_def)
  moreover have "ents (vm m4) j = ents (vm m) j" if "j \<noteq> c" for j using that by (simp add: C(3) set_entry_def)
  ultimately show ?thesis using run C(1,4-7) cur by (intro that [of m4]) auto
qed

theorem cow_selftest_passes:
  assumes r: "roomy m"
  shows "\<exists>m'. vmm_cow_selftest cr2 m = Ret (0, m') \<and> restored m m'"
proof -
  have va: "mappable 0x00402000" "frame_of 0x00402000 = 0x00402000" by (simp_all add: mappable_iff frame_of_def)
  obtain a v p p1 m2 where s: "started m 0x00402000 0x11 a v p p1 m2" by (rule test_start [OF r va])
  note A = startedD [OF s]
  let ?x = "slot_of 0x00402000" and ?e = "new_pte p PAGE_WRITE"
  obtain c v' where c: "vmm_create_address_space (vm m2) = (Some c, v')" using A(19) create_free by metis
  obtain m3 where C: "vmm_clone_address_space_cow (Some a) m2 = (Some c, m3)" "one_page a ?x (cow_pte ?e) m3" "one_page c ?x (cow_copy_pte ?e) m3"
    "pm m3 = pmm_retain_page p p1" "phys m3 = phys m2" "space_used (vm m3) = (space_used (vm m2))(c := True)"
    "\<And>j. j \<noteq> a \<Longrightarrow> j \<noteq> c \<Longrightarrow> ents (vm m3) j = ents (vm m2) j" "c \<noteq> a" "\<not> space_used (vm m2) c"
    using cow_one [OF A(6) c] unfolding A(7,14) by blast
  have nz: "refcount p1 (pfn p) \<noteq> 0" using A(17) by simp
  obtain q p2 where q: "pmm_alloc_page (pmm_retain_page p p1) = (q, p2)" by fastforce
  have q0: "q \<noteq> 0" using spare_alloc(1) [OF pa.retain_inv [OF A(16) nz] q] spare_retain [OF A(16) nz] A(15) by simp
  have ne: "pfn p \<noteq> pfn q"
    using pa.alloc_fresh [OF pa.retain_inv [OF A(16) nz] q q0] pa.retain_refs [OF A(16) nz] A(17) by auto
  define m3' where "m3' = on_vm (vmm_switch_address_space (Some c)) m3"
  have l: "live a m3" "live c m3" using one_pageD(1) C(2,3) by blast+
  have o: "one_page a ?x (cow_pte ?e) m3'" "one_page c ?x (cow_copy_pte ?e) m3'"
    unfolding m3'_def by (rule one_page_switch [OF C(2) l(2)], rule one_page_switch [OF C(3) l(2)])
  have f3: "pm m3' = pmm_retain_page p p1" "phys m3' = phys m2" "ents (vm m3') = ents (vm m3)" "current_space (vm m3') = Some c"
    "cr3 (vm m3') = Some c" "space_used (vm m3') = space_used (vm m3)"
    using C(4,5) by (simp_all add: m3'_def on_vm_def) (simp_all add: vmm_switch_address_space_def)
  have bits: "bit (cow_copy_pte ?e) 2" "bit (cow_copy_pte ?e) 9" by (simp_all add: page_simps)
  obtain m4 where F: "vmm_page_fault cr2 6 0x00402000 m3' = Ret m4" "one_page c ?x (new_pte q PAGE_WRITE) m4"
    "one_page a ?x (cow_pte ?e) m4" "pm m4 = pmm_free_page p p2" "\<And>b. pfn b \<noteq> pfn q \<Longrightarrow> phys m4 b = phys m3' b"
    "space_used (vm m4) = space_used (vm m3')" "current_space (vm m4) = Some c" "cr3 (vm m4) = Some c"
    "\<And>j. j \<noteq> c \<Longrightarrow> ents (vm m4) j = ents (vm m3') j"
    using fault_one [OF o(2) f3(4) va bits q [folded f3(1)] q0, of cr2] o(1) C(8) unfolding cow_pte_frame A(14) f3(5) by metis
  have sw: "on_vm (vmm_switch_address_space (Some c)) m4 = m4" using F(7,8) by (simp add: on_vm_def vmm_switch_address_space_def)
  have fq: "frame_of (new_pte q PAGE_WRITE) = q"
    using frame_new_pte [of PAGE_WRITE q] alloc_frame [OF pa.retain_inv [OF A(16) nz] q q0] by (simp add: frame_of_def)
  define m5 where "m5 = m4\<lparr>phys := (phys m4)(q := 0x22)\<rparr>"
  have st: "vstore 0x00402000 0x22 m4 = Some m5" using one_page_load(2) [OF F(2) va, of "0x22"] by (simp add: sw fq m5_def)
  have o5: "one_page a ?x (cow_pte ?e) m5" "one_page c ?x (new_pte q PAGE_WRITE) m5" using F(2,3) by (simp_all add: one_page_def m5_def)
  define m6 where "m6 = on_vm (vmm_switch_address_space (Some a)) m5"
  have o6: "one_page a ?x (cow_pte ?e) m6" "one_page c ?x (new_pte q PAGE_WRITE) m6"
    unfolding m6_def by (rule one_page_switch [OF o5(1) one_pageD(1) [OF o5(1)]], rule one_page_switch [OF o5(2) one_pageD(1) [OF o5(1)]])
  have "p \<noteq> q" using ne by auto
  then have y: "vload 0x00402000 m6 = Some 0x11"
    using one_page_load(1) [OF o5(1) va] F(5) [of p] ne A(12) by (simp add: m6_def m5_def cow_pte_frame A(14) f3(2))
  have f6: "space_used (vm m6) = space_used (vm m3)" "ents (vm m6) = ents (vm m4)" "pm m6 = pmm_free_page p p2" "current_space (vm m6) = Some a"
    using F(4,6) f3(6) by (simp_all add: m6_def m5_def on_vm_def) (simp_all add: vmm_switch_address_space_def)
  have inv: "mem_inv m" using r by (simp add: roomy_def)
  note B = balance_share [OF A(16,17) q q0]
  note B = balance_free_last [OF mem_invD(1) [OF inv] A(2,3) B(3,1,2)]
  let ?m = "vmm_destroy_address_space (Some a) (vmm_destroy_address_space (Some c) m6)"
  have "restored m ?m"
    by (rule test_end [OF o6 C(8) [symmetric] A(11)])
      (use B f6 f3(3) fq F(9) C(6,7,8,9) A(10,14,18) in \<open>auto simp: cow_pte_frame\<close>)
  moreover from this have "on_vm (vmm_switch_address_space None) ?m = ?m"
    by (simp add: restored_def on_vm_def vmm_switch_address_space_def mem_inv_def vmm_wf_def)
  moreover have "vmm_cow_selftest cr2 m = Ret (0, on_vm (vmm_switch_address_space None) ?m)"
    unfolding vmm_cow_selftest_def A(1,2) using A(3)
    by (simp add: A(4,5) C(1) F(1) st y bind_outcome_def or_fault_def check_load_def Let_def m3'_def [symmetric] m6_def [symmetric])
  ultimately show ?thesis by auto
qed

end
