(* ===== verification/Boot.thy ===== *)
theory Boot
  imports Vmm_Selftest Heap_Props Isr Gdt Keyboard
begin

text \<open>
  The start of the kernel, \<open>kernel/main.c\<close>: \<open>kmain\<close> from its entry to the initialised heap, that is the screen, the check
  of the boot loader, the descriptor tables, the firmware's tables, physical and virtual memory with their self-tests, and the
  interrupt controllers. The drivers and processes that \<open>kmain\<close> starts after that have their own theories.
\<close>

section \<open>The state and the machine\<close>

record 'w boot =
  b_kern :: kern
  b_screen :: vga
  b_segments :: descriptors
  b_gates :: "nat \<Rightarrow> idt_entry"
  b_acpi :: acpi
  b_cpus :: smp
  b_lapic :: lapic
  b_ioapic :: ioapic
  b_heap :: heap
  b_world :: 'w

text \<open>
  What the code takes from outside: ports and memory-mapped registers, the identification instruction, the base-address
  register, the addresses that the linker gives to the stubs and tables, the stack pointer, and the address a page fault
  reports.
\<close>

record 'w platform =
  pf_ports :: "'w ports"
  pf_regs :: "'w mmio"
  pf_cpuid :: "u32 \<Rightarrow> u32 \<times> u32 \<times> u32 \<times> u32"
  pf_msr :: u32
  pf_isrs :: "nat \<Rightarrow> u32"
  pf_irqs :: "nat \<Rightarrow> u32"
  pf_isr128 :: u32
  pf_idt :: u32
  pf_gdt :: u32
  pf_tss :: u32
  pf_stack :: u32
  pf_kernel_end :: u32
  pf_cr2 :: u32

definition boot_mem :: "'w boot \<Rightarrow> mm" where
  "boot_mem b = mem (b_kern b)"

definition set_boot_mem :: "mm \<Rightarrow> 'w boot \<Rightarrow> 'w boot" where
  "set_boot_mem m b = b\<lparr>b_kern := (b_kern b)\<lparr>mem := m\<rparr>\<rparr>"

section \<open>The stages\<close>

definition banner :: "'w ports \<Rightarrow> vga \<times> 'w \<Rightarrow> vga \<times> 'w" where
  "banner P sw = vga_write P (codes ''status: booted in 32-bit protected mode'' @ [10])
     (vga_write P (codes ''ceblar-20 modular kernel'' @ [10]) sw)"

definition boot_screen :: "'w platform \<Rightarrow> 'w boot \<Rightarrow> 'w boot" where
  "boot_screen H b =
     (case vga_init (pf_ports H) (b_screen b, b_world b) of
        (s, w) \<Rightarrow>
          (case banner (pf_ports H) (s, serial_init (pf_ports H) w) of (s, w) \<Rightarrow> b\<lparr>b_screen := s, b_world := w\<rparr>))"

definition boot_tables :: "'w platform \<Rightarrow> 'w boot \<Rightarrow> 'w boot" where
  "boot_tables H b =
     (let b = b\<lparr>b_segments := tss_init (pf_tss H) (pf_stack H) 0 (snd (gdt_init (pf_gdt H) (b_segments b)))\<rparr>;
          b = (case idt_init (pf_ports H) (pf_isrs H) (pf_irqs H) (pf_isr128 H) (pf_idt H) (b_gates b) (b_world b) of
                 (_, idt, w) \<Rightarrow> b\<lparr>b_gates := idt, b_world := w\<rparr>);
          b = b\<lparr>b_acpi := acpi_init (phys (boot_mem b)) (b_acpi b)\<rparr>;
          b = b\<lparr>b_cpus := smp_init (pf_cpuid H) (b_acpi b) (b_cpus b)\<rparr>
      in b\<lparr>b_kern := percpu_init 0 0 (b_kern b)\<rparr>)"

definition boot_controllers :: "'w platform \<Rightarrow> 'w boot \<Rightarrow> 'w boot" where
  "boot_controllers H b =
     (case apic_init (pf_regs H) (pf_msr H) (b_cpus b) (b_acpi b) (b_lapic b, b_world b) of
        (l, w) \<Rightarrow>
          (case ioapic_init (pf_regs H) (b_cpus b) (b_acpi b) (b_ioapic b, w) of
             (i, w) \<Rightarrow> b\<lparr>b_lapic := l, b_ioapic := i, b_world := w\<rparr>))"

definition boot_memory :: "'w platform \<Rightarrow> u32 \<Rightarrow> 'w boot \<Rightarrow> 'w boot outcome" where
  "boot_memory H mbi b =
     bind_outcome (or_hang (pmm_init (phys (boot_mem b)) mbi (pf_kernel_end H) (pm (boot_mem b)))) (\<lambda>p.
       let b = set_boot_mem ((boot_mem b)\<lparr>pm := p, vm := vmm_init (vm (boot_mem b))\<rparr>) b;
           b = boot_controllers H b
       in bind_outcome (vmm_clone_selftest (boot_mem b)) (\<lambda>(r, m).
            if r \<noteq> 0 then Panic ''address-space clone self-test failed''
            else bind_outcome (vmm_cow_selftest (pf_cr2 H) m) (\<lambda>(r, m).
              if r \<noteq> 0 then Panic ''COW self-test failed''
              else Ret (set_boot_mem m b\<lparr>b_heap := heap_init (b_heap b)\<rparr>))))"

definition kmain_start :: "'w platform \<Rightarrow> u32 \<Rightarrow> u32 \<Rightarrow> 'w boot \<Rightarrow> 'w boot outcome" where
  "kmain_start H loader mbi b =
     (let b = boot_screen H b
      in if loader \<noteq> 0x36d76289 then Panic ''invalid Multiboot2 magic'' else boot_memory H mbi (boot_tables H b))"

section \<open>The memory after the start\<close>

lemma restored_roomy: "roomy m \<Longrightarrow> restored m m' \<Longrightarrow> roomy m'"
  by (simp add: roomy_def restored_def)

lemma restored_trans: "restored m m1 \<Longrightarrow> restored m1 m2 \<Longrightarrow> restored m m2"
  by (simp add: restored_def)

lemma boot_keeps:
  "boot_mem (boot_screen H b) = boot_mem b" "b_heap (boot_screen H b) = b_heap b"
  "boot_mem (boot_tables H b) = boot_mem b" "b_heap (boot_tables H b) = b_heap b"
  "boot_mem (boot_controllers H b) = boot_mem b" "b_heap (boot_controllers H b) = b_heap b"
  by (simp_all add: boot_mem_def boot_screen_def boot_tables_def boot_controllers_def percpu_init_def split_beta Let_def)

lemma boot_mem_set: "boot_mem (set_boot_mem m b) = m" "b_heap (set_boot_mem m b) = b_heap b"
  by (simp_all add: boot_mem_def set_boot_mem_def)

text \<open>The frames that can be handed out: those the boot loader's memory map offers behind the kernel, below the number of frames offered.\<close>

definition usable_frames :: "(u32 \<Rightarrow> u8) \<Rightarrow> u32 \<Rightarrow> u32 \<Rightarrow> nat set" where
  "usable_frames m mbi kernel_end = {p \<in> offered_frames m mbi. 0 < p \<and> p < card (offered_frames m mbi) \<and> unat kernel_end \<le> p * 4096}"

lemma pmm_init_spare:
  assumes "pmm_init m mbi ke s = Some s'" "unat ke \<le> 2 ^ 32 - 4096"
  shows "spare s' = usable_frames m mbi ke" "refcount s' = (\<lambda>_. 0)" "pmm_inv s'"
proof -
  note S = pmm_init_spec [OF assms]
  show "pmm_inv s'" by (rule S(1))
  have "refcount s' p = 0" for p using S(2) refcount_owned [of s' p] by auto
  then show "refcount s' = (\<lambda>_. 0)" by auto
  have b: "unat (total_pages_count s') \<le> MAX_PHYS_PAGES" using S(1) by (simp add: pmm_inv_def)
  have "p \<in> spare s' \<longleftrightarrow> 0 < p \<and> p < unat (total_pages_count s') \<and> p \<in> free_frames s'" for p
    using b by (auto simp: spare_def free_frames_def)
  then show "spare s' = usable_frames m mbi ke" unfolding S(3,4) by (auto simp: usable_frames_def not_less)
qed

lemma boot_memory_passes:
  assumes sane: "mbi_sane (phys (boot_mem b)) mbi" and ke: "unat (pf_kernel_end H) \<le> 2 ^ 32 - 4096"
    and new: "\<forall>i. \<not> space_used (vm (boot_mem b)) i" and room: "2 \<le> card (usable_frames (phys (boot_mem b)) mbi (pf_kernel_end H))"
  obtains p m b' where "pmm_init (phys (boot_mem b)) mbi (pf_kernel_end H) (pm (boot_mem b)) = Some p"
    "restored ((boot_mem b)\<lparr>pm := p, vm := vmm_init (vm (boot_mem b))\<rparr>) m" "boot_memory H mbi b = Ret b'"
    "boot_mem b' = m" "b_heap b' = heap_init (b_heap b)"
proof -
  let ?ph = "phys (boot_mem b)"
  obtain s1 where "mbi_tags ?ph mbi (rd32 ?ph mbi) 8 (pmm_reset (pm (boot_mem b))) = Some s1"
    using mbi_tags_total [OF sane, of 8 "pmm_reset (pm (boot_mem b))"] by auto
  then obtain p where p: "pmm_init ?ph mbi (pf_kernel_end H) (pm (boot_mem b)) = Some p" by (simp add: pmm_init_def Let_def)
  note P = pmm_init_spare [OF p ke]
  let ?m = "(boot_mem b)\<lparr>pm := p, vm := vmm_init (vm (boot_mem b))\<rparr>"
  have "mm_boot p (vm (boot_mem b)) ?m" using P(3) new by (simp add: mm_boot_def)
  then have inv: "mem_inv ?m" by (rule mm_boot_inv)
  have "{i. i < MAX_SPACES \<and> \<not> space_used (vm ?m) i} = {..<MAX_SPACES}" using new by (auto simp: vmm_init_def Let_def)
  then have "roomy ?m" using inv room P(1) by (simp add: roomy_def MAX_SPACES_def)
  then obtain m1 m2 where c: "vmm_clone_selftest ?m = Ret (0, m1)" "restored ?m m1" and w: "vmm_cow_selftest (pf_cr2 H) m1 = Ret (0, m2)" "restored m1 m2"
    using clone_selftest_passes cow_selftest_passes restored_roomy by metis
  let ?b = "boot_controllers H (set_boot_mem ?m b)"
  have "boot_memory H mbi b = Ret (set_boot_mem m2 ?b\<lparr>b_heap := heap_init (b_heap ?b)\<rparr>)"
    unfolding boot_memory_def p using c w by (simp add: or_hang_def bind_outcome_def Let_def boot_keeps boot_mem_set)
  then show ?thesis
    using p restored_trans [OF c(2) w(2)] by (intro that) (simp_all add: boot_keeps boot_mem_set, simp_all add: boot_mem_def set_boot_mem_def)
qed

section \<open>An example\<close>

lemma example_frames: "offered_frames mbi_example 0 = {..<16}"
proof -
  have r: "rd32 mbi_example 0 = 56" "rd32 mbi_example 8 = TAG_MMAP" "rd32 mbi_example 12 = 40" "rd32 mbi_example 16 = 24"
    "rd32 mbi_example 48 \<noteq> TAG_MMAP" "rd32 mbi_example 52 = 8"
    by (simp_all add: rd32_def mbi_example_def TAG_MMAP_def)
  have c: "covers mbi_example 24 p \<longleftrightarrow> p < 16" for p
    by (simp add: covers_def entry_first_def entry_pages_def rd32_def rd64_def mbi_example_def MMAP_AVAILABLE_def)
  have e: "entry_page mbi_example 0 48 24 24 p \<longleftrightarrow> p < 16" for p
    using entry_page_unfold [of mbi_example 0 48 24 24 p] entry_page_unfold [of mbi_example 0 48 24 48 p] c by simp
  have "\<not> mbi_page mbi_example 0 56 56 p" "\<not> mbi_page mbi_example 0 56 48 p" for p
    using mbi_page_unfold [of mbi_example 0 56 56 p] mbi_page_unfold [of mbi_example 0 56 48 p] r by simp_all
  then have pg: "mbi_page mbi_example 0 56 8 p \<longleftrightarrow> p < 16" for p
    using mbi_page_unfold [of mbi_example 0 56 8 p] r e by simp
  have "p < MAX_PHYS_PAGES \<and> mbi_page mbi_example 0 56 8 p \<longleftrightarrow> p \<in> {..<16}" for p
    unfolding pg MAX_PHYS_PAGES_def lessThan_iff by linarith
  then have A: "{p. p < MAX_PHYS_PAGES \<and> mbi_page mbi_example 0 56 8 p} = {..<16}" by blast
  have "{..<16 :: nat} \<noteq> {}" by (simp only: lessThan_empty_iff)
  then show ?thesis unfolding offered_frames_def Let_def r(1) A by (simp only: if_False)
qed

end
