(* ===== verification/Spec2Isabelle.thy ===== *)
theory Spec2Isabelle
  imports Pmm Vmm_Props Spinlock Keyboard Net Ata_Props Virtio_Props Console Sched_Props
    Journal_Props Fat32_Props Vfs_Props Process_Props Heap_Props Elf_Props Syscall_Props Platform_Props Module Libc_Props Boot
begin

text \<open>
  \<^bold>\<open>Verification of the ceblar-20 kernel.\<close>

  ceblar-20 is a kernel for 32-bit x86 in C. Physical pages (\<open>mm/pmm.c\<close>) are handed out to the virtual memory manager
  (\<open>mm/vmm.c\<close>: address spaces, copy-on-write, lazily filled areas), the DMA allocator (\<open>drivers/dma/dma.c\<close>) and the kernel heap
  (\<open>mm/heap.c\<close>). Block drivers (\<open>drivers/ata/ata.c\<close>, \<open>drivers/virtio/virtio_blk.c\<close>) register with the block layer
  (\<open>drivers/block.c\<close>), over which the journal (\<open>fs/journal.c\<close>), the FAT32 reader (\<open>fs/fat32/fat32.c\<close>) and the descriptors of
  the virtual file system (\<open>fs/vfs.c\<close>) work. Processes (\<open>kernel/process.c\<close>) own an address space and a table of
  descriptors, are loaded from ELF images (\<open>kernel/elf.c\<close>), queued by the round-robin scheduler
  (\<open>scheduler/round_robin.c\<close>), and enter the kernel through the interrupt dispatch (\<open>arch/x86/isr.c\<close>) and the system
  calls (\<open>kernel/syscall.c\<close>), which user programs reach by the wrappers of \<open>userspace/libc/syscalls.c\<close>.

  \<^bold>\<open>How the code is modelled.\<close> All file names are relative to \<open>src/\<close>; definitions have the names of the C functions
  (record fields and a few functions with a prefix or suffix where names clash; the handlers of \<open>kernel/syscall.c\<close> end in \<open>_sys\<close>).
  Machine integers are words of their width (\<^typ>\<open>u8\<close> to \<^typ>\<open>u64\<close>), so every wrap-around of the code is in the model. The static
  variables of a file are a record that its functions take and return; a C array is a function on indices, a struct a record, a
  pointer into a table an optional index, a buffer a function from offsets to bytes. Code that stops the machine
  returns \<open>Panic\<close> of the type \<open>outcome\<close> (theory \<open>Ceblar_Prelude\<close>), and loops that may not end are optional values whose
  absence is non-termination (\<open>or_hang\<close> turns it into the outcome ''endless loop''). Devices are parameters: the port
  instructions (\<open>Ports\<close>), the memory behind the virtio queues (\<open>Virtio\<close>) and the registers of the interrupt controllers
  (\<open>Apic\<close>) are arbitrary functions on an arbitrary world. Where a property needs a device that behaves, it is stated of all worlds
  that project onto a documented device (the drive of \<open>Ata_Drive\<close>, the configuration space of \<open>Pci\<close>, the port of \<open>Console\<close>).
  Log messages on the serial port are left out wherever they are not the function's purpose.

  \<^bold>\<open>Interfaces.\<close> \<open>Page_Alloc.page_allocator\<close> is what the clients of the page allocator rely on, interpreted on \<open>mm/pmm.c\<close> in
  \<open>Pmm\<close> and used for virtual memory, DMA and the loader. \<open>Bounded_Fifo.bounded_fifo\<close> is the contract of a bounded queue,
  interpreted on the key buffer (\<open>Keyboard\<close>) and the packet queue (\<open>Net\<close>). \<open>Block.sector_store\<close> is the contract of a disk,
  interpreted on the ATA driver over its drive (\<open>Ata_Props\<close>); journal, FAT32 and file system are proved over it. \<open>Frame_Sharing\<close>
  is the abstract view of page tables and reference counts that \<open>Vmm_Memory\<close> relates to the code.

  \<^bold>\<open>Memory.\<close> \<open>Pmm\<close>: the free frames after start-up are those of the memory map minus what is reserved; allocation takes the lowest
  free frame; allocation, retaining and release keep the invariant in every reachable state. \<open>Vmm\<close> models \<open>mm/vmm.c\<close>, with
  the processor's translation of an address and the page-fault handler; \<open>Vmm_Lemmas\<close>, \<open>Vmm_Memory\<close>, \<open>Vmm_Ops\<close>, \<open>Vmm_Clone\<close>,
  \<open>Vmm_Cow\<close>, \<open>Vmm_Fault\<close>, \<open>Vmm_Range\<close> and \<open>Vmm_Reach\<close> hold the lemmas per operation, and \<open>Vmm_Props\<close> the properties: a
  mapping changes one translation, a clone shares every page read-only, a write fault gives a private copy with the same bytes, and
  in every state that the operations of \<open>Vmm_Reach\<close> reach, reference counts equal the number of mappings. Those are all but demand
  paging, which leaves its page mapped to a free frame (proved there too), mapping flags beyond the low 12 bits, and mapping over an
  address that is mapped already. \<open>Heap\<close> and
  \<open>Heap_Props\<close>: the blocks tile the heap, so allocated blocks are disjoint and releasing is the inverse of allocating. \<open>Dma\<close>:
  buffers are contiguous, below 4 MiB and all or nothing.

  \<^bold>\<open>Drivers.\<close> \<open>Ata\<close>, \<open>Ata_Drive\<close>, \<open>Ata_Props\<close>: transfers read and replace exactly the addressed sectors for all response
  times of the drive below the polling bound, and polling is bounded. The drive is busy after each command and after each block
  written to it; what it does with a register written while it is busy is a parameter, because the protocol does not define it. The
  driver writes the flush command at that time, so its writes are proved for drives that tolerate this. \<open>Virtio\<close>, \<open>Virtio_Props\<close>: whatever the device does, stores stay inside the
  driver's buffers. \<open>Pci\<close>: configuration access, device search and the size of base registers, and the detection of AHCI, NVME
  and network controllers, which is all these drivers do. \<open>Keyboard\<close>, \<open>Console\<close> (screen, serial port, timer), \<open>Net\<close> (loopback
  queue, checksums, header validation, sockets). \<open>Acpi\<close>, \<open>Apic\<close>, \<open>Gdt\<close>, \<open>Isr\<close> and \<open>Platform_Props\<close>: the firmware's tables
  are read in bounds whatever they contain, and the system-call vector is the only gate open to user programs.

  \<^bold>\<open>Files.\<close> \<open>Block\<close>, \<open>Journal\<close>, \<open>Fat32\<close>, \<open>Vfs\<close> and their properties: a journalled write stores the sector; a replay after a
  crash before its end recovers it only if memory happens to hold the 20 bytes that the log has no room for; opening and reading a FAT32 file give the bytes of its cluster chain; the raw descriptor is a
  byte stream over the sectors; tables of processes are isolated.

  \<^bold>\<open>Processes.\<close> \<open>Sched\<close> and \<open>Sched_Props\<close>: the linked ready queue is a list, every queued process runs within as many ticks as
  there are queued processes (under the conditions of \<open>running_ring\<close>), and a process that runs alone over a tick is lost. \<open>Process\<close> and \<open>Process_Props\<close>: the table stays
  well-formed under all operations, exit and wait, signals, and the waiter that is not woken. \<open>Elf\<close> and \<open>Elf_Props\<close>: the loader puts
  every byte of an image at its address and touches no frame in use. \<open>Exec\<close>, \<open>Syscall\<close>, \<open>Userlib\<close> and \<open>Syscall_Props\<close>:
  programs from files, all system calls and their wrappers, run through the interrupt dispatch; bad pointers are refused without
  effect, a packet goes from a user's buffer to the queue, and a sleep never returns. \<open>Spinlock\<close>: mutual exclusion for any number of
  processors, as an interleaving of atomic steps. \<open>Kprintf\<close>, \<open>Module\<close>, \<open>Libc\<close> and \<open>Libc_Props\<close>: formatted output, modules and
  the C library, whose block moves are right for overlapping memory and whose number parser reads back what the kernel prints.

  \<^bold>\<open>Bounds.\<close> Fuel appears where the code has a bound of its own (the polls of the ATA and virtio drivers, 100000 and a
  million reads) and as the number of timer interrupts that the processor takes during a sleep, which the gate of the system call
  decides (\<open>ticks_taken\<close>); every other loop is a total function or an
  optional value. Page tables cover the 32 MiB that the code's eight tables per space can map; sectors have 512 bytes. The
  properties of the heap are about its static area of \<open>HEAP_BYTES\<close>, before it grows into pages of its own.

  \<^bold>\<open>Start.\<close> \<open>Boot\<close> is \<open>kmain\<close> of \<open>kernel/main.c\<close> from its entry to the initialised heap; \<open>Vmm_Selftest\<close> shows that the two
  self-tests it runs pass on every memory with two pages and two address spaces to spare and give everything back. The property of
  this theory puts them together with the page allocator, virtual memory and the heap.

  \<^bold>\<open>Not modelled.\<close> The rest of \<open>kmain\<close> calls the initialisers of the drivers, which have device states of their own in this
  development, and starts the test threads and the first process. The assembly files (entry, interrupt stubs, context switch) and
  the instructions that load descriptor tables or halt have no C semantics; the frames they build are the inputs of the
  dispatch. The kernel shell \<open>userspace/shell.c\<close> is a command loop that no other file calls; the example module prints a line and the
  init function returns 0. Headers that hold prototypes have nothing to model. Timing of
  devices other than the response times above, caches and concurrent access to data that the code does not lock are outside the
  model.
\<close>

section \<open>The start of the kernel\<close>

text \<open>C9: From a boot loader with the right magic number, a sane memory map and two usable frames, the kernel gets through its start: the
  self-tests of address-space cloning and copy-on-write both pass, no page and no address space is lost to them, the memory
  invariant holds with every usable frame of the memory map free and nothing mapped, and the heap is empty. With any other
  number it panics.\<close>

theorem kmain_start_correct:
  assumes "mbi_sane (phys (boot_mem b)) mbi" "unat (pf_kernel_end H) \<le> 2 ^ 32 - 4096"
    and "\<forall>i. \<not> space_used (vm (boot_mem b)) i" "2 \<le> card (usable_frames (phys (boot_mem b)) mbi (pf_kernel_end H))"
    and "16 \<le> unat (heap_area (b_heap b))" "unat (heap_area (b_heap b)) + unat HEAP_BYTES < 2 ^ 32"
  shows "(\<exists>b'. kmain_start H 0x36d76289 mbi b = Ret b' \<and> mem_inv (boot_mem b') \<and>
      spare (pm (boot_mem b')) = usable_frames (phys (boot_mem b)) mbi (pf_kernel_end H) \<and>
      refcount (pm (boot_mem b')) = (\<lambda>_. 0) \<and> ents (vm (boot_mem b')) = (\<lambda>_ _. 0) \<and> heap_holds (b_heap b') {}) \<and>
    (n \<noteq> 0x36d76289 \<longrightarrow> kmain_start H n mbi b = Panic ''invalid Multiboot2 magic'')"
proof -
  let ?b = "boot_tables H (boot_screen H b)"
  have k: "boot_mem ?b = boot_mem b" "b_heap ?b = b_heap b" by (simp_all add: boot_keeps)
  obtain p m b' where B: "pmm_init (phys (boot_mem b)) mbi (pf_kernel_end H) (pm (boot_mem b)) = Some p"
    "restored ((boot_mem b)\<lparr>pm := p, vm := vmm_init (vm (boot_mem b))\<rparr>) m" "boot_memory H mbi ?b = Ret b'" "boot_mem b' = m"
    "b_heap b' = heap_init (b_heap b)"
    using boot_memory_passes [of ?b mbi H] assms(1-4) unfolding k by blast
  have "ents (vmm_init (vm (boot_mem b))) = (\<lambda>_ _. 0)"
    using assms(3) by (auto simp: ents_def vmm_init_def Let_def fun_eq_iff)
  then show ?thesis
    using B pmm_init_spare [OF B(1) assms(2)] heap_init_holds [OF assms(5,6)] by (auto simp: kmain_start_def Let_def restored_def)
qed

text \<open>A machine with 64 KiB of memory and a kernel of two pages.\<close>

definition boot_example :: "unit boot" where
  "boot_example = \<lparr>b_kern = kern_empty\<lparr>mem := \<lparr>pm = pmm_example, vm = vmm_blank, phys = mbi_example\<rparr>\<rparr>,
     b_screen = \<lparr>video = (\<lambda>_. 0), row = 0, col = 0, color = 7\<rparr>,
     b_segments = \<lparr>gdt = (\<lambda>_. 0), kernel_tss = \<lparr>esp0 = 0, ss0 = 0, io_base = 0\<rparr>\<rparr>,
     b_gates = (\<lambda>_. \<lparr>base_low = 0, selector = 0, gate_zero = 0, gate_flags = 0, base_high = 0\<rparr>),
     b_acpi = \<lparr>lapic_base = 0, ioapic_base = 0, ioapic_gsi_base = 0, cpu_count = 0, override_count = 0, cpu_apic_ids = (\<lambda>_. 0),
       overrides = (\<lambda>_. \<lparr>ov_source = 0, ov_gsi = 0, ov_flags = 0\<rparr>), madt_found = False\<rparr>,
     b_cpus = \<lparr>smp_cpus = 0, smp_apic = False\<rparr>, b_lapic = \<lparr>lapic_at = 0, lapic_enabled = False\<rparr>,
     b_ioapic = \<lparr>ioapic_at = 0, ioapic_on = False, gsi_base = 0, max_redirection = 0\<rparr>,
     b_heap = \<lparr>heap_area = 0x200000, blocks = (\<lambda>_. \<lparr>b_size = 0, b_free = False, b_magic = 0, b_next = 0\<rparr>), heap_data = (\<lambda>_. 0),
       head = 0, heap_virt_top = HEAP_VIRT_START\<rparr>, b_world = ()\<rparr>"

definition platform_example :: "unit platform" where
  "platform_example = \<lparr>pf_ports = idle_ports, pf_regs = \<lparr>mmio_read = (\<lambda>_ w. (0, w)), mmio_write = (\<lambda>_ _ w. w)\<rparr>,
     pf_cpuid = (\<lambda>_. (0, 0, 0, 0)), pf_msr = 0, pf_isrs = (\<lambda>_. 0x1000), pf_irqs = (\<lambda>_. 0x1100), pf_isr128 = 0x1200, pf_idt = 0x1300,
     pf_gdt = 0x1400, pf_tss = 0x1500, pf_stack = 0x1f00, pf_kernel_end = 0x2000, pf_cr2 = 0\<rparr>"

theorem kmain_start_correct_witness: "\<exists>b'. kmain_start platform_example 0x36d76289 0 boot_example = Ret b' \<and> mem_inv (boot_mem b') \<and>
    spare (pm (boot_mem b')) = {2..<16} \<and> heap_holds (b_heap b') {} \<and>
    kmain_start platform_example 0 0 boot_example = Panic ''invalid Multiboot2 magic''"
proof -
  have m: "phys (boot_mem boot_example) = mbi_example" "vm (boot_mem boot_example) = vmm_blank" "pf_kernel_end platform_example = 0x2000"
    "heap_area (b_heap boot_example) = 0x200000" by (simp_all add: boot_example_def boot_mem_def platform_example_def)
  have u: "usable_frames mbi_example 0 0x2000 = {2..<16}" by (auto simp: usable_frames_def example_frames)
  have "unat (0x200000 :: u32) + unat HEAP_BYTES < 2 ^ 32" by (simp add: HEAP_BYTES_def)
  then show ?thesis
    using kmain_start_correct [of boot_example 0 platform_example 0] mbi_example_sane u unfolding m by (auto simp: vmm_blank_def)
qed

end
